(* ===== verification/Prelude.thy ===== *)
theory Prelude
  imports
    Main
    "HOL-Library.AList"
    "HOL-Library.Char_ord"
    "HOL-Library.List_Lexorder"
    "HOL-Library.Sublist"
    "HOL-Library.Multiset"
begin

text \<open>
  The vocabulary every component shares: Go's maps, strings, errors and results, and the
  generic facts about them.

  \<^item> A Go \<open>map[K]V\<close> is an association list with distinct keys (\<open>gm_wf\<close>). Reading is
    \<^const>\<open>map_of\<close>, assignment is \<open>gm_put\<close>, \<open>delete\<close> is \<open>gm_del\<close>. A \<open>range\<close> loop
    walks the list; Go leaves the order of such a loop open, and a theorem about every
    list covers every order. Two lists are the same Go map when \<open>gm_eq\<close> holds.
  \<^item> A Go string is its list of bytes (type \<^typ>\<open>string\<close>); \<open><\<close> on it is the lexicographic
    order of the bytes, as in Go.
  \<^item> A Go \<open>error\<close> is a value of type \<open>goerr\<close>: a message, a message that wraps another
    error with the \<open>%w\<close> verb, or the combination of several errors.
\<close>

section \<open>Collections of proof rules\<close>

named_theorems gomap_simps \<open>reading a Go map after a write\<close>
named_theorems gomap_intros \<open>well-formedness of Go maps\<close>

section \<open>Go maps\<close>

type_synonym ('k, 'v) gomap = "('k \<times> 'v) list"
type_synonym strset = "(string, unit) gomap"

definition gm_put :: "'k \<Rightarrow> 'v \<Rightarrow> ('k, 'v) gomap \<Rightarrow> ('k, 'v) gomap" where
  "gm_put k v m = AList.update k v m"

definition gm_del :: "'k \<Rightarrow> ('k, 'v) gomap \<Rightarrow> ('k, 'v) gomap" where
  "gm_del k m = AList.delete k m"

definition gm_wf :: "('k, 'v) gomap \<Rightarrow> bool" where
  "gm_wf m \<longleftrightarrow> distinct (map fst m)"

definition gm_has :: "('k, 'v) gomap \<Rightarrow> 'k \<Rightarrow> bool" where
  "gm_has m k \<longleftrightarrow> map_of m k \<noteq> None"

definition gm_eq :: "('k, 'v) gomap \<Rightarrow> ('k, 'v) gomap \<Rightarrow> bool" where
  "gm_eq m n \<longleftrightarrow> map_of m = map_of n"

text \<open>\<open>m[k]\<close> on a map of slices or structs: the zero value where the key is missing.\<close>

definition gm_get :: "'v \<Rightarrow> ('k, 'v) gomap \<Rightarrow> 'k \<Rightarrow> 'v" where
  "gm_get z m k = (case map_of m k of None \<Rightarrow> z | Some v \<Rightarrow> v)"

text \<open>The loop \<open>for k, v := range src { dst[k] = v }\<close>.\<close>

definition gm_copy_into :: "('k, 'v) gomap \<Rightarrow> ('k, 'v) gomap \<Rightarrow> ('k, 'v) gomap" where
  "gm_copy_into src dst = fold (\<lambda>(k, v). gm_put k v) src dst"

lemma gm_put_lookup [simp, gomap_simps]: "map_of (gm_put k v m) = (map_of m)(k \<mapsto> v)"
  by (simp add: gm_put_def update_conv')

lemma gm_del_lookup [simp, gomap_simps]: "map_of (gm_del k m) = (map_of m)(k := None)"
  by (simp add: gm_del_def delete_conv')

lemma gm_wf_Nil [simp, gomap_intros]: "gm_wf []"
  by (simp add: gm_wf_def)

lemma gm_wf_put [simp, gomap_intros]: "gm_wf m \<Longrightarrow> gm_wf (gm_put k v m)"
  by (simp add: gm_wf_def gm_put_def distinct_update)

lemma gm_wf_del [simp, gomap_intros]: "gm_wf m \<Longrightarrow> gm_wf (gm_del k m)"
  by (simp add: gm_wf_def gm_del_def distinct_delete)

lemma gm_keys_put: "fst ` set (gm_put k v m) = insert k (fst ` set m)"
  by (simp add: gm_put_def dom_update)

lemma gm_has_iff: "gm_has m k \<longleftrightarrow> k \<in> fst ` set m"
  by (auto simp: gm_has_def map_of_eq_None_iff)

lemma gm_get_simps [simp]:
  "gm_get z [] k = z"
  "gm_get z (gm_put k v m) k' = (if k' = k then v else gm_get z m k')"
  by (simp_all add: gm_get_def)

lemma gm_mem_iff: "gm_wf m \<Longrightarrow> (k, v) \<in> set m \<longleftrightarrow> map_of m k = Some v"
  by (simp add: gm_wf_def)

lemma gm_copy_lookup:
  "gm_wf src \<Longrightarrow> map_of (gm_copy_into src dst) = map_of dst ++ map_of src"
proof (induction src arbitrary: dst)
  case Nil
  then show ?case by (simp add: gm_copy_into_def)
next
  case (Cons p src)
  obtain k v where p: "p = (k, v)" by (cases p)
  with Cons.prems have wf: "gm_wf src" and k: "map_of src k = None"
    by (auto simp: gm_wf_def map_of_eq_None_iff)
  from Cons.IH [OF wf, of "gm_put k v dst"] k show ?case
    by (auto simp: gm_copy_into_def p map_add_def fun_eq_iff split: option.splits)
qed

lemma gm_copy_empty: "gm_wf src \<Longrightarrow> map_of (gm_copy_into src []) = map_of src"
  by (simp add: gm_copy_lookup)

lemma gm_wf_copy [gomap_intros]: "gm_wf dst \<Longrightarrow> gm_wf (gm_copy_into src dst)"
  by (induction src arbitrary: dst) (auto simp: gm_copy_into_def)

lemma gm_same_length:
  assumes "gm_wf m" "gm_wf n" "map_of m = map_of n"
  shows "length m = length n"
proof -
  have "set m = set n"
    using assms by (auto simp: gm_mem_iff)
  moreover have "distinct m" "distinct n"
    using assms by (simp_all add: gm_wf_def distinct_map)
  ultimately show ?thesis
    by (metis distinct_card)
qed

lemma gm_same_mset:
  assumes "gm_wf m" "gm_wf n" "map_of m = map_of n"
  shows "mset m = mset n"
proof -
  have "set m = set n"
    using assms by (auto simp: gm_mem_iff)
  moreover have "distinct m" "distinct n"
    using assms by (simp_all add: gm_wf_def distinct_map)
  ultimately show ?thesis
    by (metis set_eq_iff_mset_eq_distinct)
qed

subsection \<open>The map interface\<close>

text \<open>
  What the components rely on when they use a Go map. The laws are those of the language:
  a read after a write sees the write, and other keys are untouched.
\<close>

locale go_map =
  fixes lookup :: "'m \<Rightarrow> 'k \<Rightarrow> 'v option"
    and put :: "'k \<Rightarrow> 'v \<Rightarrow> 'm \<Rightarrow> 'm"
    and del :: "'k \<Rightarrow> 'm \<Rightarrow> 'm"
    and invar :: "'m \<Rightarrow> bool"
  assumes lookup_put: "lookup (put k v m) = (lookup m)(k \<mapsto> v)"
    and lookup_del: "lookup (del k m) = (lookup m)(k := None)"
    and invar_put: "invar m \<Longrightarrow> invar (put k v m)"
    and invar_del: "invar m \<Longrightarrow> invar (del k m)"
begin

lemma replace_lookup: "lookup (put k v (del k' m)) = ((lookup m)(k' := None))(k \<mapsto> v)"
  by (simp add: lookup_put lookup_del)

lemma put_put_same: "lookup (put k v (put k w m)) = lookup (put k v m)"
  by (simp add: lookup_put)

lemma put_commute:
  "k \<noteq> k' \<Longrightarrow> lookup (put k v (put k' v' m)) = lookup (put k' v' (put k v m))"
  by (simp add: lookup_put fun_upd_twist)

lemma del_put_fresh: "lookup m k = None \<Longrightarrow> lookup (del k (put k v m)) = lookup m"
  by (simp add: lookup_put lookup_del fun_upd_idem_iff)

end

interpretation gm: go_map map_of gm_put gm_del gm_wf
  by unfold_locales simp_all

section \<open>Keeping first occurrences\<close>

text \<open>
  The reference for the loops that keep a set of what they have seen: every element once, in
  the order of first occurrence.
\<close>

definition remdups_first :: "'a list \<Rightarrow> 'a list" where
  "remdups_first xs = rev (remdups (rev xs))"

lemma remdups_skip: "y \<in> set b \<Longrightarrow> remdups (a @ y # b) = remdups (a @ b)"
  by (induction a) auto

lemma remdups_first_props [simp]:
  "distinct (remdups_first xs)" "set (remdups_first xs) = set xs"
  by (simp_all add: remdups_first_def)

lemma remdups_first_id: "distinct xs \<Longrightarrow> remdups_first xs = xs"
  by (simp add: remdups_first_def distinct_remdups_id)

lemma remdups_first_seen: "y \<in> set xs \<Longrightarrow> remdups_first (xs @ y # ys) = remdups_first (xs @ ys)"
  by (simp add: remdups_first_def remdups_skip)

section \<open>Sorting by a comparison\<close>

text \<open>
  \<open>sort.Slice(xs, less)\<close>: a permutation of the slice in which no element is \<open>less\<close> than
  one before it. Go's algorithm is not stable, so only what all such permutations share may
  be used; \<open>sort_slice_unique\<close> says that they all agree when \<open>less\<close> orders the elements by
  a key that is different for different elements.
\<close>

fun insert_by :: "('a \<Rightarrow> 'a \<Rightarrow> bool) \<Rightarrow> 'a \<Rightarrow> 'a list \<Rightarrow> 'a list" where
  "insert_by lt x [] = [x]"
| "insert_by lt x (y # ys) = (if lt y x then y # insert_by lt x ys else x # y # ys)"

fun sort_slice :: "('a \<Rightarrow> 'a \<Rightarrow> bool) \<Rightarrow> 'a list \<Rightarrow> 'a list" where
  "sort_slice lt [] = []"
| "sort_slice lt (x # xs) = insert_by lt x (sort_slice lt xs)"

lemma mset_insert_by [simp]: "mset (insert_by lt x ys) = add_mset x (mset ys)"
  by (induction ys) auto

lemma mset_sort_slice [simp]: "mset (sort_slice lt xs) = mset xs"
  by (induction xs) auto

lemma set_sort_slice [simp]: "set (sort_slice lt xs) = set xs"
  by (metis mset_sort_slice set_mset_mset)

lemma length_sort_slice [simp]: "length (sort_slice lt xs) = length xs"
  by (metis mset_sort_slice size_mset)

lemma sort_slice_Nil_iff [simp]: "sort_slice lt xs = [] \<longleftrightarrow> xs = []"
  by (metis length_0_conv length_sort_slice)

lemma set_insert_by [simp]: "set (insert_by lt x ys) = insert x (set ys)"
  by (metis mset_insert_by set_mset_add_mset_insert set_mset_mset)

lemma sorted_insert_by:
  fixes f :: "'a \<Rightarrow> 'b :: linorder"
  assumes "\<And>x y. lt x y \<longleftrightarrow> f x < f y"
  shows "sorted (map f ys) \<Longrightarrow> sorted (map f (insert_by lt x ys))"
  by (induction ys) (auto simp: assms)

lemma sorted_sort_slice:
  fixes f :: "'a \<Rightarrow> 'b :: linorder"
  assumes "\<And>x y. lt x y \<longleftrightarrow> f x < f y"
  shows "sorted (map f (sort_slice lt xs))"
proof (induction xs)
  case (Cons x xs)
  then show ?case
    by (simp only: sort_slice.simps) (rule sorted_insert_by [of lt f, OF assms])
qed simp

lemma sorted_map_unique:
  fixes f :: "'a \<Rightarrow> 'b :: linorder"
  assumes "sorted (map f xs)" "sorted (map f ys)" "mset xs = mset ys" "inj_on f (set xs)"
  shows "xs = ys"
proof -
  have "map f xs = map f ys"
    using assms by (metis mset_map properties_for_sort)
  moreover have "set xs = set ys"
    using assms(3) by (metis set_mset_mset)
  ultimately show ?thesis
    using assms(4) by (metis inj_on_map_eq_map sup.idem)
qed

lemma sort_slice_unique:
  fixes f :: "'a \<Rightarrow> 'b :: linorder"
  assumes "\<And>x y. lt x y \<longleftrightarrow> f x < f y"
    and "sorted (map f ys)" "mset ys = mset xs" "inj_on f (set xs)"
  shows "sort_slice lt xs = ys"
  using sorted_sort_slice [of lt f xs, OF assms(1)] assms
  by (intro sorted_map_unique [of f]) auto

lemma sort_slice_perm:
  fixes f :: "'a \<Rightarrow> 'b :: linorder"
  assumes "\<And>x y. lt x y \<longleftrightarrow> f x < f y" and "mset xs = mset ys" and "inj_on f (set xs)"
  shows "sort_slice lt xs = sort_slice lt ys"
  using assms sorted_sort_slice [of lt f ys, OF assms(1)]
  by (intro sort_slice_unique [of lt f]) auto

lemma sort_slice_hd_min:
  fixes f :: "'a \<Rightarrow> 'b :: linorder"
  assumes "\<And>x y. lt x y \<longleftrightarrow> f x < f y" and "x \<in> set xs"
  shows "f (hd (sort_slice lt xs)) \<le> f x"
proof -
  obtain y ys where ys: "sort_slice lt xs = y # ys"
    using assms(2) by (metis list.exhaust list.set(1) empty_iff set_sort_slice)
  have "sorted (map f (y # ys))"
    using sorted_sort_slice [of lt f xs, OF assms(1)] ys by simp
  moreover have "x \<in> set (y # ys)"
    using assms(2) ys by (metis set_sort_slice)
  ultimately show ?thesis using ys by auto
qed

section \<open>Errors\<close>

datatype goerr =
    Err string
  | Wrap string goerr
  | Multi "goerr list"

type_synonym 'a res = "goerr + 'a"

fun is_ok :: "'a res \<Rightarrow> bool" where
  "is_ok (Inr _) = True"
| "is_ok (Inl _) = False"

lemma is_ok_iff: "is_ok r \<longleftrightarrow> (\<exists>x. r = Inr x)"
  by (cases r) auto

text \<open>A loop over a slice that collects results and returns at the first error.\<close>

fun map_res :: "('a \<Rightarrow> 'b res) \<Rightarrow> 'a list \<Rightarrow> 'b list res" where
  "map_res f [] = Inr []"
| "map_res f (x # xs) =
     (case f x of
        Inl e \<Rightarrow> Inl e
      | Inr y \<Rightarrow> (case map_res f xs of Inl e \<Rightarrow> Inl e | Inr ys \<Rightarrow> Inr (y # ys)))"

lemma map_res_Inr: "map_res f xs = Inr ys \<Longrightarrow> list_all2 (\<lambda>x y. f x = Inr y) xs ys"
  by (induction xs arbitrary: ys) (auto split: sum.splits)

lemma map_res_ok_iff: "(\<exists>ys. map_res f xs = Inr ys) \<longleftrightarrow> (\<forall>x \<in> set xs. \<exists>y. f x = Inr y)"
  by (induction xs) (auto split: sum.splits)

lemma map_res_length: "map_res f xs = Inr ys \<Longrightarrow> length ys = length xs"
  by (drule map_res_Inr) (simp add: list_all2_lengthD)

section \<open>Strings\<close>

text \<open>
  \<open>strings.Split(s, c)\<close> for a separator of one byte, and \<open>strings.Join\<close>.
\<close>

fun split_on :: "char \<Rightarrow> string \<Rightarrow> string list" where
  "split_on c [] = [[]]"
| "split_on c (x # xs) =
     (if x = c then [] # split_on c xs
      else (case split_on c xs of [] \<Rightarrow> [[x]] | w # ws \<Rightarrow> (x # w) # ws))"

fun join_with :: "string \<Rightarrow> string list \<Rightarrow> string" where
  "join_with sep [] = []"
| "join_with sep [w] = w"
| "join_with sep (w # ws) = w @ sep @ join_with sep ws"

lemma split_on_not_Nil [simp]: "split_on c s \<noteq> []"
  by (cases s) (auto split: list.splits)

lemma join_split [simp]: "join_with [c] (split_on c s) = s"
proof (induction s)
  case Nil
  then show ?case by simp
next
  case (Cons x s)
  obtain w ws where w: "split_on c s = w # ws"
    by (cases "split_on c s") auto
  with Cons show ?case by (cases ws) auto
qed

lemma split_on_free: "c \<notin> set s \<Longrightarrow> split_on c s = [s]"
  by (induction s) auto

lemma split_on_append_sep:
  "c \<notin> set w \<Longrightarrow> split_on c (w @ c # s) = w # split_on c s"
  by (induction w) auto

lemma split_join:
  "ws \<noteq> [] \<Longrightarrow> \<forall>w \<in> set ws. c \<notin> set w \<Longrightarrow> split_on c (join_with [c] ws) = ws"
  by (induction "[c]" ws rule: join_with.induct)
     (auto simp: split_on_free split_on_append_sep)

lemma split_on_parts_free: "w \<in> set (split_on c s) \<Longrightarrow> c \<notin> set w"
proof (induction s arbitrary: w)
  case Nil
  then show ?case by simp
next
  case (Cons x s)
  then show ?case by (cases "split_on c s") (auto split: if_splits)
qed

text \<open>
  \<open>strings.TrimSpace\<close> removes the code points with the Unicode property White Space from
  both ends. They are listed here by their UTF-8 encodings.
\<close>

definition space_encodings :: "string list" where
  "space_encodings =
     [[CHR 0x09], [CHR 0x0A], [CHR 0x0B], [CHR 0x0C], [CHR 0x0D], [CHR 0x20],
      [CHR 0xC2, CHR 0x85], [CHR 0xC2, CHR 0xA0], [CHR 0xE1, CHR 0x9A, CHR 0x80]]
     @ map (\<lambda>b. [CHR 0xE2, CHR 0x80, b])
         [CHR 0x80, CHR 0x81, CHR 0x82, CHR 0x83, CHR 0x84, CHR 0x85, CHR 0x86, CHR 0x87,
          CHR 0x88, CHR 0x89, CHR 0x8A, CHR 0xA8, CHR 0xA9, CHR 0xAF]
     @ [[CHR 0xE2, CHR 0x81, CHR 0x9F], [CHR 0xE3, CHR 0x80, CHR 0x80]]"

function trim_prefixes :: "string list \<Rightarrow> string \<Rightarrow> string" where
  "trim_prefixes es s =
     (case find (\<lambda>e. e \<noteq> [] \<and> prefix e s) es of
        None \<Rightarrow> s
      | Some e \<Rightarrow> trim_prefixes es (drop (length e) s))"
  by pat_completeness auto
termination
proof (relation "measure (\<lambda>(es, s). length s)")
  show "wf (measure (\<lambda>(es :: string list, s :: string). length s))" by simp
next
  fix es :: "string list" and s e :: string
  assume "find (\<lambda>e. e \<noteq> [] \<and> prefix e s) es = Some e"
  then have "e \<noteq> []" "prefix e s"
    by (auto simp: find_Some_iff)
  then have "length e \<le> length s" "0 < length e"
    by (auto simp: prefix_length_le)
  then have "length s - length e < length s"
    by linarith
  then show "((es, drop (length e) s), (es, s)) \<in> measure (\<lambda>(es, s). length s)"
    by simp
qed

declare trim_prefixes.simps [simp del]

definition TrimSpace :: "string \<Rightarrow> string" where
  "TrimSpace s =
     rev (trim_prefixes (map rev space_encodings) (rev (trim_prefixes space_encodings s)))"

text \<open>A string neither end of which is a space is left alone by \<^const>\<open>TrimSpace\<close>.\<close>

definition trimmed :: "string \<Rightarrow> bool" where
  "trimmed s \<longleftrightarrow> (\<forall>e \<in> set space_encodings. \<not> prefix e s \<and> \<not> suffix e s)"

lemma trim_prefixes_none:
  "\<forall>e \<in> set es. \<not> prefix e s \<Longrightarrow> trim_prefixes es s = s"
proof -
  assume "\<forall>e \<in> set es. \<not> prefix e s"
  then have "find (\<lambda>e. e \<noteq> [] \<and> prefix e s) es = None"
    by (auto simp: find_None_iff)
  then show ?thesis by (simp add: trim_prefixes.simps)
qed

lemma TrimSpace_trimmed: "trimmed s \<Longrightarrow> TrimSpace s = s"
  by (auto simp: TrimSpace_def trimmed_def trim_prefixes_none suffix_to_prefix)

lemma trim_prefixes_suffix: "suffix (trim_prefixes es s) s"
proof (induction es s rule: trim_prefixes.induct)
  case (1 es s)
  then show ?case
    by (auto simp: trim_prefixes.simps [of es s] split: option.splits
        intro: suffix_order.trans suffix_drop)
qed

lemma set_trim_prefixes: "set (trim_prefixes es s) \<subseteq> set s"
  by (rule set_mono_suffix [OF trim_prefixes_suffix])

lemma set_TrimSpace: "set (TrimSpace s) \<subseteq> set s"
  using set_trim_prefixes [of "map rev space_encodings" "rev (trim_prefixes space_encodings s)"]
    set_trim_prefixes [of space_encodings s]
  by (simp add: TrimSpace_def)

text \<open>Decimal rendering of a non-negative number (\<open>strconv.Itoa\<close>, \<open>%d\<close>).\<close>

definition digit_char :: "nat \<Rightarrow> char" where
  "digit_char d = char_of (48 + d)"

fun itoa :: "nat \<Rightarrow> string" where
  "itoa n = (if n < 10 then [digit_char n] else itoa (n div 10) @ [digit_char (n mod 10)])"

declare itoa.simps [simp del]

end
