(* ===== verification/Helpers.thy ===== *)
theory Helpers
  imports Prelude
begin

text \<open>
  The small helpers of \<^verbatim>\<open>internal/helpers/helpers.go\<close> and the treatment of error chains in
  \<^verbatim>\<open>internal/xds/updater/updater.go\<close> (\<open>getRootCause\<close>). A pointer is an option, \<open>nil\<close> being
  \<^const>\<open>None\<close>.
\<close>

section \<open>Namespaced names\<close>

record NamespacedName =
  Namespace :: string
  Name :: string

abbreviation NN :: "string \<Rightarrow> string \<Rightarrow> NamespacedName" where
  "NN ns n \<equiv> \<lparr>Namespace = ns, Name = n\<rparr>"

definition NamespacedName_String :: "NamespacedName \<Rightarrow> string" where
  "NamespacedName_String n =
     (if Namespace n = [] then ''default/'' @ Name n
      else Namespace n @ ''/'' @ Name n)"

definition GetNamespace :: "string option \<Rightarrow> string \<Rightarrow> string" where
  "GetNamespace ns defaultNs = (case ns of Some n \<Rightarrow> n | None \<Rightarrow> defaultNs)"

definition BoolFromPtr :: "bool option \<Rightarrow> bool" where
  "BoolFromPtr b = (case b of None \<Rightarrow> False | Some v \<Rightarrow> v)"

text \<open>
  Kubernetes namespaces contain no slash. On such names the printed form is injective up to
  the empty namespace, which prints as \<open>default\<close>.
\<close>

definition effective_ns :: "NamespacedName \<Rightarrow> string" where
  "effective_ns n = (if Namespace n = [] then ''default'' else Namespace n)"

lemma NamespacedName_String_eq: "NamespacedName_String n = effective_ns n @ CHR ''/'' # Name n"
  by (simp add: NamespacedName_String_def effective_ns_def)

lemma append_sep_inject:
  "c \<notin> set xs \<Longrightarrow> c \<notin> set xs' \<Longrightarrow> xs @ c # ys = xs' @ c # ys' \<longleftrightarrow> xs = xs' \<and> ys = ys'"
proof (induction xs arbitrary: xs')
  case Nil
  then show ?case by (cases xs') auto
next
  case (Cons x xs)
  then show ?case by (cases xs') auto
qed

lemma NamespacedName_String_inject:
  assumes "CHR ''/'' \<notin> set (Namespace m)" "CHR ''/'' \<notin> set (Namespace n)"
  shows "NamespacedName_String m = NamespacedName_String n \<longleftrightarrow>
    effective_ns m = effective_ns n \<and> Name m = Name n"
proof -
  have "CHR ''/'' \<notin> set (effective_ns m)" "CHR ''/'' \<notin> set (effective_ns n)"
    using assms by (auto simp: effective_ns_def)
  then show ?thesis
    by (simp add: NamespacedName_String_eq append_sep_inject)
qed

section \<open>Error chains\<close>

text \<open>
  \<open>errors.Unwrap\<close> gives the error under a \<open>%w\<close> verb; the combination made by
  \<open>multierr\<close> has no single error beneath it.
\<close>

fun errors_Unwrap :: "goerr \<Rightarrow> goerr option" where
  "errors_Unwrap (Err _) = None"
| "errors_Unwrap (Wrap _ e) = Some e"
| "errors_Unwrap (Multi _) = None"

fun getRootCause :: "goerr \<Rightarrow> goerr" where
  "getRootCause (Wrap _ e) = getRootCause e"
| "getRootCause e = e"

fun err_Error :: "goerr \<Rightarrow> string" where
  "err_Error (Err m) = m"
| "err_Error (Wrap m e) = m @ '': '' @ err_Error e"
| "err_Error (Multi es) = join_with ''; '' (map err_Error es)"

lemma getRootCause_unwrap:
  "getRootCause e = (case errors_Unwrap e of None \<Rightarrow> e | Some e' \<Rightarrow> getRootCause e')"
  by (cases e) auto

lemma getRootCause_root: "errors_Unwrap (getRootCause e) = None"
  by (induction e rule: getRootCause.induct) auto

lemma getRootCause_message_suffix: "suffix (err_Error (getRootCause e)) (err_Error e)"
proof (induction e rule: getRootCause.induct)
  case (1 m e)
  then show ?case by (auto intro: suffix_order.trans simp: suffix_def)
qed auto

end
