(* ===== verification/Api.thy ===== *)
theory Api
  imports Helpers "HOL-Library.Word"
begin

text \<open>
  The custom resources of \<^verbatim>\<open>api/v1alpha1\<close>: their data and the methods on them that need no
  other component. A struct is a record, a pointer field is an option, a slice is a list, a
  nil-able map or slice whose nil-ness the code tests is an option of it. \<open>nil\<close> entries inside
  slices of references are ruled out by the resource schemas and are not represented; where
  the code tests an entry for \<open>nil\<close> the list is one of options.
\<close>

section \<open>Data\<close>

type_synonym bytes = string

record ResourceRef =
  ref_Name :: string
  ref_Namespace :: "string option"

text \<open>
  \<open>runtime.RawExtension\<close>: the raw JSON bytes, and a decoded object that stands in for them
  when there are none.
\<close>

record RawExtension =
  Raw :: "bytes option"
  Object :: "bytes option"

definition raw_bytes :: "RawExtension \<Rightarrow> bytes" where
  "raw_bytes r = (case Raw r of None \<Rightarrow> [] | Some b \<Rightarrow> b)"

record ObjectMeta =
  m_Name :: string
  m_Namespace :: string
  m_UID :: string
  m_Generation :: int
  m_Labels :: "(string, string) gomap option"
  m_Annotations :: "(string, string) gomap option"

record TlsConfig =
  SecretRef :: "ResourceRef option"
  AutoDiscovery :: "bool option"

record VirtualServiceRBACSpec =
  rbac_Action :: string
  rbac_Policies :: "(string, RawExtension) gomap"
  rbac_AdditionalPolicies :: "ResourceRef list"

record VirtualServiceCommonSpec =
  c_VirtualHost :: "RawExtension option"
  c_Listener :: "ResourceRef option"
  c_TlsConfig :: "TlsConfig option"
  c_AccessLog :: "RawExtension option"
  c_AccessLogs :: "RawExtension list"
  c_AccessLogConfig :: "ResourceRef option"
  c_AccessLogConfigs :: "ResourceRef list"
  c_AdditionalHttpFilters :: "ResourceRef list"
  c_AdditionalRoutes :: "ResourceRef list"
  c_HTTPFilters :: "RawExtension list"
  c_UseRemoteAddress :: "bool option"
  c_UpgradeConfigs :: "RawExtension list option"
  c_RBAC :: "VirtualServiceRBACSpec option"
  c_XFFNumTrustedHops :: "32 word option"
  c_TracingRef :: "ResourceRef option"
  c_Tracing :: "RawExtension option"
  c_Http2ProtocolOptions :: "RawExtension option"

record TemplateOpts =
  to_Field :: string
  to_Modifier :: string

record ExtraField =
  ef_Name :: string
  ef_Description :: string
  ef_Type :: string
  ef_Required :: bool
  ef_Enum :: "string list"
  ef_Default :: string

record VSObjectStatus =
  st_Message :: string
  st_Invalid :: bool
  st_UsedSecrets :: "ResourceRef list"
  st_LastAppliedHash :: "32 word option"

record VirtualService =
  vs_meta :: ObjectMeta
  vs_common :: VirtualServiceCommonSpec
  vs_Template :: "ResourceRef option"
  vs_TemplateOptions :: "TemplateOpts list"
  vs_ExtraFields :: "(string, string) gomap"
  vs_Status :: VSObjectStatus

record VirtualServiceTemplate =
  vst_meta :: ObjectMeta
  vst_common :: VirtualServiceCommonSpec
  vst_ExtraFields :: "ExtraField option list"

record Listener =
  l_meta :: ObjectMeta
  l_Spec :: "RawExtension option"

record Cluster =
  cl_meta :: ObjectMeta
  cl_Spec :: "RawExtension option"

record Route =
  r_meta :: ObjectMeta
  r_Spec :: "RawExtension list"

record HttpFilter =
  hf_meta :: ObjectMeta
  hf_Spec :: "RawExtension option list"

record AccessLogConfig =
  alc_meta :: ObjectMeta
  alc_Spec :: "RawExtension option"

record Policy =
  p_meta :: ObjectMeta
  p_Spec :: "RawExtension option"

record Tracing =
  tr_meta :: ObjectMeta
  tr_Spec :: "RawExtension option"

text \<open>\<open>corev1.Secret\<close>, with the two fields the controller reads beside the metadata.\<close>

record Secret =
  s_meta :: ObjectMeta
  s_Data :: "(string, bytes) gomap option"

section \<open>Annotations and labels\<close>

definition AnnotationNodeIDs :: string where
  "AnnotationNodeIDs = ''envoy.kaasops.io/node-id''"

definition AnnotationEditable :: string where
  "AnnotationEditable = ''envoy.kaasops.io/editable''"

definition AnnotationSecretDomains :: string where
  "AnnotationSecretDomains = ''envoy.kaasops.io/domains''"

definition annotationDescription :: string where
  "annotationDescription = ''envoy.kaasops.io/description''"

definition LabelAccessGroup :: string where
  "LabelAccessGroup = ''exc-access-group''"

definition LabelName :: string where
  "LabelName = ''exc-name''"

definition GeneralAccessGroup :: string where
  "GeneralAccessGroup = ''general''"

lemmas api_keys =
  AnnotationNodeIDs_def AnnotationEditable_def AnnotationSecretDomains_def
  annotationDescription_def LabelAccessGroup_def LabelName_def GeneralAccessGroup_def

text \<open>Reading a key of a map that may be nil: nil reads as empty, a missing key as \<open>""\<close>.\<close>

definition nilmap :: "('k, 'v) gomap option \<Rightarrow> ('k, 'v) gomap" where
  "nilmap m = (case m of None \<Rightarrow> [] | Some x \<Rightarrow> x)"

abbreviation annotation :: "ObjectMeta \<Rightarrow> string \<Rightarrow> string" where
  "annotation m k \<equiv> gm_get [] (nilmap (m_Annotations m)) k"

abbreviation label :: "ObjectMeta \<Rightarrow> string \<Rightarrow> string" where
  "label m k \<equiv> gm_get [] (nilmap (m_Labels m)) k"

abbreviation meta_nn :: "ObjectMeta \<Rightarrow> NamespacedName" where
  "meta_nn m \<equiv> NN (m_Namespace m) (m_Name m)"

section \<open>Node IDs of a virtual service\<close>

text \<open>
  \<open>GetNodeIDs\<close>: the loop keeps the entries seen so far in \<open>keys\<close> and appends an entry to
  \<open>list\<close> the first time it occurs.
\<close>

fun GetNodeIDs_loop :: "string list \<Rightarrow> strset \<Rightarrow> string list \<Rightarrow> string list" where
  "GetNodeIDs_loop [] keys list = list"
| "GetNodeIDs_loop (entry # rest) keys list =
     (let entry = TrimSpace entry
      in if gm_has keys entry then GetNodeIDs_loop rest keys list
         else GetNodeIDs_loop rest (gm_put entry () keys) (list @ [entry]))"

definition GetNodeIDs :: "VirtualService \<Rightarrow> string list" where
  "GetNodeIDs vs =
     (let nodeIDsAnnotation = annotation (vs_meta vs) AnnotationNodeIDs
      in if nodeIDsAnnotation = [] then []
         else GetNodeIDs_loop (split_on CHR '','' nodeIDsAnnotation) [] [])"

text \<open>
  \<open>SetNodeIDs\<close>: deleting from a nil map is a no-op, assigning to one panics.
\<close>

definition nil_map_panic :: goerr where
  "nil_map_panic = Err ''assignment to entry in nil map''"

definition SetNodeIDs :: "VirtualService \<Rightarrow> string list \<Rightarrow> VirtualService res" where
  "SetNodeIDs vs nodeIDs =
     (let annotations = m_Annotations (vs_meta vs)
      in if nodeIDs = [] then
           Inr (vs\<lparr>vs_meta := (vs_meta vs)
             \<lparr>m_Annotations := map_option (gm_del AnnotationNodeIDs) annotations\<rparr>\<rparr>)
         else (case annotations of
             None \<Rightarrow> Inl nil_map_panic
           | Some m \<Rightarrow> Inr (vs\<lparr>vs_meta := (vs_meta vs)
               \<lparr>m_Annotations := Some (gm_put AnnotationNodeIDs (join_with '','' nodeIDs) m)\<rparr>\<rparr>)))"

section \<open>Other accessors of a virtual service\<close>

definition GetLabelName :: "VirtualService \<Rightarrow> string" where
  "GetLabelName vs =
     (case map_of (nilmap (m_Labels (vs_meta vs))) LabelName of
        None \<Rightarrow> m_Name (vs_meta vs)
      | Some name \<Rightarrow> name)"

text \<open>
  The setters replace an empty or nil map by a fresh one before they assign, so they do not
  panic.
\<close>

definition set_label :: "string \<Rightarrow> string \<Rightarrow> VirtualService \<Rightarrow> VirtualService" where
  "set_label k v vs =
     vs\<lparr>vs_meta := (vs_meta vs)\<lparr>m_Labels := Some (gm_put k v (nilmap (m_Labels (vs_meta vs))))\<rparr>\<rparr>"

definition SetLabelName :: "VirtualService \<Rightarrow> string \<Rightarrow> VirtualService" where
  "SetLabelName vs name = set_label LabelName name vs"

definition SetAccessGroup :: "VirtualService \<Rightarrow> string \<Rightarrow> VirtualService" where
  "SetAccessGroup vs accessGroup = set_label LabelAccessGroup accessGroup vs"

definition access_group :: "ObjectMeta \<Rightarrow> string" where
  "access_group m =
     (let accessGroup = label m LabelAccessGroup
      in if accessGroup = [] then GeneralAccessGroup else accessGroup)"

definition VirtualService_GetAccessGroup :: "VirtualService \<Rightarrow> string" where
  "VirtualService_GetAccessGroup vs = access_group (vs_meta vs)"

definition VirtualServiceTemplate_GetAccessGroup :: "VirtualServiceTemplate \<Rightarrow> string" where
  "VirtualServiceTemplate_GetAccessGroup vst = access_group (vst_meta vst)"

definition FormatBool :: "bool \<Rightarrow> string" where
  "FormatBool b = (if b then ''true'' else ''false'')"

definition set_annotation :: "string \<Rightarrow> string \<Rightarrow> VirtualService \<Rightarrow> VirtualService" where
  "set_annotation k v vs =
     vs\<lparr>vs_meta := (vs_meta vs)
       \<lparr>m_Annotations := Some (gm_put k v (nilmap (m_Annotations (vs_meta vs))))\<rparr>\<rparr>"

definition SetEditable :: "VirtualService \<Rightarrow> bool \<Rightarrow> VirtualService" where
  "SetEditable vs editable = set_annotation AnnotationEditable (FormatBool editable) vs"

definition IsEditable :: "VirtualService \<Rightarrow> bool" where
  "IsEditable vs =
     (case m_Annotations (vs_meta vs) of
        None \<Rightarrow> False
      | Some m \<Rightarrow> (case map_of m AnnotationEditable of
            None \<Rightarrow> False
          | Some editable \<Rightarrow> editable = ''true''))"

definition GetDescription :: "VirtualService \<Rightarrow> string" where
  "GetDescription vs = annotation (vs_meta vs) annotationDescription"

definition SetDescription :: "VirtualService \<Rightarrow> string \<Rightarrow> VirtualService" where
  "SetDescription vs description = set_annotation annotationDescription description vs"

definition GetListenerNamespacedName :: "VirtualService \<Rightarrow> NamespacedName res" where
  "GetListenerNamespacedName vs =
     (case c_Listener (vs_common vs) of
        None \<Rightarrow> Inl (Err ''listener is nil'')
      | Some l \<Rightarrow> Inr (NN (GetNamespace (ref_Namespace l) (m_Namespace (vs_meta vs))) (ref_Name l)))"

definition UpdateStatus :: "VirtualService \<Rightarrow> bool \<Rightarrow> string \<Rightarrow> VirtualService" where
  "UpdateStatus vs invalid message =
     vs\<lparr>vs_Status := (vs_Status vs)\<lparr>st_Invalid := invalid, st_Message := message\<rparr>\<rparr>"

definition IsStatusInvalid :: "VirtualService option \<Rightarrow> bool" where
  "IsStatusInvalid vs = (case vs of None \<Rightarrow> False | Some v \<Rightarrow> st_Invalid (vs_Status v))"

section \<open>Normalisation\<close>

text \<open>A reference without a namespace gets the namespace of the resource that holds it.\<close>

definition norm_ref :: "string \<Rightarrow> ResourceRef \<Rightarrow> ResourceRef" where
  "norm_ref ns r = (if ref_Namespace r = None then r\<lparr>ref_Namespace := Some ns\<rparr> else r)"

definition VirtualService_NormalizeSpec :: "VirtualService \<Rightarrow> VirtualService" where
  "VirtualService_NormalizeSpec vs =
     (let ns = m_Namespace (vs_meta vs);
          vs = vs\<lparr>vs_Template := map_option (norm_ref ns) (vs_Template vs)\<rparr>
      in vs\<lparr>vs_common := (vs_common vs)
           \<lparr>c_TracingRef := map_option (norm_ref ns) (c_TracingRef (vs_common vs))\<rparr>\<rparr>)"

definition VirtualServiceTemplate_NormalizeSpec ::
    "VirtualServiceTemplate \<Rightarrow> VirtualServiceTemplate" where
  "VirtualServiceTemplate_NormalizeSpec vst =
     (let ns = m_Namespace (vst_meta vst); c = vst_common vst
      in vst\<lparr>vst_common := c
           \<lparr>c_Listener := map_option (norm_ref ns) (c_Listener c),
            c_AccessLogConfig := map_option (norm_ref ns) (c_AccessLogConfig c),
            c_AccessLogConfigs := map (norm_ref ns) (c_AccessLogConfigs c),
            c_AdditionalRoutes := map (norm_ref ns) (c_AdditionalRoutes c),
            c_AdditionalHttpFilters := map (norm_ref ns) (c_AdditionalHttpFilters c),
            c_TracingRef := map_option (norm_ref ns) (c_TracingRef c)\<rparr>\<rparr>)"

section \<open>Facts\<close>

lemma nilmap_simps [simp]: "nilmap None = []" "nilmap (Some m) = m"
  by (simp_all add: nilmap_def)


text \<open>The loop of \<^const>\<open>GetNodeIDs\<close> keeps first occurrences.\<close>

lemma GetNodeIDs_loop_eq:
  "fst ` set keys = set list \<Longrightarrow> distinct list \<Longrightarrow>
   GetNodeIDs_loop es keys list = remdups_first (list @ map TrimSpace es)"
proof (induction es keys list rule: GetNodeIDs_loop.induct)
  case (1 keys list)
  then show ?case by (simp add: remdups_first_id)
next
  case (2 entry rest keys list)
  show ?case
  proof (cases "TrimSpace entry \<in> set list")
    case True
    with 2 show ?thesis
      by (simp add: gm_has_iff remdups_first_seen Let_def)
  next
    case False
    with 2 show ?thesis
      by (simp add: gm_has_iff gm_keys_put Let_def)
  qed
qed

lemma GetNodeIDs_eq:
  "GetNodeIDs vs =
     (if annotation (vs_meta vs) AnnotationNodeIDs = [] then []
      else remdups_first (map TrimSpace (split_on CHR '','' (annotation (vs_meta vs) AnnotationNodeIDs))))"
  by (simp add: GetNodeIDs_def Let_def GetNodeIDs_loop_eq)

lemma GetNodeIDs_distinct: "distinct (GetNodeIDs vs)"
  by (simp add: GetNodeIDs_eq)

lemma TrimSpace_Nil [simp]: "TrimSpace [] = []"
  by (rule TrimSpace_trimmed) (simp add: trimmed_def space_encodings_def)

text \<open>
  C9: the node-ID annotation round-trips. When the IDs are distinct, hold no comma, and carry
  no space at either end, what SetNodeIDs writes is what GetNodeIDs reads back, in the same
  order; SetNodeIDs fails only on a resource whose annotations map is nil.
\<close>

theorem node_ids_roundtrip:
  assumes "m_Annotations (vs_meta vs) = Some ann"
    and "ids \<noteq> []" and "ids \<noteq> [[]]" and "distinct ids"
    and "\<forall>i \<in> set ids. CHR '','' \<notin> set i \<and> trimmed i"
  shows "\<exists>vs'. SetNodeIDs vs ids = Inr vs' \<and> GetNodeIDs vs' = ids"
proof -
  have ne: "join_with '','' ids \<noteq> []"
    using assms(2,3) by (cases ids rule: remdups_adj.cases) auto
  have "map TrimSpace ids = ids"
    using assms(5) by (simp add: TrimSpace_trimmed map_idI)
  moreover have "split_on CHR '','' (join_with '','' ids) = ids"
    using assms(2,5) by (simp add: split_join)
  ultimately show ?thesis
    using assms ne by (simp add: SetNodeIDs_def GetNodeIDs_eq remdups_first_id)
qed

lemma norm_ref_idem [simp]: "norm_ref ns (norm_ref ns r) = norm_ref ns r"
  by (simp add: norm_ref_def)

lemma norm_ref_namespace [simp]: "ref_Namespace (norm_ref ns r) = Some (GetNamespace (ref_Namespace r) ns)"
  by (auto simp: norm_ref_def GetNamespace_def split: option.splits)

lemma norm_ref_name [simp]: "ref_Name (norm_ref ns r) = ref_Name r"
  by (simp add: norm_ref_def)

lemma map_option_norm_idem [simp]:
  "map_option (norm_ref ns) (map_option (norm_ref ns) r) = map_option (norm_ref ns) r"
  by (cases r) simp_all

lemma VirtualService_NormalizeSpec_meta [simp]:
  "vs_meta (VirtualService_NormalizeSpec vs) = vs_meta vs"
  by (simp add: VirtualService_NormalizeSpec_def Let_def)

lemma VirtualService_NormalizeSpec_idem:
  "VirtualService_NormalizeSpec (VirtualService_NormalizeSpec vs) = VirtualService_NormalizeSpec vs"
  by (simp add: VirtualService_NormalizeSpec_def Let_def)

lemma VirtualServiceTemplate_NormalizeSpec_idem:
  "VirtualServiceTemplate_NormalizeSpec (VirtualServiceTemplate_NormalizeSpec vst)
     = VirtualServiceTemplate_NormalizeSpec vst"
  by (simp add: VirtualServiceTemplate_NormalizeSpec_def Let_def o_def)

section \<open>Sample metadata\<close>

text \<open>Empty values from which concrete resources are built.\<close>

definition empty_meta :: ObjectMeta where
  "empty_meta = \<lparr>m_Name = [], m_Namespace = [], m_UID = [], m_Generation = 0,
     m_Labels = None, m_Annotations = None\<rparr>"

definition empty_common :: VirtualServiceCommonSpec where
  "empty_common = \<lparr>c_VirtualHost = None, c_Listener = None, c_TlsConfig = None,
     c_AccessLog = None, c_AccessLogs = [], c_AccessLogConfig = None, c_AccessLogConfigs = [],
     c_AdditionalHttpFilters = [], c_AdditionalRoutes = [], c_HTTPFilters = [],
     c_UseRemoteAddress = None, c_UpgradeConfigs = None, c_RBAC = None,
     c_XFFNumTrustedHops = None, c_TracingRef = None, c_Tracing = None,
     c_Http2ProtocolOptions = None\<rparr>"

definition empty_vs :: VirtualService where
  "empty_vs = \<lparr>vs_meta = empty_meta, vs_common = empty_common, vs_Template = None,
     vs_TemplateOptions = [], vs_ExtraFields = [],
     vs_Status = \<lparr>st_Message = [], st_Invalid = False, st_UsedSecrets = [], st_LastAppliedHash = None\<rparr>\<rparr>"

theorem node_ids_roundtrip_witness:
  "\<exists>vs'. SetNodeIDs (empty_vs\<lparr>vs_meta := empty_meta\<lparr>m_Annotations := Some []\<rparr>\<rparr>) [''edge-1'', ''edge-2'']
     = Inr vs' \<and> GetNodeIDs vs' = [''edge-1'', ''edge-2'']"
proof (rule node_ids_roundtrip)
  show "m_Annotations (vs_meta (empty_vs\<lparr>vs_meta := empty_meta\<lparr>m_Annotations := Some []\<rparr>\<rparr>)) = Some []"
    by simp
  show "\<forall>i \<in> set [''edge-1'', ''edge-2'']. CHR '','' \<notin> set i \<and> trimmed i"
    by (simp add: trimmed_def space_encodings_def suffix_to_prefix)
qed simp_all

end
