(* ===== verification/Proto.thy ===== *)
theory Proto
  imports Api
begin

text \<open>
  The Envoy messages the controller handles, by the fields it reads or writes; what else a
  message holds is kept in one opaque \<open>body\<close> field, so that equality of model values is
  equality of messages. The messages and their codecs come from third-party packages: the
  codecs and validators are the fields of \<open>protolib\<close> and arguments of whatever uses them.
\<close>

record AnyPb =
  TypeUrl :: string
  any_Value :: bytes

record SocketAddress =
  sa_Address :: string
  sa_PortValue :: "32 word"

text \<open>\<open>core.Address\<close> is a choice; only the socket address variant is looked into.\<close>

record Address =
  addr_SocketAddress :: "SocketAddress option"

record Filter =
  flt_Name :: string
  flt_TypedConfig :: "AnyPb option"

text \<open>\<open>corev3.TransportSocket\<close>, with its typed configuration.\<close>

record TransportSocket =
  ts_Name :: string
  ts_TypedConfig :: AnyPb

record FilterChain =
  fc_Name :: string
  fc_Filters :: "Filter list"
  fc_ServerNames :: "string list option"
  fc_TransportSocket :: "TransportSocket option"
  fc_body :: bytes

record ListenerV3 =
  lv3_Name :: string
  lv3_Address :: "Address option"
  lv3_ListenerFilters :: "Filter list"
  lv3_FilterChains :: "FilterChain list"
  lv3_body :: bytes

record ClusterV3 =
  cv3_Name :: string
  cv3_body :: bytes

record SecretV3 =
  sv3_Name :: string
  sv3_CertificateChain :: bytes
  sv3_PrivateKey :: bytes

datatype ClusterSpecifier =
    CS_Cluster string
  | CS_WeightedClusters "string list option"
  | CS_Other bytes

datatype RouteActionKind =
    RA_Route "ClusterSpecifier option"
  | RA_DirectResponse nat
  | RA_Redirect bytes
  | RA_Other bytes

datatype PathSpecifier =
    PS_Prefix string
  | PS_Path string
  | PS_Other bytes

record RouteV3 =
  rt_Match :: "PathSpecifier option option"
  rt_Action :: "RouteActionKind option"
  rt_body :: bytes

record VirtualHost =
  vh_Name :: string
  vh_Domains :: "string list"
  vh_Routes :: "RouteV3 list"
  vh_body :: bytes

record RouteConfiguration =
  rc_Name :: string
  rc_VirtualHosts :: "VirtualHost list"

record HttpFilterV3 =
  hfv3_Name :: string
  hfv3_TypedConfig :: "AnyPb option"
  hfv3_body :: bytes

text \<open>\<open>protojson\<close> decoders and the generated validators.\<close>

record protolib =
  Unmarshal_listener :: "bytes \<Rightarrow> ListenerV3 res"
  Unmarshal_cluster :: "bytes \<Rightarrow> ClusterV3 res"
  Unmarshal_route :: "bytes \<Rightarrow> RouteV3 res"
  Unmarshal_virtual_host :: "bytes \<Rightarrow> VirtualHost res"
  Validate_listener :: "ListenerV3 \<Rightarrow> unit res"
  Validate_cluster :: "ClusterV3 \<Rightarrow> unit res"
  Validate_route :: "RouteV3 \<Rightarrow> unit res"
  Validate_virtual_host :: "VirtualHost \<Rightarrow> unit res"
  Validate_route_config :: "RouteConfiguration \<Rightarrow> unit res"

definition ErrSpecNil :: goerr where
  "ErrSpecNil = Err ''spec is nil''"

section \<open>Decoding the specs of custom resources\<close>

definition Cluster_UnmarshalV3 :: "protolib \<Rightarrow> Cluster \<Rightarrow> ClusterV3 res" where
  "Cluster_UnmarshalV3 lib c =
     (case cl_Spec c of
        None \<Rightarrow> Inl ErrSpecNil
      | Some spec \<Rightarrow> Unmarshal_cluster lib (raw_bytes spec))"

definition Cluster_UnmarshalV3AndValidate :: "protolib \<Rightarrow> Cluster \<Rightarrow> ClusterV3 res" where
  "Cluster_UnmarshalV3AndValidate lib c =
     (case Cluster_UnmarshalV3 lib c of
        Inl e \<Rightarrow> Inl e
      | Inr cv3 \<Rightarrow> (case Validate_cluster lib cv3 of Inl e \<Rightarrow> Inl e | Inr _ \<Rightarrow> Inr cv3))"

definition Listener_UnmarshalV3 :: "protolib \<Rightarrow> Listener \<Rightarrow> ListenerV3 res" where
  "Listener_UnmarshalV3 lib l =
     (case l_Spec l of
        None \<Rightarrow> Inl ErrSpecNil
      | Some spec \<Rightarrow> Unmarshal_listener lib (raw_bytes spec))"

text \<open>The source returns no listener here even when validation succeeds.\<close>

definition Listener_UnmarshalV3AndValidate :: "protolib \<Rightarrow> Listener \<Rightarrow> ListenerV3 option res" where
  "Listener_UnmarshalV3AndValidate lib l =
     (case Listener_UnmarshalV3 lib l of
        Inl e \<Rightarrow> Inl e
      | Inr lv3 \<Rightarrow> (case Validate_listener lib lv3 of Inl e \<Rightarrow> Inl e | Inr _ \<Rightarrow> Inr None))"

definition Route_UnmarshalV3 :: "protolib \<Rightarrow> Route \<Rightarrow> RouteV3 list res" where
  "Route_UnmarshalV3 lib r =
     (if r_Spec r = [] then Inl ErrSpecNil
      else map_res (\<lambda>spec. Unmarshal_route lib (raw_bytes spec)) (r_Spec r))"

definition Route_UnmarshalV3AndValidate :: "protolib \<Rightarrow> Route \<Rightarrow> RouteV3 list res" where
  "Route_UnmarshalV3AndValidate lib r =
     (case Route_UnmarshalV3 lib r of
        Inl e \<Rightarrow> Inl e
      | Inr routes \<Rightarrow> (case map_res (Validate_route lib) routes of
            Inl e \<Rightarrow> Inl e
          | Inr _ \<Rightarrow> Inr routes))"

section \<open>A concrete codec\<close>

text \<open>
  The codec of the examples: the bytes of a cluster are its name, a listener is its name bound
  to port 443 of every interface, a virtual host is its only domain, and everything decoded
  is valid.
\<close>

definition toy_lib :: protolib where
  "toy_lib =
     \<lparr>Unmarshal_listener = (\<lambda>b. Inr \<lparr>lv3_Name = b,
        lv3_Address = Some \<lparr>addr_SocketAddress = Some \<lparr>sa_Address = ''0.0.0.0'', sa_PortValue = 443\<rparr>\<rparr>,
        lv3_ListenerFilters = [], lv3_FilterChains = [], lv3_body = []\<rparr>),
      Unmarshal_cluster = (\<lambda>b. Inr \<lparr>cv3_Name = b, cv3_body = []\<rparr>),
      Unmarshal_route = (\<lambda>b. Inr \<lparr>rt_Match = Some (Some (PS_Path b)), rt_Action = None, rt_body = []\<rparr>),
      Unmarshal_virtual_host = (\<lambda>b. Inr \<lparr>vh_Name = b, vh_Domains = [b], vh_Routes = [], vh_body = []\<rparr>),
      Validate_listener = (\<lambda>_. Inr ()), Validate_cluster = (\<lambda>_. Inr ()),
      Validate_route = (\<lambda>_. Inr ()), Validate_virtual_host = (\<lambda>_. Inr ()),
      Validate_route_config = (\<lambda>_. Inr ())\<rparr>"

end
