(* ===== verification/Lru.thy ===== *)
theory Lru
  imports Proto
begin

text \<open>
  The LRU cache of \<^verbatim>\<open>internal/xds/resbuilder/utils/lru.go\<close> and its typed wrappers. The source
  pairs a doubly linked list with a map from keys to list elements. An element of the list is
  identified by a number, so that the map points at elements as the source's does; the list is
  kept from front (most recently used) to back. The clock is the argument \<open>now\<close>. The
  Prometheus counters the operations bump are not part of the state.
\<close>

section \<open>The linked list\<close>

record 'v LRUCacheItem =
  it_Key :: string
  it_Value :: 'v
  it_Timestamp :: int

type_synonym 'v elements = "(nat \<times> 'v LRUCacheItem) list"

definition ll_Remove :: "nat \<Rightarrow> 'v elements \<Rightarrow> 'v elements" where
  "ll_Remove e l = filter (\<lambda>p. fst p \<noteq> e) l"

definition ll_MoveToFront :: "nat \<Rightarrow> 'v elements \<Rightarrow> 'v elements" where
  "ll_MoveToFront e l = (case map_of l e of None \<Rightarrow> l | Some it \<Rightarrow> (e, it) # ll_Remove e l)"

text \<open>Writing through the element's pointer to its item.\<close>

definition ll_Write :: "nat \<Rightarrow> ('v LRUCacheItem \<Rightarrow> 'v LRUCacheItem) \<Rightarrow> 'v elements \<Rightarrow> 'v elements" where
  "ll_Write e f l = map (\<lambda>(i, it). (i, if i = e then f it else it)) l"

section \<open>The cache\<close>

record 'v LRUCache =
  capacity :: int
  ll :: "'v elements"
  cache :: "(string, nat) gomap"
  ttl :: int
  cacheType :: string
  next_element :: nat

definition NewTypedLRUCache :: "int \<Rightarrow> int \<Rightarrow> string \<Rightarrow> 'v LRUCache" where
  "NewTypedLRUCache cap t ct =
     \<lparr>capacity = cap, ll = [], cache = [], ttl = t, cacheType = ct, next_element = 0\<rparr>"

definition ttl_expired :: "'v LRUCache \<Rightarrow> int \<Rightarrow> 'v LRUCacheItem \<Rightarrow> bool" where
  "ttl_expired c now it \<longleftrightarrow> ttl c > 0 \<and> now - it_Timestamp it > ttl c"

text \<open>The second critical section of \<open>Get\<close>, under the write lock.\<close>

definition Get_locked :: "'v LRUCache \<Rightarrow> string \<Rightarrow> int \<Rightarrow> 'v option \<times> 'v LRUCache" where
  "Get_locked c key now =
     (case map_of (cache c) key of
        None \<Rightarrow> (None, c)
      | Some element \<Rightarrow>
          (case map_of (ll c) element of
             None \<Rightarrow> (None, c)
           | Some item \<Rightarrow>
               if ttl_expired c now item
               then (None, c\<lparr>ll := ll_Remove element (ll c), cache := gm_del key (cache c)\<rparr>)
               else (Some (it_Value item), c\<lparr>ll := ll_MoveToFront element (ll c)\<rparr>)))"

definition Get :: "'v LRUCache \<Rightarrow> string \<Rightarrow> int \<Rightarrow> 'v option \<times> 'v LRUCache" where
  "Get c key now = (if \<not> gm_has (cache c) key then (None, c) else Get_locked c key now)"

definition evictOldest :: "'v LRUCache \<Rightarrow> 'v LRUCache" where
  "evictOldest c =
     (if ll c = [] then c
      else let (e, item) = last (ll c)
           in c\<lparr>cache := gm_del (it_Key item) (cache c), ll := ll_Remove e (ll c)\<rparr>)"

definition Set :: "'v LRUCache \<Rightarrow> string \<Rightarrow> 'v \<Rightarrow> int \<Rightarrow> 'v LRUCache" where
  "Set c key val now =
     (case map_of (cache c) key of
        Some element \<Rightarrow>
          c\<lparr>ll := ll_Write element (\<lambda>item. item\<lparr>it_Value := val, it_Timestamp := now\<rparr>)
               (ll_MoveToFront element (ll c))\<rparr>
      | None \<Rightarrow>
          (let c = (if int (length (ll c)) \<ge> capacity c then evictOldest c else c);
               item = \<lparr>it_Key = key, it_Value = val, it_Timestamp = now\<rparr>;
               element = next_element c
           in c\<lparr>ll := (element, item) # ll c, cache := gm_put key element (cache c),
                next_element := Suc element\<rparr>))"

definition Lru_Remove :: "'v LRUCache \<Rightarrow> string \<Rightarrow> 'v LRUCache" where
  "Lru_Remove c key =
     (case map_of (cache c) key of
        None \<Rightarrow> c
      | Some element \<Rightarrow> c\<lparr>ll := ll_Remove element (ll c), cache := gm_del key (cache c)\<rparr>)"

definition Lru_Clear :: "'v LRUCache \<Rightarrow> 'v LRUCache" where
  "Lru_Clear c = c\<lparr>ll := [], cache := []\<rparr>"

definition Len :: "'v LRUCache \<Rightarrow> nat" where
  "Len c = length (ll c)"

text \<open>
  The loop of \<open>RemoveExpired\<close> walks from the back; its argument is the list of elements still
  ahead, last one first. Removing an element does not disturb those.
\<close>

fun RemoveExpired_loop :: "int \<Rightarrow> 'v elements \<Rightarrow> nat \<Rightarrow> 'v LRUCache \<Rightarrow> nat \<times> 'v LRUCache" where
  "RemoveExpired_loop now [] removed c = (removed, c)"
| "RemoveExpired_loop now ((e, item) # ahead) removed c =
     (if now - it_Timestamp item > ttl c
      then RemoveExpired_loop now ahead (removed + 1)
             (c\<lparr>ll := ll_Remove e (ll c), cache := gm_del (it_Key item) (cache c)\<rparr>)
      else RemoveExpired_loop now ahead removed c)"

definition RemoveExpired :: "'v LRUCache \<Rightarrow> int \<Rightarrow> nat \<times> 'v LRUCache" where
  "RemoveExpired c now =
     (if ttl c \<le> 0 then (0, c) else RemoveExpired_loop now (rev (ll c)) 0 c)"

section \<open>The typed caches\<close>

definition DefaultCacheCapacity_cluster :: int where
  "DefaultCacheCapacity_cluster = 500"

definition DefaultCacheTTL_cluster :: int where
  "DefaultCacheTTL_cluster = 5 * 60 * 1000000000"

definition DefaultCacheCapacity_filter :: int where
  "DefaultCacheCapacity_filter = 1000"

definition DefaultCacheTTL_filter :: int where
  "DefaultCacheTTL_filter = 10 * 60 * 1000000000"

type_synonym ClusterLRUCache = "ClusterV3 list LRUCache"
type_synonym HTTPFilterLRUCache = "HttpFilterV3 list LRUCache"

definition NewClusterLRUCache :: "int \<Rightarrow> int \<Rightarrow> ClusterLRUCache" where
  "NewClusterLRUCache cap t =
     (let cap = (if cap \<le> 0 then DefaultCacheCapacity_cluster else cap);
          t = (if t \<le> 0 then DefaultCacheTTL_cluster else t)
      in NewTypedLRUCache cap t ''cluster_lru'')"

definition NewHTTPFilterLRUCache :: "int \<Rightarrow> int \<Rightarrow> HTTPFilterLRUCache" where
  "NewHTTPFilterLRUCache cap t =
     (let cap = (if cap \<le> 0 then DefaultCacheCapacity_filter else cap);
          t = (if t \<le> 0 then DefaultCacheTTL_filter else t)
      in NewTypedLRUCache cap t ''http_filter_lru'')"

text \<open>\<open>proto.Clone\<close> gives an equal message, so copying a slice is \<open>map\<close> of the identity.\<close>

definition Clone :: "'m \<Rightarrow> 'm" where
  "Clone m = m"

definition ClusterLRUCache_Get ::
    "ClusterLRUCache \<Rightarrow> string \<Rightarrow> int \<Rightarrow> ClusterV3 list option \<times> ClusterLRUCache" where
  "ClusterLRUCache_Get c key now =
     (case Get c key now of
        (None, c) \<Rightarrow> (None, c)
      | (Some clusters, c) \<Rightarrow> (Some (map Clone clusters), c))"

definition ClusterLRUCache_Set ::
    "ClusterLRUCache \<Rightarrow> string \<Rightarrow> ClusterV3 list \<Rightarrow> int \<Rightarrow> ClusterLRUCache" where
  "ClusterLRUCache_Set c key clusters now = Set c key (map Clone clusters) now"

text \<open>
  The pool of reusable slices (\<^verbatim>\<open>utils/pools.go\<close>). \<open>sync.Pool\<close> hands out any slice put into
  it, or a new one; the pool is the list of the slices it may hand out, by their contents.
\<close>

type_synonym slice_pool = "HttpFilterV3 list list"

definition GetHTTPFilterSlice :: "slice_pool \<Rightarrow> HttpFilterV3 list \<times> slice_pool" where
  "GetHTTPFilterSlice pl = (case pl of [] \<Rightarrow> ([], []) | s # rest \<Rightarrow> (s, rest))"

definition PutHTTPFilterSlice :: "HttpFilterV3 list option \<Rightarrow> slice_pool \<Rightarrow> slice_pool" where
  "PutHTTPFilterSlice s pl = (case s of None \<Rightarrow> pl | Some s \<Rightarrow> take 0 s # pl)"

definition HTTPFilterLRUCache_Get :: "HTTPFilterLRUCache \<Rightarrow> slice_pool \<Rightarrow> string \<Rightarrow> int
    \<Rightarrow> HttpFilterV3 list option \<times> HTTPFilterLRUCache \<times> slice_pool" where
  "HTTPFilterLRUCache_Get c pl key now =
     (case Get c key now of
        (None, c) \<Rightarrow> (None, c, pl)
      | (Some filters, c) \<Rightarrow>
          (let (result, pl) = GetHTTPFilterSlice pl;
               result = result @ map Clone filters;
               finalResult = take (length result) result
           in (Some finalResult, c, PutHTTPFilterSlice (Some result) pl)))"

definition HTTPFilterLRUCache_Set ::
    "HTTPFilterLRUCache \<Rightarrow> slice_pool \<Rightarrow> string \<Rightarrow> HttpFilterV3 list \<Rightarrow> int
      \<Rightarrow> HTTPFilterLRUCache \<times> slice_pool" where
  "HTTPFilterLRUCache_Set c pl key filters now =
     (let (cached, pl) = GetHTTPFilterSlice pl;
          cached = cached @ map Clone filters;
          permanentCached = take (length cached) cached
      in (Set c key permanentCached now, PutHTTPFilterSlice (Some cached) pl))"

section \<open>The invariant\<close>

definition lru_inv :: "'v LRUCache \<Rightarrow> bool" where
  "lru_inv c \<longleftrightarrow>
     distinct (map fst (ll c)) \<and> distinct (map (\<lambda>p. it_Key (snd p)) (ll c)) \<and>
     (\<forall>p \<in> set (ll c). fst p < next_element c) \<and> gm_wf (cache c) \<and>
     (\<forall>k e. map_of (cache c) k = Some e \<longleftrightarrow> (\<exists>it. (e, it) \<in> set (ll c) \<and> it_Key it = k)) \<and>
     int (length (ll c)) \<le> max 1 (capacity c)"

text \<open>The recency list: keys, values and time stamps, most recently used first.\<close>

definition recency :: "'v LRUCache \<Rightarrow> (string \<times> 'v \<times> int) list" where
  "recency c = map (\<lambda>p. (it_Key (snd p), it_Value (snd p), it_Timestamp (snd p))) (ll c)"

abbreviation drop_key :: "string \<Rightarrow> (string \<times> 'v) list \<Rightarrow> (string \<times> 'v) list" where
  "drop_key k \<equiv> filter (\<lambda>p. fst p \<noteq> k)"

text \<open>What the operations mean on recency lists.\<close>

definition get_spec :: "int \<Rightarrow> (string \<times> 'v \<times> int) list \<Rightarrow> string \<Rightarrow> int
    \<Rightarrow> 'v option \<times> (string \<times> 'v \<times> int) list" where
  "get_spec t xs k now =
     (case map_of xs k of
        None \<Rightarrow> (None, xs)
      | Some (v, ts) \<Rightarrow>
          if t > 0 \<and> now - ts > t then (None, drop_key k xs)
          else (Some v, (k, v, ts) # drop_key k xs))"

definition set_spec :: "int \<Rightarrow> (string \<times> 'v \<times> int) list \<Rightarrow> string \<Rightarrow> 'v \<Rightarrow> int
    \<Rightarrow> (string \<times> 'v \<times> int) list" where
  "set_spec cap xs k v now =
     (k, v, now) #
       (if k \<in> fst ` set xs then drop_key k xs
        else if int (length xs) \<ge> cap then butlast xs else xs)"

definition expire_spec :: "int \<Rightarrow> (string \<times> 'v \<times> int) list \<Rightarrow> int \<Rightarrow> (string \<times> 'v \<times> int) list" where
  "expire_spec t xs now = (if t \<le> 0 then xs else filter (\<lambda>(k, v, ts). \<not> now - ts > t) xs)"

lemma keys_unique:
  assumes "distinct (map (\<lambda>p. it_Key (snd p)) l)" "(e, it) \<in> set l" "(e', it') \<in> set l"
    "it_Key it = it_Key it'"
  shows "e = e' \<and> it = it'"
proof -
  have "inj_on (\<lambda>p. it_Key (snd p)) (set l)" using assms(1) by (simp add: distinct_map)
  from inj_onD [OF this _ assms(2,3)] assms(4) show ?thesis by simp
qed

lemma ids_unique:
  assumes "distinct (map fst l)" "(e, it) \<in> set l" "(e, it') \<in> set l"
  shows "it = it'"
  using assms by (meson eq_key_imp_eq_value)

text \<open>Taking an element out by its identity is taking its key out of the recency list.\<close>

lemma remove_by_key:
  assumes "distinct (map fst l)" "distinct (map (\<lambda>p. it_Key (snd p)) l)" "(e, it) \<in> set l"
  shows "ll_Remove e l = filter (\<lambda>p. it_Key (snd p) \<noteq> it_Key it) l"
  unfolding ll_Remove_def
proof (rule filter_cong [OF refl])
  fix p assume p: "p \<in> set l"
  obtain e' it' where [simp]: "p = (e', it')" by (cases p)
  show "fst p \<noteq> e \<longleftrightarrow> it_Key (snd p) \<noteq> it_Key it"
    using keys_unique [OF assms(2,3), of e' it'] ids_unique [OF assms(1,3), of it'] p by auto
qed

lemma recency_filter:
  "map (\<lambda>p. (it_Key (snd p), it_Value (snd p), it_Timestamp (snd p))) (filter (\<lambda>p. it_Key (snd p) \<noteq> k) l)
   = drop_key k (map (\<lambda>p. (it_Key (snd p), it_Value (snd p), it_Timestamp (snd p))) l)"
  by (induction l) auto

lemma map_of_recency:
  assumes "distinct (map (\<lambda>p. it_Key (snd p)) l)" "(e, it) \<in> set l"
  shows "map_of (map (\<lambda>p. (it_Key (snd p), it_Value (snd p), it_Timestamp (snd p))) l) (it_Key it)
    = Some (it_Value it, it_Timestamp it)"
  using assms by (intro map_of_is_SomeI) (auto simp: comp_def intro: rev_image_eqI)

lemma inv_lookup:
  assumes "lru_inv c"
  shows "map_of (cache c) k = None \<longleftrightarrow> k \<notin> fst ` set (recency c)"
    and "map_of (cache c) k = Some e \<Longrightarrow>
      \<exists>it. (e, it) \<in> set (ll c) \<and> it_Key it = k \<and> map_of (ll c) e = Some it \<and>
        map_of (recency c) k = Some (it_Value it, it_Timestamp it)"
proof -
  have look: "map_of (cache c) k = Some e \<longleftrightarrow> (\<exists>it. (e, it) \<in> set (ll c) \<and> it_Key it = k)" for e
    using assms by (simp add: lru_inv_def)
  show "map_of (cache c) k = None \<longleftrightarrow> k \<notin> fst ` set (recency c)"
  proof -
    have "map_of (cache c) k = None \<longleftrightarrow> \<not> (\<exists>e it. (e, it) \<in> set (ll c) \<and> it_Key it = k)"
      using look by (metis option.exhaust option.distinct(1))
    then show ?thesis by (force simp: recency_def)
  qed
  assume "map_of (cache c) k = Some e"
  with look obtain it where it: "(e, it) \<in> set (ll c)" "it_Key it = k" by blast
  have "map_of (ll c) e = Some it" using assms it by (simp add: lru_inv_def)
  with it map_of_recency [of "ll c" e it] assms
  show "\<exists>it. (e, it) \<in> set (ll c) \<and> it_Key it = k \<and> map_of (ll c) e = Some it \<and>
        map_of (recency c) k = Some (it_Value it, it_Timestamp it)"
    by (auto simp: lru_inv_def recency_def)
qed

text \<open>Dropping one element together with its map entry keeps the invariant.\<close>

lemma inv_drop:
  assumes "lru_inv c" "(e, it) \<in> set (ll c)"
  shows "lru_inv (c\<lparr>ll := ll_Remove e (ll c), cache := gm_del (it_Key it) (cache c)\<rparr>)"
    and "recency (c\<lparr>ll := ll_Remove e (ll c), cache := gm_del (it_Key it) (cache c)\<rparr>)
      = drop_key (it_Key it) (recency c)"
proof -
  have d: "distinct (map fst (ll c))" "distinct (map (\<lambda>p. it_Key (snd p)) (ll c))"
    using assms(1) by (simp_all add: lru_inv_def)
  note rm = remove_by_key [OF d assms(2)]
  show "recency (c\<lparr>ll := ll_Remove e (ll c), cache := gm_del (it_Key it) (cache c)\<rparr>)
      = drop_key (it_Key it) (recency c)"
    by (simp add: recency_def rm recency_filter)
  have "int (length (filter (\<lambda>p. it_Key (snd p) \<noteq> it_Key it) (ll c))) \<le> int (length (ll c))" by simp
  also have "\<dots> \<le> max 1 (capacity c)" using assms(1) by (simp add: lru_inv_def)
  finally have len: "int (length (filter (\<lambda>p. it_Key (snd p) \<noteq> it_Key it) (ll c)))
      \<le> max 1 (capacity c)" .
  have "map_of (cache c) k = Some e' \<and> k \<noteq> it_Key it \<longleftrightarrow>
      (\<exists>it'. (e', it') \<in> set (ll c) \<and> it_Key it' \<noteq> it_Key it \<and> it_Key it' = k)" for k e'
    using assms(1) by (auto simp: lru_inv_def)
  then show "lru_inv (c\<lparr>ll := ll_Remove e (ll c), cache := gm_del (it_Key it) (cache c)\<rparr>)"
    using assms(1) d len unfolding lru_inv_def rm
    by (auto simp: distinct_map_filter)
qed

lemma upd_ll:
  "ll (c\<lparr>ll := l\<rparr>) = l" "cache (c\<lparr>ll := l\<rparr>) = cache c" "capacity (c\<lparr>ll := l\<rparr>) = capacity c"
  "next_element (c\<lparr>ll := l\<rparr>) = next_element c"
  by simp_all

text \<open>Moving an element to the front, perhaps with a new value.\<close>

lemma inv_touch:
  assumes inv: "lru_inv c" and e: "(e, it) \<in> set (ll c)" and key: "it_Key it' = it_Key it"
  shows "lru_inv (c\<lparr>ll := (e, it') # ll_Remove e (ll c)\<rparr>)"
    and "recency (c\<lparr>ll := (e, it') # ll_Remove e (ll c)\<rparr>)
      = (it_Key it, it_Value it', it_Timestamp it') # drop_key (it_Key it) (recency c)"
proof -
  have d: "distinct (map fst (ll c))" "distinct (map (\<lambda>p. it_Key (snd p)) (ll c))"
    using inv by (simp_all add: lru_inv_def)
  note rm = remove_by_key [OF d e]
  show "recency (c\<lparr>ll := (e, it') # ll_Remove e (ll c)\<rparr>)
      = (it_Key it, it_Value it', it_Timestamp it') # drop_key (it_Key it) (recency c)"
    by (simp add: recency_def rm recency_filter key)
  have "length (filter (\<lambda>p. it_Key (snd p) \<noteq> it_Key it) (ll c)) < length (ll c)"
    using e by (intro length_filter_less [of "(e, it)"]) auto
  then have len: "int (length ((e, it') # ll_Remove e (ll c))) \<le> max 1 (capacity c)"
    using inv by (simp add: rm lru_inv_def)
  let ?l = "(e, it') # ll_Remove e (ll c)"
  have 1: "distinct (map fst ?l)"
    using d(1) by (auto simp: ll_Remove_def distinct_map_filter)
  have 2: "distinct (map (\<lambda>p. it_Key (snd p)) ?l)"
    using d(2) by (auto simp: rm key distinct_map_filter)
  have 3: "\<forall>p \<in> set ?l. fst p < next_element c"
    using inv e by (auto simp: lru_inv_def ll_Remove_def)
  have 4: "(\<exists>x. (e', x) \<in> set ?l \<and> it_Key x = k) \<longleftrightarrow> (\<exists>x. (e', x) \<in> set (ll c) \<and> it_Key x = k)" for e' k
  proof (cases "e' = e")
    case True
    have "x = it" if "(e, x) \<in> set (ll c)" for x by (rule ids_unique [OF d(1) that e])
    then have "(\<exists>x. (e, x) \<in> set (ll c) \<and> it_Key x = k) \<longleftrightarrow> it_Key it = k" using e by blast
    then show ?thesis by (simp add: True ll_Remove_def key)
  qed (simp add: ll_Remove_def)
  have 5: "\<forall>k e'. map_of (cache c) k = Some e' \<longleftrightarrow> (\<exists>x. (e', x) \<in> set ?l \<and> it_Key x = k)"
    unfolding 4 using inv by (simp add: lru_inv_def)
  have "gm_wf (cache c)" using inv by (simp add: lru_inv_def)
  with 1 2 3 5 len show "lru_inv (c\<lparr>ll := ?l\<rparr>)"
    unfolding lru_inv_def upd_ll by blast
qed

section \<open>Every operation refines its meaning\<close>

lemma New_ok: "lru_inv (NewTypedLRUCache cap t ct)" "recency (NewTypedLRUCache cap t ct) = []"
  by (simp_all add: lru_inv_def recency_def NewTypedLRUCache_def)

lemma Get_locked_ok:
  assumes inv: "lru_inv c"
  shows "lru_inv (snd (Get_locked c k now))
    \<and> (fst (Get_locked c k now), recency (snd (Get_locked c k now))) = get_spec (ttl c) (recency c) k now"
proof (cases "map_of (cache c) k")
  case None
  with inv inv_lookup(1) [OF inv, of k] show ?thesis
    by (simp add: Get_locked_def get_spec_def map_of_eq_None_iff [THEN iffD2])
next
  case (Some e)
  from inv_lookup(2) [OF inv Some] obtain it where it: "(e, it) \<in> set (ll c)" "it_Key it = k"
    "map_of (ll c) e = Some it" "map_of (recency c) k = Some (it_Value it, it_Timestamp it)" by blast
  show ?thesis
    using inv_drop [OF inv it(1)] inv_touch [OF inv it(1) refl] it
    by (simp add: Get_locked_def Some ttl_expired_def get_spec_def ll_MoveToFront_def)
qed

lemma Get_eq_locked: "Get c k now = Get_locked c k now"
  by (simp add: Get_def Get_locked_def gm_has_def split: option.split)

lemma Lru_Remove_ok:
  assumes inv: "lru_inv c"
  shows "lru_inv (Lru_Remove c k) \<and> recency (Lru_Remove c k) = drop_key k (recency c)"
proof (cases "map_of (cache c) k")
  case None
  have "drop_key k (recency c) = recency c"
    using inv_lookup(1) [OF inv, of k] None by (auto intro!: filter_True)
  with None inv show ?thesis by (simp add: Lru_Remove_def)
next
  case (Some e)
  from inv_lookup(2) [OF inv Some] obtain it where it: "(e, it) \<in> set (ll c)" "it_Key it = k" by blast
  with inv_drop [OF inv it(1)] Some show ?thesis by (simp add: Lru_Remove_def)
qed

lemma Lru_Clear_ok: "lru_inv c \<Longrightarrow> lru_inv (Lru_Clear c) \<and> recency (Lru_Clear c) = []"
  by (simp add: lru_inv_def recency_def Lru_Clear_def)

lemma evictOldest_ok:
  assumes inv: "lru_inv c"
  shows "lru_inv (evictOldest c) \<and> recency (evictOldest c) = butlast (recency c)
    \<and> ll (evictOldest c) = butlast (ll c) \<and> next_element (evictOldest c) = next_element c
    \<and> capacity (evictOldest c) = capacity c"
proof (cases "ll c = []")
  case True
  with inv show ?thesis by (simp add: evictOldest_def recency_def)
next
  case False
  obtain e it where l: "last (ll c) = (e, it)" by (cases "last (ll c)")
  then have mem: "(e, it) \<in> set (ll c)" using False last_in_set by metis
  have split: "ll c = butlast (ll c) @ [(e, it)]" using False l by (metis append_butlast_last_id)
  have "distinct (map fst (butlast (ll c) @ [(e, it)]))"
    unfolding split [symmetric] using inv by (simp add: lru_inv_def)
  then have "e \<notin> fst ` set (butlast (ll c))" by simp
  then have rm: "ll_Remove e (ll c) = butlast (ll c)"
    by (subst split) (auto simp: ll_Remove_def intro!: filter_True)
  have eq: "evictOldest c = c\<lparr>ll := ll_Remove e (ll c), cache := gm_del (it_Key it) (cache c)\<rparr>"
    using False by (simp add: evictOldest_def l)
  show ?thesis
    using inv_drop(1) [OF inv mem] unfolding eq by (simp add: rm recency_def map_butlast)
qed

lemma inv_push:
  assumes inv: "lru_inv c" and new: "map_of (cache c) k = None"
    and room: "int (length (ll c)) + 1 \<le> max 1 (capacity c)" and key: "it_Key it = k"
  shows "lru_inv (c\<lparr>ll := (next_element c, it) # ll c, cache := gm_put k (next_element c) (cache c),
      next_element := Suc (next_element c)\<rparr>)"
proof -
  let ?e = "next_element c"
  have below: "\<forall>p \<in> set (ll c). fst p < ?e" and d: "distinct (map fst (ll c))"
    "distinct (map (\<lambda>p. it_Key (snd p)) (ll c))" and wf: "gm_wf (cache c)"
    and look: "map_of (cache c) k' = Some e \<longleftrightarrow> (\<exists>x. (e, x) \<in> set (ll c) \<and> it_Key x = k')" for k' e
    using inv by (simp_all add: lru_inv_def)
  have k: "it_Key x \<noteq> k" if "(e, x) \<in> set (ll c)" for e x
    using look [of k e] new that by auto
  have 1: "distinct (map fst ((?e, it) # ll c))" using d below by auto
  have "k \<notin> (\<lambda>p. it_Key (snd p)) ` set (ll c)" using k by fastforce
  then have 2: "distinct (map (\<lambda>p. it_Key (snd p)) ((?e, it) # ll c))" using d key by simp
  have 3: "\<forall>p \<in> set ((?e, it) # ll c). fst p < Suc ?e" using below by auto
  have 4: "map_of (gm_put k ?e (cache c)) k' = Some e \<longleftrightarrow>
      (\<exists>x. (e, x) \<in> set ((?e, it) # ll c) \<and> it_Key x = k')" for k' e
  proof (cases "k' = k")
    case True
    then show ?thesis using k key by auto
  next
    case False
    then show ?thesis using look [of k' e] key by auto
  qed
  show ?thesis
    unfolding lru_inv_def using 1 2 3 4 wf room by simp
qed

lemma Set_ok:
  assumes inv: "lru_inv c"
  shows "lru_inv (Set c k v now) \<and> recency (Set c k v now) = set_spec (capacity c) (recency c) k v now"
proof (cases "map_of (cache c) k")
  case (Some e)
  from inv_lookup(2) [OF inv Some] obtain it where it: "(e, it) \<in> set (ll c)" "it_Key it = k"
    "map_of (ll c) e = Some it" by blast
  let ?it = "it\<lparr>it_Value := v, it_Timestamp := now\<rparr>"
  have "ll_Write e f (ll_Remove e (ll c)) = ll_Remove e (ll c)" for f
    by (auto simp: ll_Write_def ll_Remove_def intro!: map_idI)
  then have eq: "Set c k v now = c\<lparr>ll := (e, ?it) # ll_Remove e (ll c)\<rparr>"
    by (simp add: Set_def Some ll_MoveToFront_def it(3) ll_Write_def)
  have "k \<in> fst ` set (recency c)" using inv_lookup(1) [OF inv, of k] Some by simp
  with inv_touch [OF inv it(1), of ?it] it(2) show ?thesis by (simp add: eq set_spec_def)
next
  case None
  let ?c = "if int (length (ll c)) \<ge> capacity c then evictOldest c else c"
  have inv': "lru_inv ?c" using evictOldest_ok [OF inv] inv by simp
  have rec: "recency ?c = (if int (length (recency c)) \<ge> capacity c then butlast (recency c) else recency c)"
    using evictOldest_ok [OF inv] by (simp add: recency_def map_butlast)
  have notin: "k \<notin> fst ` set (recency c)" using inv_lookup(1) [OF inv] None by simp
  then have "k \<notin> fst ` set (recency ?c)" unfolding rec by (auto dest: in_set_butlastD)
  then have new: "map_of (cache ?c) k = None" using inv_lookup(1) [OF inv'] by blast
  have "int (length (ll c)) \<le> max 1 (capacity c)" using inv by (simp add: lru_inv_def)
  then have room: "int (length (ll ?c)) + 1 \<le> max 1 (capacity ?c)"
    using evictOldest_ok [OF inv] by (cases "ll c") auto
  let ?it = "\<lparr>it_Key = k, it_Value = v, it_Timestamp = now\<rparr>"
  have eq: "Set c k v now = ?c\<lparr>ll := (next_element ?c, ?it) # ll ?c,
      cache := gm_put k (next_element ?c) (cache ?c), next_element := Suc (next_element ?c)\<rparr>"
    unfolding Set_def by (simp only: None option.case Let_def)
  have "recency (Set c k v now) = (k, v, now) # recency ?c"
    unfolding eq by (simp add: recency_def)
  moreover have "lru_inv (Set c k v now)"
    unfolding eq by (rule inv_push [OF inv' new room]) simp
  ultimately show ?thesis using notin unfolding rec set_spec_def by simp
qed

lemma RemoveExpired_loop_ok:
  assumes "lru_inv c" "set ahead \<subseteq> set (ll c)" "distinct (map fst ahead)"
  shows "lru_inv (snd (RemoveExpired_loop now ahead n c)) \<and>
    recency (snd (RemoveExpired_loop now ahead n c)) =
      filter (\<lambda>(k, v, ts). \<not> (now - ts > ttl c \<and> k \<in> (\<lambda>p. it_Key (snd p)) ` set ahead)) (recency c)"
  using assms
proof (induction ahead arbitrary: n c)
  case Nil
  then show ?case by (simp add: case_prod_unfold)
next
  case (Cons p ahead)
  obtain e it where p: "p = (e, it)" by (cases p)
  have mem: "(e, it) \<in> set (ll c)" using Cons.prems(2) p by simp
  have d: "distinct (map fst (ll c))" "distinct (map (\<lambda>p. it_Key (snd p)) (ll c))"
    using Cons.prems(1) by (simp_all add: lru_inv_def)
  have ts: "ts = it_Timestamp it" if "(it_Key it, v, ts) \<in> set (recency c)" for v ts
    using that keys_unique [OF d(2) mem] by (auto simp: recency_def)
  let ?c = "c\<lparr>ll := ll_Remove e (ll c), cache := gm_del (it_Key it) (cache c)\<rparr>"
  show ?case
  proof (cases "now - it_Timestamp it > ttl c")
    case True
    have "set ahead \<subseteq> set (ll ?c)"
      using Cons.prems(2,3) p by (auto simp: ll_Remove_def image_iff)
    from Cons.IH [OF inv_drop(1) [OF Cons.prems(1) mem] this] Cons.prems(3) inv_drop(2) [OF Cons.prems(1) mem] True
    show ?thesis
      by (auto simp: p filter_filter case_prod_unfold dest: ts intro!: filter_cong)
  next
    case False
    with Cons.IH [OF Cons.prems(1), of "n"] Cons.prems show ?thesis
      by (auto simp: p case_prod_unfold dest: ts intro!: filter_cong)
  qed
qed

lemma RemoveExpired_ok:
  assumes inv: "lru_inv c"
  shows "lru_inv (snd (RemoveExpired c now)) \<and>
    recency (snd (RemoveExpired c now)) = expire_spec (ttl c) (recency c) now"
proof (cases "ttl c \<le> 0")
  case False
  have "distinct (map fst (rev (ll c)))" using inv by (simp add: lru_inv_def rev_map [symmetric])
  from RemoveExpired_loop_ok [OF inv _ this, of now 0] False show ?thesis
    by (auto simp: RemoveExpired_def expire_spec_def recency_def intro!: filter_cong)
qed (simp add: RemoveExpired_def expire_spec_def inv)

section \<open>The contract of a recency cache\<close>

text \<open>
  What the users of a cache rely on: the operations have their meaning on the recency list the
  cache stands for.
\<close>

locale recency_cache =
  fixes view :: "'c \<Rightarrow> (string \<times> 'v \<times> int) list"
    and ok :: "'c \<Rightarrow> bool"
    and cap :: "'c \<Rightarrow> int"
    and life :: "'c \<Rightarrow> int"
    and get :: "'c \<Rightarrow> string \<Rightarrow> int \<Rightarrow> 'v option \<times> 'c"
    and put :: "'c \<Rightarrow> string \<Rightarrow> 'v \<Rightarrow> int \<Rightarrow> 'c"
  assumes ok_distinct: "ok c \<Longrightarrow> distinct (map fst (view c))"
    and ok_put: "ok c \<Longrightarrow> ok (put c k v now)"
    and ok_get: "ok c \<Longrightarrow> ok (snd (get c k now))"
    and view_put: "ok c \<Longrightarrow> view (put c k v now) = set_spec (cap c) (view c) k v now"
    and view_get: "ok c \<Longrightarrow>
      (fst (get c k now), view (snd (get c k now))) = get_spec (life c) (view c) k now"
    and cap_put: "ok c \<Longrightarrow> cap (put c k v now) = cap c"
    and life_put: "ok c \<Longrightarrow> life (put c k v now) = life c"
begin

lemma get_result:
  "ok c \<Longrightarrow> fst (get c k now) =
     (case map_of (view c) k of
        None \<Rightarrow> None
      | Some (v, ts) \<Rightarrow> if life c > 0 \<and> now - ts > life c then None else Some v)"
  using view_get [of c k now] by (auto simp: get_spec_def split: option.splits prod.splits if_splits)

lemma get_put_same:
  assumes "ok c" "life c \<le> 0 \<or> now' - now \<le> life c"
  shows "fst (get (put c k v now) k now') = Some v"
  using assms by (auto simp: get_result ok_put view_put life_put set_spec_def)

text \<open>
  An entry stays while fewer than capacity other keys are set: everything in front of it has
  been set since.
\<close>

lemma front_put:
  assumes ok: "ok c" and view: "view c = ys @ (k, e) # zs" and front: "fst ` set ys \<subseteq> K"
    and K: "finite K" "int (card K) < cap c" "k' \<in> K" "k \<notin> K"
  shows "\<exists>ys' zs'. view (put c k' v now) = ys' @ (k, e) # zs' \<and> fst ` set ys' \<subseteq> K"
proof -
  have d: "distinct (map fst (ys @ (k, e) # zs))" using ok_distinct [OF ok] view by simp
  have k': "k' \<noteq> k" using K by auto
  show ?thesis
  proof (cases "k' \<in> fst ` set (view c)")
    case True
    have "view (put c k' v now) = ((k', v, now) # drop_key k' ys) @ (k, e) # drop_key k' zs"
      using True k' by (simp add: view_put [OF ok] set_spec_def view)
    moreover have "fst ` set ((k', v, now) # drop_key k' ys) \<subseteq> K" using front K by auto
    ultimately show ?thesis by blast
  next
    case False
    then have "k' \<notin> fst ` set ys" by (auto simp: view)
    then have "fst ` set ys \<subseteq> K - {k'}" using front by auto
    then have "card (fst ` set ys) \<le> card (K - {k'})" using K(1) by (simp add: card_mono)
    moreover have "card (fst ` set ys) = length ys"
      using d distinct_card [of "map fst ys"] by simp
    moreover have "card (K - {k'}) < card K" using K by (intro card_Diff1_less)
    ultimately have len: "length ys < card K" by simp
    have new: "view (put c k' v now) =
        (k', v, now) # (if int (length (view c)) \<ge> cap c then butlast (view c) else view c)"
      using False by (simp add: view_put [OF ok] set_spec_def)
    show ?thesis
    proof (cases "zs = [] \<and> int (length (view c)) \<ge> cap c")
      case True
      then have "cap c \<le> int (length ys) + 1" by (auto simp: view)
      with len K(2) have False by linarith
      then show ?thesis ..
    next
      case False
      then have "\<exists>zs'. view (put c k' v now) = ((k', v, now) # ys) @ (k, e) # zs'"
        unfolding new view by (auto simp: butlast_append)
      moreover have "fst ` set ((k', v, now) # ys) \<subseteq> K" using front K by auto
      ultimately show ?thesis by blast
    qed
  qed
qed

lemma retained:
  assumes "ok c" "view c = ys @ (k, e) # zs" "fst ` set ys \<subseteq> K" "finite K" "int (card K) < cap c"
    "k \<notin> K" "fst ` set kvs \<subseteq> K"
  shows "\<exists>ys' zs'. view (fold (\<lambda>(k', v, t) c. put c k' v t) kvs c) = ys' @ (k, e) # zs'"
  using assms
proof (induction kvs arbitrary: c ys zs)
  case (Cons p kvs)
  obtain k' v t where p: "p = (k', v, t)" by (cases p)
  from front_put [OF Cons.prems(1-5), of k' v t] Cons.prems(6,7) obtain ys' zs' where
    "view (put c k' v t) = ys' @ (k, e) # zs'" "fst ` set ys' \<subseteq> K" by (auto simp: p)
  from Cons.IH [OF ok_put [OF Cons.prems(1)] this Cons.prems(4)] Cons.prems show ?case
    by (simp add: p cap_put)
qed auto

lemma recent_survives:
  assumes ok: "ok c" and "k \<notin> fst ` set kvs" and few: "int (card (fst ` set kvs)) < cap c"
    and fresh: "life c \<le> 0 \<or> now' - now \<le> life c"
  shows "fst (get (fold (\<lambda>(k', v', t) c. put c k' v' t) kvs (put c k v now)) k now') = Some v"
proof -
  let ?c = "fold (\<lambda>(k', v', t) c. put c k' v' t) kvs (put c k v now)"
  have okf: "ok (fold (\<lambda>(k', v', t) c. put c k' v' t) kvs c) \<and>
      life (fold (\<lambda>(k', v', t) c. put c k' v' t) kvs c) = life c" if "ok c" for c kvs
    using that by (induction kvs arbitrary: c) (auto simp: ok_put life_put)
  have "\<exists>zs. view (put c k v now) = [] @ (k, v, now) # zs"
    by (simp add: view_put [OF ok] set_spec_def)
  then obtain ys zs where view: "view ?c = ys @ (k, v, now) # zs"
    using retained [OF ok_put [OF ok], of k v now "[]" k "(v, now)" _ "fst ` set kvs" kvs] assms
    by (auto simp: cap_put)
  have okc: "ok ?c" "life ?c = life c" using okf [OF ok_put [OF ok]] life_put [OF ok] by simp_all
  have "map_of (view ?c) k = Some (v, now)"
    by (intro map_of_is_SomeI ok_distinct [OF okc(1)]) (simp add: view)
  with fresh show ?thesis by (auto simp: get_result [OF okc(1)] okc(2))
qed

end

lemma ttl_get [simp]: "ttl (snd (Get_locked c k now)) = ttl c"
  by (simp add: Get_locked_def split: option.split)

lemma params_Set [simp]: "capacity (Set c k v now) = capacity c" "ttl (Set c k v now) = ttl c"
  by (simp_all add: Set_def evictOldest_def Let_def split: option.split prod.split)

interpretation lru: recency_cache recency lru_inv capacity ttl Get Set
proof unfold_locales
  fix c :: "'a LRUCache" and k v now
  assume inv: "lru_inv c"
  show "distinct (map fst (recency c))" using inv by (simp add: lru_inv_def recency_def comp_def)
  show "lru_inv (Set c k v now)" "recency (Set c k v now) = set_spec (capacity c) (recency c) k v now"
    using Set_ok [OF inv] by blast+
  show "lru_inv (snd (Get c k now))"
    "(fst (Get c k now), recency (snd (Get c k now))) = get_spec (ttl c) (recency c) k now"
    using Get_locked_ok [OF inv] by (simp_all add: Get_eq_locked)
  show "capacity (Set c k v now) = capacity c" "ttl (Set c k v now) = ttl c" by simp_all
qed

section \<open>Main facts\<close>

inductive lru_reachable :: "'v LRUCache \<Rightarrow> bool" where
  lru_new: "lru_reachable (NewTypedLRUCache cap t ct)"
| lru_get: "lru_reachable c \<Longrightarrow> lru_reachable (snd (Get c k now))"
| lru_set: "lru_reachable c \<Longrightarrow> lru_reachable (Set c k v now)"
| lru_remove: "lru_reachable c \<Longrightarrow> lru_reachable (Lru_Remove c k)"
| lru_clear: "lru_reachable c \<Longrightarrow> lru_reachable (Lru_Clear c)"
| lru_expire: "lru_reachable c \<Longrightarrow> lru_reachable (snd (RemoveExpired c now))"

lemma lru_reachable_inv: "lru_reachable c \<Longrightarrow> lru_inv c"
  by (induction rule: lru_reachable.induct)
     (auto simp: New_ok lru.ok_get lru.ok_put Lru_Remove_ok Lru_Clear_ok RemoveExpired_ok)

text \<open>
  C10: every operation of the cache refines its meaning on the recency list: after any run the
  map and the linked list agree, the cache holds at most its capacity (one entry when the
  capacity is not positive), a hit returns the unexpired value and moves the key to the front,
  an expired entry is dropped, a new key pushes out the least recently used one only when the
  cache is full, and the sweep removes exactly the expired entries.
\<close>

theorem lru_refines:
  assumes "lru_reachable c"
  shows "int (Len c) \<le> max 1 (capacity c)
    \<and> (fst (Get c k now), recency (snd (Get c k now))) = get_spec (ttl c) (recency c) k now
    \<and> recency (Set c k v now) = set_spec (capacity c) (recency c) k v now
    \<and> recency (Lru_Remove c k) = drop_key k (recency c)
    \<and> recency (Lru_Clear c) = []
    \<and> recency (snd (RemoveExpired c now)) = expire_spec (ttl c) (recency c) now"
proof -
  have inv: "lru_inv c" by (rule lru_reachable_inv [OF assms])
  then have "int (Len c) \<le> max 1 (capacity c)" by (simp add: lru_inv_def Len_def)
  with lru.view_get [OF inv] lru.view_put [OF inv] Lru_Remove_ok [OF inv] Lru_Clear_ok [OF inv]
    RemoveExpired_ok [OF inv] show ?thesis by blast
qed

definition lru_full :: "string LRUCache" where
  "lru_full = Set (Set (NewTypedLRUCache 2 10 ''t'') ''a'' ''A'' 1) ''b'' ''B'' 2"

theorem lru_refines_witness:
  "recency (Set (snd (Get lru_full ''a'' 5)) ''c'' ''C'' 6) = [(''c'', ''C'', 6), (''a'', ''A'', 1)]"
proof -
  have r: "lru_reachable lru_full" unfolding lru_full_def by (intro lru_set lru_new)
  have rec: "recency lru_full = [(''b'', ''B'', 2), (''a'', ''A'', 1)]" "ttl lru_full = 10"
    "capacity (snd (Get lru_full ''a'' 5)) = 2"
    by (simp_all add: lru_full_def recency_def Set_def NewTypedLRUCache_def gm_put_def Get_def
        Get_locked_def gm_has_def ttl_expired_def)
  then have "recency (snd (Get lru_full ''a'' 5)) = [(''a'', ''A'', 1), (''b'', ''B'', 2)]"
    using lru_refines [OF r, of "''a''" 5] by (simp add: get_spec_def)
  with lru_refines [OF lru_get [OF r, of "''a''" 5], of "''c''" 6 "''C''"] rec(3) show ?thesis
    by (simp add: set_spec_def)
qed

text \<open>
  An entry outlives any sequence of writes to fewer than capacity distinct other keys: as
  long as its time to live has not passed, reading it back returns the value that was set.
\<close>

lemma lru_retention:
  assumes "lru_reachable c" and "k \<notin> fst ` set writes"
    and "int (card (fst ` set writes)) < capacity c"
    and "ttl c \<le> 0 \<or> now' - now \<le> ttl c"
  shows "fst (Get (fold (\<lambda>(k', v', t) c. Set c k' v' t) writes (Set c k v now)) k now') = Some v"
  by (rule lru.recent_survives [OF lru_reachable_inv [OF assms(1)] assms(2-4)])

section \<open>The wrappers\<close>

definition pool_clean :: "slice_pool \<Rightarrow> bool" where
  "pool_clean pl \<longleftrightarrow> (\<forall>s \<in> set pl. s = [])"

lemma pool_clean_step:
  assumes "pool_clean pl"
  obtains pl' where "GetHTTPFilterSlice pl = ([], pl')" "\<forall>s. pool_clean (PutHTTPFilterSlice (Some s) pl')"
proof -
  have "fst (GetHTTPFilterSlice pl) = [] \<and> pool_clean (snd (GetHTTPFilterSlice pl))"
    using assms by (auto simp: GetHTTPFilterSlice_def pool_clean_def split: list.splits)
  then have "GetHTTPFilterSlice pl = ([], snd (GetHTTPFilterSlice pl))"
    "\<forall>s. pool_clean (PutHTTPFilterSlice (Some s) (snd (GetHTTPFilterSlice pl)))"
    by (simp_all add: prod_eq_iff PutHTTPFilterSlice_def pool_clean_def)
  then show thesis by (rule that)
qed

lemma Clone_all [simp]: "map Clone xs = xs"
  by (simp add: Clone_def map_idI)

lemma filter_cache_Set_eq:
  assumes "pool_clean pl"
  obtains pl' where "HTTPFilterLRUCache_Set c pl key filters now = (Set c key filters now, pl')" "pool_clean pl'"
proof -
  obtain pl1 where "GetHTTPFilterSlice pl = ([], pl1)" "\<forall>s. pool_clean (PutHTTPFilterSlice (Some s) pl1)"
    by (rule pool_clean_step [OF assms])
  then show thesis 
    by (intro that [of "PutHTTPFilterSlice (Some filters) pl1"]) (simp_all add: HTTPFilterLRUCache_Set_def)
qed

lemma filter_cache_Get_eq:
  assumes "pool_clean pl"
  obtains pl' where "HTTPFilterLRUCache_Get c pl key now = (fst (Get c key now), snd (Get c key now), pl')"
    "pool_clean pl'"
proof -
  obtain pl1 where pl1: "GetHTTPFilterSlice pl = ([], pl1)" "\<forall>s. pool_clean (PutHTTPFilterSlice (Some s) pl1)"
    by (rule pool_clean_step [OF assms])
  obtain r c' where get: "Get c key now = (r, c')" by (cases "Get c key now")
  show thesis
  proof (cases r)
    case None
    with get assms show thesis by (intro that [of pl]) (simp_all add: HTTPFilterLRUCache_Get_def)
  next
    case (Some fs)
    with get pl1 show thesis
      by (intro that [of "PutHTTPFilterSlice (Some fs) pl1"]) (simp_all add: HTTPFilterLRUCache_Get_def)
  qed
qed

text \<open>
  The pooled slices the HTTP filter cache copies through never leak into its results. With
  a pool that holds truncated slices only, a write stores exactly the given filters, a read
  returns exactly the stored ones, and the pool keeps its property.
\<close>

lemma filter_cache_roundtrip:
  assumes "lru_reachable c" "pool_clean pl" "ttl c \<le> 0 \<or> now' - now \<le> ttl c"
  shows "case HTTPFilterLRUCache_Set c pl key filters now of (c', pl') \<Rightarrow>
      pool_clean pl' \<and>
      (case HTTPFilterLRUCache_Get c' pl' key now' of (r, c'', pl'') \<Rightarrow>
         r = Some filters \<and> pool_clean pl'')"
proof -
  obtain pl1 where 1: "HTTPFilterLRUCache_Set c pl key filters now = (Set c key filters now, pl1)" "pool_clean pl1"
    by (rule filter_cache_Set_eq [OF assms(2)])
  obtain pl2 where 2: "HTTPFilterLRUCache_Get (Set c key filters now) pl1 key now' =
      (fst (Get (Set c key filters now) key now'), snd (Get (Set c key filters now) key now'), pl2)" "pool_clean pl2"
    by (rule filter_cache_Get_eq [OF 1(2)])
  have "fst (Get (Set c key filters now) key now') = Some filters"
    by (rule lru.get_put_same [OF lru_reachable_inv [OF assms(1)] assms(3)])
  with 1 2 show ?thesis by simp
qed

end
