(* ===== verification/StringPool.thy ===== *)
theory StringPool
  imports Complex_Main Helpers "HOL-Library.Word"
begin

text \<open>
  The string pool of \<^verbatim>\<open>internal/store/string_pool.go\<close>. The counters are the machine words of
  the source. \<open>Intern\<close> looks the string up under the read lock, and on a miss takes the
  write lock and looks again; the two critical sections are \<open>Intern_fast\<close> and
  \<open>Intern_slow\<close>, and other goroutines may run between them.
\<close>

record StringPool =
  pool :: "(string, string) gomap"
  hits :: "64 word"
  misses :: "64 word"

definition defaultNamespace :: string where
  "defaultNamespace = ''default''"

definition NewStringPool :: StringPool where
  "NewStringPool = \<lparr>pool = [], hits = 0, misses = 0\<rparr>"

definition Intern_fast :: "StringPool \<Rightarrow> string \<Rightarrow> (string \<times> StringPool) option" where
  "Intern_fast sp s =
     (case map_of (pool sp) s of
        Some interned \<Rightarrow> Some (interned, sp\<lparr>hits := hits sp + 1\<rparr>)
      | None \<Rightarrow> None)"

definition Intern_slow :: "StringPool \<Rightarrow> string \<Rightarrow> string \<times> StringPool" where
  "Intern_slow sp s =
     (case map_of (pool sp) s of
        Some interned \<Rightarrow> (interned, sp\<lparr>hits := hits sp + 1\<rparr>)
      | None \<Rightarrow> (s, sp\<lparr>pool := gm_put s s (pool sp), misses := misses sp + 1\<rparr>))"

definition Intern :: "StringPool \<Rightarrow> string \<Rightarrow> string \<times> StringPool" where
  "Intern sp s =
     (if s = [] then ([], sp)
      else (case Intern_fast sp s of Some r \<Rightarrow> r | None \<Rightarrow> Intern_slow sp s))"

definition InternUID :: "StringPool \<Rightarrow> string \<Rightarrow> string \<times> StringPool" where
  "InternUID sp uid = (if uid = [] then (uid, sp) else Intern sp uid)"

definition InternNamespace :: "StringPool \<Rightarrow> string \<Rightarrow> string \<times> StringPool" where
  "InternNamespace sp ns =
     (if ns = defaultNamespace \<or> ns = [] then (ns, sp) else Intern sp ns)"

definition Size :: "StringPool \<Rightarrow> nat" where
  "Size sp = length (pool sp)"

definition Clear :: "StringPool \<Rightarrow> StringPool" where
  "Clear sp = sp\<lparr>pool := []\<rparr>"

text \<open>
  \<open>Cleanup\<close>: the loop copies entries until \<open>maxSize/2\<close> of them are taken. Go's division
  truncates towards zero, and a negative bound stops the loop before the first entry.
\<close>

definition trunc_half :: "int \<Rightarrow> int" where
  "trunc_half n = (if n < 0 then - ((- n) div 2) else n div 2)"

fun Cleanup_loop :: "int \<Rightarrow> (string, string) gomap \<Rightarrow> int \<Rightarrow> (string, string) gomap
    \<Rightarrow> (string, string) gomap" where
  "Cleanup_loop maxSize [] taken newPool = newPool"
| "Cleanup_loop maxSize ((k, v) # rest) taken newPool =
     (if taken \<ge> trunc_half maxSize then newPool
      else Cleanup_loop maxSize rest (taken + 1) (gm_put k v newPool))"

definition Cleanup :: "StringPool \<Rightarrow> int \<Rightarrow> nat \<times> StringPool" where
  "Cleanup sp maxSize =
     (if int (length (pool sp)) \<le> maxSize then (0, sp)
      else (let newPool = Cleanup_loop maxSize (pool sp) 0 [];
                removed = length (pool sp) - length newPool
            in (removed, sp\<lparr>pool := newPool\<rparr>)))"

record StringPoolStats =
  UniqueStrings :: nat
  MemoryBytes :: int
  Hits :: "64 word"
  Misses :: "64 word"
  HitRatio :: rat

text \<open>
  \<open>GetStats\<close>: a string costs its length plus the 16 bytes of its header. The ratio is the
  exact quotient of the two counters, before its rounding to a \<open>float64\<close>.
\<close>

definition GetStats :: "StringPool \<Rightarrow> StringPoolStats" where
  "GetStats sp =
     (let memoryBytes = (\<Sum>(s, v) \<leftarrow> pool sp. int (length s) + 16);
          total = hits sp + misses sp
      in \<lparr>UniqueStrings = length (pool sp), MemoryBytes = memoryBytes,
          Hits = hits sp, Misses = misses sp,
          HitRatio = (if total > 0 then of_nat (unat (hits sp)) / of_nat (unat total) else 0)\<rparr>)"

section \<open>The invariant: interning never changes a string\<close>

definition pool_inv :: "StringPool \<Rightarrow> bool" where
  "pool_inv sp \<longleftrightarrow> gm_wf (pool sp) \<and> (\<forall>(k, v) \<in> set (pool sp). v = k)"

lemma pool_inv_lookup: "pool_inv sp \<Longrightarrow> map_of (pool sp) s = Some v \<Longrightarrow> v = s"
  by (auto simp: pool_inv_def dest!: map_of_SomeD)

lemma set_gm_put: "set (gm_put k v m) \<subseteq> insert (k, v) (set m)"
  by (induction m) (auto simp: gm_put_def)

lemma pool_inv_put: "pool_inv sp \<Longrightarrow> pool_inv (sp\<lparr>pool := gm_put s s (pool sp), misses := n\<rparr>)"
  using set_gm_put [of s s "pool sp"] by (auto simp: pool_inv_def)

lemma pool_inv_New: "pool_inv NewStringPool"
  by (simp add: pool_inv_def NewStringPool_def)

lemma pool_inv_hits: "pool_inv sp \<Longrightarrow> pool_inv (sp\<lparr>hits := n\<rparr>)"
  by (simp add: pool_inv_def)

lemma Intern_slow_ok:
  "pool_inv sp \<Longrightarrow> fst (Intern_slow sp s) = s \<and> pool_inv (snd (Intern_slow sp s))"
  by (auto simp: Intern_slow_def pool_inv_put pool_inv_hits dest: pool_inv_lookup
      split: option.splits)

lemma Intern_fast_ok:
  "pool_inv sp \<Longrightarrow> Intern_fast sp s = Some (r, sp') \<Longrightarrow> r = s \<and> pool_inv sp'"
  by (auto simp: Intern_fast_def pool_inv_hits dest: pool_inv_lookup split: option.splits)

lemma Intern_ok: "pool_inv sp \<Longrightarrow> fst (Intern sp s) = s \<and> pool_inv (snd (Intern sp s))"
  using Intern_slow_ok [of sp s] Intern_fast_ok [of sp s]
  by (auto simp: Intern_def split: option.splits)

lemma InternUID_ok: "pool_inv sp \<Longrightarrow> fst (InternUID sp s) = s \<and> pool_inv (snd (InternUID sp s))"
  using Intern_ok [of sp s] by (auto simp: InternUID_def)

lemma InternNamespace_ok:
  "pool_inv sp \<Longrightarrow> fst (InternNamespace sp s) = s \<and> pool_inv (snd (InternNamespace sp s))"
  using Intern_ok [of sp s] by (auto simp: InternNamespace_def)

lemma Intern_in_pool:
  "s \<noteq> [] \<Longrightarrow> map_of (pool (snd (Intern sp s))) s \<noteq> None"
  by (auto simp: Intern_def Intern_fast_def Intern_slow_def split: option.splits)

lemma Cleanup_loop_sub:
  "(k, v) \<in> set (Cleanup_loop n m c acc) \<Longrightarrow> (k, v) \<in> set m \<union> set acc"
  by (induction n m c acc rule: Cleanup_loop.induct)
     (auto split: if_splits dest: set_gm_put [THEN subsetD])

lemma Cleanup_loop_wf: "gm_wf acc \<Longrightarrow> gm_wf (Cleanup_loop n m c acc)"
  by (induction n m c acc rule: Cleanup_loop.induct) auto

lemma Cleanup_ok: "pool_inv sp \<Longrightarrow> pool_inv (snd (Cleanup sp n))"
  by (auto simp: Cleanup_def Let_def pool_inv_def Cleanup_loop_wf dest!: Cleanup_loop_sub)

lemma length_gm_put: "length (gm_put k v m) \<le> Suc (length m)"
  by (induction m) (auto simp: gm_put_def)

lemma Cleanup_loop_length:
  "int (length acc) \<le> c \<Longrightarrow> int (length (Cleanup_loop n m c acc)) \<le> max (int (length acc)) (trunc_half n)"
proof (induction n m c acc rule: Cleanup_loop.induct)
  case (1 n c acc)
  then show ?case by simp
next
  case (2 n k v rest c acc)
  show ?case
  proof (cases "c \<ge> trunc_half n")
    case True
    then show ?thesis by simp
  next
    case False
    have "int (length (gm_put k v acc)) \<le> c + 1"
      using 2(2) length_gm_put [of k v acc] by linarith
    with 2(1) False
    have "int (length (Cleanup_loop n rest (c + 1) (gm_put k v acc)))
        \<le> max (int (length (gm_put k v acc))) (trunc_half n)" by simp
    also have "\<dots> \<le> max (int (length acc)) (trunc_half n)"
      using False \<open>int (length (gm_put k v acc)) \<le> c + 1\<close> by linarith
    finally show ?thesis using False by simp
  qed
qed

lemma Cleanup_bound:
  assumes "0 \<le> n"
  shows "int (Size (snd (Cleanup sp n))) \<le> n"
proof (cases "int (length (pool sp)) \<le> n")
  case True
  then show ?thesis by (simp add: Cleanup_def Size_def)
next
  case False
  have "int (length (Cleanup_loop n (pool sp) 0 [])) \<le> max 0 (trunc_half n)"
    using Cleanup_loop_length [of "[]" 0 n "pool sp"] by simp
  also have "\<dots> \<le> n" using assms by (simp add: trunc_half_def)
  finally show ?thesis using False by (simp add: Cleanup_def Size_def Let_def)
qed

section \<open>Interning under interference\<close>

text \<open>
  What other goroutines may do to the pool between the two critical sections of one call:
  run any of the pool's operations, any number of times.
\<close>

inductive pool_step :: "StringPool \<Rightarrow> StringPool \<Rightarrow> bool" where
  intern_slow: "pool_step sp (snd (Intern_slow sp s))"
| intern_fast: "Intern_fast sp s = Some (r, sp') \<Longrightarrow> pool_step sp sp'"
| clear: "pool_step sp (Clear sp)"
| cleanup: "pool_step sp (snd (Cleanup sp n))"

inductive pool_steps :: "StringPool \<Rightarrow> StringPool \<Rightarrow> bool" where
  pool_refl: "pool_steps sp sp"
| pool_trans: "pool_steps sp sp' \<Longrightarrow> pool_step sp' sp'' \<Longrightarrow> pool_steps sp sp''"

lemma pool_step_inv: "pool_step sp sp' \<Longrightarrow> pool_inv sp \<Longrightarrow> pool_inv sp'"
proof (induction rule: pool_step.induct)
  case (clear sp)
  then show ?case by (simp add: Clear_def pool_inv_def)
qed (auto simp: Intern_slow_ok Cleanup_ok dest: Intern_fast_ok)

lemma pool_steps_inv: "pool_steps sp sp' \<Longrightarrow> pool_inv sp \<Longrightarrow> pool_inv sp'"
  by (induction rule: pool_steps.induct) (auto intro: pool_step_inv)

text \<open>
  A call of Intern returns the string it was given, whatever other goroutines do to the
  pool between its look-up under the read lock and its work under the write lock, and the
  pool keeps its invariant. Interning is therefore invisible to the store's logic.
\<close>

lemma Intern_transparent:
  assumes "pool_inv sp" and "pool_steps sp sp'"
  shows "(\<forall>r sp''. Intern_fast sp s = Some (r, sp'') \<longrightarrow> r = s \<and> pool_inv sp'')
    \<and> fst (Intern_slow sp' s) = s \<and> pool_inv (snd (Intern_slow sp' s))"
  using assms Intern_slow_ok pool_steps_inv Intern_fast_ok by blast

end
