(* ===== verification/VSStatus.thy ===== *)
theory VSStatus
  imports Api
begin

text \<open>
  The status storage of \<^verbatim>\<open>internal/store/virtualservice_status.go\<close>: the outcome of the last
  rebuild for each virtual service, kept apart from the resource itself.
\<close>

record VirtualServiceStatus =
  Invalid :: bool
  Message :: string

definition zero_status :: VirtualServiceStatus where
  "zero_status = \<lparr>Invalid = False, Message = []\<rparr>"

record StatusStorage =
  statuses :: "(NamespacedName, VirtualServiceStatus) gomap"

definition NewStatusStorage :: StatusStorage where
  "NewStatusStorage = \<lparr>statuses = []\<rparr>"

definition SetStatus :: "StatusStorage \<Rightarrow> NamespacedName \<Rightarrow> bool \<Rightarrow> string \<Rightarrow> StatusStorage" where
  "SetStatus s nn invalid message =
     s\<lparr>statuses := gm_put nn \<lparr>Invalid = invalid, Message = message\<rparr> (statuses s)\<rparr>"

definition GetStatus :: "StatusStorage \<Rightarrow> NamespacedName \<Rightarrow> VirtualServiceStatus" where
  "GetStatus s nn = gm_get zero_status (statuses s) nn"

definition ApplyStatusToVS :: "StatusStorage \<Rightarrow> VirtualService option \<Rightarrow> VirtualService option" where
  "ApplyStatusToVS s vs =
     (case vs of
        None \<Rightarrow> None
      | Some v \<Rightarrow>
          (let status = GetStatus s (meta_nn (vs_meta v))
           in Some (v\<lparr>vs_Status := (vs_Status v)
                \<lparr>st_Invalid := Invalid status, st_Message := Message status\<rparr>\<rparr>)))"

definition DeleteStatus :: "StatusStorage \<Rightarrow> NamespacedName \<Rightarrow> StatusStorage" where
  "DeleteStatus s nn = s\<lparr>statuses := gm_del nn (statuses s)\<rparr>"

definition SetStatuses ::
    "StatusStorage \<Rightarrow> (NamespacedName, VirtualServiceStatus) gomap \<Rightarrow> StatusStorage" where
  "SetStatuses s new = s\<lparr>statuses := gm_copy_into new (statuses s)\<rparr>"

definition GetAllStatuses :: "StatusStorage \<Rightarrow> (NamespacedName, VirtualServiceStatus) gomap" where
  "GetAllStatuses s = gm_copy_into (statuses s) []"

definition StatusStorage_Copy :: "StatusStorage \<Rightarrow> StatusStorage" where
  "StatusStorage_Copy s = \<lparr>statuses = gm_copy_into (statuses s) []\<rparr>"

section \<open>Laws\<close>

definition status_wf :: "StatusStorage \<Rightarrow> bool" where
  "status_wf s \<longleftrightarrow> gm_wf (statuses s)"

lemma status_wf_ops:
  "status_wf NewStatusStorage"
  "status_wf s \<Longrightarrow> status_wf (SetStatus s nn i m)"
  "status_wf s \<Longrightarrow> status_wf (DeleteStatus s nn)"
  "status_wf s \<Longrightarrow> status_wf (SetStatuses s new)"
  "status_wf (StatusStorage_Copy s)"
  by (simp_all add: status_wf_def NewStatusStorage_def SetStatus_def DeleteStatus_def
      SetStatuses_def StatusStorage_Copy_def gm_wf_copy)

lemma GetStatus_SetStatus:
  "GetStatus (SetStatus s nn i m) nn' =
     (if nn' = nn then \<lparr>Invalid = i, Message = m\<rparr> else GetStatus s nn')"
  by (simp add: GetStatus_def SetStatus_def)

lemma GetStatus_DeleteStatus:
  "GetStatus (DeleteStatus s nn) nn' = (if nn' = nn then zero_status else GetStatus s nn')"
  by (simp add: GetStatus_def DeleteStatus_def gm_get_def)

lemma GetStatus_SetStatuses:
  "gm_wf new \<Longrightarrow> GetStatus (SetStatuses s new) nn =
     (case map_of new nn of Some st \<Rightarrow> st | None \<Rightarrow> GetStatus s nn)"
  by (simp add: GetStatus_def SetStatuses_def gm_get_def gm_copy_lookup map_add_def
      split: option.splits)

lemma GetStatus_Copy: "status_wf s \<Longrightarrow> GetStatus (StatusStorage_Copy s) nn = GetStatus s nn"
  by (simp add: GetStatus_def StatusStorage_Copy_def gm_get_def status_wf_def gm_copy_empty)

end
