(* ===== verification/DomainNames.thy ===== *)
theory DomainNames
  imports Prelude
begin

text \<open>
  Domain patterns: \<open>ValidateDomainPattern\<close> of \<^verbatim>\<open>internal/store/domain_secrets.go\<close>, and
  \<open>GetWildcardDomain\<close> and \<open>CheckAllDomainsUnique\<close> of
  \<^verbatim>\<open>internal/xds/resbuilder/utils/helpers.go\<close>.
\<close>

section \<open>Validation\<close>

text \<open>\<open>strings.Index\<close> for one byte: the position of its first occurrence, or -1.\<close>

fun str_index :: "char \<Rightarrow> string \<Rightarrow> int" where
  "str_index c [] = -1"
| "str_index c (x # xs) =
     (if x = c then 0 else (let i = str_index c xs in if i = -1 then -1 else i + 1))"

definition ValidateDomainPattern :: "string \<Rightarrow> string" where
  "ValidateDomainPattern domain =
     (if domain = [] then ''empty domain''
      else let asteriskIdx = str_index CHR ''*'' domain in
        if asteriskIdx = -1 then []
        else if asteriskIdx \<noteq> 0 then ''wildcard (*) must be at the start of domain''
        else if length domain < 3 then ''wildcard domain too short''
        else if domain ! 1 \<noteq> CHR ''.'' then
          ''wildcard must be followed by dot (e.g., *.example.com, not *example.com)''
        else if count_list domain CHR ''*'' > 1 then ''multiple wildcards not allowed''
        else let rest = drop 2 domain in
          if rest = [] \<or> rest = ''.'' then ''wildcard domain must have at least one label after *.''
          else [])"

text \<open>The patterns the source calls valid.\<close>

definition valid_pattern :: "string \<Rightarrow> bool" where
  "valid_pattern d \<longleftrightarrow>
     d \<noteq> [] \<and> (CHR ''*'' \<notin> set d \<or>
       (\<exists>rest. d = CHR ''*'' # CHR ''.'' # rest \<and> CHR ''*'' \<notin> set rest \<and> rest \<noteq> [] \<and> rest \<noteq> ''.''))"

lemma str_index_ge: "str_index c s \<ge> -1"
  by (induction s) (auto simp: Let_def)

lemma str_index_none: "str_index c s = -1 \<longleftrightarrow> c \<notin> set s"
proof (induction s)
  case (Cons x s)
  then show ?case using str_index_ge [of c s] by (auto simp: Let_def)
qed simp

lemma str_index_zero: "str_index c s = 0 \<longleftrightarrow> (\<exists>t. s = c # t)"
proof (cases s)
  case (Cons x t)
  then show ?thesis using str_index_ge [of c t] by (auto simp: Let_def)
qed simp

lemma ValidateDomainPattern_star:
  "ValidateDomainPattern (CHR ''*'' # CHR ''.'' # rest) = [] \<longleftrightarrow>
     rest \<noteq> [] \<and> rest \<noteq> ''.'' \<and> CHR ''*'' \<notin> set rest"
  by (cases rest)
     (auto simp: ValidateDomainPattern_def Let_def count_list_0_iff)

text \<open>
  ValidateDomainPattern accepts exactly the documented patterns: a non-empty name
  without an asterisk, or an asterisk and a dot in front of a non-empty rest that holds no
  further asterisk and is not a lone dot.
\<close>

lemma ValidateDomainPattern_spec: "ValidateDomainPattern d = [] \<longleftrightarrow> valid_pattern d"
proof (cases "CHR ''*'' \<in> set d")
  case False
  then show ?thesis
    by (auto simp: ValidateDomainPattern_def valid_pattern_def str_index_none Let_def)
next
  case star: True
  show ?thesis
  proof (cases "\<exists>rest. d = CHR ''*'' # CHR ''.'' # rest")
    case True
    then show ?thesis
      by (auto simp: valid_pattern_def ValidateDomainPattern_star)
  next
    case False
    have "ValidateDomainPattern d \<noteq> []"
    proof (cases "str_index CHR ''*'' d = 0")
      case True
      then obtain t where "d = CHR ''*'' # t" by (auto simp: str_index_zero)
      with False show ?thesis
        by (cases t) (auto simp: ValidateDomainPattern_def Let_def)
    next
      case nz: False
      with star show ?thesis
        by (auto simp: ValidateDomainPattern_def str_index_none Let_def)
    qed
    with False star show ?thesis by (auto simp: valid_pattern_def)
  qed
qed

section \<open>Wildcard domains\<close>

definition GetWildcardDomain :: "string \<Rightarrow> string" where
  "GetWildcardDomain domain =
     (if domain = [] then []
      else let parts = split_on CHR ''.'' domain in
        if length parts < 2 then []
        else if \<not> (\<exists>p \<in> set (tl parts). p \<noteq> []) then []
        else join_with ''.'' (''*'' # tl parts))"

lemma GetWildcardDomain_split:
  assumes "split_on CHR ''.'' d = w # ws" "\<exists>p \<in> set ws. p \<noteq> []"
  shows "GetWildcardDomain d = CHR ''*'' # CHR ''.'' # join_with ''.'' ws"
proof -
  obtain v vs where "ws = v # vs" using assms(2) by (cases ws) auto
  moreover have "d \<noteq> []" using assms calculation by auto
  ultimately show ?thesis using assms by (auto simp: GetWildcardDomain_def Let_def)
qed

lemma GetWildcardDomain_cases:
  assumes "GetWildcardDomain d \<noteq> []"
  obtains w ws where "split_on CHR ''.'' d = w # ws" "ws \<noteq> []" "\<exists>p \<in> set ws. p \<noteq> []"
    "GetWildcardDomain d = CHR ''*'' # CHR ''.'' # join_with ''.'' ws"
    "d = w @ CHR ''.'' # join_with ''.'' ws"
proof -
  obtain w ws where w: "split_on CHR ''.'' d = w # ws"
    by (cases "split_on CHR ''.'' d") auto
  from assms w have ne: "ws \<noteq> []" and p: "\<exists>p \<in> set ws. p \<noteq> []"
    by (auto simp: GetWildcardDomain_def Let_def split: if_splits)
  then obtain v vs where v: "ws = v # vs" by (cases ws) auto
  have "GetWildcardDomain d = CHR ''*'' # CHR ''.'' # join_with ''.'' ws"
    by (rule GetWildcardDomain_split [OF w p])
  moreover have "d = w @ CHR ''.'' # join_with ''.'' ws"
    using join_split [of "CHR ''.''" d] w v by simp
  ultimately show ?thesis using that w ne p by blast
qed

lemma join_dots_nonempty:
  assumes "\<exists>p \<in> set ws. p \<noteq> []" and "\<forall>w \<in> set ws. CHR ''.'' \<notin> set w"
  shows "join_with ''.'' ws \<noteq> [] \<and> join_with ''.'' ws \<noteq> ''.''"
proof -
  have "ws \<noteq> []" using assms(1) by auto
  then have "split_on CHR ''.'' (join_with ''.'' ws) = ws"
    using assms(2) by (simp add: split_join)
  with assms(1) show ?thesis by auto
qed

lemma split_tail_free: "split_on c d = w # ws \<Longrightarrow> \<forall>v \<in> set ws. c \<notin> set v"
  using split_on_parts_free [of _ c d] by auto

lemma set_join_with: "c \<in> set (join_with sep ws) \<Longrightarrow> c \<in> set sep \<or> (\<exists>w \<in> set ws. c \<in> set w)"
  by (induction sep ws rule: join_with.induct) auto

text \<open>
  Where GetWildcardDomain produces a wildcard at all, it replaces exactly the first label
  of the domain by an asterisk, the result is a fixed point of the function, and for a domain
  without an asterisk the result passes ValidateDomainPattern.
\<close>

lemma GetWildcardDomain_spec:
  assumes "GetWildcardDomain d \<noteq> []"
  shows "(\<exists>label rest. d = label @ CHR ''.'' # rest \<and> CHR ''.'' \<notin> set label
            \<and> GetWildcardDomain d = CHR ''*'' # CHR ''.'' # rest)
    \<and> GetWildcardDomain (GetWildcardDomain d) = GetWildcardDomain d
    \<and> (CHR ''*'' \<notin> set d \<longrightarrow> ValidateDomainPattern (GetWildcardDomain d) = [])"
proof -
  obtain w ws where w: "split_on CHR ''.'' d = w # ws" "ws \<noteq> []" "\<exists>p \<in> set ws. p \<noteq> []"
    and g: "GetWildcardDomain d = CHR ''*'' # CHR ''.'' # join_with ''.'' ws"
    and d: "d = w @ CHR ''.'' # join_with ''.'' ws"
    by (rule GetWildcardDomain_cases [OF assms])
  have free: "\<forall>v \<in> set ws. CHR ''.'' \<notin> set v" and "CHR ''.'' \<notin> set w"
    using split_tail_free [OF w(1)] split_on_parts_free [of w "CHR ''.''" d] w(1) by auto
  moreover have "split_on CHR ''.'' (GetWildcardDomain d) = ''*'' # ws"
    using w(2) free by (simp add: g split_join)
  then have "GetWildcardDomain (GetWildcardDomain d) = GetWildcardDomain d"
    using GetWildcardDomain_split w(3) g by metis
  moreover have "CHR ''*'' \<notin> set (join_with ''.'' ws)" if "CHR ''*'' \<notin> set d"
    using that by (simp add: d)
  then have "ValidateDomainPattern (GetWildcardDomain d) = []" if "CHR ''*'' \<notin> set d"
    using that join_dots_nonempty [OF w(3) free] unfolding g ValidateDomainPattern_star by blast
  ultimately show ?thesis using d g by blast
qed

section \<open>Unique domains\<close>

text \<open>
  \<open>CheckAllDomainsUnique\<close>: empty entries are skipped; the first entry seen twice is the
  error.
\<close>

fun CheckAllDomainsUnique_loop :: "string list \<Rightarrow> strset \<Rightarrow> unit res" where
  "CheckAllDomainsUnique_loop [] seen = Inr ()"
| "CheckAllDomainsUnique_loop (domain # rest) seen =
     (if domain = [] then CheckAllDomainsUnique_loop rest seen
      else if gm_has seen domain then Inl (Err (''duplicate domain found: '' @ domain))
      else CheckAllDomainsUnique_loop rest (gm_put domain () seen))"

definition CheckAllDomainsUnique :: "string list \<Rightarrow> unit res" where
  "CheckAllDomainsUnique domains =
     (if length domains \<le> 1 then Inr () else CheckAllDomainsUnique_loop domains [])"

lemma CheckAllDomainsUnique_loop_ok:
  "CheckAllDomainsUnique_loop ds seen = Inr () \<longleftrightarrow>
     distinct (filter (\<lambda>d. d \<noteq> []) ds) \<and> (\<forall>d \<in> set ds. d \<noteq> [] \<longrightarrow> \<not> gm_has seen d)"
  by (induction ds seen rule: CheckAllDomainsUnique_loop.induct)
     (auto simp: gm_has_iff gm_keys_put)

lemma CheckAllDomainsUnique_ok:
  "CheckAllDomainsUnique ds = Inr () \<longleftrightarrow> distinct (filter (\<lambda>d. d \<noteq> []) ds)"
proof (cases "length ds \<le> 1")
  case True
  then show ?thesis by (cases ds) (auto simp: CheckAllDomainsUnique_def)
next
  case False
  then show ?thesis
    by (simp add: CheckAllDomainsUnique_def CheckAllDomainsUnique_loop_ok gm_has_def)
qed

end
