(* ===== verification/DomainSecrets.thy ===== *)
theory DomainSecrets
  imports Api DomainNames "HOL-Library.Product_Lexorder"
begin

text \<open>
  The domain-to-secret index of \<^verbatim>\<open>internal/store/domain_secrets.go\<close>. An instant is an integer
  number of nanoseconds, 0 being Go's zero \<open>time.Time\<close>. \<open>time.Now()\<close> is the argument
  \<open>now\<close> of the functions that read the clock. The PEM and X.509 parsers are the fields of
  \<open>x509lib\<close>.
\<close>

type_synonym time = int

section \<open>The index\<close>

record SecretDomainEntry =
  e_NamespacedName :: NamespacedName
  e_NotAfter :: time

type_synonym entries = "(NamespacedName, SecretDomainEntry) gomap"
type_synonym DomainSecretsIndex = "(string, entries) gomap"

definition NewDomainSecretsIndex :: DomainSecretsIndex where
  "NewDomainSecretsIndex = []"

definition Add :: "DomainSecretsIndex \<Rightarrow> string \<Rightarrow> SecretDomainEntry \<Rightarrow> DomainSecretsIndex" where
  "Add idx domain entry =
     (let idx = (if map_of idx domain = None then gm_put domain [] idx else idx)
      in gm_put domain (gm_put (e_NamespacedName entry) entry (gm_get [] idx domain)) idx)"

definition Remove :: "DomainSecretsIndex \<Rightarrow> string \<Rightarrow> NamespacedName \<Rightarrow> DomainSecretsIndex" where
  "Remove idx domain nn =
     (case map_of idx domain of
        None \<Rightarrow> idx
      | Some es \<Rightarrow>
          (let es' = gm_del nn es; idx = gm_put domain es' idx
           in if length es' = 0 then gm_del domain idx else idx))"

section \<open>Choosing a secret\<close>

datatype validityPriority =
  validityNotFound | validityExpired | validityUnknown | validityValid

primrec prio :: "validityPriority \<Rightarrow> nat" where
  "prio validityNotFound = 0"
| "prio validityExpired = 1"
| "prio validityUnknown = 2"
| "prio validityValid = 3"

lemma prio_inject [simp]: "prio a = prio b \<longleftrightarrow> a = b"
  by (cases a; cases b) simp_all

lemma prio_le: "prio a \<le> 3"
  by (cases a) simp_all

instantiation validityPriority :: linorder
begin

definition less_eq_validityPriority :: "validityPriority \<Rightarrow> validityPriority \<Rightarrow> bool" where
  "less_eq_validityPriority a b \<longleftrightarrow> prio a \<le> prio b"

definition less_validityPriority :: "validityPriority \<Rightarrow> validityPriority \<Rightarrow> bool" where
  "less_validityPriority a b \<longleftrightarrow> prio a < prio b"

instance
  by standard (auto simp: less_eq_validityPriority_def less_validityPriority_def)

end

lemmas validity_order = less_eq_validityPriority_def less_validityPriority_def

definition getValidityFromEntry :: "SecretDomainEntry \<Rightarrow> time \<Rightarrow> validityPriority" where
  "getValidityFromEntry entry now =
     (if e_NotAfter entry = 0 then validityUnknown
      else if e_NotAfter entry > now then validityValid
      else validityExpired)"

record candidateEntry =
  ce_nn :: NamespacedName
  ce_validity :: validityPriority
  ce_isSameNs :: bool

fun collect_candidates ::
    "(NamespacedName, Secret) gomap \<Rightarrow> string \<Rightarrow> time \<Rightarrow> entries \<Rightarrow> candidateEntry list" where
  "collect_candidates secrets preferredNamespace now [] = []"
| "collect_candidates secrets preferredNamespace now ((nn, entry) # rest) =
     (if map_of secrets nn = None then collect_candidates secrets preferredNamespace now rest
      else \<lparr>ce_nn = nn,
            ce_validity =
              (if e_NotAfter entry = 0 then validityUnknown
               else if e_NotAfter entry > now then validityValid
               else validityExpired),
            ce_isSameNs = (Namespace nn = preferredNamespace)\<rparr>
           # collect_candidates secrets preferredNamespace now rest)"

definition candidate_less :: "candidateEntry \<Rightarrow> candidateEntry \<Rightarrow> bool" where
  "candidate_less a b =
     (if ce_validity a \<noteq> ce_validity b then ce_validity a > ce_validity b
      else if ce_isSameNs a \<noteq> ce_isSameNs b then ce_isSameNs a
      else if Namespace (ce_nn a) \<noteq> Namespace (ce_nn b)
        then Namespace (ce_nn a) < Namespace (ce_nn b)
      else Name (ce_nn a) < Name (ce_nn b))"

definition GetBestSecretWithValidity ::
    "DomainSecretsIndex \<Rightarrow> string \<Rightarrow> string \<Rightarrow> (NamespacedName, Secret) gomap \<Rightarrow> time
      \<Rightarrow> Secret option \<times> validityPriority" where
  "GetBestSecretWithValidity idx domain preferredNamespace secrets now =
     (case map_of idx domain of
        None \<Rightarrow> (None, validityNotFound)
      | Some [] \<Rightarrow> (None, validityNotFound)
      | Some [(nn, entry)] \<Rightarrow>
          (case map_of secrets nn of
             None \<Rightarrow> (None, validityNotFound)
           | Some secret \<Rightarrow> (Some secret, getValidityFromEntry entry now))
      | Some es \<Rightarrow>
          (let candidates = collect_candidates secrets preferredNamespace now es
           in if candidates = [] then (None, validityNotFound)
              else let best = hd (sort_slice candidate_less candidates)
                   in (map_of secrets (ce_nn best), ce_validity best)))"

definition GetBestSecret ::
    "DomainSecretsIndex \<Rightarrow> string \<Rightarrow> string \<Rightarrow> (NamespacedName, Secret) gomap \<Rightarrow> time \<Rightarrow> Secret option" where
  "GetBestSecret idx domain preferredNamespace secrets now =
     fst (GetBestSecretWithValidity idx domain preferredNamespace secrets now)"

definition GetAnySecret ::
    "DomainSecretsIndex \<Rightarrow> string \<Rightarrow> (NamespacedName, Secret) gomap \<Rightarrow> time \<Rightarrow> Secret option" where
  "GetAnySecret idx domain secrets now = GetBestSecret idx domain [] secrets now"

definition validityToString :: "validityPriority \<Rightarrow> string" where
  "validityToString v =
     (case v of
        validityValid \<Rightarrow> ''valid''
      | validityExpired \<Rightarrow> ''expired''
      | validityUnknown \<Rightarrow> ''unknown''
      | validityNotFound \<Rightarrow> ''not_found'')"

section \<open>The expiry of a certificate chain\<close>

record x509lib =
  pem_Decode :: "bytes \<Rightarrow> ((string \<times> bytes) \<times> bytes) option"
  x509_ParseCertificate :: "bytes \<Rightarrow> time option"

definition TLSCertKey :: string where
  "TLSCertKey = ''tls.crt''"

text \<open>
  The loop over the PEM blocks. Each turn spends one unit of fuel; running out is
  \<^const>\<open>None\<close>. A block of another type, or one that does not parse, is skipped.
\<close>

fun NotAfter_loop :: "x509lib \<Rightarrow> nat \<Rightarrow> bytes \<Rightarrow> time \<Rightarrow> time option" where
  "NotAfter_loop lib 0 rest minNotAfter = None"
| "NotAfter_loop lib (Suc fuel) rest minNotAfter =
     (case pem_Decode lib rest of
        None \<Rightarrow> Some minNotAfter
      | Some ((typ, block), remaining) \<Rightarrow>
          if typ \<noteq> ''CERTIFICATE'' then NotAfter_loop lib fuel remaining minNotAfter
          else (case x509_ParseCertificate lib block of
              None \<Rightarrow> NotAfter_loop lib fuel remaining minNotAfter
            | Some notAfter \<Rightarrow>
                NotAfter_loop lib fuel remaining
                  (if minNotAfter = 0 \<or> notAfter < minNotAfter then notAfter else minNotAfter)))"

definition ParseCertificateNotAfter_opt :: "x509lib \<Rightarrow> Secret option \<Rightarrow> time option" where
  "ParseCertificateNotAfter_opt lib secret =
     (case secret of
        None \<Rightarrow> Some 0
      | Some s \<Rightarrow>
          (case map_of (nilmap (s_Data s)) TLSCertKey of
             None \<Rightarrow> Some 0
           | Some certData \<Rightarrow>
               if length certData = 0 then Some 0
               else NotAfter_loop lib (Suc (length certData)) certData 0))"

definition ParseCertificateNotAfter :: "x509lib \<Rightarrow> Secret option \<Rightarrow> time" where
  "ParseCertificateNotAfter lib secret =
     (case ParseCertificateNotAfter_opt lib secret of None \<Rightarrow> 0 | Some t \<Rightarrow> t)"

text \<open>What \<open>pem.Decode\<close> documents: what remains after a block is shorter than the input.\<close>

definition pem_shrinks :: "x509lib \<Rightarrow> bool" where
  "pem_shrinks lib \<longleftrightarrow> (\<forall>b blk r. pem_Decode lib b = Some (blk, r) \<longrightarrow> length r < length b)"

section \<open>Facts about the choice\<close>

text \<open>The rank of an entry: smaller is better.\<close>

definition rank :: "string \<Rightarrow> time \<Rightarrow> NamespacedName \<Rightarrow> SecretDomainEntry
    \<Rightarrow> nat \<times> bool \<times> string \<times> string" where
  "rank pref now nn e =
     (3 - prio (getValidityFromEntry e now), Namespace nn \<noteq> pref, Namespace nn, Name nn)"

definition ckey :: "candidateEntry \<Rightarrow> nat \<times> bool \<times> string \<times> string" where
  "ckey c = (3 - prio (ce_validity c), \<not> ce_isSameNs c, Namespace (ce_nn c), Name (ce_nn c))"

lemma candidate_less_ckey: "candidate_less a b \<longleftrightarrow> ckey a < ckey b"
proof -
  have "3 - prio (ce_validity a) < 3 - prio (ce_validity b) \<longleftrightarrow> ce_validity a > ce_validity b"
    using prio_le [of "ce_validity a"] prio_le [of "ce_validity b"]
    by (auto simp: validity_order)
  moreover have "3 - prio (ce_validity a) = 3 - prio (ce_validity b) \<longleftrightarrow> ce_validity a = ce_validity b"
    using prio_le [of "ce_validity a"] prio_le [of "ce_validity b"]
    by (metis diff_diff_cancel prio_inject)
  ultimately show ?thesis
    by (auto simp: candidate_less_def ckey_def less_prod_simp)
qed

definition mk_candidate :: "string \<Rightarrow> time \<Rightarrow> NamespacedName \<times> SecretDomainEntry \<Rightarrow> candidateEntry" where
  "mk_candidate pref now p =
     \<lparr>ce_nn = fst p, ce_validity = getValidityFromEntry (snd p) now,
      ce_isSameNs = (Namespace (fst p) = pref)\<rparr>"

lemma collect_candidates_eq:
  "collect_candidates secrets pref now es =
     map (mk_candidate pref now) (filter (\<lambda>p. map_of secrets (fst p) \<noteq> None) es)"
  by (induction es) (auto simp: mk_candidate_def getValidityFromEntry_def)

lemma ckey_mk_candidate: "ckey (mk_candidate pref now p) = rank pref now (fst p) (snd p)"
  by (simp add: ckey_def mk_candidate_def rank_def)

lemma rank_inject: "rank pref now nn e = rank pref now nn' e' \<Longrightarrow> nn = nn'"
  by (simp add: rank_def)

text \<open>The choice without the special case for one entry.\<close>

definition best_of ::
    "entries \<Rightarrow> string \<Rightarrow> (NamespacedName, Secret) gomap \<Rightarrow> time \<Rightarrow> Secret option \<times> validityPriority" where
  "best_of es pref secrets now =
     (let cs = sort_slice candidate_less (collect_candidates secrets pref now es)
      in if cs = [] then (None, validityNotFound)
         else (map_of secrets (ce_nn (hd cs)), ce_validity (hd cs)))"

lemma GetBest_best_of:
  "GetBestSecretWithValidity idx domain pref secrets now =
     best_of (gm_get [] idx domain) pref secrets now"
  by (auto simp: GetBestSecretWithValidity_def best_of_def gm_get_def Let_def
      getValidityFromEntry_def split: option.splits list.splits prod.splits)

lemma candidates_inj:
  "gm_wf es \<Longrightarrow> inj_on ckey (set (collect_candidates secrets pref now es))"
  by (auto simp: collect_candidates_eq inj_on_def ckey_mk_candidate gm_wf_def
      dest!: rank_inject dest: eq_key_imp_eq_value)

lemma best_of_perm:
  assumes "gm_wf es" "gm_wf es'" "map_of es = map_of es'"
  shows "best_of es pref secrets now = best_of es' pref secrets now"
proof -
  have "mset (collect_candidates secrets pref now es) = mset (collect_candidates secrets pref now es')"
    using gm_same_mset [OF assms] by (simp add: collect_candidates_eq mset_filter)
  then have "sort_slice candidate_less (collect_candidates secrets pref now es)
      = sort_slice candidate_less (collect_candidates secrets pref now es')"
    by (intro sort_slice_perm [of candidate_less ckey] candidate_less_ckey candidates_inj [OF assms(1)])
  then show ?thesis by (simp add: best_of_def)
qed

lemma best_of_none:
  "best_of es pref secrets now = (None, validityNotFound) \<longleftrightarrow>
     (\<forall>(nn, e) \<in> set es. map_of secrets nn = None)"
proof -
  let ?cs = "collect_candidates secrets pref now es"
  have "ce_nn c \<in> dom (map_of secrets)" if "c \<in> set ?cs" for c
    using that by (auto simp: collect_candidates_eq mk_candidate_def)
  moreover have "hd (sort_slice candidate_less ?cs) \<in> set ?cs" if "?cs \<noteq> []"
    using that by (metis hd_in_set set_sort_slice sort_slice_Nil_iff)
  moreover have "?cs = [] \<longleftrightarrow> (\<forall>(nn, e) \<in> set es. map_of secrets nn = None)"
    by (auto simp: collect_candidates_eq filter_empty_conv)
  ultimately show ?thesis by (fastforce simp: best_of_def Let_def)
qed

lemma best_of_None_v: "best_of es pref secrets now = (None, v) \<Longrightarrow> v = validityNotFound"
proof -
  let ?cs = "collect_candidates secrets pref now es"
  have "ce_nn c \<in> dom (map_of secrets)" if "c \<in> set ?cs" for c
    using that by (auto simp: collect_candidates_eq mk_candidate_def)
  moreover have "hd (sort_slice candidate_less ?cs) \<in> set ?cs" if "?cs \<noteq> []"
    using that by (metis hd_in_set set_sort_slice sort_slice_Nil_iff)
  ultimately show "best_of es pref secrets now = (None, v) \<Longrightarrow> v = validityNotFound"
    by (auto simp: best_of_def Let_def split: if_splits)
qed

lemma best_of_some:
  assumes wf: "gm_wf es" and "best_of es pref secrets now = (Some s, v)"
  shows "\<exists>nn e. map_of es nn = Some e \<and> map_of secrets nn = Some s \<and> v = getValidityFromEntry e now
    \<and> (\<forall>nn' e'. map_of es nn' = Some e' \<and> map_of secrets nn' \<noteq> None \<longrightarrow>
          rank pref now nn e \<le> rank pref now nn' e')"
proof -
  let ?cs = "collect_candidates secrets pref now es"
  let ?b = "hd (sort_slice candidate_less ?cs)"
  from assms(2) have ne: "?cs \<noteq> []" and s: "map_of secrets (ce_nn ?b) = Some s" and v: "v = ce_validity ?b"
    by (auto simp: best_of_def Let_def split: if_splits)
  from ne have "?b \<in> set ?cs"
    by (metis hd_in_set set_sort_slice sort_slice_Nil_iff)
  then obtain nn e where p: "(nn, e) \<in> set es" "?b = mk_candidate pref now (nn, e)"
    by (auto simp: collect_candidates_eq)
  have "rank pref now nn e \<le> rank pref now nn' e'"
    if "map_of es nn' = Some e'" "map_of secrets nn' \<noteq> None" for nn' e'
  proof -
    have "mk_candidate pref now (nn', e') \<in> set ?cs"
      using that wf by (auto simp: collect_candidates_eq gm_mem_iff [symmetric])
    from sort_slice_hd_min [of candidate_less ckey, OF candidate_less_ckey this]
    show ?thesis by (simp add: p(2) ckey_mk_candidate)
  qed
  then show ?thesis
    using p s v wf by (intro exI [of _ nn] exI [of _ e]) (auto simp: mk_candidate_def gm_mem_iff)
qed

section \<open>The index as a two-level map\<close>

definition idx_lookup :: "DomainSecretsIndex \<Rightarrow> string \<Rightarrow> NamespacedName \<Rightarrow> SecretDomainEntry option" where
  "idx_lookup idx domain nn = map_of (gm_get [] idx domain) nn"

definition idx_wf :: "DomainSecretsIndex \<Rightarrow> bool" where
  "idx_wf idx \<longleftrightarrow> gm_wf idx \<and>
     (\<forall>d es. map_of idx d = Some es \<longrightarrow> gm_wf es \<and> es \<noteq> [])"

lemma idx_wf_inner: "idx_wf idx \<Longrightarrow> gm_wf (gm_get [] idx d)"
  by (auto simp: idx_wf_def gm_get_def split: option.splits)

lemma gm_put_not_Nil [simp]: "gm_put k v m \<noteq> []"
  by (cases m) (auto simp: gm_put_def)

lemma idx_lookup_Add:
  "idx_lookup (Add idx d e) d' nn' =
     (if d' = d \<and> nn' = e_NamespacedName e then Some e else idx_lookup idx d' nn')"
  by (auto simp: idx_lookup_def Add_def Let_def gm_get_def split: option.splits)

lemma idx_wf_Add: "idx_wf idx \<Longrightarrow> idx_wf (Add idx d e)"
  by (auto simp: idx_wf_def Add_def Let_def gm_get_def split: option.splits)

lemma idx_lookup_Remove:
  "idx_wf idx \<Longrightarrow> idx_lookup (Remove idx d nn) d' nn' =
     (if d' = d \<and> nn' = nn then None else idx_lookup idx d' nn')"
proof (cases "map_of idx d")
  case None
  then show ?thesis by (auto simp: idx_lookup_def Remove_def gm_get_def)
next
  case (Some es)
  have "map_of es nn' = None" if "gm_del nn es = []" "nn' \<noteq> nn"
    using gm_del_lookup [of nn es] that by (metis fun_upd_other map_of.simps(1))
  with Some show ?thesis
    by (auto simp: idx_lookup_def Remove_def gm_get_def Let_def)
qed

lemma idx_wf_Remove: "idx_wf idx \<Longrightarrow> idx_wf (Remove idx d nn)"
  by (auto simp: idx_wf_def Remove_def Let_def split: option.splits)

lemma idx_has_domain: "idx_wf idx \<Longrightarrow> map_of idx d \<noteq> None \<longleftrightarrow> (\<exists>nn e. idx_lookup idx d nn = Some e)"
proof -
  assume wf: "idx_wf idx"
  show ?thesis
  proof (cases "map_of idx d")
    case None
    then show ?thesis by (simp add: idx_lookup_def gm_get_def)
  next
    case (Some es)
    with wf have "es \<noteq> []" by (simp add: idx_wf_def)
    then obtain p where "p \<in> set es" by (meson hd_in_set)
    then have "map_of es (fst p) \<noteq> None" by (metis map_of_eq_None_iff imageI)
    with Some show ?thesis by (auto simp: idx_lookup_def gm_get_def)
  qed
qed

text \<open>
  The interface the store uses: an index from pairs of a domain and a secret's name, with the
  loops that add or remove one secret under a list of domains.
\<close>

locale domain_index =
  fixes look :: "'i \<Rightarrow> string \<Rightarrow> NamespacedName \<Rightarrow> SecretDomainEntry option"
    and add :: "'i \<Rightarrow> string \<Rightarrow> SecretDomainEntry \<Rightarrow> 'i"
    and remove :: "'i \<Rightarrow> string \<Rightarrow> NamespacedName \<Rightarrow> 'i"
    and invar :: "'i \<Rightarrow> bool"
  assumes look_add: "look (add i d e) d' nn' =
      (if d' = d \<and> nn' = e_NamespacedName e then Some e else look i d' nn')"
    and look_remove: "invar i \<Longrightarrow> look (remove i d nn) d' nn' =
      (if d' = d \<and> nn' = nn then None else look i d' nn')"
    and invar_add: "invar i \<Longrightarrow> invar (add i d e)"
    and invar_remove: "invar i \<Longrightarrow> invar (remove i d nn)"
begin

lemma look_add_all:
  "look (fold (\<lambda>d i. add i d e) ds i) d' nn' =
     (if d' \<in> set ds \<and> nn' = e_NamespacedName e then Some e else look i d' nn')"
  by (induction ds arbitrary: i) (auto simp: look_add)

lemma invar_add_all: "invar i \<Longrightarrow> invar (fold (\<lambda>d i. add i d e) ds i)"
  by (induction ds arbitrary: i) (auto simp: invar_add)

lemma invar_remove_all: "invar i \<Longrightarrow> invar (fold (\<lambda>d i. remove i d nn) ds i)"
  by (induction ds arbitrary: i) (auto simp: invar_remove)

lemma look_remove_all:
  "invar i \<Longrightarrow> look (fold (\<lambda>d i. remove i d nn) ds i) d' nn' =
     (if d' \<in> set ds \<and> nn' = nn then None else look i d' nn')"
  by (induction ds arbitrary: i) (auto simp: look_remove invar_remove)

end

interpretation di: domain_index idx_lookup Add Remove idx_wf
  by unfold_locales (simp_all add: idx_lookup_Add idx_lookup_Remove idx_wf_Add idx_wf_Remove)


section \<open>Main facts\<close>

text \<open>
  C5: the secret chosen for a domain is optimal and does not depend on the order in which the
  map is walked. Among the entries of the domain whose secret exists, GetBestSecretWithValidity
  returns one of least rank (valid before unknown before expired, then the preferred
  namespace, then the name in alphabetical order) together with its validity; it answers
  not-found exactly when no such entry exists; and any other iteration order of the same map
  gives the same answer.
\<close>

theorem GetBestSecretWithValidity_optimal:
  assumes "idx_wf idx"
  shows "(GetBestSecretWithValidity idx d pref secrets now = (None, validityNotFound) \<longleftrightarrow>
            (\<forall>nn e. idx_lookup idx d nn = Some e \<longrightarrow> map_of secrets nn = None))
    \<and> (\<forall>s v. GetBestSecretWithValidity idx d pref secrets now = (Some s, v) \<longrightarrow>
          (\<exists>nn e. idx_lookup idx d nn = Some e \<and> map_of secrets nn = Some s
             \<and> v = getValidityFromEntry e now
             \<and> (\<forall>nn' e'. idx_lookup idx d nn' = Some e' \<and> map_of secrets nn' \<noteq> None \<longrightarrow>
                   rank pref now nn e \<le> rank pref now nn' e')))
    \<and> (\<forall>idx'. idx_wf idx' \<and> idx_lookup idx' = idx_lookup idx \<longrightarrow>
          GetBestSecretWithValidity idx' d pref secrets now
            = GetBestSecretWithValidity idx d pref secrets now)"
proof (intro conjI allI impI)
  have wf: "gm_wf (gm_get [] idx d)" by (rule idx_wf_inner [OF assms])
  show "GetBestSecretWithValidity idx d pref secrets now = (None, validityNotFound) \<longleftrightarrow>
      (\<forall>nn e. idx_lookup idx d nn = Some e \<longrightarrow> map_of secrets nn = None)"
    using wf by (auto simp: GetBest_best_of best_of_none idx_lookup_def gm_mem_iff)
  fix s v
  assume "GetBestSecretWithValidity idx d pref secrets now = (Some s, v)"
  then show "\<exists>nn e. idx_lookup idx d nn = Some e \<and> map_of secrets nn = Some s
      \<and> v = getValidityFromEntry e now
      \<and> (\<forall>nn' e'. idx_lookup idx d nn' = Some e' \<and> map_of secrets nn' \<noteq> None \<longrightarrow>
            rank pref now nn e \<le> rank pref now nn' e')"
    unfolding GetBest_best_of idx_lookup_def by (rule best_of_some [OF wf])
next
  fix idx' assume "idx_wf idx' \<and> idx_lookup idx' = idx_lookup idx"
  then show "GetBestSecretWithValidity idx' d pref secrets now
      = GetBestSecretWithValidity idx d pref secrets now"
    using assms by (auto simp: GetBest_best_of idx_lookup_def fun_eq_iff
        intro!: best_of_perm idx_wf_inner)
qed

definition sample_secret :: "string \<Rightarrow> string \<Rightarrow> Secret" where
  "sample_secret ns n = \<lparr>s_meta = empty_meta\<lparr>m_Namespace := ns, m_Name := n\<rparr>, s_Data = None\<rparr>"

definition sample_idx :: DomainSecretsIndex where
  "sample_idx =
     Add (Add [] ''a.com'' \<lparr>e_NamespacedName = NN ''x'' ''old'', e_NotAfter = 5\<rparr>)
       ''a.com'' \<lparr>e_NamespacedName = NN ''y'' ''new'', e_NotAfter = 50\<rparr>"

definition sample_secrets :: "(NamespacedName, Secret) gomap" where
  "sample_secrets = [(NN ''x'' ''old'', sample_secret ''x'' ''old''),
     (NN ''y'' ''new'', sample_secret ''y'' ''new'')]"

lemma sample_idx_wf: "idx_wf sample_idx"
  unfolding sample_idx_def by (intro idx_wf_Add) (simp add: idx_wf_def)

theorem GetBestSecretWithValidity_optimal_witness:
  "idx_wf sample_idx \<and>
   GetBestSecretWithValidity sample_idx ''a.com'' ''x'' sample_secrets 10
     = (Some (sample_secret ''y'' ''new''), validityValid) \<and>
   (\<exists>nn e. idx_lookup sample_idx ''a.com'' nn = Some e
      \<and> map_of sample_secrets nn = Some (sample_secret ''y'' ''new'')
      \<and> validityValid = getValidityFromEntry e 10)"
proof -
  have r: "GetBestSecretWithValidity sample_idx ''a.com'' ''x'' sample_secrets 10
      = (Some (sample_secret ''y'' ''new''), validityValid)"
    by (simp add: GetBestSecretWithValidity_def sample_idx_def sample_secrets_def Add_def gm_put_def
        gm_get_def candidate_less_def validity_order)
  with GetBestSecretWithValidity_optimal [OF sample_idx_wf, of "''a.com''" "''x''" sample_secrets 10]
  show ?thesis using sample_idx_wf by blast
qed

section \<open>The loop over a chain\<close>

inductive pem_chain :: "x509lib \<Rightarrow> bytes \<Rightarrow> (string \<times> bytes) list \<Rightarrow> bool" for lib where
  pem_end: "pem_Decode lib b = None \<Longrightarrow> pem_chain lib b []"
| pem_block: "pem_Decode lib b = Some (blk, r) \<Longrightarrow> pem_chain lib r bs \<Longrightarrow> pem_chain lib b (blk # bs)"

inductive_cases pem_chain_NilE: "pem_chain lib b []"
inductive_cases pem_chain_ConsE: "pem_chain lib b (blk # bs)"

definition chain_times :: "x509lib \<Rightarrow> (string \<times> bytes) list \<Rightarrow> time list" where
  "chain_times lib bs =
     List.map_filter (\<lambda>(typ, blk). if typ = ''CERTIFICATE'' then x509_ParseCertificate lib blk else None) bs"

definition min_time :: "time \<Rightarrow> time list \<Rightarrow> time" where
  "min_time m ts = fold (\<lambda>t m. if m = 0 \<or> t < m then t else m) ts m"

lemma chain_times_Cons:
  "chain_times lib ((typ, blk) # bs) =
     (if typ = ''CERTIFICATE''
      then (case x509_ParseCertificate lib blk of None \<Rightarrow> [] | Some t \<Rightarrow> [t]) else [])
     @ chain_times lib bs"
  by (auto simp: chain_times_def map_filter_simps split: option.splits)

lemma NotAfter_loop_enough:
  assumes "pem_shrinks lib" and "length rest < fuel"
  shows "\<exists>bs. pem_chain lib rest bs \<and> NotAfter_loop lib fuel rest m = Some (min_time m (chain_times lib bs))"
  using assms(2)
proof (induction fuel arbitrary: rest m)
  case (Suc fuel)
  show ?case
  proof (cases "pem_Decode lib rest")
    case None
    then show ?thesis
      by (intro exI [of _ "[]"]) (simp add: pem_end min_time_def chain_times_def map_filter_simps)
  next
    case (Some p)
    then obtain bt blk r where d: "pem_Decode lib rest = Some ((bt, blk), r)"
      by (cases p) auto
    with assms(1) have "length r < length rest" by (simp add: pem_shrinks_def)
    with Suc.prems have "length r < fuel" by simp
    note IH = Suc.IH [OF this]
    let ?m = "if bt = ''CERTIFICATE'' then
        (case x509_ParseCertificate lib blk of None \<Rightarrow> m | Some t \<Rightarrow> if m = 0 \<or> t < m then t else m) else m"
    from IH [of ?m] obtain bs where bs: "pem_chain lib r bs"
      "NotAfter_loop lib fuel r ?m = Some (min_time ?m (chain_times lib bs))" by blast
    have "NotAfter_loop lib (Suc fuel) rest m = NotAfter_loop lib fuel r ?m"
      using d by (simp split: option.splits)
    moreover have "min_time ?m (chain_times lib bs) = min_time m (chain_times lib ((bt, blk) # bs))"
      by (simp add: chain_times_Cons min_time_def split: option.splits)
    ultimately show ?thesis
      using bs pem_block [OF d bs(1)] by auto
  qed
qed simp

lemma min_time_pos:
  "\<forall>t \<in> set ts. 0 < t \<Longrightarrow> 0 < m \<Longrightarrow> min_time m ts = Min (insert m (set ts))"
proof (induction ts arbitrary: m)
  case (Cons t ts)
  have "min_time m (t # ts) = min_time (min t m) ts"
    using Cons.prems by (auto simp: min_time_def min_def)
  also have "\<dots> = Min (insert (min t m) (set ts))"
    using Cons by simp
  also have "\<dots> = Min (insert m (set (t # ts)))"
    by (cases "set ts = {}") (auto simp: min.commute min.left_commute)
  finally show ?case .
qed (simp add: min_time_def)

lemma min_time_zero:
  "\<forall>t \<in> set ts. 0 < t \<Longrightarrow> min_time 0 ts = (if ts = [] then 0 else Min (set ts))"
proof (cases ts)
  case (Cons t ts')
  moreover assume "\<forall>t \<in> set ts. 0 < t"
  ultimately show ?thesis
    using min_time_pos [of ts' t] by (auto simp: min_time_def)
qed (simp add: min_time_def)

text \<open>
  C8: ParseCertificateNotAfter always ends, given that the PEM decoder consumes input, and
  returns the earliest expiry of the certificates in the chain that parse, or the zero time
  when none does.
\<close>

theorem ParseCertificateNotAfter_min:
  assumes "pem_shrinks lib"
    and "\<And>b t. x509_ParseCertificate lib b = Some t \<Longrightarrow> 0 < t"
    and "map_of (nilmap (s_Data s)) TLSCertKey = Some cert" and "cert \<noteq> []"
  shows "\<exists>bs. pem_chain lib cert bs \<and>
    ParseCertificateNotAfter_opt lib (Some s) \<noteq> None \<and>
    ParseCertificateNotAfter lib (Some s) =
      (if chain_times lib bs = [] then 0 else Min (set (chain_times lib bs)))"
proof -
  obtain bs where bs: "pem_chain lib cert bs"
    "NotAfter_loop lib (Suc (length cert)) cert 0 = Some (min_time 0 (chain_times lib bs))"
    using NotAfter_loop_enough [OF assms(1), of cert "Suc (length cert)" 0] by auto
  have "\<forall>t \<in> set (chain_times lib bs). 0 < t"
    using assms(2) by (auto simp: chain_times_def map_filter_def split: if_splits)
  with bs assms(3,4) show ?thesis
    by (auto simp: ParseCertificateNotAfter_def ParseCertificateNotAfter_opt_def min_time_zero)
qed

text \<open>A toy encoding of chains: one byte per block, its code the expiry.\<close>

definition toy_x509 :: x509lib where
  "toy_x509 =
     \<lparr>pem_Decode = (\<lambda>b. case b of [] \<Rightarrow> None | c # r \<Rightarrow> Some ((''CERTIFICATE'', [c]), r)),
      x509_ParseCertificate = (\<lambda>b. case b of [c] \<Rightarrow> Some (of_char c + 1) | _ \<Rightarrow> None)\<rparr>"

definition toy_tls_secret :: Secret where
  "toy_tls_secret = \<lparr>s_meta = empty_meta, s_Data = Some [(TLSCertKey, [CHR 0x09, CHR 0x03])]\<rparr>"

lemma toy_shrinks: "pem_shrinks toy_x509"
  by (auto simp: pem_shrinks_def toy_x509_def split: list.splits)

lemma of_char_nonneg: "(0::int) \<le> of_char c"
  by (metis of_nat_0_le_iff of_nat_of_char)

lemma toy_times_pos: "x509_ParseCertificate toy_x509 b = Some t \<Longrightarrow> 0 < t"
  using of_char_nonneg by (fastforce simp: toy_x509_def split: list.splits)

theorem ParseCertificateNotAfter_min_witness:
  "pem_shrinks toy_x509 \<and> ParseCertificateNotAfter toy_x509 (Some toy_tls_secret) = 4
    \<and> (\<exists>bs. pem_chain toy_x509 [CHR 0x09, CHR 0x03] bs)"
proof -
  have "map_of (nilmap (s_Data toy_tls_secret)) TLSCertKey = Some [CHR 0x09, CHR 0x03]"
    by (simp add: toy_tls_secret_def)
  from ParseCertificateNotAfter_min [OF toy_shrinks _ this] toy_times_pos
  have "\<exists>bs. pem_chain toy_x509 [CHR 0x09, CHR 0x03] bs" by blast
  moreover have "ParseCertificateNotAfter toy_x509 (Some toy_tls_secret) = 4"
    by (simp add: ParseCertificateNotAfter_def ParseCertificateNotAfter_opt_def toy_tls_secret_def
        toy_x509_def numeral_eq_Suc)
  ultimately show ?thesis using toy_shrinks by blast
qed

end
