(* ===== verification/Store.thy ===== *)
theory Store
  imports StringPool VSStatus DomainSecrets Proto
begin

text \<open>
  The resource store of \<^verbatim>\<open>internal/store/optimized.go\<close>: its state, and every operation on it.
  Each operation runs under the store's mutex, so it is one step on the state. Resources are
  immutable values: the source stores pointers to objects that are replaced, never written
  again. The protobuf and X.509 packages are the arguments \<open>lib\<close> and \<open>x509\<close>.
\<close>

record OptimizedStore =
  stringPool :: StringPool
  virtualServices :: "(NamespacedName, VirtualService) gomap"
  listeners :: "(NamespacedName, Listener) gomap"
  clusters :: "(NamespacedName, Cluster) gomap"
  uidToVS :: "(string, VirtualService) gomap"
  uidToListener :: "(string, Listener) gomap"
  uidToCluster :: "(string, Cluster) gomap"
  templateToVS :: "(NamespacedName, VirtualService list) gomap"
  virtualServiceTemplates :: "(NamespacedName, VirtualServiceTemplate) gomap"
  virtualServiceTemplatesByUID :: "(string, VirtualServiceTemplate) gomap"
  routes :: "(NamespacedName, Route) gomap"
  routesByUID :: "(string, Route) gomap"
  httpFilters :: "(NamespacedName, HttpFilter) gomap"
  httpFiltersByUID :: "(string, HttpFilter) gomap"
  accessLogs :: "(NamespacedName, AccessLogConfig) gomap"
  accessLogsByUID :: "(string, AccessLogConfig) gomap"
  secrets :: "(NamespacedName, Secret) gomap"
  policies :: "(NamespacedName, Policy) gomap"
  policiesByUID :: "(string, Policy) gomap"
  tracings :: "(NamespacedName, Tracing) gomap"
  tracingsByUID :: "(string, Tracing) gomap"
  specClusters :: "(string, Cluster) gomap"
  domainSecretsIndex :: DomainSecretsIndex
  nodeDomains :: "(string, strset) gomap"
  vsStatusStorage :: StatusStorage

definition NewOptimizedStore :: OptimizedStore where
  "NewOptimizedStore =
     \<lparr>stringPool = NewStringPool, virtualServices = [], listeners = [], clusters = [],
      uidToVS = [], uidToListener = [], uidToCluster = [], templateToVS = [],
      virtualServiceTemplates = [], virtualServiceTemplatesByUID = [],
      routes = [], routesByUID = [], httpFilters = [], httpFiltersByUID = [],
      accessLogs = [], accessLogsByUID = [], secrets = [], policies = [], policiesByUID = [],
      tracings = [], tracingsByUID = [], specClusters = [],
      domainSecretsIndex = NewDomainSecretsIndex, nodeDomains = [],
      vsStatusStorage = NewStatusStorage\<rparr>"

section \<open>Interning the strings of a resource\<close>

text \<open>
  The lines every setter starts with: the name and the namespace of the object are replaced by
  their interned copies, and the UID is interned for use as a key.
\<close>

definition intern_names :: "StringPool \<Rightarrow> ObjectMeta \<Rightarrow> ObjectMeta \<times> StringPool" where
  "intern_names sp m =
     (let (name, sp) = Intern sp (m_Name m);
          (ns, sp) = InternNamespace sp (m_Namespace m)
      in (m\<lparr>m_Name := name, m_Namespace := ns\<rparr>, sp))"

definition intern_meta :: "StringPool \<Rightarrow> ObjectMeta \<Rightarrow> ObjectMeta \<times> string \<times> StringPool" where
  "intern_meta sp m =
     (let (m, sp) = intern_names sp m;
          (uid, sp) = InternUID sp (m_UID m)
      in (m, uid, sp))"

section \<open>Virtual services and the template index\<close>

definition templateKey :: "VirtualService \<Rightarrow> ResourceRef \<Rightarrow> NamespacedName" where
  "templateKey vs tmpl =
     (let namespace = (case ref_Namespace tmpl of
            Some n \<Rightarrow> n
          | None \<Rightarrow> m_Namespace (vs_meta vs))
      in NN namespace (ref_Name tmpl))"

abbreviation vs_uid :: "VirtualService \<Rightarrow> string" where
  "vs_uid vs \<equiv> m_UID (vs_meta vs)"

abbreviation vs_nn :: "VirtualService \<Rightarrow> NamespacedName" where
  "vs_nn vs \<equiv> meta_nn (vs_meta vs)"

definition updateTemplateIndex :: "OptimizedStore \<Rightarrow> VirtualService \<Rightarrow> OptimizedStore" where
  "updateTemplateIndex s vs =
     (case vs_Template vs of
        None \<Rightarrow> s
      | Some tmpl \<Rightarrow>
          (let key = templateKey vs tmpl;
               vsList = gm_get [] (templateToVS s) key
           in if \<exists>existing \<in> set vsList. vs_uid existing = vs_uid vs then s
              else s\<lparr>templateToVS := gm_put key (vsList @ [vs]) (templateToVS s)\<rparr>))"

text \<open>\<open>append(vsList[:i], vsList[i+1:]...)\<close> at the first entry with the UID.\<close>

fun remove_first_uid :: "string \<Rightarrow> VirtualService list \<Rightarrow> VirtualService list" where
  "remove_first_uid uid [] = []"
| "remove_first_uid uid (x # xs) = (if vs_uid x = uid then xs else x # remove_first_uid uid xs)"

definition removeFromTemplateIndex :: "OptimizedStore \<Rightarrow> VirtualService \<Rightarrow> OptimizedStore" where
  "removeFromTemplateIndex s vs =
     (case vs_Template vs of
        None \<Rightarrow> s
      | Some tmpl \<Rightarrow>
          (let key = templateKey vs tmpl;
               vsList = gm_get [] (templateToVS s) key
           in if \<exists>existing \<in> set vsList. vs_uid existing = vs_uid vs
              then s\<lparr>templateToVS := gm_put key (remove_first_uid (vs_uid vs) vsList) (templateToVS s)\<rparr>
              else s))"

definition SetVirtualService :: "OptimizedStore \<Rightarrow> VirtualService \<Rightarrow> OptimizedStore" where
  "SetVirtualService s vs =
     (let (m, uid, sp) = intern_meta (stringPool s) (vs_meta vs);
          vs = vs\<lparr>vs_meta := m\<rparr>;
          s = s\<lparr>stringPool := sp\<rparr>;
          key = meta_nn m;
          s = (case map_of (virtualServices s) key of
                 None \<Rightarrow> s
               | Some old \<Rightarrow>
                   removeFromTemplateIndex (s\<lparr>uidToVS := gm_del (vs_uid old) (uidToVS s)\<rparr>) old);
          s = s\<lparr>virtualServices := gm_put key vs (virtualServices s)\<rparr>;
          s = s\<lparr>uidToVS := gm_put uid vs (uidToVS s)\<rparr>
      in updateTemplateIndex s vs)"

definition GetVirtualService :: "OptimizedStore \<Rightarrow> NamespacedName \<Rightarrow> VirtualService option" where
  "GetVirtualService s name = map_of (virtualServices s) name"

definition GetVirtualServiceByUID :: "OptimizedStore \<Rightarrow> string \<Rightarrow> VirtualService option" where
  "GetVirtualServiceByUID s uid = map_of (uidToVS s) uid"

definition DeleteVirtualServiceStatus :: "OptimizedStore \<Rightarrow> NamespacedName \<Rightarrow> OptimizedStore" where
  "DeleteVirtualServiceStatus s nn = s\<lparr>vsStatusStorage := DeleteStatus (vsStatusStorage s) nn\<rparr>"

definition DeleteVirtualService :: "OptimizedStore \<Rightarrow> NamespacedName \<Rightarrow> OptimizedStore" where
  "DeleteVirtualService s name =
     (case map_of (virtualServices s) name of
        None \<Rightarrow> s
      | Some vs \<Rightarrow>
          (let s = s\<lparr>virtualServices := gm_del name (virtualServices s)\<rparr>;
               s = s\<lparr>uidToVS := gm_del (vs_uid vs) (uidToVS s)\<rparr>;
               s = removeFromTemplateIndex s vs
           in DeleteVirtualServiceStatus s name))"

definition IsExistingVirtualService :: "OptimizedStore \<Rightarrow> NamespacedName \<Rightarrow> bool" where
  "IsExistingVirtualService s name = gm_has (virtualServices s) name"

definition MapVirtualServices :: "OptimizedStore \<Rightarrow> (NamespacedName, VirtualService) gomap" where
  "MapVirtualServices s = gm_copy_into (virtualServices s) []"

definition GetVirtualServicesByTemplate ::
    "OptimizedStore \<Rightarrow> NamespacedName \<Rightarrow> VirtualService list" where
  "GetVirtualServicesByTemplate s templateName =
     (case map_of (templateToVS s) templateName of
        None \<Rightarrow> []
      | Some vsList \<Rightarrow> [] @ vsList)"

definition GetVirtualServicesByTemplateNN ::
    "OptimizedStore \<Rightarrow> NamespacedName \<Rightarrow> VirtualService list" where
  "GetVirtualServicesByTemplateNN s nn = GetVirtualServicesByTemplate s nn"

section \<open>Statuses\<close>

definition SetVirtualServiceStatus ::
    "OptimizedStore \<Rightarrow> NamespacedName \<Rightarrow> bool \<Rightarrow> string \<Rightarrow> OptimizedStore" where
  "SetVirtualServiceStatus s nn invalid message =
     s\<lparr>vsStatusStorage := SetStatus (vsStatusStorage s) nn invalid message\<rparr>"

definition GetVirtualServiceStatus :: "OptimizedStore \<Rightarrow> NamespacedName \<Rightarrow> VirtualServiceStatus" where
  "GetVirtualServiceStatus s nn = GetStatus (vsStatusStorage s) nn"

definition GetVirtualServiceWithStatus ::
    "OptimizedStore \<Rightarrow> NamespacedName \<Rightarrow> VirtualService option" where
  "GetVirtualServiceWithStatus s nn =
     (case map_of (virtualServices s) nn of
        None \<Rightarrow> None
      | Some vs \<Rightarrow> ApplyStatusToVS (vsStatusStorage s) (Some vs))"

section \<open>Listeners\<close>

abbreviation l_uid :: "Listener \<Rightarrow> string" where
  "l_uid l \<equiv> m_UID (l_meta l)"

definition SetListener :: "OptimizedStore \<Rightarrow> Listener \<Rightarrow> OptimizedStore" where
  "SetListener s listener =
     (let (m, uid, sp) = intern_meta (stringPool s) (l_meta listener);
          listener = listener\<lparr>l_meta := m\<rparr>;
          s = s\<lparr>stringPool := sp\<rparr>;
          key = meta_nn m;
          s = (case map_of (listeners s) key of
                 None \<Rightarrow> s
               | Some old \<Rightarrow> s\<lparr>uidToListener := gm_del (l_uid old) (uidToListener s)\<rparr>)
      in s\<lparr>listeners := gm_put key listener (listeners s),
           uidToListener := gm_put uid listener (uidToListener s)\<rparr>)"

definition GetListener :: "OptimizedStore \<Rightarrow> NamespacedName \<Rightarrow> Listener option" where
  "GetListener s name = map_of (listeners s) name"

definition GetListenerByUID :: "OptimizedStore \<Rightarrow> string \<Rightarrow> Listener option" where
  "GetListenerByUID s uid = map_of (uidToListener s) uid"

definition DeleteListener :: "OptimizedStore \<Rightarrow> NamespacedName \<Rightarrow> OptimizedStore" where
  "DeleteListener s name =
     (case map_of (listeners s) name of
        None \<Rightarrow> s
      | Some listener \<Rightarrow>
          s\<lparr>listeners := gm_del name (listeners s),
            uidToListener := gm_del (l_uid listener) (uidToListener s)\<rparr>)"

definition IsExistingListener :: "OptimizedStore \<Rightarrow> NamespacedName \<Rightarrow> bool" where
  "IsExistingListener s name = gm_has (listeners s) name"

definition MapListeners :: "OptimizedStore \<Rightarrow> (NamespacedName, Listener) gomap" where
  "MapListeners s = gm_copy_into (listeners s) []"

section \<open>Clusters and the index by Envoy cluster name\<close>

abbreviation cl_uid :: "Cluster \<Rightarrow> string" where
  "cl_uid c \<equiv> m_UID (cl_meta c)"

definition SetCluster :: "protolib \<Rightarrow> OptimizedStore \<Rightarrow> Cluster \<Rightarrow> OptimizedStore" where
  "SetCluster lib s cluster =
     (let (m, uid, sp) = intern_meta (stringPool s) (cl_meta cluster);
          cluster = cluster\<lparr>cl_meta := m\<rparr>;
          s = s\<lparr>stringPool := sp\<rparr>;
          key = meta_nn m;
          s = (case map_of (clusters s) key of
                 None \<Rightarrow> s
               | Some old \<Rightarrow>
                   (let s = s\<lparr>uidToCluster := gm_del (cl_uid old) (uidToCluster s)\<rparr>
                    in case Cluster_UnmarshalV3 lib old of
                         Inl _ \<Rightarrow> s
                       | Inr oldV3 \<Rightarrow> s\<lparr>specClusters := gm_del (cv3_Name oldV3) (specClusters s)\<rparr>));
          s = s\<lparr>clusters := gm_put key cluster (clusters s)\<rparr>;
          s = s\<lparr>uidToCluster := gm_put uid cluster (uidToCluster s)\<rparr>
      in case Cluster_UnmarshalV3 lib cluster of
           Inl _ \<Rightarrow> s
         | Inr clusterV3 \<Rightarrow> s\<lparr>specClusters := gm_put (cv3_Name clusterV3) cluster (specClusters s)\<rparr>)"

definition GetCluster :: "OptimizedStore \<Rightarrow> NamespacedName \<Rightarrow> Cluster option" where
  "GetCluster s name = map_of (clusters s) name"

definition GetClusterByUID :: "OptimizedStore \<Rightarrow> string \<Rightarrow> Cluster option" where
  "GetClusterByUID s uid = map_of (uidToCluster s) uid"

definition GetSpecCluster :: "OptimizedStore \<Rightarrow> string \<Rightarrow> Cluster option" where
  "GetSpecCluster s name = map_of (specClusters s) name"

definition DeleteCluster :: "protolib \<Rightarrow> OptimizedStore \<Rightarrow> NamespacedName \<Rightarrow> OptimizedStore" where
  "DeleteCluster lib s name =
     (case map_of (clusters s) name of
        None \<Rightarrow> s
      | Some cluster \<Rightarrow>
          (let s = s\<lparr>clusters := gm_del name (clusters s),
                     uidToCluster := gm_del (cl_uid cluster) (uidToCluster s)\<rparr>
           in case Cluster_UnmarshalV3 lib cluster of
                Inl _ \<Rightarrow> s
              | Inr clusterV3 \<Rightarrow> s\<lparr>specClusters := gm_del (cv3_Name clusterV3) (specClusters s)\<rparr>))"

definition IsExistingCluster :: "OptimizedStore \<Rightarrow> NamespacedName \<Rightarrow> bool" where
  "IsExistingCluster s name = gm_has (clusters s) name"

definition MapClusters :: "OptimizedStore \<Rightarrow> (NamespacedName, Cluster) gomap" where
  "MapClusters s = gm_copy_into (clusters s) []"

definition MapSpecClusters :: "OptimizedStore \<Rightarrow> (string, Cluster) gomap" where
  "MapSpecClusters s = gm_copy_into (specClusters s) []"

section \<open>Virtual service templates\<close>

definition SetVirtualServiceTemplate :: "OptimizedStore \<Rightarrow> VirtualServiceTemplate \<Rightarrow> OptimizedStore" where
  "SetVirtualServiceTemplate s vst =
     (let (m, uid, sp) = intern_meta (stringPool s) (vst_meta vst);
          vst = vst\<lparr>vst_meta := m\<rparr>;
          s = s\<lparr>stringPool := sp\<rparr>;
          key = meta_nn m;
          s = (case map_of (virtualServiceTemplates s) key of
                 None \<Rightarrow> s
               | Some old \<Rightarrow> s\<lparr>virtualServiceTemplatesByUID := gm_del (m_UID (vst_meta old)) (virtualServiceTemplatesByUID s)\<rparr>)
      in s\<lparr>virtualServiceTemplates := gm_put key vst (virtualServiceTemplates s),
           virtualServiceTemplatesByUID := gm_put uid vst (virtualServiceTemplatesByUID s)\<rparr>)"

definition GetVirtualServiceTemplate :: "OptimizedStore \<Rightarrow> NamespacedName \<Rightarrow> VirtualServiceTemplate option" where
  "GetVirtualServiceTemplate s name = map_of (virtualServiceTemplates s) name"

definition GetVirtualServiceTemplateByUID :: "OptimizedStore \<Rightarrow> string \<Rightarrow> VirtualServiceTemplate option" where
  "GetVirtualServiceTemplateByUID s uid = map_of (virtualServiceTemplatesByUID s) uid"

definition DeleteVirtualServiceTemplate :: "OptimizedStore \<Rightarrow> NamespacedName \<Rightarrow> OptimizedStore" where
  "DeleteVirtualServiceTemplate s name =
     (case map_of (virtualServiceTemplates s) name of
        None \<Rightarrow> s
      | Some vst \<Rightarrow>
          s\<lparr>virtualServiceTemplates := gm_del name (virtualServiceTemplates s),
            virtualServiceTemplatesByUID := gm_del (m_UID (vst_meta vst)) (virtualServiceTemplatesByUID s)\<rparr>)"

definition IsExistingVirtualServiceTemplate :: "OptimizedStore \<Rightarrow> NamespacedName \<Rightarrow> bool" where
  "IsExistingVirtualServiceTemplate s name = gm_has (virtualServiceTemplates s) name"

definition MapVirtualServiceTemplates :: "OptimizedStore \<Rightarrow> (NamespacedName, VirtualServiceTemplate) gomap" where
  "MapVirtualServiceTemplates s = gm_copy_into (virtualServiceTemplates s) []"

section \<open>Routes\<close>

definition SetRoute :: "OptimizedStore \<Rightarrow> Route \<Rightarrow> OptimizedStore" where
  "SetRoute s route =
     (let (m, uid, sp) = intern_meta (stringPool s) (r_meta route);
          route = route\<lparr>r_meta := m\<rparr>;
          s = s\<lparr>stringPool := sp\<rparr>;
          key = meta_nn m;
          s = (case map_of (routes s) key of
                 None \<Rightarrow> s
               | Some old \<Rightarrow> s\<lparr>routesByUID := gm_del (m_UID (r_meta old)) (routesByUID s)\<rparr>)
      in s\<lparr>routes := gm_put key route (routes s),
           routesByUID := gm_put uid route (routesByUID s)\<rparr>)"

definition GetRoute :: "OptimizedStore \<Rightarrow> NamespacedName \<Rightarrow> Route option" where
  "GetRoute s name = map_of (routes s) name"

definition GetRouteByUID :: "OptimizedStore \<Rightarrow> string \<Rightarrow> Route option" where
  "GetRouteByUID s uid = map_of (routesByUID s) uid"

definition DeleteRoute :: "OptimizedStore \<Rightarrow> NamespacedName \<Rightarrow> OptimizedStore" where
  "DeleteRoute s name =
     (case map_of (routes s) name of
        None \<Rightarrow> s
      | Some route \<Rightarrow>
          s\<lparr>routes := gm_del name (routes s),
            routesByUID := gm_del (m_UID (r_meta route)) (routesByUID s)\<rparr>)"

definition IsExistingRoute :: "OptimizedStore \<Rightarrow> NamespacedName \<Rightarrow> bool" where
  "IsExistingRoute s name = gm_has (routes s) name"

definition MapRoutes :: "OptimizedStore \<Rightarrow> (NamespacedName, Route) gomap" where
  "MapRoutes s = gm_copy_into (routes s) []"

section \<open>HTTP filters\<close>

definition SetHTTPFilter :: "OptimizedStore \<Rightarrow> HttpFilter \<Rightarrow> OptimizedStore" where
  "SetHTTPFilter s httpFilter =
     (let (m, uid, sp) = intern_meta (stringPool s) (hf_meta httpFilter);
          httpFilter = httpFilter\<lparr>hf_meta := m\<rparr>;
          s = s\<lparr>stringPool := sp\<rparr>;
          key = meta_nn m;
          s = (case map_of (httpFilters s) key of
                 None \<Rightarrow> s
               | Some old \<Rightarrow> s\<lparr>httpFiltersByUID := gm_del (m_UID (hf_meta old)) (httpFiltersByUID s)\<rparr>)
      in s\<lparr>httpFilters := gm_put key httpFilter (httpFilters s),
           httpFiltersByUID := gm_put uid httpFilter (httpFiltersByUID s)\<rparr>)"

definition GetHTTPFilter :: "OptimizedStore \<Rightarrow> NamespacedName \<Rightarrow> HttpFilter option" where
  "GetHTTPFilter s name = map_of (httpFilters s) name"

definition GetHTTPFilterByUID :: "OptimizedStore \<Rightarrow> string \<Rightarrow> HttpFilter option" where
  "GetHTTPFilterByUID s uid = map_of (httpFiltersByUID s) uid"

definition DeleteHTTPFilter :: "OptimizedStore \<Rightarrow> NamespacedName \<Rightarrow> OptimizedStore" where
  "DeleteHTTPFilter s name =
     (case map_of (httpFilters s) name of
        None \<Rightarrow> s
      | Some httpFilter \<Rightarrow>
          s\<lparr>httpFilters := gm_del name (httpFilters s),
            httpFiltersByUID := gm_del (m_UID (hf_meta httpFilter)) (httpFiltersByUID s)\<rparr>)"

definition IsExistingHTTPFilter :: "OptimizedStore \<Rightarrow> NamespacedName \<Rightarrow> bool" where
  "IsExistingHTTPFilter s name = gm_has (httpFilters s) name"

definition MapHTTPFilters :: "OptimizedStore \<Rightarrow> (NamespacedName, HttpFilter) gomap" where
  "MapHTTPFilters s = gm_copy_into (httpFilters s) []"

section \<open>Access log configurations\<close>

definition SetAccessLog :: "OptimizedStore \<Rightarrow> AccessLogConfig \<Rightarrow> OptimizedStore" where
  "SetAccessLog s accessLog =
     (let (m, uid, sp) = intern_meta (stringPool s) (alc_meta accessLog);
          accessLog = accessLog\<lparr>alc_meta := m\<rparr>;
          s = s\<lparr>stringPool := sp\<rparr>;
          key = meta_nn m;
          s = (case map_of (accessLogs s) key of
                 None \<Rightarrow> s
               | Some old \<Rightarrow> s\<lparr>accessLogsByUID := gm_del (m_UID (alc_meta old)) (accessLogsByUID s)\<rparr>)
      in s\<lparr>accessLogs := gm_put key accessLog (accessLogs s),
           accessLogsByUID := gm_put uid accessLog (accessLogsByUID s)\<rparr>)"

definition GetAccessLog :: "OptimizedStore \<Rightarrow> NamespacedName \<Rightarrow> AccessLogConfig option" where
  "GetAccessLog s name = map_of (accessLogs s) name"

definition GetAccessLogByUID :: "OptimizedStore \<Rightarrow> string \<Rightarrow> AccessLogConfig option" where
  "GetAccessLogByUID s uid = map_of (accessLogsByUID s) uid"

definition DeleteAccessLog :: "OptimizedStore \<Rightarrow> NamespacedName \<Rightarrow> OptimizedStore" where
  "DeleteAccessLog s name =
     (case map_of (accessLogs s) name of
        None \<Rightarrow> s
      | Some accessLog \<Rightarrow>
          s\<lparr>accessLogs := gm_del name (accessLogs s),
            accessLogsByUID := gm_del (m_UID (alc_meta accessLog)) (accessLogsByUID s)\<rparr>)"

definition IsExistingAccessLog :: "OptimizedStore \<Rightarrow> NamespacedName \<Rightarrow> bool" where
  "IsExistingAccessLog s name = gm_has (accessLogs s) name"

definition MapAccessLogs :: "OptimizedStore \<Rightarrow> (NamespacedName, AccessLogConfig) gomap" where
  "MapAccessLogs s = gm_copy_into (accessLogs s) []"

section \<open>Policies\<close>

definition SetPolicy :: "OptimizedStore \<Rightarrow> Policy \<Rightarrow> OptimizedStore" where
  "SetPolicy s policy =
     (let (m, uid, sp) = intern_meta (stringPool s) (p_meta policy);
          policy = policy\<lparr>p_meta := m\<rparr>;
          s = s\<lparr>stringPool := sp\<rparr>;
          key = meta_nn m;
          s = (case map_of (policies s) key of
                 None \<Rightarrow> s
               | Some old \<Rightarrow> s\<lparr>policiesByUID := gm_del (m_UID (p_meta old)) (policiesByUID s)\<rparr>)
      in s\<lparr>policies := gm_put key policy (policies s),
           policiesByUID := gm_put uid policy (policiesByUID s)\<rparr>)"

definition GetPolicy :: "OptimizedStore \<Rightarrow> NamespacedName \<Rightarrow> Policy option" where
  "GetPolicy s name = map_of (policies s) name"

definition DeletePolicy :: "OptimizedStore \<Rightarrow> NamespacedName \<Rightarrow> OptimizedStore" where
  "DeletePolicy s name =
     (case map_of (policies s) name of
        None \<Rightarrow> s
      | Some policy \<Rightarrow>
          s\<lparr>policies := gm_del name (policies s),
            policiesByUID := gm_del (m_UID (p_meta policy)) (policiesByUID s)\<rparr>)"

definition IsExistingPolicy :: "OptimizedStore \<Rightarrow> NamespacedName \<Rightarrow> bool" where
  "IsExistingPolicy s name = gm_has (policies s) name"

definition MapPolicies :: "OptimizedStore \<Rightarrow> (NamespacedName, Policy) gomap" where
  "MapPolicies s = gm_copy_into (policies s) []"

section \<open>Tracings\<close>

definition SetTracing :: "OptimizedStore \<Rightarrow> Tracing \<Rightarrow> OptimizedStore" where
  "SetTracing s tracing =
     (let (m, uid, sp) = intern_meta (stringPool s) (tr_meta tracing);
          tracing = tracing\<lparr>tr_meta := m\<rparr>;
          s = s\<lparr>stringPool := sp\<rparr>;
          key = meta_nn m;
          s = (case map_of (tracings s) key of
                 None \<Rightarrow> s
               | Some old \<Rightarrow> s\<lparr>tracingsByUID := gm_del (m_UID (tr_meta old)) (tracingsByUID s)\<rparr>)
      in s\<lparr>tracings := gm_put key tracing (tracings s),
           tracingsByUID := gm_put uid tracing (tracingsByUID s)\<rparr>)"

definition GetTracing :: "OptimizedStore \<Rightarrow> NamespacedName \<Rightarrow> Tracing option" where
  "GetTracing s name = map_of (tracings s) name"

definition DeleteTracing :: "OptimizedStore \<Rightarrow> NamespacedName \<Rightarrow> OptimizedStore" where
  "DeleteTracing s name =
     (case map_of (tracings s) name of
        None \<Rightarrow> s
      | Some tracing \<Rightarrow>
          s\<lparr>tracings := gm_del name (tracings s),
            tracingsByUID := gm_del (m_UID (tr_meta tracing)) (tracingsByUID s)\<rparr>)"

definition IsExistingTracing :: "OptimizedStore \<Rightarrow> NamespacedName \<Rightarrow> bool" where
  "IsExistingTracing s name = gm_has (tracings s) name"

definition MapTracings :: "OptimizedStore \<Rightarrow> (NamespacedName, Tracing) gomap" where
  "MapTracings s = gm_copy_into (tracings s) []"

section \<open>Secrets and the domain index\<close>

text \<open>
  The domains a secret is annotated with: the annotation split at commas, every part trimmed,
  empty parts skipped. A warning is logged for a part that is no valid pattern; it is indexed
  all the same.
\<close>

definition secret_domains :: "Secret \<Rightarrow> string list" where
  "secret_domains secret =
     (case m_Annotations (s_meta secret) of
        None \<Rightarrow> []
      | Some ann \<Rightarrow>
          (case map_of ann AnnotationSecretDomains of
             None \<Rightarrow> []
           | Some domainsAnnotation \<Rightarrow>
               filter (\<lambda>d. d \<noteq> []) (map TrimSpace (split_on CHR '','' domainsAnnotation))))"

abbreviation s_nn :: "Secret \<Rightarrow> NamespacedName" where
  "s_nn secret \<equiv> meta_nn (s_meta secret)"

definition addDomainSecretsForSecretWithNotAfter ::
    "OptimizedStore \<Rightarrow> Secret \<Rightarrow> time \<Rightarrow> OptimizedStore" where
  "addDomainSecretsForSecretWithNotAfter s secret notAfter =
     s\<lparr>domainSecretsIndex :=
       fold (\<lambda>domain idx.
           Add idx domain \<lparr>e_NamespacedName = s_nn secret, e_NotAfter = notAfter\<rparr>)
         (secret_domains secret) (domainSecretsIndex s)\<rparr>"

definition removeDomainSecretsForSecret :: "OptimizedStore \<Rightarrow> Secret \<Rightarrow> OptimizedStore" where
  "removeDomainSecretsForSecret s secret =
     s\<lparr>domainSecretsIndex :=
       fold (\<lambda>domain idx. Remove idx domain (s_nn secret))
         (secret_domains secret) (domainSecretsIndex s)\<rparr>"

definition SetSecret :: "x509lib \<Rightarrow> OptimizedStore \<Rightarrow> Secret \<Rightarrow> OptimizedStore" where
  "SetSecret x509 s secret =
     (let notAfter = ParseCertificateNotAfter x509 (Some secret);
          (m, sp) = intern_names (stringPool s) (s_meta secret);
          secret = secret\<lparr>s_meta := m\<rparr>;
          s = s\<lparr>stringPool := sp\<rparr>;
          key = meta_nn m;
          s = (case map_of (secrets s) key of
                 None \<Rightarrow> s
               | Some oldSecret \<Rightarrow> removeDomainSecretsForSecret s oldSecret);
          s = s\<lparr>secrets := gm_put key secret (secrets s)\<rparr>
      in addDomainSecretsForSecretWithNotAfter s secret notAfter)"

definition GetSecret :: "OptimizedStore \<Rightarrow> NamespacedName \<Rightarrow> Secret option" where
  "GetSecret s name = map_of (secrets s) name"

definition DeleteSecret :: "OptimizedStore \<Rightarrow> NamespacedName \<Rightarrow> OptimizedStore" where
  "DeleteSecret s name =
     (case map_of (secrets s) name of
        None \<Rightarrow> s
      | Some secret \<Rightarrow>
          (let s = removeDomainSecretsForSecret s secret
           in s\<lparr>secrets := gm_del name (secrets s)\<rparr>))"

definition IsExistingSecret :: "OptimizedStore \<Rightarrow> NamespacedName \<Rightarrow> bool" where
  "IsExistingSecret s name = gm_has (secrets s) name"

definition MapSecrets :: "OptimizedStore \<Rightarrow> (NamespacedName, Secret) gomap" where
  "MapSecrets s = gm_copy_into (secrets s) []"

text \<open>The full rebuild of the index, one secret after the other.\<close>

definition updateDomainSecretsMap :: "x509lib \<Rightarrow> OptimizedStore \<Rightarrow> OptimizedStore" where
  "updateDomainSecretsMap x509 s =
     s\<lparr>domainSecretsIndex :=
       fold (\<lambda>(_, secret) idx.
           (let notAfter = ParseCertificateNotAfter x509 (Some secret)
            in fold (\<lambda>domain idx.
                  Add idx domain \<lparr>e_NamespacedName = s_nn secret, e_NotAfter = notAfter\<rparr>)
                (secret_domains secret) idx))
         (secrets s) NewDomainSecretsIndex\<rparr>"

section \<open>Looking a domain's secret up\<close>

definition GetDomainSecret :: "OptimizedStore \<Rightarrow> string \<Rightarrow> time \<Rightarrow> Secret option" where
  "GetDomainSecret s domain now = GetAnySecret (domainSecretsIndex s) domain (secrets s) now"

definition GetDomainSecretForNamespace ::
    "OptimizedStore \<Rightarrow> string \<Rightarrow> string \<Rightarrow> time \<Rightarrow> Secret option" where
  "GetDomainSecretForNamespace s domain preferredNamespace now =
     GetBestSecret (domainSecretsIndex s) domain preferredNamespace (secrets s) now"

record SecretLookupResult =
  lr_Secret :: "Secret option"
  lr_UsedWildcard :: bool
  lr_FallbackReason :: string
  lr_ExactSecretName :: string
  lr_ExactValidity :: string
  lr_WildcardSecretName :: string
  lr_WildcardValidity :: string

definition secret_path :: "Secret \<Rightarrow> string" where
  "secret_path secret = m_Namespace (s_meta secret) @ ''/'' @ m_Name (s_meta secret)"

text \<open>
  The clock is read once for the exact domain and once more for the wildcard; \<open>now\<close> and
  \<open>now'\<close> are the two readings.
\<close>

definition GetDomainSecretWithWildcardFallbackInfo ::
    "OptimizedStore \<Rightarrow> string \<Rightarrow> string \<Rightarrow> time \<Rightarrow> time \<Rightarrow> SecretLookupResult" where
  "GetDomainSecretWithWildcardFallbackInfo s domain preferredNamespace now now' =
     (let result = \<lparr>lr_Secret = None, lr_UsedWildcard = False, lr_FallbackReason = [],
            lr_ExactSecretName = [], lr_ExactValidity = [], lr_WildcardSecretName = [],
            lr_WildcardValidity = []\<rparr>;
          (exactSecret, exactValidity) =
            GetBestSecretWithValidity (domainSecretsIndex s) domain preferredNamespace (secrets s) now;
          result = result\<lparr>lr_ExactValidity := validityToString exactValidity\<rparr>;
          result = (case exactSecret of
              None \<Rightarrow> result
            | Some e \<Rightarrow> result\<lparr>lr_ExactSecretName := secret_path e\<rparr>)
      in if exactSecret \<noteq> None \<and> exactValidity = validityValid then
           result\<lparr>lr_Secret := exactSecret, lr_WildcardValidity := validityToString validityNotFound\<rparr>
         else let wildcardDomain = GetWildcardDomain domain in
         if wildcardDomain = [] then
           result\<lparr>lr_Secret := exactSecret, lr_WildcardValidity := validityToString validityNotFound\<rparr>
         else let (wildcardSecret, wildcardValidity) =
                GetBestSecretWithValidity (domainSecretsIndex s) wildcardDomain preferredNamespace
                  (secrets s) now';
              result = result\<lparr>lr_WildcardValidity := validityToString wildcardValidity\<rparr>;
              result = (case wildcardSecret of
                  None \<Rightarrow> result
                | Some w \<Rightarrow> result\<lparr>lr_WildcardSecretName := secret_path w\<rparr>)
         in if exactSecret = None then
              result\<lparr>lr_Secret := wildcardSecret, lr_UsedWildcard := (wildcardSecret \<noteq> None)\<rparr>
            else if wildcardSecret \<noteq> None \<and> wildcardValidity = validityValid then
              result\<lparr>lr_Secret := wildcardSecret, lr_UsedWildcard := True,
                lr_FallbackReason := validityToString exactValidity\<rparr>
            else result\<lparr>lr_Secret := exactSecret\<rparr>)"

definition GetDomainSecretWithWildcardFallback ::
    "OptimizedStore \<Rightarrow> string \<Rightarrow> string \<Rightarrow> time \<Rightarrow> time \<Rightarrow> Secret option" where
  "GetDomainSecretWithWildcardFallback s domain preferredNamespace now now' =
     lr_Secret (GetDomainSecretWithWildcardFallbackInfo s domain preferredNamespace now now')"

definition MapDomainSecrets :: "OptimizedStore \<Rightarrow> time \<Rightarrow> (string, Secret) gomap" where
  "MapDomainSecrets s now =
     fold (\<lambda>(domain, _) result.
         (case GetAnySecret (domainSecretsIndex s) domain (secrets s) now of
            None \<Rightarrow> result
          | Some secret \<Rightarrow> gm_put domain secret result))
       (domainSecretsIndex s) []"

definition MapDomainSecretsForNamespace ::
    "OptimizedStore \<Rightarrow> string \<Rightarrow> time \<Rightarrow> (string, Secret) gomap" where
  "MapDomainSecretsForNamespace s preferredNamespace now =
     fold (\<lambda>(domain, _) result.
         (case GetBestSecret (domainSecretsIndex s) domain preferredNamespace (secrets s) now of
            None \<Rightarrow> result
          | Some secret \<Rightarrow> gm_put domain secret result))
       (domainSecretsIndex s) []"

section \<open>Domains per node\<close>

text \<open>The nested copy loops: every inner set is copied into a fresh one.\<close>

definition copy_nested :: "('a, ('k, 'v) gomap) gomap \<Rightarrow> ('a, ('k, 'v) gomap) gomap" where
  "copy_nested m = fold (\<lambda>(k, inner) acc. gm_put k (gm_copy_into inner []) acc) m []"

definition ReplaceNodeDomainsIndex :: "OptimizedStore \<Rightarrow> (string, strset) gomap \<Rightarrow> OptimizedStore" where
  "ReplaceNodeDomainsIndex s idx = s\<lparr>nodeDomains := copy_nested idx\<rparr>"

definition GetNodeDomainsIndex :: "OptimizedStore \<Rightarrow> (string, strset) gomap" where
  "GetNodeDomainsIndex s = copy_nested (nodeDomains s)"

fun GetNodeDomainsForNodes_loop ::
    "(string, strset) gomap \<Rightarrow> string list \<Rightarrow> (string, strset) gomap \<Rightarrow> string list
      \<Rightarrow> (string, strset) gomap \<times> string list" where
  "GetNodeDomainsForNodes_loop nd [] found missing = (found, missing)"
| "GetNodeDomainsForNodes_loop nd (nodeID # rest) found missing =
     (case map_of nd nodeID of
        Some domains \<Rightarrow>
          GetNodeDomainsForNodes_loop nd rest (gm_put nodeID (gm_copy_into domains []) found) missing
      | None \<Rightarrow> GetNodeDomainsForNodes_loop nd rest found (missing @ [nodeID]))"

definition GetNodeDomainsForNodes ::
    "OptimizedStore \<Rightarrow> string list \<Rightarrow> (string, strset) gomap \<times> string list" where
  "GetNodeDomainsForNodes s nodeIDs = GetNodeDomainsForNodes_loop (nodeDomains s) nodeIDs [] []"

definition GetStringPoolStats :: "OptimizedStore \<Rightarrow> StringPoolStats" where
  "GetStringPoolStats s = GetStats (stringPool s)"

section \<open>Copying the store\<close>

definition Copy :: "OptimizedStore \<Rightarrow> OptimizedStore" where
  "Copy s =
     \<lparr>stringPool = stringPool s,
      virtualServices = gm_copy_into (virtualServices s) [],
      listeners = gm_copy_into (listeners s) [],
      clusters = gm_copy_into (clusters s) [],
      uidToVS = gm_copy_into (uidToVS s) [],
      uidToListener = gm_copy_into (uidToListener s) [],
      uidToCluster = gm_copy_into (uidToCluster s) [],
      templateToVS = fold (\<lambda>(k, vsList) acc. gm_put k ([] @ vsList) acc) (templateToVS s) [],
      virtualServiceTemplates = gm_copy_into (virtualServiceTemplates s) [],
      virtualServiceTemplatesByUID = gm_copy_into (virtualServiceTemplatesByUID s) [],
      routes = gm_copy_into (routes s) [],
      routesByUID = gm_copy_into (routesByUID s) [],
      httpFilters = gm_copy_into (httpFilters s) [],
      httpFiltersByUID = gm_copy_into (httpFiltersByUID s) [],
      accessLogs = gm_copy_into (accessLogs s) [],
      accessLogsByUID = gm_copy_into (accessLogsByUID s) [],
      secrets = gm_copy_into (secrets s) [],
      policies = gm_copy_into (policies s) [],
      policiesByUID = gm_copy_into (policiesByUID s) [],
      tracings = gm_copy_into (tracings s) [],
      tracingsByUID = gm_copy_into (tracingsByUID s) [],
      specClusters = gm_copy_into (specClusters s) [],
      domainSecretsIndex = copy_nested (domainSecretsIndex s),
      nodeDomains = copy_nested (nodeDomains s),
      vsStatusStorage = StatusStorage_Copy (vsStatusStorage s)\<rparr>"

end
