(* ===== verification/Loops.thy ===== *)
theory Loops
  imports Helpers
begin

text \<open>
  Loops with an early \<open>return\<close>, shared by the components that range over maps and slices: the
  body takes the loop state and either leaves the function or goes on. Also the decimal
  integers of \<^verbatim>\<open>strconv\<close>, at the width of Go's \<open>int\<close>.
\<close>

section \<open>Loops with an early exit\<close>

fun for_each :: "('x \<Rightarrow> 's \<Rightarrow> 'r + 's) \<Rightarrow> 'x list \<Rightarrow> 's \<Rightarrow> 'r + 's" where
  "for_each f [] s = Inr s"
| "for_each f (x # xs) s = (case f x s of Inl r \<Rightarrow> Inl r | Inr s' \<Rightarrow> for_each f xs s')"

definition and_then :: "'r + 'a \<Rightarrow> ('a \<Rightarrow> 'r + 'b) \<Rightarrow> 'r + 'b" where
  "and_then m f = (case m of Inl r \<Rightarrow> Inl r | Inr x \<Rightarrow> f x)"

named_theorems exits \<open>when a computation with early exits goes on\<close>

lemma and_then_simps [simp]: "and_then (Inl r) f = Inl r" "and_then (Inr x) f = f x"
  by (simp_all add: and_then_def)

lemma and_then_Inr [exits]: "and_then m f = Inr y \<longleftrightarrow> (\<exists>x. m = Inr x \<and> f x = Inr y)"
  by (cases m) auto

lemma and_then_Inl: "and_then m f = Inl r \<longleftrightarrow> m = Inl r \<or> (\<exists>x. m = Inr x \<and> f x = Inl r)"
  by (cases m) auto

text \<open>\<open>fmt.Errorf("message: %w", err)\<close> on the way out of a failing call.\<close>

definition wrap_err :: "string \<Rightarrow> 'a res \<Rightarrow> 'a res" where
  "wrap_err m r = (case r of Inl e \<Rightarrow> Inl (Wrap m e) | Inr x \<Rightarrow> Inr x)"

lemma wrap_err_simps [simp]: "wrap_err m (Inl e) = Inl (Wrap m e)" "wrap_err m (Inr x) = Inr x"
  by (simp_all add: wrap_err_def)

lemma wrap_err_Inr [exits]: "wrap_err m r = Inr x \<longleftrightarrow> r = Inr x"
  by (cases r) auto

lemma and_then_cong [fundef_cong]:
  "m = m' \<Longrightarrow> (\<And>x. m' = Inr x \<Longrightarrow> f x = f' x) \<Longrightarrow> and_then m f = and_then m' f'"
  by (cases m') auto

lemma for_each_Cons [exits]:
  "for_each f (x # xs) s = Inr t \<longleftrightarrow> (\<exists>s'. f x s = Inr s' \<and> for_each f xs s' = Inr t)"
  by (cases "f x s") auto

lemma for_each_append [simp]:
  "for_each f (xs @ ys) s = and_then (for_each f xs s) (for_each f ys)"
  by (induction xs arbitrary: s) (auto split: sum.split)

text \<open>An invariant of the body is an invariant of the loop, and holds where the loop is left.\<close>

lemma for_each_inv:
  assumes "for_each f xs s = Inr t" "P s"
    and "\<And>x s s'. x \<in> set xs \<Longrightarrow> P s \<Longrightarrow> f x s = Inr s' \<Longrightarrow> P s'"
  shows "P t"
  using assms
proof (induction xs arbitrary: s)
  case (Cons x xs)
  from Cons.prems(1) obtain s' where "f x s = Inr s'" "for_each f xs s' = Inr t"
    by (auto split: sum.splits)
  with Cons.prems Cons.IH [of s'] show ?case by auto
qed simp

lemma for_each_exit:
  assumes "for_each f xs s = Inl r" "P s"
    and "\<And>x s s'. x \<in> set xs \<Longrightarrow> P s \<Longrightarrow> f x s = Inr s' \<Longrightarrow> P s'"
    and "\<And>x s. x \<in> set xs \<Longrightarrow> P s \<Longrightarrow> f x s = Inl r \<Longrightarrow> Q r"
  shows "Q r"
  using assms
proof (induction xs arbitrary: s)
  case (Cons x xs)
  show ?case
  proof (cases "f x s")
    case (Inl r')
    with Cons.prems(1) have "f x s = Inl r" by simp
    with Cons.prems(2,4) show ?thesis by (meson list.set_intros(1))
  next
    case (Inr s')
    with Cons.prems(1-3) have "for_each f xs s' = Inl r" "P s'" by auto
    then show ?thesis by (rule Cons.IH) (use Cons.prems(3,4) in \<open>meson list.set_intros(2)\<close>)+
  qed
qed simp

text \<open>A relation that is kept by each turn, where the turn is known to have happened.\<close>

lemma for_each_each:
  assumes "for_each f xs s = Inr t"
    and "\<And>x s s'. x \<in> set xs \<Longrightarrow> f x s = Inr s' \<Longrightarrow> Q x s'"
    and "\<And>x y s s'. y \<in> set xs \<Longrightarrow> Q x s \<Longrightarrow> f y s = Inr s' \<Longrightarrow> Q x s'"
  shows "\<forall>x \<in> set xs. Q x t"
proof -
  have keep: "Q x t'" if "for_each f ys s' = Inr t'" "Q x s'" "set ys \<subseteq> set xs" for x ys s' t'
    using that(1,2) by (rule for_each_inv) (use assms(3) that(3) in blast)
  from assms(1) show ?thesis
  proof -
    have "\<forall>x \<in> set ys. Q x t" if "for_each f ys s = Inr t" "set ys \<subseteq> set xs" for ys s
      using that
    proof (induction ys arbitrary: s)
      case (Cons y ys)
      then obtain s' where s': "f y s = Inr s'" "for_each f ys s' = Inr t" by (auto split: sum.splits)
      with Cons.prems(2) have "Q y s'" using assms(2) by auto
      with keep s'(2) Cons.prems(2) have "Q y t" by auto
      with Cons.IH [OF s'(2)] Cons.prems(2) show ?case by auto
    qed simp
    with assms(1) show ?thesis by blast
  qed
qed

lemma for_each_pure: "for_each (\<lambda>x s. Inr (g x s)) xs s = Inr (fold g xs s)"
  by (induction xs arbitrary: s) auto

lemma for_each_cong:
  "(\<And>x s. x \<in> set xs \<Longrightarrow> f x s = g x s) \<Longrightarrow> for_each f xs s = for_each g xs s"
  by (induction xs arbitrary: s) (auto split: sum.split)

section \<open>Decimal integers\<close>

text \<open>Go's \<open>int\<close> has 64 bits and wraps around.\<close>

definition wrap64 :: "int \<Rightarrow> int" where
  "wrap64 i = (i + 2 ^ 63) mod 2 ^ 64 - 2 ^ 63"

definition is_digit :: "char \<Rightarrow> bool" where
  "is_digit c \<longleftrightarrow> 48 \<le> (of_char c :: nat) \<and> (of_char c :: nat) \<le> 57"

definition digits_value :: "string \<Rightarrow> nat" where
  "digits_value ds = foldl (\<lambda>a c. a * 10 + (of_char c - 48)) 0 ds"

text \<open>
  The integer of \<open>strconv.Atoi\<close> when its error is dropped: zero for a string that is no
  integer, the nearest end of the range for one that is too large.
\<close>

definition Atoi :: "string \<Rightarrow> int" where
  "Atoi s =
     (let neg = (s \<noteq> [] \<and> hd s = CHR ''-'');
          ds = (if s \<noteq> [] \<and> (hd s = CHR ''-'' \<or> hd s = CHR ''+'') then tl s else s)
      in if ds = [] \<or> \<not> list_all is_digit ds then 0
         else if neg then max (- (2 ^ 63)) (- int (digits_value ds))
         else min (2 ^ 63 - 1) (int (digits_value ds)))"

definition Itoa :: "int \<Rightarrow> string" where
  "Itoa i = (if i < 0 then CHR ''-'' # itoa (nat (- i)) else itoa (nat i))"

lemma digit_char_value: "d < 10 \<Longrightarrow> of_char (digit_char d) = 48 + d"
  by (simp add: digit_char_def)

lemma digit_chars:
  "digit_char 0 = CHR ''0''" "digit_char 1 = CHR ''1''" "digit_char 2 = CHR ''2''" "digit_char 3 = CHR ''3''"
  "digit_char 4 = CHR ''4''" "digit_char 5 = CHR ''5''" "digit_char 6 = CHR ''6''" "digit_char 7 = CHR ''7''"
  "digit_char 8 = CHR ''8''" "digit_char 9 = CHR ''9''"
  by code_simp+

lemma digit_char_digit: "d < 10 \<Longrightarrow> is_digit (digit_char d)"
  by (simp add: is_digit_def digit_char_value)

lemma itoa_digits: "list_all is_digit (itoa n)" "itoa n \<noteq> []"
proof (induction n rule: itoa.induct)
  case (1 n)
  { case 1
    with "1.IH" show ?case by (subst itoa.simps) (simp add: digit_char_digit)
  next
    case 2
    show ?case by (subst itoa.simps) simp }
qed

lemma digits_value_itoa [simp]: "digits_value (itoa n) = n"
proof (induction n rule: itoa.induct)
  case (1 n)
  show ?case
  proof (cases "n < 10")
    case True
    then show ?thesis by (subst itoa.simps) (simp add: digits_value_def digit_char_value)
  next
    case False
    with 1 have "digits_value (itoa (n div 10)) = n div 10" by blast
    with False show ?thesis
      by (subst itoa.simps) (simp add: digits_value_def digit_char_value)
  qed
qed

lemma itoa_inject [simp]: "itoa m = itoa n \<longleftrightarrow> m = n"
  by (metis digits_value_itoa)

lemma itoa_no_sign: "hd (itoa n) \<noteq> CHR ''-''" "hd (itoa n) \<noteq> CHR ''+''"
proof -
  have "is_digit (hd (itoa n))" using itoa_digits [of n] by (cases "itoa n") auto
  then show "hd (itoa n) \<noteq> CHR ''-''" "hd (itoa n) \<noteq> CHR ''+''" by (auto simp: is_digit_def)
qed

lemma Atoi_itoa: "int n < 2 ^ 63 \<Longrightarrow> Atoi (itoa n) = int n"
  by (simp add: Atoi_def itoa_no_sign itoa_digits)

end
