(* ===== verification/Routes.thy ===== *)
theory Routes
  imports Store Loops DomainNames
begin

text \<open>
  The routing part of the resource builder (\<^verbatim>\<open>internal/xds/resbuilder/routes/builder.go\<close>) and the
  listener helpers of \<^verbatim>\<open>resbuilder/utils/helpers.go\<close> it uses: the virtual host of a virtual
  service with its additional routes, the order of the routes, and the route configuration
  with the fallback host for TLS listeners. The locale \<open>pins_last\<close> is the contract of a
  reordering that puts one distinguished element at the end; the routes and the HTTP filters
  both promise it.
\<close>

section \<open>One element at the end\<close>

text \<open>The indexes collected by a loop over a slice, and taking an element out and appending it.\<close>

definition indexes :: "('a \<Rightarrow> bool) \<Rightarrow> 'a list \<Rightarrow> nat list" where
  "indexes P xs = map fst (filter (\<lambda>(i, x). P x) (enumerate 0 xs))"

definition move_last :: "nat \<Rightarrow> 'a list \<Rightarrow> 'a list" where
  "move_last i xs = (take i xs @ drop (Suc i) xs) @ [xs ! i]"

lemma indexes_from: "map fst (filter (\<lambda>(i, x). P x) (enumerate n xs)) = map ((+) n) (indexes P xs)"
proof (induction xs arbitrary: n)
  case Nil
  then show ?case by (simp add: indexes_def)
next
  case (Cons x xs)
  have "indexes P (x # xs) = (if P x then [0] else []) @ map Suc (indexes P xs)"
    using Cons [of "Suc 0"] by (auto simp add: indexes_def simp del: map_map)
  then show ?case
    using Cons [of "Suc n"] by (auto simp: comp_def)
qed

lemma indexes_Nil [simp]: "indexes P [] = []"
  by (simp add: indexes_def)

lemma indexes_Cons [simp]: "indexes P (x # xs) = (if P x then [0] else []) @ map Suc (indexes P xs)"
  using indexes_from [of P "Suc 0" xs] by (simp add: indexes_def)

lemma length_indexes: "length (indexes P xs) = length (filter P xs)"
  by (induction xs) auto

lemma indexes_single:
  assumes "indexes P xs = [i]"
  shows "i < length xs \<and> P (xs ! i) \<and> filter P (take i xs) = [] \<and> filter P (drop (Suc i) xs) = []"
  using assms
proof (induction xs arbitrary: i)
  case (Cons x xs)
  show ?case
  proof (cases "P x")
    case True
    with Cons.prems have i: "i = 0" and none: "indexes P xs = []" by auto
    from none have "length (filter P xs) = 0" by (simp flip: length_indexes)
    with True i show ?thesis by simp
  next
    case False
    with Cons.prems obtain j where "i = Suc j" "indexes P xs = [j]" by auto
    with Cons.IH [of j] False show ?thesis by simp
  qed
qed simp

lemma move_last_partition:
  assumes "indexes P xs = [i]"
  shows "move_last i xs = filter (\<lambda>x. \<not> P x) xs @ filter P xs"
proof -
  note i = indexes_single [OF assms]
  have xs: "xs = take i xs @ xs ! i # drop (Suc i) xs" using i by (simp add: id_take_nth_drop)
  have keep: "filter (\<lambda>x. \<not> P x) ys = ys" if "filter P ys = []" for ys
    using that by (simp add: filter_empty_conv)
  have "filter (\<lambda>x. \<not> P x) xs = take i xs @ drop (Suc i) xs"
    by (subst xs) (use i in \<open>simp add: keep\<close>)
  moreover have "filter P xs = [xs ! i]"
    by (subst xs) (use i in simp)
  ultimately show ?thesis by (simp add: move_last_def)
qed

lemma already_last:
  assumes "indexes P xs = [i]" "i = length xs - 1"
  shows "xs = filter (\<lambda>x. \<not> P x) xs @ filter P xs"
proof -
  note i = indexes_single [OF assms(1)]
  have "move_last i xs = take i xs @ [xs ! i]" using assms(2) by (simp add: move_last_def)
  also have "\<dots> = xs" using i assms(2) by (metis Suc_diff_1 gr_zeroI less_nat_zero_code take_Suc_conv_app_nth take_all_iff le_refl)
  finally show ?thesis using move_last_partition [OF assms(1)] by simp
qed

lemma none_pinned:
  assumes "indexes P xs = []"
  shows "xs = filter (\<lambda>x. \<not> P x) xs @ filter P xs"
proof -
  have "filter P xs = []" using assms length_indexes [of P xs] by simp
  then show ?thesis by (simp add: filter_empty_conv)
qed

locale pins_last =
  fixes pinned :: "'a \<Rightarrow> bool" and reorder :: "'a list \<Rightarrow> 'a list res"
  assumes reorder_ok: "reorder xs = Inr ys \<longleftrightarrow>
    length (filter pinned xs) \<le> 1 \<and> ys = filter (\<lambda>x. \<not> pinned x) xs @ filter pinned xs"
begin

lemma same_elements: "reorder xs = Inr ys \<Longrightarrow> mset ys = mset xs"
  by (auto simp: reorder_ok)

lemma others_keep_order:
  "reorder xs = Inr ys \<Longrightarrow> filter (\<lambda>x. \<not> pinned x) ys = filter (\<lambda>x. \<not> pinned x) xs"
  by (auto simp: reorder_ok)

lemma pinned_is_last:
  assumes "reorder xs = Inr ys" "i < length ys" "pinned (ys ! i)"
  shows "Suc i = length ys"
proof (rule ccontr)
  assume "Suc i \<noteq> length ys"
  with assms(2) have "Suc i < length ys" by simp
  from assms(1) have ys: "ys = filter (\<lambda>x. \<not> pinned x) xs @ filter pinned xs"
    and le: "length (filter pinned xs) \<le> 1" by (simp_all add: reorder_ok)
  from ys have "length ys = length (filter (\<lambda>x. \<not> pinned x) xs) + length (filter pinned xs)"
    by (metis length_append)
  with le \<open>Suc i < length ys\<close> have "i < length (filter (\<lambda>x. \<not> pinned x) xs)" by simp
  moreover from this have "ys ! i = filter (\<lambda>x. \<not> pinned x) xs ! i" by (subst ys) (simp add: nth_append)
  ultimately have "ys ! i \<in> set (filter (\<lambda>x. \<not> pinned x) xs)" by (metis nth_mem)
  with assms(3) show False by simp
qed

lemma fails_iff: "(\<exists>e. reorder xs = Inl e) \<longleftrightarrow> 1 < length (filter pinned xs)"
proof -
  have "(\<exists>e. reorder xs = Inl e) \<longleftrightarrow> \<not> (\<exists>ys. reorder xs = Inr ys)" by (cases "reorder xs") auto
  then show ?thesis by (simp add: reorder_ok not_le)
qed

lemma reorder_again: "reorder xs = Inr ys \<Longrightarrow> reorder ys = Inr ys"
  by (auto simp: reorder_ok filter_empty_conv)

end

section \<open>Listeners\<close>

definition TLSInspectorTypeURL :: string where
  "TLSInspectorTypeURL =
     ''type.googleapis.com/envoy.extensions.filters.listener.tls_inspector.v3.TlsInspector''"

definition IsTLSListener :: "ListenerV3 option \<Rightarrow> bool" where
  "IsTLSListener xdsListener =
     (case xdsListener of
        None \<Rightarrow> False
      | Some l \<Rightarrow> list_ex (\<lambda>lFilter. case flt_TypedConfig lFilter of
            None \<Rightarrow> False
          | Some tc \<Rightarrow> TypeUrl tc = TLSInspectorTypeURL) (lv3_ListenerFilters l))"

definition HTTPSPort :: "32 word" where
  "HTTPSPort = 443"

definition ListenerHasPort443 :: "ListenerV3 option \<Rightarrow> bool" where
  "ListenerHasPort443 xdsListener =
     (case xdsListener of
        None \<Rightarrow> False
      | Some l \<Rightarrow> (case lv3_Address l of
            None \<Rightarrow> False
          | Some address \<Rightarrow> (case addr_SocketAddress address of
                None \<Rightarrow> False
              | Some socketAddr \<Rightarrow> sa_PortValue socketAddr = HTTPSPort)))"

section \<open>Routes\<close>

text \<open>
  A weighted cluster specifier without its message is \<open>CS_WeightedClusters None\<close>; an empty name
  is not looked up.
\<close>

definition need_cluster :: "OptimizedStore \<Rightarrow> string \<Rightarrow> string \<Rightarrow> goerr option" where
  "need_cluster store what name =
     (if name \<noteq> [] \<and> GetSpecCluster store name = None
      then Some (Err (what @ name @ '' not found'')) else None)"

fun weighted_clusters :: "OptimizedStore \<Rightarrow> string list \<Rightarrow> goerr option" where
  "weighted_clusters store [] = None"
| "weighted_clusters store (wc # rest) =
     (case need_cluster store ''weighted cluster '' wc of
        Some e \<Rightarrow> Some e
      | None \<Rightarrow> weighted_clusters store rest)"

definition validateRouteClusterReferences :: "OptimizedStore \<Rightarrow> RouteV3 \<Rightarrow> goerr option" where
  "validateRouteClusterReferences store route =
     (case rt_Action route of
        Some (RA_Route (Some (CS_Cluster c))) \<Rightarrow> need_cluster store ''cluster '' c
      | Some (RA_Route (Some (CS_WeightedClusters (Some wcs)))) \<Rightarrow> weighted_clusters store wcs
      | _ \<Rightarrow> None)"

definition route_at :: "string \<Rightarrow> string \<Rightarrow> string \<Rightarrow> nat \<Rightarrow> string" where
  "route_at what namespace routeName idx =
     what @ namespace @ ''/'' @ routeName @ ''['' @ itoa idx @ '']''"

fun buildRoutesFromSpec_loop :: "protolib \<Rightarrow> OptimizedStore \<Rightarrow> string \<Rightarrow> string
    \<Rightarrow> (nat \<times> RawExtension) list \<Rightarrow> RouteV3 list res" where
  "buildRoutesFromSpec_loop lib store namespace routeName [] = Inr []"
| "buildRoutesFromSpec_loop lib store namespace routeName ((idx, routeSpec) # rest) =
     and_then (wrap_err (route_at ''failed to unmarshal route '' namespace routeName idx)
         (Unmarshal_route lib (raw_bytes routeSpec)))
       (\<lambda>r. case validateRouteClusterReferences store r of
          Some err \<Rightarrow>
            Inl (Wrap (route_at ''invalid cluster reference in route '' namespace routeName idx) err)
        | None \<Rightarrow>
            and_then (buildRoutesFromSpec_loop lib store namespace routeName rest)
              (\<lambda>rs. Inr (r # rs)))"

definition buildRoutesFromSpec :: "protolib \<Rightarrow> OptimizedStore \<Rightarrow> RawExtension list
    \<Rightarrow> string \<Rightarrow> string \<Rightarrow> RouteV3 list res" where
  "buildRoutesFromSpec lib store routeSpecs namespace routeName =
     buildRoutesFromSpec_loop lib store namespace routeName (enumerate 0 routeSpecs)"

fun buildAdditionalRoutes :: "protolib \<Rightarrow> OptimizedStore \<Rightarrow> ResourceRef list \<Rightarrow> string
    \<Rightarrow> RouteV3 list res" where
  "buildAdditionalRoutes lib store [] vsNamespace = Inr []"
| "buildAdditionalRoutes lib store (routeRef # rest) vsNamespace =
     (let routeRefNs = GetNamespace (ref_Namespace routeRef) vsNamespace
      in case GetRoute store (NN routeRefNs (ref_Name routeRef)) of
           None \<Rightarrow> Inl (Err (''route '' @ routeRefNs @ ''/'' @ ref_Name routeRef @ '' not found''))
         | Some route \<Rightarrow>
             and_then (buildRoutesFromSpec lib store (r_Spec route) routeRefNs (ref_Name routeRef))
               (\<lambda>rs. and_then (buildAdditionalRoutes lib store rest vsNamespace)
                 (\<lambda>more. Inr (rs @ more))))"

definition isRootRoute :: "RouteV3 \<Rightarrow> bool" where
  "isRootRoute route =
     (case rt_Match route of
        Some (Some (PS_Prefix p)) \<Rightarrow> p = ''/''
      | Some (Some (PS_Path p)) \<Rightarrow> p = ''/''
      | _ \<Rightarrow> False)"

definition findRootRouteIndexes :: "RouteV3 list \<Rightarrow> nat list" where
  "findRootRouteIndexes rs = indexes isRootRoute rs"

definition moveRouteToEnd :: "RouteV3 list \<Rightarrow> nat \<Rightarrow> RouteV3 list" where
  "moveRouteToEnd rs index = move_last index rs"

definition reorderRoutes :: "RouteV3 list \<Rightarrow> RouteV3 list res" where
  "reorderRoutes rs =
     (if length rs \<le> 1 then Inr rs
      else
        let rootMatchIndexes = findRootRouteIndexes rs
        in if length rootMatchIndexes > 1 then Inl (Err ''multiple root routes found'')
           else if length rootMatchIndexes = 1 then
             let rootIndex = rootMatchIndexes ! 0
             in if rootIndex \<noteq> length rs - 1 then Inr (moveRouteToEnd rs rootIndex)
                else Inr rs
           else Inr rs)"

lemma reorderRoutes_partition:
  "reorderRoutes xs = Inr ys \<longleftrightarrow>
     length (filter isRootRoute xs) \<le> 1 \<and> ys = filter (\<lambda>x. \<not> isRootRoute x) xs @ filter isRootRoute xs"
proof -
  consider (short) "length xs \<le> 1" | (many) "1 < length xs" "1 < length (indexes isRootRoute xs)"
    | (one) i where "1 < length xs" "indexes isRootRoute xs = [i]"
    | (none) "1 < length xs" "indexes isRootRoute xs = []"
    by (cases "length xs \<le> 1"; cases "indexes isRootRoute xs" rule: remdups_adj.cases) auto
  then show ?thesis
  proof cases
    case short
    then show ?thesis by (cases xs) (auto simp: reorderRoutes_def)
  next
    case many
    then show ?thesis
      by (auto simp: reorderRoutes_def findRootRouteIndexes_def length_indexes [symmetric])
  next
    case (one i)
    have "length (filter isRootRoute xs) = 1" using one(2) length_indexes [of isRootRoute xs] by simp
    with one show ?thesis
      using move_last_partition [OF one(2)] already_last [OF one(2)]
      by (auto simp: reorderRoutes_def findRootRouteIndexes_def moveRouteToEnd_def)
  next
    case none
    have "length (filter isRootRoute xs) = 0" using none(2) length_indexes [of isRootRoute xs] by simp
    with none show ?thesis
      using none_pinned [OF none(2)] by (auto simp: reorderRoutes_def findRootRouteIndexes_def)
  qed
qed

interpretation rr: pins_last isRootRoute reorderRoutes
  by unfold_locales (rule reorderRoutes_partition)

section \<open>The virtual host and the route configuration\<close>

definition BuildVirtualHost :: "protolib \<Rightarrow> OptimizedStore \<Rightarrow> VirtualService \<Rightarrow> NamespacedName
    \<Rightarrow> VirtualHost res" where
  "BuildVirtualHost lib store vs nn =
     (case c_VirtualHost (vs_common vs) of
        None \<Rightarrow> Inl (Err ''virtual host is empty'')
      | Some raw \<Rightarrow>
          and_then (wrap_err ''failed to unmarshal virtual host''
              (Unmarshal_virtual_host lib (raw_bytes raw))) (\<lambda>virtualHost.
          let virtualHost = virtualHost\<lparr>vh_Name := NamespacedName_String nn\<rparr> in
          and_then
            (if length (c_AdditionalRoutes (vs_common vs)) > 0 then
               and_then (wrap_err ''failed to build additional routes''
                   (buildAdditionalRoutes lib store (c_AdditionalRoutes (vs_common vs))
                      (m_Namespace (vs_meta vs)))) (\<lambda>additionalRoutes.
               Inr (virtualHost\<lparr>vh_Routes := vh_Routes virtualHost @ additionalRoutes\<rparr>))
             else Inr virtualHost) (\<lambda>virtualHost.
          and_then (wrap_err ''failed to reorder routes'' (reorderRoutes (vh_Routes virtualHost))) (\<lambda>rs.
          let virtualHost = virtualHost\<lparr>vh_Routes := rs\<rparr> in
          and_then (wrap_err ''failed to validate virtual host''
              (Validate_virtual_host lib virtualHost)) (\<lambda>_.
          and_then (CheckAllDomainsUnique (vh_Domains virtualHost)) (\<lambda>_.
          Inr virtualHost))))))"

definition BuildFallbackVirtualHost :: VirtualHost where
  "BuildFallbackVirtualHost =
     \<lparr>vh_Name = ''421vh'', vh_Domains = [''*''],
      vh_Routes = [\<lparr>rt_Match = Some (Some (PS_Prefix ''/'')), rt_Action = Some (RA_DirectResponse 421),
        rt_body = []\<rparr>],
      vh_body = []\<rparr>"

definition AddFallbackVirtualHostIfNeeded :: "RouteConfiguration \<Rightarrow> VirtualHost \<Rightarrow> bool \<Rightarrow> bool
    \<Rightarrow> RouteConfiguration" where
  "AddFallbackVirtualHostIfNeeded routeConfig virtualHost isTLSListener hasPort443 =
     (let shouldAddFallback = isTLSListener
            \<and> \<not> (length (vh_Domains virtualHost) = 1 \<and> vh_Domains virtualHost ! 0 = ''*'') \<and> hasPort443
      in if shouldAddFallback
         then routeConfig\<lparr>rc_VirtualHosts := rc_VirtualHosts routeConfig @ [BuildFallbackVirtualHost]\<rparr>
         else routeConfig)"

definition BuildRouteConfiguration :: "protolib \<Rightarrow> OptimizedStore \<Rightarrow> VirtualService
    \<Rightarrow> ListenerV3 option \<Rightarrow> NamespacedName \<Rightarrow> (VirtualHost \<times> RouteConfiguration) res" where
  "BuildRouteConfiguration lib store vs xdsListener nn =
     and_then (BuildVirtualHost lib store vs nn) (\<lambda>virtualHost.
     let routeConfiguration = \<lparr>rc_Name = NamespacedName_String nn, rc_VirtualHosts = [virtualHost]\<rparr> in
     and_then (wrap_err ''failed to validate route configuration''
         (Validate_route_config lib routeConfiguration)) (\<lambda>_.
     let listenerIsTLS = IsTLSListener xdsListener;
         hasPort443 = ListenerHasPort443 xdsListener
     in Inr (virtualHost,
          AddFallbackVirtualHostIfNeeded routeConfiguration virtualHost listenerIsTLS hasPort443)))"

section \<open>What they hold\<close>

text \<open>The clusters a route names in its action.\<close>

fun action_clusters :: "RouteActionKind option \<Rightarrow> string list" where
  "action_clusters (Some (RA_Route (Some (CS_Cluster c)))) = (if c = [] then [] else [c])"
| "action_clusters (Some (RA_Route (Some (CS_WeightedClusters (Some wcs))))) = filter (\<lambda>c. c \<noteq> []) wcs"
| "action_clusters _ = []"

definition clusters_known :: "OptimizedStore \<Rightarrow> RouteV3 \<Rightarrow> bool" where
  "clusters_known store r \<longleftrightarrow> (\<forall>c \<in> set (action_clusters (rt_Action r)). GetSpecCluster store c \<noteq> None)"

lemma weighted_clusters_None:
  "weighted_clusters store wcs = None \<longleftrightarrow> (\<forall>c \<in> set wcs. c \<noteq> [] \<longrightarrow> GetSpecCluster store c \<noteq> None)"
  by (induction wcs) (auto simp: need_cluster_def)

lemma validateRouteClusterReferences_None:
  "validateRouteClusterReferences store r = None \<longleftrightarrow> clusters_known store r"
  unfolding validateRouteClusterReferences_def clusters_known_def
  by (cases "rt_Action r" rule: action_clusters.cases)
     (auto simp: need_cluster_def weighted_clusters_None)

text \<open>A stored \<open>Route\<close> resource gives the routes its entries decode to.\<close>

definition decoded_routes :: "protolib \<Rightarrow> OptimizedStore \<Rightarrow> RawExtension list \<Rightarrow> RouteV3 list \<Rightarrow> bool" where
  "decoded_routes lib store specs rs \<longleftrightarrow>
     list_all2 (\<lambda>spec r. Unmarshal_route lib (raw_bytes spec) = Inr r \<and> clusters_known store r) specs rs"

lemma buildRoutesFromSpec_Inr:
  "buildRoutesFromSpec lib store specs ns n = Inr rs \<longleftrightarrow> decoded_routes lib store specs rs"
proof -
  have goes_on: "(case v of Some e \<Rightarrow> Inl (f e) | None \<Rightarrow> m) = Inr y \<longleftrightarrow> v = None \<and> m = Inr y"
    for v :: "goerr option" and f and m :: "RouteV3 list res" and y by (cases v) auto
  have "buildRoutesFromSpec_loop lib store ns n (enumerate k specs) = Inr rs \<longleftrightarrow>
      decoded_routes lib store specs rs" for k
  proof (induction specs arbitrary: k rs)
    case (Cons spec specs)
    show ?case
      by (simp add: exits goes_on validateRouteClusterReferences_None Cons) (auto simp: decoded_routes_def list_all2_Cons1)
  qed (auto simp: decoded_routes_def)
  then show ?thesis by (simp add: buildRoutesFromSpec_def)
qed

definition referenced_routes :: "protolib \<Rightarrow> OptimizedStore \<Rightarrow> VirtualService \<Rightarrow> RouteV3 list list \<Rightarrow> bool" where
  "referenced_routes lib store vs rss \<longleftrightarrow>
     list_all2 (\<lambda>ref rs. \<exists>route.
         GetRoute store (NN (GetNamespace (ref_Namespace ref) (m_Namespace (vs_meta vs))) (ref_Name ref)) = Some route \<and>
         decoded_routes lib store (r_Spec route) rs) (c_AdditionalRoutes (vs_common vs)) rss"

lemma concat_all2_Cons:
  "(\<exists>rss. rs = concat rss \<and> list_all2 Q (x # xs) rss) \<longleftrightarrow>
     (\<exists>r rest. rs = r @ rest \<and> Q x r \<and> (\<exists>rss. rest = concat rss \<and> list_all2 Q xs rss))"
proof
  assume "\<exists>rss. rs = concat rss \<and> list_all2 Q (x # xs) rss"
  then show "\<exists>r rest. rs = r @ rest \<and> Q x r \<and> (\<exists>rss. rest = concat rss \<and> list_all2 Q xs rss)"
    by (auto simp: list_all2_Cons1) blast
next
  assume "\<exists>r rest. rs = r @ rest \<and> Q x r \<and> (\<exists>rss. rest = concat rss \<and> list_all2 Q xs rss)"
  then obtain r rss where "rs = concat (r # rss)" "list_all2 Q (x # xs) (r # rss)" by auto
  then show "\<exists>rss. rs = concat rss \<and> list_all2 Q (x # xs) rss" by blast
qed

lemma buildAdditionalRoutes_Inr:
  "buildAdditionalRoutes lib store refs ns = Inr rs \<longleftrightarrow>
     (\<exists>rss. rs = concat rss \<and> list_all2 (\<lambda>ref rs. \<exists>route.
         GetRoute store (NN (GetNamespace (ref_Namespace ref) ns) (ref_Name ref)) = Some route \<and>
         decoded_routes lib store (r_Spec route) rs) refs rss)"
proof (induction refs arbitrary: rs)
  case (Cons ref refs)
  show ?case
    unfolding concat_all2_Cons Cons [symmetric]
    by (auto simp: Let_def exits buildRoutesFromSpec_Inr split: option.splits)
qed auto

text \<open>
  C25: A virtual host is built exactly when the inline host decodes, every referenced route
  resource is stored and decodes to routes whose clusters are known, at most one route of all
  matches the root path, the host validates and no domain occurs twice. It then carries the
  inline routes followed by the referenced ones, in order, except that the root route comes
  last, so that it never hides a more specific route.
\<close>

theorem virtual_host_exact:
  "BuildVirtualHost lib store vs nn = Inr vh \<longleftrightarrow>
     (\<exists>raw vh0 rss. c_VirtualHost (vs_common vs) = Some raw \<and>
        Unmarshal_virtual_host lib (raw_bytes raw) = Inr vh0 \<and> referenced_routes lib store vs rss \<and>
        (let all = vh_Routes vh0 @ concat rss in
           length (filter isRootRoute all) \<le> 1 \<and>
           vh = vh0\<lparr>vh_Name := NamespacedName_String nn,
             vh_Routes := filter (\<lambda>r. \<not> isRootRoute r) all @ filter isRootRoute all\<rparr>) \<and>
        Validate_virtual_host lib vh = Inr () \<and>
        distinct (filter (\<lambda>d. d \<noteq> []) (vh_Domains vh)))"
proof (cases "c_VirtualHost (vs_common vs)")
  case None
  then show ?thesis by (simp add: BuildVirtualHost_def)
next
  case (Some raw)
  have refs: "(if length (c_AdditionalRoutes (vs_common vs)) > 0 then
       and_then (wrap_err m (buildAdditionalRoutes lib store (c_AdditionalRoutes (vs_common vs))
         (m_Namespace (vs_meta vs)))) (\<lambda>add. Inr (h\<lparr>vh_Routes := vh_Routes h @ add\<rparr>))
       else Inr h) = Inr h' \<longleftrightarrow>
      (\<exists>rss. referenced_routes lib store vs rss \<and> h' = h\<lparr>vh_Routes := vh_Routes h @ concat rss\<rparr>)" for h h' m
    by (auto simp: exits buildAdditionalRoutes_Inr referenced_routes_def)
  have pull: "(\<exists>x. (\<exists>rss. A rss \<and> x = f rss) \<and> P x) \<longleftrightarrow> (\<exists>rss. A rss \<and> P (f rss))"
    for A P and f :: "RouteV3 list list \<Rightarrow> VirtualHost" by blast
  show ?thesis
    unfolding BuildVirtualHost_def Some option.case Let_def and_then_Inr wrap_err_Inr refs
      reorderRoutes_partition pull
    by (auto simp: CheckAllDomainsUnique_ok)
qed

lemma BuildRouteConfiguration_Inr:
  "BuildRouteConfiguration lib store vs xdsListener nn = Inr (vh, rc) \<longleftrightarrow>
     BuildVirtualHost lib store vs nn = Inr vh \<and>
     Validate_route_config lib \<lparr>rc_Name = NamespacedName_String nn, rc_VirtualHosts = [vh]\<rparr> = Inr () \<and>
     rc = \<lparr>rc_Name = NamespacedName_String nn,
       rc_VirtualHosts = vh # (if IsTLSListener xdsListener \<and> ListenerHasPort443 xdsListener \<and>
         vh_Domains vh \<noteq> [''*''] then [BuildFallbackVirtualHost] else [])\<rparr>"
  by (auto simp: BuildRouteConfiguration_def exits AddFallbackVirtualHostIfNeeded_def Let_def
      length_Suc_conv split: if_splits)

end
