(* ===== verification/Merge.thy ===== *)
theory Merge
  imports Helpers "HOL-Library.List_Lexorder" "HOL-Library.Char_ord"
begin

text \<open>
  The merge of JSON documents in \<^verbatim>\<open>internal/merge/merge.go\<close>. A decoded document is a value of
  \<open>json\<close>: what \<open>encoding/json\<close> puts into an \<open>any\<close>, an object being a Go map. A number is kept
  as the text its \<open>float64\<close> prints as. The decoder is an argument of the one function that
  calls it; the encoder, which decides when two array elements are the same, is written out.
\<close>

datatype json =
    JNull
  | JBool bool
  | JNum string
  | JStr string
  | JArr "json list"
  | JObj "(string \<times> json) list"

type_synonym jobject = "(string, json) gomap"

section \<open>The encoder\<close>

text \<open>
  \<open>encoding/json\<close> with HTML escaping on: quotes, backslashes, control characters, angle
  brackets, ampersands and the line separators U+2028 and U+2029 are escaped; keys are sorted.
\<close>

definition hex_digit :: "nat \<Rightarrow> char" where
  "hex_digit n = (if n < 10 then char_of (48 + n) else char_of (87 + n))"

definition u00 :: "char \<Rightarrow> string" where
  "u00 c = CHR 0x5C # ''u00'' @ [hex_digit (of_char c div 16), hex_digit (of_char c mod 16)]"

definition escape_char :: "char \<Rightarrow> string" where
  "escape_char c =
     (if c = CHR 0x22 then [CHR 0x5C, CHR 0x22]
      else if c = CHR 0x5C then [CHR 0x5C, CHR 0x5C]
      else if c = CHR 0x08 then [CHR 0x5C, CHR ''b'']
      else if c = CHR 0x0C then [CHR 0x5C, CHR ''f'']
      else if c = CHR 0x0A then [CHR 0x5C, CHR ''n'']
      else if c = CHR 0x0D then [CHR 0x5C, CHR ''r'']
      else if c = CHR 0x09 then [CHR 0x5C, CHR ''t'']
      else if of_char c < (32 :: nat) \<or> c = CHR ''<'' \<or> c = CHR ''>'' \<or> c = CHR ''&'' then u00 c
      else [c])"

fun json_escape :: "string \<Rightarrow> string" where
  "json_escape [] = []"
| "json_escape (c # s) =
     (if c = CHR 0xE2 \<and> take 2 s = [CHR 0x80, CHR 0xA8] then CHR 0x5C # ''u2028'' @ json_escape (drop 2 s)
      else if c = CHR 0xE2 \<and> take 2 s = [CHR 0x80, CHR 0xA9] then CHR 0x5C # ''u2029'' @ json_escape (drop 2 s)
      else escape_char c @ json_escape s)"

definition json_string :: "string \<Rightarrow> string" where
  "json_string s = CHR 0x22 # json_escape s @ [CHR 0x22]"

definition sort_keys :: "(string \<times> 'a) list \<Rightarrow> (string \<times> 'a) list" where
  "sort_keys m = sort_slice (\<lambda>a b. fst a < fst b) m"

fun json_marshal :: "json \<Rightarrow> string" where
  "json_marshal JNull = ''null''"
| "json_marshal (JBool b) = (if b then ''true'' else ''false'')"
| "json_marshal (JNum n) = n"
| "json_marshal (JStr s) = json_string s"
| "json_marshal (JArr xs) = ''['' @ join_with '','' (map json_marshal xs) @ '']''"
| "json_marshal (JObj m) =
     ''{'' @ join_with '',''
       (map (\<lambda>(k, t). json_string k @ '':'' @ t)
         (sort_keys (map (\<lambda>(k, v). (k, json_marshal v)) m))) @ ''}''"

section \<open>Options\<close>

datatype OperationType = OperationMerge | OperationReplace | OperationDelete

record Opt =
  opt_Path :: string
  opt_Operation :: OperationType

record parsedOpts =
  po_replace :: strset
  po_delete :: strset

fun parseOpts_loop :: "Opt list \<Rightarrow> parsedOpts \<Rightarrow> parsedOpts" where
  "parseOpts_loop [] o' = o'"
| "parseOpts_loop (opt # rest) o' =
     parseOpts_loop rest
       (if opt_Operation opt = OperationReplace
        then o'\<lparr>po_replace := gm_put (opt_Path opt) () (po_replace o')\<rparr>
        else if opt_Operation opt = OperationDelete
        then o'\<lparr>po_delete := gm_put (opt_Path opt) () (po_delete o')\<rparr>
        else o')"

definition parseOpts :: "Opt list \<Rightarrow> parsedOpts" where
  "parseOpts opts = parseOpts_loop opts \<lparr>po_replace = [], po_delete = []\<rparr>"

definition buildPath :: "string \<Rightarrow> string \<Rightarrow> string" where
  "buildPath currentPath newSegment =
     (if currentPath = [] then newSegment else currentPath @ ''.'' @ newSegment)"

section \<open>Arrays\<close>

fun mergeArrays_loop :: "string set \<Rightarrow> json list \<Rightarrow> json list \<Rightarrow> json list" where
  "mergeArrays_loop seen [] result = result"
| "mergeArrays_loop seen (itemB # rest) result =
     mergeArrays_loop seen rest
       (if json_marshal itemB \<in> seen then result else result @ [itemB])"

text \<open>
  The two tests for a nil array are never taken: an array decoded from JSON is not nil.
\<close>

definition mergeArrays :: "json list \<Rightarrow> json list \<Rightarrow> parsedOpts \<Rightarrow> string \<Rightarrow> json list" where
  "mergeArrays a b opts path =
     (if gm_has (po_replace opts) path then b
      else mergeArrays_loop (set (map json_marshal a)) b a)"

section \<open>Deleting a path\<close>

fun deleteRecursive :: "jobject \<Rightarrow> string list \<Rightarrow> jobject" where
  "deleteRecursive m [] = m"
| "deleteRecursive m [k] = gm_del k m"
| "deleteRecursive m (k # ks) =
     (case map_of m k of
        Some (JObj nextMap) \<Rightarrow> gm_put k (JObj (deleteRecursive nextMap ks)) m
      | _ \<Rightarrow> m)"

definition deleteKey :: "jobject \<Rightarrow> string \<Rightarrow> jobject" where
  "deleteKey m key = deleteRecursive m (split_on CHR ''.'' key)"

section \<open>Objects\<close>

abbreviation jsize :: "(string \<times> json) list \<Rightarrow> nat" where
  "jsize \<equiv> size_list (size_prod (\<lambda>_. 0) size)"

text \<open>
  \<open>merge_entries\<close> is the loop over \<open>b\<close>. The deletions run at the end of every call, the
  recursive ones included, with the paths as they were given.
\<close>

function (sequential) mergeMaps :: "jobject \<Rightarrow> jobject \<Rightarrow> parsedOpts \<Rightarrow> string \<Rightarrow> jobject"
  and merge_entries :: "jobject \<Rightarrow> jobject \<Rightarrow> parsedOpts \<Rightarrow> string \<Rightarrow> jobject" where
  "mergeMaps a b opts currentPath =
     fold (\<lambda>(key, _) result. deleteKey result key) (po_delete opts)
       (merge_entries (gm_copy_into a []) b opts currentPath)"
| "merge_entries result [] opts currentPath = result"
| "merge_entries result ((k, v) # rest) opts currentPath =
     merge_entries
       (gm_put k
         (case map_of result k of
            None \<Rightarrow> v
          | Some existingValue \<Rightarrow>
              (case v of
                 JObj newVal \<Rightarrow>
                   (case existingValue of
                      JObj existingMap \<Rightarrow>
                        if gm_has (po_replace opts) (buildPath currentPath k) then JObj newVal
                        else JObj (mergeMaps existingMap newVal opts (buildPath currentPath k))
                    | _ \<Rightarrow> v)
               | JArr newVal \<Rightarrow>
                   (case existingValue of
                      JArr existingArray \<Rightarrow>
                        JArr (mergeArrays existingArray newVal opts (buildPath currentPath k))
                    | _ \<Rightarrow> v)
               | _ \<Rightarrow> v))
         result)
       rest opts currentPath"
  by pat_completeness auto

termination
  by (relation "measure (case_sum (\<lambda>(_, b, _, _). 2 * jsize b + 1) (\<lambda>(_, b, _, _). 2 * jsize b))")
     auto

declare mergeMaps.simps [simp del] merge_entries.simps [simp del]

text \<open>
  \<open>json.Unmarshal\<close> into a map: the decoder gives an error, no map (for \<open>null\<close>), or a map. An
  empty input is the error that is let through, with no map.
\<close>

definition parseJSON :: "(string \<Rightarrow> jobject option res) \<Rightarrow> string \<Rightarrow> jobject" where
  "parseJSON dec data = (case dec data of Inl _ \<Rightarrow> [] | Inr None \<Rightarrow> [] | Inr (Some m) \<Rightarrow> m)"

definition JSONRawMessages :: "(string \<Rightarrow> jobject option res) \<Rightarrow> string \<Rightarrow> string \<Rightarrow> Opt list \<Rightarrow> string" where
  "JSONRawMessages dec a b opts =
     json_marshal (JObj (mergeMaps (parseJSON dec a) (parseJSON dec b) (parseOpts opts) []))"

section \<open>What a merge gives\<close>

text \<open>The value a key of \<open>b\<close> gets, as a function of the value \<open>a\<close> has under it.\<close>

definition merge_value :: "parsedOpts \<Rightarrow> string \<Rightarrow> json option \<Rightarrow> json \<Rightarrow> json" where
  "merge_value opts path old v =
     (case (old, v) of
        (Some (JObj m), JObj n) \<Rightarrow>
          if gm_has (po_replace opts) path then v else JObj (mergeMaps m n opts path)
      | (Some (JArr xs), JArr ys) \<Rightarrow> JArr (mergeArrays xs ys opts path)
      | _ \<Rightarrow> v)"

lemma merge_entries_Cons:
  "merge_entries result ((k, v) # rest) opts path =
     merge_entries (gm_put k (merge_value opts (buildPath path k) (map_of result k) v) result)
       rest opts path"
  by (subst merge_entries.simps)
     (rule arg_cong [where f = "\<lambda>x. merge_entries (gm_put k x result) rest opts path"],
      simp add: merge_value_def split: option.split json.split)

lemma merge_entries_wf: "gm_wf result \<Longrightarrow> gm_wf (merge_entries result b opts path)"
  by (induction b arbitrary: result) (auto simp: merge_entries_Cons merge_entries.simps(1))

lemma merge_entries_lookup:
  assumes "gm_wf b"
  shows "map_of (merge_entries result b opts path) k =
    (case map_of b k of
       None \<Rightarrow> map_of result k
     | Some v \<Rightarrow> Some (merge_value opts (buildPath path k) (map_of result k) v))"
  using assms
proof (induction b arbitrary: result)
  case (Cons p b)
  obtain j v where p: "p = (j, v)" by (cases p)
  have wf: "gm_wf b" and j: "map_of b j = None"
    using Cons.prems by (auto simp: p gm_wf_def map_of_eq_None_iff)
  show ?case
    by (simp add: p merge_entries_Cons Cons.IH [OF wf] j split: option.split)
qed (simp add: merge_entries.simps(1))

lemma mergeArrays_loop_eq:
  "mergeArrays_loop seen b result = result @ filter (\<lambda>x. json_marshal x \<notin> seen) b"
  by (induction b arbitrary: result) auto

text \<open>
  Merging two objects when nothing is to be deleted. A key of only one side keeps that
  side's value; objects under the same key are merged in turn and arrays are joined, unless
  the path of the key is marked for replacement, and in every other case the value of the
  second object wins.
\<close>

lemma mergeMaps_lookup:
  assumes "gm_wf a" "gm_wf b" "po_delete opts = []"
  shows "map_of (mergeMaps a b opts path) k =
    (case (map_of a k, map_of b k) of
       (x, None) \<Rightarrow> x
     | (None, Some v) \<Rightarrow> Some v
     | (Some (JObj m), Some (JObj n)) \<Rightarrow>
         Some (if gm_has (po_replace opts) (buildPath path k) then JObj n
               else JObj (mergeMaps m n opts (buildPath path k)))
     | (Some (JArr xs), Some (JArr ys)) \<Rightarrow>
         Some (if gm_has (po_replace opts) (buildPath path k) then JArr ys
               else JArr (xs @ filter (\<lambda>y. json_marshal y \<notin> json_marshal ` set xs) ys))
     | (Some _, Some v) \<Rightarrow> Some v)"
  using assms
  by (subst mergeMaps.simps)
     (simp add: merge_entries_lookup gm_copy_empty merge_value_def mergeArrays_def
       mergeArrays_loop_eq split: option.split json.split)

section \<open>Deletions\<close>

text \<open>The value at a path of keys.\<close>

fun jget :: "jobject \<Rightarrow> string list \<Rightarrow> json option" where
  "jget m [] = Some (JObj m)"
| "jget m [k] = map_of m k"
| "jget m (k # ks) = (case map_of m k of Some (JObj n) \<Rightarrow> jget n ks | _ \<Rightarrow> None)"

lemma jget_deleteRecursive: "ks \<noteq> [] \<Longrightarrow> jget (deleteRecursive m ks) ks = None"
  by (induction m ks rule: deleteRecursive.induct) (auto split: option.split json.split)

lemma deleteRecursive_cases:
  "map_of (deleteRecursive m (k # ks)) k' =
     (if k' \<noteq> k then map_of m k'
      else if ks = [] then None
      else case map_of m k of Some (JObj n) \<Rightarrow> Some (JObj (deleteRecursive n ks)) | x \<Rightarrow> x)"
  by (cases ks) (auto split: option.split json.split)

lemma jget_Cons:
  "jget m (k # ks) =
     (if ks = [] then map_of m k
      else case map_of m k of Some (JObj n) \<Rightarrow> jget n ks | _ \<Rightarrow> None)"
  by (cases ks; simp split: option.split json.split)

text \<open>What is gone stays gone when more paths are deleted.\<close>

lemma jget_delete_None: "jget m ps = None \<Longrightarrow> jget (deleteRecursive m ks) ps = None"
proof (induction ps arbitrary: m ks)
  case (Cons p ps)
  show ?case
  proof (cases ks)
    case (Cons k ks')
    with Cons.prems Cons.IH show ?thesis
      by (auto simp: jget_Cons deleteRecursive_cases split: option.splits json.splits if_splits)
  qed (use Cons.prems in simp)
qed simp

lemma fold_delete_None:
  "jget m ps = None \<Longrightarrow> jget (fold (\<lambda>(key, _) r. deleteKey r key) ds m) ps = None"
  by (induction ds arbitrary: m) (auto simp: deleteKey_def jget_delete_None)

lemma fold_delete_gone:
  "(path, u) \<in> set ds \<Longrightarrow>
     jget (fold (\<lambda>(key, _) r. deleteKey r key) ds m) (split_on CHR ''.'' path) = None"
proof (induction ds arbitrary: m)
  case (Cons d ds)
  show ?case
  proof (cases "(path, u) = d")
    case True
    have "jget (deleteKey m path) (split_on CHR ''.'' path) = None"
      by (simp add: deleteKey_def jget_deleteRecursive)
    from fold_delete_None [OF this] show ?thesis by (simp add: True [symmetric])
  qed (use Cons in auto)
qed simp

text \<open>
  A deleted path is gone from the result, whatever either side holds under it and in
  whatever order the deletions run.
\<close>

lemma delete_effective:
  assumes "gm_has (po_delete opts) path"
  shows "jget (mergeMaps a b opts currentPath) (split_on CHR ''.'' path) = None"
proof -
  from assms obtain u where "(path, u) \<in> set (po_delete opts)"
    by (auto simp: gm_has_iff)
  then show ?thesis by (subst mergeMaps.simps) (rule fold_delete_gone)
qed

text \<open>
  C11: deletions reach further than the path says. The paths are absolute, but every recursive
  call of mergeMaps applies them to the nested object it has merged: the path ''name'' also
  deletes the key ''name'' of a nested object that both sides hold.
\<close>

theorem delete_reaches_nested:
  assumes "gm_wf a" "gm_wf b" "map_of a k = Some (JObj m)" "map_of b k = Some (JObj n)"
    and "po_delete opts = [(d, ())]" "CHR ''.'' \<notin> set d" "d \<noteq> k"
    and "\<not> gm_has (po_replace opts) (buildPath path k)"
  shows "\<exists>r. map_of (mergeMaps a b opts path) k = Some (JObj r) \<and> map_of r d = None"
proof -
  have split: "split_on CHR ''.'' d = [d]" by (rule split_on_free [OF assms(6)])
  have "map_of (mergeMaps a b opts path) k = Some (JObj (mergeMaps m n opts (buildPath path k)))"
    using assms
    by (subst mergeMaps.simps)
       (simp add: deleteKey_def split merge_entries_lookup gm_copy_empty merge_value_def)
  moreover have "map_of (mergeMaps m n opts (buildPath path k)) d = None"
    by (subst mergeMaps.simps) (simp add: assms(5) deleteKey_def split)
  ultimately show ?thesis by blast
qed

theorem delete_reaches_nested_witness:
  "\<exists>r. map_of (mergeMaps [(''virtualHost'', JObj [(''name'', JStr ''a'')])]
     [(''virtualHost'', JObj [(''domains'', JArr [])])]
     \<lparr>po_replace = [], po_delete = [(''name'', ())]\<rparr> []) ''virtualHost'' = Some (JObj r)
     \<and> map_of r ''name'' = None"
  by (rule delete_reaches_nested) (auto simp: gm_wf_def gm_has_def)

end
