(* ===== verification/Template.thy ===== *)
theory Template
  imports Api Merge
begin

text \<open>
  Filling a virtual service from its template (\<open>FillFromTemplate\<close>) and the \<open>IsEqual\<close> methods
  by which the controller decides that a resource has changed. The JSON codec of the Kubernetes
  types and the text template engine are the fields of \<open>speclib\<close>.
\<close>

record speclib =
  marshal_common :: "VirtualServiceCommonSpec \<Rightarrow> bytes res"
  unmarshal_common :: "bytes \<Rightarrow> VirtualServiceCommonSpec \<Rightarrow> VirtualServiceCommonSpec res"
  decode_map :: "bytes \<Rightarrow> jobject option res"
  decode_any :: "bytes \<Rightarrow> json res"
  template_Parse :: "string \<Rightarrow> goerr option"
  template_Execute :: "string \<Rightarrow> (string, string) gomap \<Rightarrow> string res"

section \<open>Extra fields\<close>

definition nil_panic :: goerr where
  "nil_panic = Err ''invalid memory address or nil pointer dereference''"

text \<open>The checks on one field the template declares, and the loop over them.\<close>

definition quoted :: "string \<Rightarrow> string" where
  "quoted s = CHR 0x27 # s @ [CHR 0x27]"

definition check_field :: "(string, string) gomap \<Rightarrow> ExtraField \<Rightarrow> goerr option" where
  "check_field extra field =
     (if ef_Required field \<and> (map_of extra (ef_Name field) = None \<or> map_of extra (ef_Name field) = Some [])
      then Some (Err (''required extra field '' @ quoted (ef_Name field) @ '' is missing or empty''))
      else if ef_Type field = ''enum'' then
        (case map_of extra (ef_Name field) of
           None \<Rightarrow> None
         | Some val \<Rightarrow>
             if val \<in> set (ef_Enum field) then None
             else Some (Err (''extra field '' @ quoted (ef_Name field) @ '' has invalid value '' @ quoted val)))
      else None)"

fun check_fields :: "(string, string) gomap \<Rightarrow> ExtraField option list \<Rightarrow> strset \<Rightarrow> strset res" where
  "check_fields extra [] valid = Inr valid"
| "check_fields extra (None # rest) valid = Inl nil_panic"
| "check_fields extra (Some field # rest) valid =
     (case check_field extra field of
        Some err \<Rightarrow> Inl err
      | None \<Rightarrow> check_fields extra rest (gm_put (ef_Name field) () valid))"

fun check_undeclared :: "(string, string) gomap \<Rightarrow> strset \<Rightarrow> goerr option" where
  "check_undeclared [] valid = None"
| "check_undeclared ((fieldName, _) # rest) valid =
     (if \<not> gm_has valid fieldName
      then Some (Err (''extra field '' @ quoted fieldName @ '' is not defined in the template''))
      else check_undeclared rest valid)"

definition validate_extra_fields :: "VirtualService \<Rightarrow> VirtualServiceTemplate \<Rightarrow> goerr option" where
  "validate_extra_fields vs vst =
     (if length (vst_ExtraFields vst) > 0 then
        (case check_fields (vs_ExtraFields vs) (vst_ExtraFields vst) [] of
           Inl err \<Rightarrow> Some err
         | Inr valid \<Rightarrow> check_undeclared (vs_ExtraFields vs) valid)
      else None)"

section \<open>Options\<close>

definition ModifierMerge :: string where "ModifierMerge = ''merge''"
definition ModifierReplace :: string where "ModifierReplace = ''replace''"
definition ModifierDelete :: string where "ModifierDelete = ''delete''"

definition convert_opt :: "TemplateOpts \<Rightarrow> Opt res" where
  "convert_opt opt =
     (if to_Field opt = [] then Inl (Err ''template option field is empty'')
      else if to_Modifier opt = ModifierMerge
        then Inr \<lparr>opt_Path = to_Field opt, opt_Operation = OperationMerge\<rparr>
      else if to_Modifier opt = ModifierReplace
        then Inr \<lparr>opt_Path = to_Field opt, opt_Operation = OperationReplace\<rparr>
      else if to_Modifier opt = ModifierDelete
        then Inr \<lparr>opt_Path = to_Field opt, opt_Operation = OperationDelete\<rparr>
      else Inl (Err ''template option modifier is invalid''))"

section \<open>Filling\<close>

definition base_data :: "speclib \<Rightarrow> VirtualService \<Rightarrow> VirtualServiceTemplate \<Rightarrow> bytes res" where
  "base_data lib vs vst =
     (case marshal_common lib (vst_common vst) of
        Inl err \<Rightarrow> Inl err
      | Inr baseData \<Rightarrow>
          if length (vs_ExtraFields vs) > 0 \<and> length (vst_ExtraFields vst) > 0 then
            (case template_Parse lib baseData of
               Some err \<Rightarrow> Inl (Wrap ''failed to parse template'' err)
             | None \<Rightarrow>
                 (case template_Execute lib baseData (vs_ExtraFields vs) of
                    Inl err \<Rightarrow> Inl (Wrap ''failed to execute template'' err)
                  | Inr out \<Rightarrow> Inr out))
          else Inr baseData)"

definition FillFromTemplate ::
    "speclib \<Rightarrow> VirtualService \<Rightarrow> VirtualServiceTemplate \<Rightarrow> TemplateOpts list \<Rightarrow> VirtualService res" where
  "FillFromTemplate lib vs vst templateOpts =
     (let vst = VirtualServiceTemplate_NormalizeSpec vst in
      case validate_extra_fields vs vst of
        Some err \<Rightarrow> Inl err
      | None \<Rightarrow>
      (case base_data lib vs vst of
         Inl err \<Rightarrow> Inl err
       | Inr baseData \<Rightarrow>
      (case marshal_common lib (vs_common vs) of
         Inl err \<Rightarrow> Inl err
       | Inr svcData \<Rightarrow>
      (case map_res convert_opt templateOpts of
         Inl err \<Rightarrow> Inl err
       | Inr tOpts \<Rightarrow>
      (let mergedData = JSONRawMessages (decode_map lib) baseData svcData tOpts in
       case unmarshal_common lib mergedData (vs_common vs) of
         Inl err \<Rightarrow> Inl err
       | Inr spec \<Rightarrow> Inr (vs\<lparr>vs_common := spec\<rparr>))))))"

section \<open>Equality of resources\<close>

definition CommonSpec_IsEqual ::
    "speclib \<Rightarrow> VirtualServiceCommonSpec option \<Rightarrow> VirtualServiceCommonSpec option \<Rightarrow> bool" where
  "CommonSpec_IsEqual lib vsc other =
     (case (vsc, other) of
        (None, None) \<Rightarrow> True
      | (Some a, Some b) \<Rightarrow>
          (case marshal_common lib a of
             Inl _ \<Rightarrow> False
           | Inr vscBytes \<Rightarrow>
               (case marshal_common lib b of
                  Inl _ \<Rightarrow> False
                | Inr otherBytes \<Rightarrow> vscBytes = otherBytes))
      | _ \<Rightarrow> False)"

definition refs_equal :: "ResourceRef option \<Rightarrow> ResourceRef option \<Rightarrow> bool" where
  "refs_equal a b =
     (case (a, b) of
        (None, None) \<Rightarrow> True
      | (Some r, Some r') \<Rightarrow>
          ref_Name r = ref_Name r' \<and>
          (case (ref_Namespace r, ref_Namespace r') of
             (None, None) \<Rightarrow> True
           | (Some n, Some n') \<Rightarrow> n = n'
           | _ \<Rightarrow> False)
      | _ \<Rightarrow> False)"

definition VirtualService_IsEqual ::
    "speclib \<Rightarrow> VirtualService option \<Rightarrow> VirtualService option \<Rightarrow> bool" where
  "VirtualService_IsEqual lib vs other =
     (case (vs, other) of
        (None, None) \<Rightarrow> True
      | (Some a, Some b) \<Rightarrow>
          annotation (vs_meta a) AnnotationNodeIDs = annotation (vs_meta b) AnnotationNodeIDs \<and>
          CommonSpec_IsEqual lib (Some (vs_common a)) (Some (vs_common b)) \<and>
          refs_equal (vs_Template a) (vs_Template b) \<and>
          list_all2 (\<lambda>x y. to_Field x = to_Field y \<and> to_Modifier x = to_Modifier y)
            (vs_TemplateOptions a) (vs_TemplateOptions b) \<and>
          length (vs_ExtraFields a) = length (vs_ExtraFields b) \<and>
          list_all (\<lambda>(k, v). map_of (vs_ExtraFields b) k = Some v) (vs_ExtraFields a)
      | _ \<Rightarrow> False)"

definition extra_field_equal :: "ExtraField option \<Rightarrow> ExtraField option \<Rightarrow> bool" where
  "extra_field_equal x y =
     (case (x, y) of
        (None, None) \<Rightarrow> True
      | (Some e, Some e') \<Rightarrow>
          ef_Name e = ef_Name e' \<and> ef_Description e = ef_Description e' \<and> ef_Type e = ef_Type e' \<and>
          ef_Required e = ef_Required e' \<and> ef_Default e = ef_Default e' \<and> ef_Enum e = ef_Enum e'
      | _ \<Rightarrow> False)"

definition VirtualServiceTemplate_IsEqual ::
    "speclib \<Rightarrow> VirtualServiceTemplate option \<Rightarrow> VirtualServiceTemplate option \<Rightarrow> bool" where
  "VirtualServiceTemplate_IsEqual lib vst other =
     (case (vst, other) of
        (None, None) \<Rightarrow> True
      | (Some a, Some b) \<Rightarrow>
          CommonSpec_IsEqual lib (Some (vst_common a)) (Some (vst_common b)) \<and>
          list_all2 extra_field_equal (vst_ExtraFields a) (vst_ExtraFields b)
      | _ \<Rightarrow> False)"

text \<open>\<open>bytes.Equal\<close> does not tell nil from empty.\<close>

definition bytes_Equal :: "bytes option \<Rightarrow> bytes option \<Rightarrow> bool" where
  "bytes_Equal a b \<longleftrightarrow>
     (case a of None \<Rightarrow> [] | Some x \<Rightarrow> x) = (case b of None \<Rightarrow> [] | Some y \<Rightarrow> y)"

definition raw_specs_equal :: "RawExtension option \<Rightarrow> RawExtension option \<Rightarrow> bool" where
  "raw_specs_equal a b =
     (case (a, b) of
        (None, None) \<Rightarrow> True
      | (Some s, Some s') \<Rightarrow>
          (case (Raw s, Raw s') of
             (None, None) \<Rightarrow> True
           | (Some x, Some y) \<Rightarrow> x = y
           | _ \<Rightarrow> False)
      | _ \<Rightarrow> False)"

definition Cluster_IsEqual :: "Cluster option \<Rightarrow> Cluster option \<Rightarrow> bool" where
  "Cluster_IsEqual c other =
     (case (c, other) of
        (None, None) \<Rightarrow> True
      | (Some a, Some b) \<Rightarrow> raw_specs_equal (cl_Spec a) (cl_Spec b)
      | _ \<Rightarrow> False)"

definition Policy_IsEqual :: "Policy option \<Rightarrow> Policy option \<Rightarrow> bool" where
  "Policy_IsEqual p other =
     (case (p, other) of
        (None, None) \<Rightarrow> True
      | (Some a, Some b) \<Rightarrow> raw_specs_equal (p_Spec a) (p_Spec b)
      | _ \<Rightarrow> False)"

text \<open>Listeners and tracings without bytes are never equal, not even to themselves.\<close>

definition raw_specs_equal_strict :: "RawExtension option \<Rightarrow> RawExtension option \<Rightarrow> bool" where
  "raw_specs_equal_strict a b =
     (case (a, b) of
        (Some s, Some s') \<Rightarrow>
          (case (Raw s, Raw s') of (Some x, Some y) \<Rightarrow> x = y | _ \<Rightarrow> False)
      | _ \<Rightarrow> False)"

definition Listener_IsEqual :: "Listener option \<Rightarrow> Listener option \<Rightarrow> bool" where
  "Listener_IsEqual l other =
     (case (l, other) of
        (None, None) \<Rightarrow> True
      | (Some a, Some b) \<Rightarrow> raw_specs_equal_strict (l_Spec a) (l_Spec b)
      | _ \<Rightarrow> False)"

definition Tracing_IsEqual :: "Tracing option \<Rightarrow> Tracing option \<Rightarrow> bool" where
  "Tracing_IsEqual t other =
     (case (t, other) of
        (None, None) \<Rightarrow> True
      | (Some a, Some b) \<Rightarrow> raw_specs_equal_strict (tr_Spec a) (tr_Spec b)
      | _ \<Rightarrow> False)"

definition annotationAutogenFilename :: string where
  "annotationAutogenFilename = ''envoy.kaasops.io/auto-generated-filename''"

definition AccessLogConfig_IsEqual :: "AccessLogConfig option \<Rightarrow> AccessLogConfig option \<Rightarrow> bool" where
  "AccessLogConfig_IsEqual x other =
     (case (x, other) of
        (None, None) \<Rightarrow> True
      | (Some a, Some b) \<Rightarrow>
          if map_of (nilmap (m_Annotations (alc_meta a))) annotationAutogenFilename
             \<noteq> map_of (nilmap (m_Annotations (alc_meta b))) annotationAutogenFilename then False
          else (case (alc_Spec a, alc_Spec b) of
              (None, None) \<Rightarrow> True
            | (Some s, Some s') \<Rightarrow> bytes_Equal (Raw s) (Raw s')
            | _ \<Rightarrow> False)
      | _ \<Rightarrow> False)"

definition Route_IsEqual :: "Route option \<Rightarrow> Route option \<Rightarrow> bool" where
  "Route_IsEqual r other =
     (case (r, other) of
        (None, None) \<Rightarrow> True
      | (Some a, Some b) \<Rightarrow> list_all2 (\<lambda>x y. bytes_Equal (Raw y) (Raw x)) (r_Spec a) (r_Spec b)
      | _ \<Rightarrow> False)"

text \<open>\<open>reflect.DeepEqual\<close> on decoded JSON: objects are compared as maps.\<close>

fun DeepEqual :: "json \<Rightarrow> json \<Rightarrow> bool" and DeepEqual_list :: "json list \<Rightarrow> json list \<Rightarrow> bool"
  and DeepEqual_obj :: "(string \<times> json) list \<Rightarrow> (string \<times> json) list \<Rightarrow> bool" where
  "DeepEqual (JArr xs) (JArr ys) = DeepEqual_list xs ys"
| "DeepEqual (JObj m) (JObj n) = (length m = length n \<and> DeepEqual_obj m n)"
| "DeepEqual v w = (v = w)"
| "DeepEqual_list [] [] = True"
| "DeepEqual_list (x # xs) (y # ys) = (DeepEqual x y \<and> DeepEqual_list xs ys)"
| "DeepEqual_list _ _ = False"
| "DeepEqual_obj [] n = True"
| "DeepEqual_obj ((k, v) # m) n =
     ((case map_of n k of None \<Rightarrow> False | Some w \<Rightarrow> DeepEqual v w) \<and> DeepEqual_obj m n)"

definition http_filter_spec_equal :: "speclib \<Rightarrow> RawExtension option \<Rightarrow> RawExtension option \<Rightarrow> bool" where
  "http_filter_spec_equal lib x y =
     (case (x, y) of
        (None, None) \<Rightarrow> True
      | (Some s, Some s') \<Rightarrow>
          (case decode_any lib (raw_bytes s) of
             Inl _ \<Rightarrow> False
           | Inr thisJSON \<Rightarrow>
               (case decode_any lib (raw_bytes s') of
                  Inl _ \<Rightarrow> False
                | Inr otherJSON \<Rightarrow> DeepEqual thisJSON otherJSON))
      | _ \<Rightarrow> False)"

definition HttpFilter_IsEqual :: "speclib \<Rightarrow> HttpFilter option \<Rightarrow> HttpFilter option \<Rightarrow> bool" where
  "HttpFilter_IsEqual lib h other =
     (case (h, other) of
        (None, None) \<Rightarrow> True
      | (Some a, Some b) \<Rightarrow> list_all2 (http_filter_spec_equal lib) (hf_Spec a) (hf_Spec b)
      | _ \<Rightarrow> False)"

section \<open>Main facts\<close>

lemma check_field_None:
  "check_field extra f = None \<longleftrightarrow>
     (ef_Required f \<longrightarrow> (\<exists>v. map_of extra (ef_Name f) = Some v \<and> v \<noteq> [])) \<and>
     (ef_Type f = ''enum'' \<longrightarrow> (\<forall>v. map_of extra (ef_Name f) = Some v \<longrightarrow> v \<in> set (ef_Enum f)))"
  by (auto simp: check_field_def split: option.splits if_splits)

lemma check_fields_ok:
  "(\<exists>valid. check_fields extra fs acc = Inr valid) \<longleftrightarrow>
     (\<forall>f \<in> set fs. \<exists>x. f = Some x \<and> check_field extra x = None)"
  by (induction extra fs acc rule: check_fields.induct) (auto split: option.splits)

lemma check_fields_valid:
  "check_fields extra fs acc = Inr valid \<Longrightarrow>
     gm_has valid n \<longleftrightarrow> gm_has acc n \<or> (\<exists>x. Some x \<in> set fs \<and> ef_Name x = n)"
  by (induction extra fs acc rule: check_fields.induct)
     (auto simp: gm_has_def split: option.splits if_splits)

lemma check_undeclared_None: "check_undeclared extra valid = None \<longleftrightarrow> (\<forall>(n, v) \<in> set extra. gm_has valid n)"
  by (induction extra valid rule: check_undeclared.induct) auto

text \<open>
  The extra fields of a virtual service are accepted exactly when the template declares
  none, or every declared field is present where required and takes one of its values where it
  is an enumeration, and no field is given that the template does not declare.
\<close>

lemma validate_extra_fields_spec:
  "validate_extra_fields vs vst = None \<longleftrightarrow>
     vst_ExtraFields vst = [] \<or>
     ((\<forall>f \<in> set (vst_ExtraFields vst). \<exists>x. f = Some x \<and>
         (ef_Required x \<longrightarrow> (\<exists>v. map_of (vs_ExtraFields vs) (ef_Name x) = Some v \<and> v \<noteq> [])) \<and>
         (ef_Type x = ''enum'' \<longrightarrow>
            (\<forall>v. map_of (vs_ExtraFields vs) (ef_Name x) = Some v \<longrightarrow> v \<in> set (ef_Enum x)))) \<and>
      (\<forall>(n, v) \<in> set (vs_ExtraFields vs). \<exists>x. Some x \<in> set (vst_ExtraFields vst) \<and> ef_Name x = n))"
proof (cases "vst_ExtraFields vst = []")
  case False
  let ?r = "check_fields (vs_ExtraFields vs) (vst_ExtraFields vst) []"
  note ok = check_fields_ok [of "vs_ExtraFields vs" "vst_ExtraFields vst" "[]"]
  show ?thesis
  proof (cases ?r)
    case (Inl e)
    with False ok show ?thesis by (simp add: validate_extra_fields_def check_field_None)
  next
    case (Inr valid)
    have "gm_has valid n \<longleftrightarrow> (\<exists>x. Some x \<in> set (vst_ExtraFields vst) \<and> ef_Name x = n)" for n
      using check_fields_valid [OF Inr, of n] by (simp add: gm_has_def)
    with False ok Inr show ?thesis
      by (simp add: validate_extra_fields_def check_undeclared_None check_field_None)
  qed
qed (simp add: validate_extra_fields_def)


text \<open>A codec for which filling from a template succeeds.\<close>

definition toy_speclib :: speclib where
  "toy_speclib = \<lparr>marshal_common = (\<lambda>_. Inr ''{}''), unmarshal_common = (\<lambda>_ c. Inr c),
     decode_map = (\<lambda>_. Inr (Some [])), decode_any = (\<lambda>_. Inr JNull), template_Parse = (\<lambda>_. None),
     template_Execute = (\<lambda>t _. Inr t)\<rparr>"

definition toy_template :: VirtualServiceTemplate where
  "toy_template = \<lparr>vst_meta = empty_meta, vst_common = empty_common, vst_ExtraFields = []\<rparr>"


lemma refs_equal_iff: "refs_equal a b \<longleftrightarrow> a = b"
  by (cases a; cases b) (auto simp: refs_equal_def split: option.splits)

text \<open>
  The change test of a virtual service misses nothing the builders read. Two services it
  calls equal have the same node ids, the same template reference and options, the same extra
  fields as maps, and common specs that encode to the same document.
\<close>

lemma VirtualService_IsEqual_sound:
  assumes "VirtualService_IsEqual lib (Some a) (Some b)"
    and "gm_wf (vs_ExtraFields a)" "gm_wf (vs_ExtraFields b)"
  shows "GetNodeIDs a = GetNodeIDs b \<and> vs_Template a = vs_Template b
    \<and> vs_TemplateOptions a = vs_TemplateOptions b
    \<and> map_of (vs_ExtraFields a) = map_of (vs_ExtraFields b)
    \<and> marshal_common lib (vs_common a) = marshal_common lib (vs_common b)"
proof -
  note eq = assms(1) [unfolded VirtualService_IsEqual_def prod.case option.case]
  have nodes: "GetNodeIDs a = GetNodeIDs b" using eq by (simp add: GetNodeIDs_def Let_def)
  have "set (vs_ExtraFields a) \<subseteq> set (vs_ExtraFields b)"
    using eq assms(3) by (auto simp: list_all_iff gm_mem_iff)
  moreover have "card (set (vs_ExtraFields a)) = card (set (vs_ExtraFields b))"
    using eq assms(2,3) by (simp add: gm_wf_def distinct_card distinct_map)
  ultimately have "set (vs_ExtraFields a) = set (vs_ExtraFields b)"
    by (simp add: card_subset_eq)
  then have "map_of (vs_ExtraFields a) = map_of (vs_ExtraFields b)"
    using assms(2,3) by (simp add: gm_wf_def map_of_inject_set)
  moreover have "vs_TemplateOptions a = vs_TemplateOptions b"
    using eq by (auto intro!: list_all2_eq [THEN iffD2] elim!: list_all2_mono)
  ultimately show ?thesis
    using eq nodes by (auto simp: refs_equal_iff CommonSpec_IsEqual_def split: sum.splits)
qed

end
