(* ===== verification/HttpFilters.thy ===== *)
theory HttpFilters
  imports Lru Routes Template
begin

text \<open>
  The HTTP filters of a virtual service (\<^verbatim>\<open>internal/xds/resbuilder/filters/builder.go\<close>): the
  RBAC filter, the inline and the referenced filters, the router filter at the end, and the
  process-wide cache in front of it all. The codecs of the filter messages, the JSON encoder
  of the Kubernetes types and the digest are the fields of \<open>filterlib\<close>. The cache is passed as
  a state, with the pool of slices it copies through.
\<close>

type_synonym RbacPolicy = bytes

record RBAC =
  rb_Action :: int
  rb_Policies :: "(string, RbacPolicy) gomap"

record filterlib =
  Unmarshal_http_filter :: "bytes \<Rightarrow> HttpFilterV3 res"
  Validate_http_filter :: "HttpFilterV3 \<Rightarrow> unit res"
  Unmarshal_rbac_policy :: "bytes \<Rightarrow> RbacPolicy res"
  Validate_rbac_policy :: "RbacPolicy \<Rightarrow> unit res"
  RBAC_Action_value :: "string \<Rightarrow> int option"
  MarshalFrom_rbac :: "RBAC \<Rightarrow> AnyPb res"
  json_Marshal_rbac :: "VirtualServiceRBACSpec \<Rightarrow> bytes res"
  sha256_hex :: "bytes \<Rightarrow> string"

type_synonym filter_state = "HTTPFilterLRUCache \<times> slice_pool"

section \<open>The RBAC filter\<close>

definition decode_policy :: "filterlib \<Rightarrow> string \<Rightarrow> bytes \<Rightarrow> RbacPolicy res" where
  "decode_policy fl what raw =
     and_then (wrap_err (''failed to unmarshal rbac policy '' @ what) (Unmarshal_rbac_policy fl raw)) (\<lambda>policy.
     and_then (wrap_err (''failed to validate rbac policy '' @ what) (Validate_rbac_policy fl policy)) (\<lambda>_.
     Inr policy))"

definition add_inline_policy :: "filterlib \<Rightarrow> string \<times> RawExtension
    \<Rightarrow> (string, RbacPolicy) gomap \<Rightarrow> (string, RbacPolicy) gomap res" where
  "add_inline_policy fl = (\<lambda>(policyName, rawPolicy) policies.
     and_then (decode_policy fl policyName (raw_bytes rawPolicy)) (\<lambda>policy.
     Inr (gm_put policyName policy policies)))"

definition add_policy_ref :: "filterlib \<Rightarrow> OptimizedStore \<Rightarrow> string \<Rightarrow> ResourceRef
    \<Rightarrow> (string, RbacPolicy) gomap \<Rightarrow> (string, RbacPolicy) gomap res" where
  "add_policy_ref fl store vsNamespace policyRef ps =
     (let ns = GetNamespace (ref_Namespace policyRef) vsNamespace
      in case GetPolicy store (NN ns (ref_Name policyRef)) of
           None \<Rightarrow> Inl (Err (''rbac policy '' @ ns @ ''/'' @ ref_Name policyRef @ '' not found''))
         | Some policy \<Rightarrow>
             if gm_has ps (m_Name (p_meta policy))
             then Inl (Err (''policy '' @ quoted (m_Name (p_meta policy)) @ '' already exist in RBAC''))
             else (case p_Spec policy of
                 None \<Rightarrow> Inl nil_panic
               | Some spec \<Rightarrow>
                   and_then (decode_policy fl (ns @ ''/'' @ ref_Name policyRef) (raw_bytes spec)) (\<lambda>rbacPolicy.
                   Inr (gm_put (m_Name (p_meta policy)) rbacPolicy ps))))"

definition BuildRBACFilter :: "filterlib \<Rightarrow> OptimizedStore \<Rightarrow> VirtualService \<Rightarrow> RBAC option res" where
  "BuildRBACFilter fl store vs =
     (case c_RBAC (vs_common vs) of
        None \<Rightarrow> Inr None
      | Some rbac \<Rightarrow>
          if rbac_Action rbac = [] then Inl (Err ''rbac action is empty'')
          else (case RBAC_Action_value fl (rbac_Action rbac) of
              None \<Rightarrow> Inl (Err (''invalid rbac action '' @ rbac_Action rbac))
            | Some action \<Rightarrow>
                if length (rbac_Policies rbac) = 0 \<and> length (rbac_AdditionalPolicies rbac) = 0
                then Inl (Err ''rbac policies is empty'')
                else
                  and_then (for_each (add_inline_policy fl) (rbac_Policies rbac) []) (\<lambda>ps.
                  and_then (for_each (add_policy_ref fl store (m_Namespace (vs_meta vs)))
                      (rbac_AdditionalPolicies rbac) ps) (\<lambda>ps.
                  Inr (Some \<lparr>rb_Action = action, rb_Policies = ps\<rparr>)))))"

section \<open>The filters\<close>

definition rbac_http_filters :: "filterlib \<Rightarrow> OptimizedStore \<Rightarrow> VirtualService \<Rightarrow> HttpFilterV3 list res" where
  "rbac_http_filters fl store vs =
     and_then (BuildRBACFilter fl store vs) (\<lambda>rbacF.
     case rbacF of
       None \<Rightarrow> Inr []
     | Some r \<Rightarrow>
         and_then (MarshalFrom_rbac fl r) (\<lambda>tc.
         Inr [\<lparr>hfv3_Name = ''exc.filters.http.rbac'', hfv3_TypedConfig = Some tc, hfv3_body = []\<rparr>]))"

definition inline_http_filter :: "filterlib \<Rightarrow> RawExtension \<Rightarrow> HttpFilterV3 res" where
  "inline_http_filter fl httpFilter =
     and_then (wrap_err ''failed to unmarshal http filter''
         (Unmarshal_http_filter fl (raw_bytes httpFilter))) (\<lambda>hf.
     and_then (wrap_err ''failed to validate http filter'' (Validate_http_filter fl hf)) (\<lambda>_.
     Inr hf))"

definition referenced_http_filter :: "filterlib \<Rightarrow> RawExtension option \<Rightarrow> HttpFilterV3 res" where
  "referenced_http_filter fl filt =
     (case filt of
        None \<Rightarrow> Inl nil_panic
      | Some raw \<Rightarrow>
          and_then (Unmarshal_http_filter fl (raw_bytes raw)) (\<lambda>xdsHttpFilter.
          and_then (Validate_http_filter fl xdsHttpFilter) (\<lambda>_.
          Inr xdsHttpFilter)))"

definition referenced_http_filters :: "filterlib \<Rightarrow> OptimizedStore \<Rightarrow> string \<Rightarrow> ResourceRef
    \<Rightarrow> HttpFilterV3 list res" where
  "referenced_http_filters fl store vsNamespace httpFilterRef =
     (let httpFilterRefNs = GetNamespace (ref_Namespace httpFilterRef) vsNamespace
      in case GetHTTPFilter store (NN httpFilterRefNs (ref_Name httpFilterRef)) of
           None \<Rightarrow> Inl (Err (''http filter '' @ httpFilterRefNs @ ''/'' @ ref_Name httpFilterRef @ '' not found''))
         | Some hf \<Rightarrow> map_res (referenced_http_filter fl) (hf_Spec hf))"

definition TypeURLRouter :: string where
  "TypeURLRouter = ''type.googleapis.com/envoy.extensions.filters.http.router.v3.Router''"

definition is_router :: "HttpFilterV3 \<Rightarrow> bool" where
  "is_router f =
     (case hfv3_TypedConfig f of None \<Rightarrow> False | Some tc \<Rightarrow> TypeUrl tc = TypeURLRouter)"

definition router_last :: "HttpFilterV3 list \<Rightarrow> HttpFilterV3 list res" where
  "router_last hfs =
     (let routerIdxs = indexes is_router hfs
      in if length routerIdxs > 1 then Inl (Err ''multiple root router http filters'')
         else if length routerIdxs = 1 \<and> routerIdxs ! 0 \<noteq> length hfs - 1
         then Inr (move_last (routerIdxs ! 0) hfs)
         else Inr hfs)"

text \<open>What is built when the cache has nothing.\<close>

definition build_filters :: "filterlib \<Rightarrow> OptimizedStore \<Rightarrow> VirtualService \<Rightarrow> HttpFilterV3 list res" where
  "build_filters fl store vs =
     and_then (rbac_http_filters fl store vs) (\<lambda>rbacFs.
     and_then (map_res (inline_http_filter fl) (c_HTTPFilters (vs_common vs))) (\<lambda>inlineFs.
     and_then (map_res (referenced_http_filters fl store (m_Namespace (vs_meta vs)))
         (c_AdditionalHttpFilters (vs_common vs))) (\<lambda>refFs.
     router_last (rbacFs @ inlineFs @ concat refFs))))"

section \<open>The cache key\<close>

definition referenced_key :: "OptimizedStore \<Rightarrow> string \<Rightarrow> ResourceRef \<Rightarrow> bytes res" where
  "referenced_key store vsNamespace filterRef =
     (let refNs = GetNamespace (ref_Namespace filterRef) vsNamespace;
          name = refNs @ ''/'' @ ref_Name filterRef
      in case GetHTTPFilter store (NN refNs (ref_Name filterRef)) of
           None \<Rightarrow> Inr name
         | Some hf \<Rightarrow>
             and_then (map_res (\<lambda>spec. case spec of None \<Rightarrow> Inl nil_panic | Some raw \<Rightarrow> Inr (raw_bytes raw))
                 (hf_Spec hf)) (\<lambda>raws.
             Inr (name @ concat raws)))"

definition generateHTTPFiltersCacheKey :: "filterlib \<Rightarrow> OptimizedStore \<Rightarrow> VirtualService \<Rightarrow> string res" where
  "generateHTTPFiltersCacheKey fl store vs =
     (let rbacData = (case c_RBAC (vs_common vs) of
            None \<Rightarrow> []
          | Some rbac \<Rightarrow> (case json_Marshal_rbac fl rbac of Inl _ \<Rightarrow> [] | Inr d \<Rightarrow> d));
          inlineData = concat (map raw_bytes (c_HTTPFilters (vs_common vs)))
      in and_then (map_res (referenced_key store (m_Namespace (vs_meta vs)))
             (c_AdditionalHttpFilters (vs_common vs))) (\<lambda>refData.
         Inr (sha256_hex fl (rbacData @ inlineData @ concat refData))))"

text \<open>\<open>now\<close> and \<open>now'\<close> are the instants at which the cache is read and written.\<close>

definition BuildHTTPFilters :: "filterlib \<Rightarrow> OptimizedStore \<Rightarrow> int \<Rightarrow> int \<Rightarrow> VirtualService \<Rightarrow> filter_state
    \<Rightarrow> HttpFilterV3 list res \<times> filter_state" where
  "BuildHTTPFilters fl store now now' vs st =
     (case generateHTTPFiltersCacheKey fl store vs of
        Inl e \<Rightarrow> (Inl e, st)
      | Inr cacheKey \<Rightarrow>
          (case HTTPFilterLRUCache_Get (fst st) (snd st) cacheKey now of
             (Some cached, st) \<Rightarrow> (Inr cached, st)
           | (None, st) \<Rightarrow>
               (case build_filters fl store vs of
                  Inl e \<Rightarrow> (Inl e, st)
                | Inr hfs \<Rightarrow> (Inr hfs, HTTPFilterLRUCache_Set (fst st) (snd st) cacheKey hfs now'))))"

section \<open>The router filter is last\<close>

lemma router_last_partition:
  "router_last xs = Inr ys \<longleftrightarrow>
     length (filter is_router xs) \<le> 1 \<and> ys = filter (\<lambda>x. \<not> is_router x) xs @ filter is_router xs"
proof -
  consider (many) "1 < length (indexes is_router xs)" | (one) i where "indexes is_router xs = [i]"
    | (none) "indexes is_router xs = []"
    by (cases "indexes is_router xs" rule: remdups_adj.cases) auto
  then show ?thesis
  proof cases
    case many
    then show ?thesis by (auto simp: router_last_def length_indexes [symmetric])
  next
    case (one i)
    have "length (filter is_router xs) = 1" using one length_indexes [of is_router xs] by simp
    with one show ?thesis
      using move_last_partition [OF one] already_last [OF one] by (auto simp: router_last_def)
  next
    case none
    have "length (filter is_router xs) = 0" using none length_indexes [of is_router xs] by simp
    with none show ?thesis using none_pinned [OF none] by (auto simp: router_last_def)
  qed
qed

interpretation rl: pins_last is_router router_last
  by unfold_locales (rule router_last_partition)

definition router_pinned :: "HttpFilterV3 list \<Rightarrow> bool" where
  "router_pinned fs \<longleftrightarrow> (\<forall>i < length fs. is_router (fs ! i) \<longrightarrow> Suc i = length fs)"

lemma build_filters_pinned: "build_filters fl store vs = Inr fs \<Longrightarrow> router_pinned fs"
  by (auto simp: build_filters_def exits router_pinned_def dest: rl.pinned_is_last)

text \<open>The state of the cache: sound, and everything in it has the router filter last.\<close>

definition filter_state_ok :: "filter_state \<Rightarrow> bool" where
  "filter_state_ok st \<longleftrightarrow> lru_inv (fst st) \<and> pool_clean (snd st) \<and>
     (\<forall>(k, fs, t) \<in> set (recency (fst st)). router_pinned fs)"

lemma set_spec_subset: "set (set_spec cap xs k v now) \<subseteq> insert (k, v, now) (set xs)"
  by (auto simp: set_spec_def dest: in_set_butlastD)

lemma get_spec_members:
  assumes "get_spec t xs k now = (r, ys)"
  shows "set ys \<subseteq> set xs" "\<And>v. r = Some v \<Longrightarrow> \<exists>ts. (k, v, ts) \<in> set xs"
  using assms by (auto simp: get_spec_def split: option.splits if_splits) (blast dest: map_of_SomeD)+

text \<open>The two ways a call ends: with what the cache holds, or with what is built and stored.\<close>

lemma BuildHTTPFilters_cases:
  assumes "lru_inv (fst st)" "pool_clean (snd st)" "generateHTTPFiltersCacheKey fl store vs = Inr key"
  obtains (hit) pl fs where "fst (Get (fst st) key now) = Some fs" "pool_clean pl"
      "BuildHTTPFilters fl store now now' vs st = (Inr fs, snd (Get (fst st) key now), pl)"
    | (built) pl fs where "fst (Get (fst st) key now) = None" "pool_clean pl" "build_filters fl store vs = Inr fs"
      "BuildHTTPFilters fl store now now' vs st = (Inr fs, Set (snd (Get (fst st) key now)) key fs now', pl)"
    | (failed) pl e where "fst (Get (fst st) key now) = None" "pool_clean pl" "build_filters fl store vs = Inl e"
      "BuildHTTPFilters fl store now now' vs st = (Inl e, snd (Get (fst st) key now), pl)"
proof -
  obtain pl where get: "HTTPFilterLRUCache_Get (fst st) (snd st) key now =
      (fst (Get (fst st) key now), snd (Get (fst st) key now), pl)" "pool_clean pl"
    by (rule filter_cache_Get_eq [OF assms(2)])
  show thesis
  proof (cases "fst (Get (fst st) key now)")
    case (Some fs)
    with get assms(3) show thesis by (intro hit) (simp_all add: BuildHTTPFilters_def)
  next
    case None
    show thesis
    proof (cases "build_filters fl store vs")
      case (Inl e)
      with None get assms(3) show thesis by (intro failed) (simp_all add: BuildHTTPFilters_def)
    next
      case (Inr fs)
      obtain pl' where "HTTPFilterLRUCache_Set (snd (Get (fst st) key now)) pl key fs now' =
          (Set (snd (Get (fst st) key now)) key fs now', pl')" "pool_clean pl'"
        by (rule filter_cache_Set_eq [OF get(2)])
      with None Inr get assms(3) show thesis by (intro built) (simp_all add: BuildHTTPFilters_def)
    qed
  qed
qed

lemma BuildHTTPFilters_pinned:
  assumes ok: "filter_state_ok st" and run: "BuildHTTPFilters fl store now now' vs st = (Inr fs, st')"
  shows "router_pinned fs"
proof (cases "generateHTTPFiltersCacheKey fl store vs")
  case (Inl e)
  with run show ?thesis by (simp add: BuildHTTPFilters_def)
next
  case (Inr key)
  have inv: "lru_inv (fst st)" "pool_clean (snd st)" and
    pinned: "\<forall>(k, fs, t) \<in> set (recency (fst st)). router_pinned fs"
    using ok by (simp_all add: filter_state_ok_def)
  note got = get_spec_members(2) [OF lru.view_get [OF inv(1), symmetric, of key now]]
  show ?thesis
    by (rule BuildHTTPFilters_cases [OF inv Inr, of now now'])
       (use run got pinned build_filters_pinned in \<open>fastforce+\<close>)
qed

text \<open>
  Whether they come from the cache or are built, the HTTP filters handed out have at most
  one router filter and it is the last one; the cache keeps that property, and a failed build
  leaves no entry behind.
\<close>

lemma router_always_last:
  assumes ok: "filter_state_ok st"
    and run: "BuildHTTPFilters fl store now now' vs st = (r, st')"
  shows "filter_state_ok st' \<and> (\<forall>fs. r = Inr fs \<longrightarrow> router_pinned fs) \<and>
    (\<forall>e. r = Inl e \<longrightarrow> set (recency (fst st')) \<subseteq> set (recency (fst st)))"
proof (cases "generateHTTPFiltersCacheKey fl store vs")
  case (Inl e)
  with ok run show ?thesis by (auto simp: BuildHTTPFilters_def)
next
  case (Inr key)
  have inv: "lru_inv (fst st)" "pool_clean (snd st)" and
    pinned: "\<forall>(k, fs, t) \<in> set (recency (fst st)). router_pinned fs"
    using ok by (simp_all add: filter_state_ok_def)
  let ?g = "Get (fst st) key now"
  note got = get_spec_members [OF lru.view_get [OF inv(1), symmetric, of key now]]
  have inv_g: "lru_inv (snd ?g)" by (rule lru.ok_get [OF inv(1)])
  have pinned_g: "\<forall>(k, fs, t) \<in> set (recency (snd ?g)). router_pinned fs" using got(1) pinned by blast
  show ?thesis
  proof (rule BuildHTTPFilters_cases [OF inv Inr, of now now'])
    fix pl fs assume hit: "fst ?g = Some fs" "pool_clean pl"
      "BuildHTTPFilters fl store now now' vs st = (Inr fs, snd ?g, pl)"
    from got(2) [OF hit(1)] pinned have "router_pinned fs" by blast
    with hit run inv_g pinned_g show ?thesis by (auto simp: filter_state_ok_def)
  next
    fix pl fs assume built: "pool_clean pl" "build_filters fl store vs = Inr fs"
      "BuildHTTPFilters fl store now now' vs st = (Inr fs, Set (snd ?g) key fs now', pl)"
    have fs: "router_pinned fs" by (rule build_filters_pinned [OF built(2)])
    have "set (recency (Set (snd ?g) key fs now')) \<subseteq> insert (key, fs, now') (set (recency (snd ?g)))"
      unfolding lru.view_put [OF inv_g] by (rule set_spec_subset)
    with fs pinned_g have "\<forall>(k, fs, t) \<in> set (recency (Set (snd ?g) key fs now')). router_pinned fs" by blast
    with fs built run lru.ok_put [OF inv_g] show ?thesis by (auto simp: filter_state_ok_def)
  next
    fix pl e assume "pool_clean pl" "BuildHTTPFilters fl store now now' vs st = (Inl e, snd ?g, pl)"
    with run inv_g pinned_g got(1) show ?thesis by (auto simp: filter_state_ok_def)
  qed
qed

section \<open>What the cache key leaves out\<close>

lemma cache_key_cong:
  assumes "vs_common vs' = vs_common vs" "httpFilters store' = httpFilters store"
    "c_AdditionalHttpFilters (vs_common vs) = [] \<or> m_Namespace (vs_meta vs') = m_Namespace (vs_meta vs)"
  shows "generateHTTPFiltersCacheKey fl store' vs' = generateHTTPFiltersCacheKey fl store vs"
proof -
  have "referenced_key store' = referenced_key store"
    by (simp add: fun_eq_iff referenced_key_def GetHTTPFilter_def assms(2))
  with assms(1,3) show ?thesis by (auto simp: generateHTTPFiltersCacheKey_def)
qed

text \<open>
  C26: The cache key covers the names of the referenced RBAC policies but neither their contents
  nor the namespace they are resolved in. Once filters are cached, a later call returns them
  until they expire for every store that differs in its policies only, and for every virtual
  service of another namespace that has the same specification and no referenced filters,
  whatever the policies there say.
\<close>

theorem policy_changes_ignored:
  assumes "filter_state_ok st"
    and "generateHTTPFiltersCacheKey fl store vs = Inr key" "map_of (recency (fst st)) key = None"
    and "BuildHTTPFilters fl store now now' vs st = (Inr fs, st')"
    and "vs_common vs' = vs_common vs" "httpFilters store' = httpFilters store"
      "c_AdditionalHttpFilters (vs_common vs) = [] \<or> m_Namespace (vs_meta vs') = m_Namespace (vs_meta vs)"
    and "ttl (fst st) \<le> 0 \<or> later - now' \<le> ttl (fst st)"
  shows "fst (BuildHTTPFilters fl store' later later' vs' st') = Inr fs"
proof -
  have inv: "lru_inv (fst st)" "pool_clean (snd st)" using assms(1) by (simp_all add: filter_state_ok_def)
  have miss: "fst (Get (fst st) key now) = None" using assms(3) by (simp add: lru.get_result [OF inv(1)])
  have key': "generateHTTPFiltersCacheKey fl store' vs' = Inr key"
    using cache_key_cong [OF assms(5-7)] assms(2) by simp
  have inv_g: "lru_inv (snd (Get (fst st) key now))" by (rule lru.ok_get [OF inv(1)])
  obtain pl where st': "st' = (Set (snd (Get (fst st) key now)) key fs now', pl)" "pool_clean pl"
    by (rule BuildHTTPFilters_cases [OF inv assms(2), of now now']) (use assms(4) miss in auto)
  have "fst (Get (fst st') key later) = Some fs"
    unfolding st'(1) fst_conv
    by (rule lru.get_put_same [OF inv_g]) (use assms(8) in \<open>simp add: Get_eq_locked\<close>)
  moreover have "lru_inv (fst st')" "pool_clean (snd st')" using st' lru.ok_put [OF inv_g] by simp_all
  ultimately show ?thesis
    by (rule_tac BuildHTTPFilters_cases [OF _ _ key', of st' later later']) auto
qed

text \<open>
  A virtual service that allows what the policy \<open>p\<close> says, its policy, and the codecs of the
  example: messages are their bytes, the digest is the identity.
\<close>

definition toy_fl :: filterlib where
  "toy_fl = \<lparr>Unmarshal_http_filter = (\<lambda>b. Inr \<lparr>hfv3_Name = b, hfv3_TypedConfig = None, hfv3_body = []\<rparr>),
     Validate_http_filter = (\<lambda>_. Inr ()), Unmarshal_rbac_policy = Inr, Validate_rbac_policy = (\<lambda>_. Inr ()),
     RBAC_Action_value = (\<lambda>a. if a = ''ALLOW'' then Some 0 else None),
     MarshalFrom_rbac = (\<lambda>r. Inr \<lparr>TypeUrl = ''rbac'', any_Value = concat (map snd (rb_Policies r))\<rparr>),
     json_Marshal_rbac = (\<lambda>r. Inr (rbac_Action r)), sha256_hex = (\<lambda>b. b)\<rparr>"

definition rbac_vs :: VirtualService where
  "rbac_vs = empty_vs\<lparr>vs_meta := empty_meta\<lparr>m_Namespace := ''a'', m_Name := ''v''\<rparr>,
     vs_common := empty_common\<lparr>c_RBAC := Some \<lparr>rbac_Action = ''ALLOW'', rbac_Policies = [],
       rbac_AdditionalPolicies = [\<lparr>ref_Name = ''p'', ref_Namespace = None\<rparr>]\<rparr>\<rparr>\<rparr>"

definition rbac_store :: "string \<Rightarrow> OptimizedStore" where
  "rbac_store body = NewOptimizedStore\<lparr>policies := [(NN ''a'' ''p'',
     \<lparr>p_meta = empty_meta\<lparr>m_Namespace := ''a'', m_Name := ''p''\<rparr>,
      p_Spec = Some \<lparr>Raw = Some body, Object = None\<rparr>\<rparr>)]\<rparr>"

definition rbac_filter :: "string \<Rightarrow> HttpFilterV3" where
  "rbac_filter body = \<lparr>hfv3_Name = ''exc.filters.http.rbac'',
     hfv3_TypedConfig = Some \<lparr>TypeUrl = ''rbac'', any_Value = body\<rparr>, hfv3_body = []\<rparr>"

definition new_state :: filter_state where
  "new_state = (NewHTTPFilterLRUCache 0 0, [])"

lemma new_state_ok: "filter_state_ok new_state"
proof -
  have "lru_reachable (NewHTTPFilterLRUCache 0 0)" by (simp add: NewHTTPFilterLRUCache_def lru_new)
  then have "lru_inv (NewHTTPFilterLRUCache 0 0)" by (rule lru_reachable_inv)
  then show ?thesis
    by (simp add: filter_state_ok_def new_state_def pool_clean_def NewHTTPFilterLRUCache_def
        NewTypedLRUCache_def recency_def)
qed

lemma rbac_run:
  "BuildHTTPFilters toy_fl (rbac_store ''any'') 0 1 rbac_vs new_state =
     (Inr [rbac_filter ''any''], snd (BuildHTTPFilters toy_fl (rbac_store ''any'') 0 1 rbac_vs new_state))"
  by (rule prod_eqI) (code_simp, simp)

lemma rbac_rebuilt: "build_filters toy_fl (rbac_store ''none'') rbac_vs = Inr [rbac_filter ''none'']"
  by code_simp

lemma rbac_key: "generateHTTPFiltersCacheKey toy_fl (rbac_store ''any'') rbac_vs = Inr ''ALLOW''"
  by code_simp

theorem policy_changes_ignored_witness:
  "fst (BuildHTTPFilters toy_fl (rbac_store ''none'') 2 3 rbac_vs
     (snd (BuildHTTPFilters toy_fl (rbac_store ''any'') 0 1 rbac_vs new_state))) = Inr [rbac_filter ''any''] \<and>
   build_filters toy_fl (rbac_store ''none'') rbac_vs = Inr [rbac_filter ''none''] \<and>
   rbac_filter ''any'' \<noteq> rbac_filter ''none''"
proof (intro conjI)
  show "fst (BuildHTTPFilters toy_fl (rbac_store ''none'') 2 3 rbac_vs
     (snd (BuildHTTPFilters toy_fl (rbac_store ''any'') 0 1 rbac_vs new_state))) = Inr [rbac_filter ''any'']"
  proof (rule policy_changes_ignored [OF new_state_ok rbac_key _ rbac_run])
    show "map_of (recency (fst new_state)) ''ALLOW'' = None"
      by (simp add: new_state_def NewHTTPFilterLRUCache_def NewTypedLRUCache_def recency_def)
    show "ttl (fst new_state) \<le> 0 \<or> 2 - 1 \<le> ttl (fst new_state)"
      by (simp add: new_state_def NewHTTPFilterLRUCache_def NewTypedLRUCache_def DefaultCacheTTL_filter_def)
  qed (simp_all add: rbac_store_def)
qed (rule rbac_rebuilt, simp add: rbac_filter_def)

end
