(* ===== verification/StoreSecrets.thy ===== *)
theory StoreSecrets
  imports StoreIndex
begin

text \<open>
  The domain index of the store. It is maintained incrementally by \<open>SetSecret\<close> and
  \<open>DeleteSecret\<close> and rebuilt by \<open>updateDomainSecretsMap\<close>; both give the index described by
  \<open>secrets_exact\<close>, and the look-up with wildcard fallback is specified over the stored secrets.
\<close>

section \<open>Exactness of the domain index\<close>

definition secret_entry :: "x509lib \<Rightarrow> Secret \<Rightarrow> SecretDomainEntry" where
  "secret_entry x509 sec =
     \<lparr>e_NamespacedName = s_nn sec, e_NotAfter = ParseCertificateNotAfter x509 (Some sec)\<rparr>"

text \<open>
  What the index holds under a domain and a secret's name: the entry of the stored secret, when
  the secret is annotated with the domain.
\<close>

definition expected_entry :: "x509lib \<Rightarrow> (NamespacedName \<Rightarrow> Secret option) \<Rightarrow> string \<Rightarrow> NamespacedName
    \<Rightarrow> SecretDomainEntry option" where
  "expected_entry x509 secs d nn =
     (case secs nn of
        None \<Rightarrow> None
      | Some sec \<Rightarrow> if d \<in> set (secret_domains sec) then Some (secret_entry x509 sec) else None)"

definition secrets_exact :: "x509lib \<Rightarrow> OptimizedStore \<Rightarrow> bool" where
  "secrets_exact x509 s \<longleftrightarrow>
     keyed s_meta (map_of (secrets s)) \<and> idx_wf (domainSecretsIndex s) \<and>
     idx_lookup (domainSecretsIndex s) = expected_entry x509 (map_of (secrets s))"

lemma SetSecret_eq:
  assumes "pool_ok s"
  shows "SetSecret x509 s sec =
     s\<lparr>stringPool := snd (intern_names (stringPool s) (s_meta sec)),
       secrets := gm_put (s_nn sec) sec (secrets s),
       domainSecretsIndex :=
         fold (\<lambda>d idx. Add idx d (secret_entry x509 sec)) (secret_domains sec)
           (case map_of (secrets s) (s_nn sec) of
              None \<Rightarrow> domainSecretsIndex s
            | Some old \<Rightarrow> fold (\<lambda>d idx. Remove idx d (s_nn old)) (secret_domains old)
                (domainSecretsIndex s))\<rparr>"
proof -
  have "intern_names (stringPool s) (s_meta sec)
      = (s_meta sec, snd (intern_names (stringPool s) (s_meta sec)))"
    using intern_names_eq [OF assms] by blast
  then show ?thesis
    by (cases "intern_names (stringPool s) (s_meta sec)")
       (auto simp: SetSecret_def addDomainSecretsForSecretWithNotAfter_def
         removeDomainSecretsForSecret_def secret_entry_def Let_def split: option.split)
qed

lemma DeleteSecret_eq:
  "DeleteSecret s nn =
     (case map_of (secrets s) nn of
        None \<Rightarrow> s
      | Some sec \<Rightarrow>
          s\<lparr>secrets := gm_del nn (secrets s),
            domainSecretsIndex := fold (\<lambda>d idx. Remove idx d (s_nn sec)) (secret_domains sec)
              (domainSecretsIndex s)\<rparr>)"
  by (simp add: DeleteSecret_def removeDomainSecretsForSecret_def split: option.split)

lemma expected_entry_remove:
  "secs nn = Some old \<Longrightarrow>
     expected_entry x509 (secs(nn := None)) d nn' =
       (if d \<in> set (secret_domains old) \<and> nn' = nn then None else expected_entry x509 secs d nn')"
  by (auto simp: expected_entry_def)

lemma expected_entry_insert:
  "secs (s_nn sec) = None \<Longrightarrow>
     expected_entry x509 (secs(s_nn sec \<mapsto> sec)) d nn' =
       (if d \<in> set (secret_domains sec) \<and> nn' = s_nn sec then Some (secret_entry x509 sec)
        else expected_entry x509 secs d nn')"
  by (auto simp: expected_entry_def)

lemma entry_nn [simp]: "e_NamespacedName (secret_entry x509 sec) = s_nn sec"
  by (simp add: secret_entry_def)

text \<open>One secret's domains taken out of, and put into, an index that is exact.\<close>

lemma index_drop:
  assumes "idx_wf idx" "idx_lookup idx = expected_entry x509 secs" "secs (s_nn old) = Some old"
  shows "idx_wf (fold (\<lambda>d idx. Remove idx d (s_nn old)) (secret_domains old) idx)"
    and "idx_lookup (fold (\<lambda>d idx. Remove idx d (s_nn old)) (secret_domains old) idx)
      = expected_entry x509 (secs(s_nn old := None))"
proof -
  show "idx_wf (fold (\<lambda>d idx. Remove idx d (s_nn old)) (secret_domains old) idx)"
    by (rule di.invar_remove_all [OF assms(1)])
  show "idx_lookup (fold (\<lambda>d idx. Remove idx d (s_nn old)) (secret_domains old) idx)
      = expected_entry x509 (secs(s_nn old := None))"
    by (intro ext)
       (simp only: di.look_remove_all [OF assms(1)] assms(2)
         expected_entry_remove [of secs "s_nn old" old, OF assms(3)])
qed

lemma index_add:
  assumes "idx_wf idx" "idx_lookup idx = expected_entry x509 secs" "secs (s_nn sec) = None"
  shows "idx_wf (fold (\<lambda>d idx. Add idx d (secret_entry x509 sec)) (secret_domains sec) idx)"
    and "idx_lookup (fold (\<lambda>d idx. Add idx d (secret_entry x509 sec)) (secret_domains sec) idx)
      = expected_entry x509 (secs(s_nn sec \<mapsto> sec))"
proof -
  show "idx_wf (fold (\<lambda>d idx. Add idx d (secret_entry x509 sec)) (secret_domains sec) idx)"
    by (rule di.invar_add_all [OF assms(1)])
  show "idx_lookup (fold (\<lambda>d idx. Add idx d (secret_entry x509 sec)) (secret_domains sec) idx)
      = expected_entry x509 (secs(s_nn sec \<mapsto> sec))"
    by (intro ext)
       (simp only: di.look_add_all expected_entry_insert [of secs sec, OF assms(3)] assms(2) entry_nn)
qed

lemma secrets_exact_set:
  assumes ok: "pool_ok s" and ex: "secrets_exact x509 s"
  shows "secrets_exact x509 (SetSecret x509 s sec)"
proof -
  have ky: "keyed s_meta (map_of (secrets s))" and wf: "idx_wf (domainSecretsIndex s)"
    and look: "idx_lookup (domainSecretsIndex s) = expected_entry x509 (map_of (secrets s))"
    using ex by (auto simp: secrets_exact_def)
  have ky': "keyed s_meta ((map_of (secrets s))(s_nn sec \<mapsto> sec))"
    using ky by (auto simp: keyed_def)
  show ?thesis
  proof (cases "map_of (secrets s) (s_nn sec)")
    case None
    from index_add [OF wf look this] ky' None show ?thesis
      by (simp add: secrets_exact_def SetSecret_eq [OF ok])
  next
    case (Some old)
    then have nn: "s_nn old = s_nn sec" using ky unfolding keyed_def by blast
    with Some have stored: "map_of (secrets s) (s_nn old) = Some old" by simp
    have "((map_of (secrets s))(s_nn old := None)) (s_nn sec) = None"
      unfolding nn by (rule fun_upd_same)
    note added = index_add [OF index_drop [OF wf look stored] this, unfolded nn fun_upd_upd]
    with ky' Some nn show ?thesis
      unfolding secrets_exact_def SetSecret_eq [OF ok] by simp
  qed
qed

lemma secrets_exact_del:
  assumes ex: "secrets_exact x509 s"
  shows "secrets_exact x509 (DeleteSecret s nn)"
proof (cases "map_of (secrets s) nn")
  case None
  with ex show ?thesis by (simp add: DeleteSecret_eq)
next
  case (Some old)
  have ky: "keyed s_meta (map_of (secrets s))" and wf: "idx_wf (domainSecretsIndex s)"
    and look: "idx_lookup (domainSecretsIndex s) = expected_entry x509 (map_of (secrets s))"
    using ex by (auto simp: secrets_exact_def)
  have nn: "nn = s_nn old" using ky Some unfolding keyed_def by metis
  with Some have stored: "map_of (secrets s) (s_nn old) = Some old" by simp
  have "keyed s_meta ((map_of (secrets s))(nn := None))"
    using ky by (auto simp: keyed_def)
  with index_drop [OF wf look stored] stored nn show ?thesis
    unfolding secrets_exact_def DeleteSecret_eq by simp
qed

section \<open>The rebuild\<close>

lemma rebuild_exact:
  assumes "gm_wf ms" "keyed s_meta (map_of ms)"
    and "idx_wf idx" "idx_lookup idx = expected_entry x509 secs"
    and "\<And>nn. nn \<in> fst ` set ms \<Longrightarrow> secs nn = None"
  shows "idx_wf (fold (\<lambda>(_, sec) idx. fold (\<lambda>d idx. Add idx d (secret_entry x509 sec))
             (secret_domains sec) idx) ms idx) \<and>
    idx_lookup (fold (\<lambda>(_, sec) idx. fold (\<lambda>d idx. Add idx d (secret_entry x509 sec))
             (secret_domains sec) idx) ms idx) = expected_entry x509 (secs ++ map_of ms)"
  using assms
proof (induction ms arbitrary: idx secs)
  case (Cons p ms)
  obtain nn sec where p: "p = (nn, sec)" by (cases p)
  have wf: "gm_wf ms" and fr: "nn \<notin> fst ` set ms"
    using Cons.prems(1) by (auto simp: p gm_wf_def)
  have nn: "s_nn sec = nn"
    using Cons.prems(2) unfolding keyed_def p by (metis fst_conv map_of_Cons_code(2) snd_conv)
  have "map_of ms nn' = Some r \<Longrightarrow> map_of (p # ms) nn' = Some r" for nn' r
    using fr by (auto simp: p dest: map_of_SomeD intro: rev_image_eqI)
  with Cons.prems(2) have ky: "keyed s_meta (map_of ms)" unfolding keyed_def by blast
  have new: "secs (s_nn sec) = None" unfolding nn by (rule Cons.prems(5)) (simp add: p)
  have upd: "(secs(nn \<mapsto> sec)) ++ map_of ms = secs ++ map_of (p # ms)"
    using fr by (simp add: p map_add_upd_left map_of_eq_None_iff [symmetric] dom_def
        map_add_def fun_eq_iff split: option.split)
  have "(secs(nn \<mapsto> sec)) n = None" if "n \<in> fst ` set ms" for n
    using Cons.prems(5) [of n] that fr by auto
  from Cons.IH [OF wf ky index_add [OF Cons.prems(3,4) new, unfolded nn] this]
  show ?case unfolding upd by (simp add: p del: map_of.simps)
qed simp

lemma updateDomainSecretsMap_eq:
  "updateDomainSecretsMap x509 s = s\<lparr>domainSecretsIndex :=
     fold (\<lambda>(_, sec) idx. fold (\<lambda>d idx. Add idx d (secret_entry x509 sec)) (secret_domains sec) idx)
       (secrets s) []\<rparr>"
  by (simp add: updateDomainSecretsMap_def secret_entry_def NewDomainSecretsIndex_def Let_def)

lemma updateDomainSecretsMap_exact:
  assumes "gm_wf (secrets s)" "keyed s_meta (map_of (secrets s))"
  shows "secrets_exact x509 (updateDomainSecretsMap x509 s)"
proof -
  have "idx_lookup [] = expected_entry x509 Map.empty"
    by (auto simp: fun_eq_iff idx_lookup_def expected_entry_def)
  from rebuild_exact [OF assms _ this] assms show ?thesis
    by (simp add: secrets_exact_def updateDomainSecretsMap_eq idx_wf_def)
qed

section \<open>The look-up with wildcard fallback\<close>

text \<open>A stored secret annotated with the domain, and its validity at an instant.\<close>

definition covers :: "OptimizedStore \<Rightarrow> string \<Rightarrow> Secret \<Rightarrow> bool" where
  "covers s d sec \<longleftrightarrow> map_of (secrets s) (s_nn sec) = Some sec \<and> d \<in> set (secret_domains sec)"

definition validity_at :: "x509lib \<Rightarrow> Secret \<Rightarrow> time \<Rightarrow> validityPriority" where
  "validity_at x509 sec now = getValidityFromEntry (secret_entry x509 sec) now"

lemma exact_entry_iff:
  assumes "secrets_exact x509 s"
  shows "idx_lookup (domainSecretsIndex s) d nn = Some e \<longleftrightarrow>
    (\<exists>sec. covers s d sec \<and> s_nn sec = nn \<and> e = secret_entry x509 sec)"
proof -
  have look: "idx_lookup (domainSecretsIndex s) d nn = expected_entry x509 (map_of (secrets s)) d nn"
    using assms by (simp add: secrets_exact_def)
  show ?thesis
  proof (cases "map_of (secrets s) nn")
    case None
    have "s_nn sec \<noteq> nn" if "covers s d sec" for sec
    proof
      assume "s_nn sec = nn"
      with that None show False by (simp only: covers_def) simp
    qed
    with None show ?thesis by (auto simp only: look expected_entry_def option.case)
  next
    case (Some sec)
    then have nn: "s_nn sec = nn"
      using assms unfolding secrets_exact_def keyed_def by blast
    have "covers s d sec' \<and> s_nn sec' = nn \<longleftrightarrow> sec' = sec \<and> d \<in> set (secret_domains sec)" for sec'
    proof
      assume *: "covers s d sec' \<and> s_nn sec' = nn"
      then have "map_of (secrets s) nn = Some sec'" "d \<in> set (secret_domains sec')"
        unfolding covers_def by metis+
      with Some show "sec' = sec \<and> d \<in> set (secret_domains sec)" by simp
    next
      assume "sec' = sec \<and> d \<in> set (secret_domains sec)"
      with nn Some show "covers s d sec' \<and> s_nn sec' = nn" unfolding covers_def by metis
    qed
    then have "(\<exists>sec'. covers s d sec' \<and> s_nn sec' = nn \<and> e = secret_entry x509 sec') \<longleftrightarrow>
        d \<in> set (secret_domains sec) \<and> e = secret_entry x509 sec" by metis
    with Some show ?thesis by (auto simp only: look expected_entry_def option.case split: if_splits)
  qed
qed

lemma best_covers:
  assumes ex: "secrets_exact x509 s"
  shows "case GetBestSecretWithValidity (domainSecretsIndex s) d pref (secrets s) now of
      (None, v) \<Rightarrow> v = validityNotFound \<and> (\<forall>sec. \<not> covers s d sec)
    | (Some sec, v) \<Rightarrow> covers s d sec \<and> v = validity_at x509 sec now \<and>
        (\<forall>sec'. covers s d sec' \<longrightarrow> validity_at x509 sec' now \<le> v)"
proof -
  let ?es = "gm_get [] (domainSecretsIndex s) d"
  have wf: "gm_wf ?es" using ex idx_wf_inner by (auto simp: secrets_exact_def)
  have look: "map_of ?es nn = Some e \<longleftrightarrow>
      (\<exists>sec. covers s d sec \<and> s_nn sec = nn \<and> e = secret_entry x509 sec)" for nn e
    using exact_entry_iff [OF ex] by (simp add: idx_lookup_def)
  obtain r v where rv: "best_of ?es pref (secrets s) now = (r, v)" by (cases "best_of ?es pref (secrets s) now")
  show ?thesis
  proof (cases r)
    case None
    with rv have "best_of ?es pref (secrets s) now = (None, validityNotFound)"
      using best_of_None_v by blast
    then have *: "v = validityNotFound \<and> (\<forall>(nn, e) \<in> set ?es. map_of (secrets s) nn = None)"
      using rv best_of_none by fastforce
    moreover have "\<not> covers s d sec" for sec
    proof
      assume c: "covers s d sec"
      then have "map_of ?es (s_nn sec) = Some (secret_entry x509 sec)" using look by blast
      then have "(s_nn sec, secret_entry x509 sec) \<in> set ?es" by (rule map_of_SomeD)
      with * have "map_of (secrets s) (s_nn sec) = None" by blast
      with c show False by (simp add: covers_def)
    qed
    ultimately show ?thesis using rv None by (simp add: GetBest_best_of)
  next
    case (Some sec)
    from best_of_some [OF wf rv [unfolded Some]] obtain nn e where
      e: "map_of ?es nn = Some e" and st: "map_of (secrets s) nn = Some sec"
      and v: "v = getValidityFromEntry e now"
      and best: "\<And>nn' e'. map_of ?es nn' = Some e' \<Longrightarrow> map_of (secrets s) nn' \<noteq> None \<Longrightarrow>
          rank pref now nn e \<le> rank pref now nn' e'" by blast
    from e look obtain sec' where sec': "covers s d sec'" "s_nn sec' = nn" "e = secret_entry x509 sec'"
      by blast
    have "sec' = sec" using sec'(1) st unfolding covers_def sec'(2) by simp
    note sec' = sec' [unfolded this]
    have "validity_at x509 sec'' now \<le> v" if "covers s d sec''" for sec''
    proof -
      have "rank pref now nn e \<le> rank pref now (s_nn sec'') (secret_entry x509 sec'')"
        using that by (intro best) (auto simp only: look covers_def)
      then have "3 - prio v \<le> 3 - prio (validity_at x509 sec'' now)"
        by (auto simp: rank_def v validity_at_def less_eq_prod_def)
      then show ?thesis
        using prio_le [of v] prio_le [of "validity_at x509 sec'' now"] by (simp add: validity_order)
    qed
    then show ?thesis
      using rv Some sec' v by (simp add: GetBest_best_of validity_at_def)
  qed
qed

text \<open>A secret usable for a domain: annotated with it, or with its wildcard.\<close>

definition usable :: "OptimizedStore \<Rightarrow> string \<Rightarrow> Secret \<Rightarrow> bool" where
  "usable s d sec \<longleftrightarrow>
     covers s d sec \<or> (GetWildcardDomain d \<noteq> [] \<and> covers s (GetWildcardDomain d) sec)"

lemma validity_not_found: "validity_at x509 sec now \<noteq> validityNotFound"
  by (simp add: validity_at_def getValidityFromEntry_def)

lemma validity_top: "validityValid \<le> v \<longleftrightarrow> v = validityValid"
  by (cases v) (simp_all add: validity_order)

text \<open>
  The four fields of the result that matter, over the two answers of the index.
\<close>

lemma FallbackInfo_eq:
  assumes "GetBestSecretWithValidity (domainSecretsIndex s) d pref (secrets s) now = (e, ve)"
    and "GetBestSecretWithValidity (domainSecretsIndex s) (GetWildcardDomain d) pref (secrets s) now'
      = (w, vw)"
  shows "lr_Secret (GetDomainSecretWithWildcardFallbackInfo s d pref now now') =
      (if e \<noteq> None \<and> ve = validityValid \<or> GetWildcardDomain d = [] then e
       else if e = None \<or> w \<noteq> None \<and> vw = validityValid then w else e)"
    and "lr_UsedWildcard (GetDomainSecretWithWildcardFallbackInfo s d pref now now') \<longleftrightarrow>
      \<not> (e \<noteq> None \<and> ve = validityValid) \<and> GetWildcardDomain d \<noteq> [] \<and> w \<noteq> None \<and>
      (e = None \<or> vw = validityValid)"
  using assms
  by (auto simp: GetDomainSecretWithWildcardFallbackInfo_def Let_def split: option.split)

text \<open>
  C6: the certificate look-up with wildcard fallback, over the stored secrets. When the domain
  index is exact, the look-up finds a secret exactly when a stored one is annotated with the
  domain or with its wildcard; what it returns is such a secret; if any of them has an
  unexpired certificate the returned one does; an unexpired certificate for the domain itself
  is never replaced by the wildcard's; and the flag says when the wildcard's was taken.
\<close>

theorem wildcard_fallback_spec:
  assumes ex: "secrets_exact x509 s"
    and r_def: "r = GetDomainSecretWithWildcardFallbackInfo s d pref now now"
  shows "(lr_Secret r = None \<longleftrightarrow> (\<forall>sec. \<not> usable s d sec))
    \<and> (\<forall>sec. lr_Secret r = Some sec \<longrightarrow> usable s d sec)
    \<and> (\<forall>sec. usable s d sec \<and> validity_at x509 sec now = validityValid \<longrightarrow>
         (\<exists>sec'. lr_Secret r = Some sec' \<and> validity_at x509 sec' now = validityValid))
    \<and> (\<forall>sec. covers s d sec \<and> validity_at x509 sec now = validityValid \<longrightarrow>
         (\<exists>sec'. lr_Secret r = Some sec' \<and> covers s d sec' \<and> \<not> lr_UsedWildcard r))
    \<and> (lr_UsedWildcard r \<longrightarrow>
         (\<exists>sec. lr_Secret r = Some sec \<and> covers s (GetWildcardDomain d) sec))"
proof -
  obtain e ve where e: "GetBestSecretWithValidity (domainSecretsIndex s) d pref (secrets s) now = (e, ve)"
    by (cases "GetBestSecretWithValidity (domainSecretsIndex s) d pref (secrets s) now")
  obtain w vw where w: "GetBestSecretWithValidity (domainSecretsIndex s) (GetWildcardDomain d) pref
      (secrets s) now = (w, vw)"
    by (cases "GetBestSecretWithValidity (domainSecretsIndex s) (GetWildcardDomain d) pref (secrets s) now")
  note eq = FallbackInfo_eq [OF e w, folded r_def]
  have E: "case e of None \<Rightarrow> \<forall>sec. \<not> covers s d sec
      | Some x \<Rightarrow> covers s d x \<and> ve = validity_at x509 x now \<and>
          (\<forall>sec. covers s d sec \<longrightarrow> validity_at x509 sec now \<le> ve)"
    using best_covers [OF ex, where d = d and pref = pref and now = now] by (auto simp: e split: option.splits)
  have W: "case w of None \<Rightarrow> \<forall>sec. \<not> covers s (GetWildcardDomain d) sec
      | Some x \<Rightarrow> covers s (GetWildcardDomain d) x \<and> vw = validity_at x509 x now \<and>
          (\<forall>sec. covers s (GetWildcardDomain d) sec \<longrightarrow> validity_at x509 sec now \<le> vw)"
    using best_covers [OF ex, where d = "GetWildcardDomain d" and pref = pref and now = now] by (auto simp: w split: option.splits)
  show ?thesis
    using E W unfolding eq usable_def
    by (cases e; cases w) (auto simp: validity_top)
qed

text \<open>A store with one secret, annotated with a wildcard and valid until instant 4.\<close>

definition wild_secret :: Secret where
  "wild_secret = toy_tls_secret\<lparr>s_meta := empty_meta\<lparr>m_Namespace := ''edge'', m_Name := ''tls'',
     m_Annotations := Some [(AnnotationSecretDomains, ''*.a.com'')]\<rparr>\<rparr>"

lemma wild_secret_domains: "secret_domains wild_secret = [''*.a.com'']"
  by (simp add: secret_domains_def wild_secret_def TrimSpace_trimmed trimmed_def
      space_encodings_def suffix_to_prefix)

lemma secrets_exact_New: "secrets_exact x509 NewOptimizedStore"
  by (auto simp: secrets_exact_def NewOptimizedStore_def keyed_def idx_wf_def fun_eq_iff
      NewDomainSecretsIndex_def idx_lookup_def expected_entry_def)

lemma pool_ok_New: "pool_ok NewOptimizedStore"
  by (simp add: NewOptimizedStore_def pool_inv_New)

theorem wildcard_fallback_spec_witness:
  "secrets_exact toy_x509 (SetSecret toy_x509 NewOptimizedStore wild_secret) \<and>
   lr_Secret (GetDomainSecretWithWildcardFallbackInfo
     (SetSecret toy_x509 NewOptimizedStore wild_secret) ''x.a.com'' ''edge'' 3 3) \<noteq> None"
proof -
  let ?s = "SetSecret toy_x509 NewOptimizedStore wild_secret"
  have ex: "secrets_exact toy_x509 ?s"
    by (rule secrets_exact_set [OF pool_ok_New secrets_exact_New])
  have "GetWildcardDomain ''x.a.com'' = ''*.a.com''"
    by (simp add: GetWildcardDomain_def numeral_eq_Suc)
  then have "usable ?s ''x.a.com'' wild_secret"
    by (simp add: usable_def covers_def wild_secret_domains SetSecret_eq [OF pool_ok_New])
  with wildcard_fallback_spec [OF ex refl, of "''x.a.com''" "''edge''" 3] ex show ?thesis by blast
qed

end
