(* ===== verification/Tls.thy ===== *)
theory Tls
  imports StoreSecrets Routes
begin

text \<open>
  The choice of the TLS secrets of a virtual service
  (\<^verbatim>\<open>internal/xds/resbuilder/secrets/builder.go\<close>). A clock gives the instants at which the look-ups
  read the time, in order: the look-up of one domain reads it twice.
\<close>

type_synonym clock = "nat \<Rightarrow> time"

section \<open>Operations\<close>

definition SecretRefType :: string where
  "SecretRefType = ''secretRef''"

definition AutoDiscoveryType :: string where
  "AutoDiscoveryType = ''autoDiscovery''"

definition GetTLSType :: "TlsConfig option \<Rightarrow> string res" where
  "GetTLSType tlsConfig =
     (case tlsConfig of
        None \<Rightarrow> Inl (Err ''TLS config is nil'')
      | Some t \<Rightarrow>
          (let (configCount, configType) = (0 :: nat, []);
               (configCount, configType) =
                 (if SecretRef t \<noteq> None then (configCount + 1, SecretRefType)
                  else (configCount, configType));
               (configCount, configType) =
                 (if AutoDiscovery t = Some True then (configCount + 1, AutoDiscoveryType)
                  else (configCount, configType))
           in if configCount = 0 then Inl (Err ''no TLS configuration specified'')
              else if configCount = 1 then Inr configType
              else Inl (Err ''multiple TLS configuration types specified (only one allowed)'')))"

definition getSecretNameToDomainsViaSecretRef ::
    "ResourceRef \<Rightarrow> string \<Rightarrow> string list \<Rightarrow> (NamespacedName, string list) gomap" where
  "getSecretNameToDomainsViaSecretRef secretRef vsNamespace domains =
     (let secretNamespace = (case ref_Namespace secretRef of Some ns \<Rightarrow> ns | None \<Rightarrow> vsNamespace)
      in gm_put (NN secretNamespace (ref_Name secretRef)) domains [])"

fun via_autodiscovery_loop :: "OptimizedStore \<Rightarrow> clock \<Rightarrow> nat \<Rightarrow> string \<Rightarrow> string list
    \<Rightarrow> (NamespacedName, string list) gomap \<Rightarrow> (NamespacedName, string list) gomap res" where
  "via_autodiscovery_loop store tm k preferredNamespace [] m = Inr m"
| "via_autodiscovery_loop store tm k preferredNamespace (domain # rest) m =
     (let result = GetDomainSecretWithWildcardFallbackInfo store domain preferredNamespace (tm k) (tm (k + 1))
      in case lr_Secret result of
           None \<Rightarrow> Inl (Err (''can'' @ [CHR 0x27] @ ''t find secret for domain '' @ domain))
         | Some secret \<Rightarrow>
             (let nn = meta_nn (s_meta secret)
              in via_autodiscovery_loop store tm (k + 2) preferredNamespace rest
                   (gm_put nn (gm_get [] m nn @ [domain]) m)))"

definition getSecretNameToDomainsViaAutoDiscovery :: "OptimizedStore \<Rightarrow> clock \<Rightarrow> string list \<Rightarrow> string
    \<Rightarrow> (NamespacedName, string list) gomap res" where
  "getSecretNameToDomainsViaAutoDiscovery store tm domains preferredNamespace =
     via_autodiscovery_loop store tm 0 preferredNamespace domains []"

text \<open>A secret reference that is nil would be dereferenced; \<open>GetTLSType\<close> rules that out.\<close>

definition GetSecretNameToDomains :: "OptimizedStore \<Rightarrow> clock \<Rightarrow> VirtualService \<Rightarrow> string list
    \<Rightarrow> (NamespacedName, string list) gomap res" where
  "GetSecretNameToDomains store tm vs domains =
     (case c_TlsConfig (vs_common vs) of
        None \<Rightarrow> Inl (Err ''TLS configuration is missing in VirtualService'')
      | Some t \<Rightarrow>
          and_then (GetTLSType (Some t)) (\<lambda>tlsType.
          if tlsType = SecretRefType then
            (case SecretRef t of
               None \<Rightarrow> Inl (Err ''invalid memory address or nil pointer dereference'')
             | Some ref \<Rightarrow> Inr (getSecretNameToDomainsViaSecretRef ref (m_Namespace (vs_meta vs)) domains))
          else if tlsType = AutoDiscoveryType then
            getSecretNameToDomainsViaAutoDiscovery store tm domains (m_Namespace (vs_meta vs))
          else Inl (Err (''unknown TLS type: '' @ tlsType))))"

section \<open>Every domain gets one secret\<close>

text \<open>The two ways a TLS configuration is accepted.\<close>

lemma GetTLSType_Inr:
  "GetTLSType (Some t) = Inr ty \<longleftrightarrow>
     SecretRef t \<noteq> None \<and> AutoDiscovery t \<noteq> Some True \<and> ty = SecretRefType \<or>
     SecretRef t = None \<and> AutoDiscovery t = Some True \<and> ty = AutoDiscoveryType"
  by (auto simp: GetTLSType_def Let_def)

lemma lookup_usable:
  assumes ex: "secrets_exact x509 s"
  shows "case lr_Secret (GetDomainSecretWithWildcardFallbackInfo s d pref now now') of
      None \<Rightarrow> \<forall>sec. \<not> usable s d sec
    | Some sec \<Rightarrow> usable s d sec"
proof -
  obtain e ve where e: "GetBestSecretWithValidity (domainSecretsIndex s) d pref (secrets s) now = (e, ve)"
    by (cases "GetBestSecretWithValidity (domainSecretsIndex s) d pref (secrets s) now")
  obtain w vw where w: "GetBestSecretWithValidity (domainSecretsIndex s) (GetWildcardDomain d) pref
      (secrets s) now' = (w, vw)"
    by (cases "GetBestSecretWithValidity (domainSecretsIndex s) (GetWildcardDomain d) pref (secrets s) now'")
  have E: "case e of None \<Rightarrow> \<forall>sec. \<not> covers s d sec | Some x \<Rightarrow> covers s d x"
    using best_covers [OF ex, where d = d and pref = pref and now = now] by (auto simp: e split: option.splits)
  have W: "case w of None \<Rightarrow> \<forall>sec. \<not> covers s (GetWildcardDomain d) sec | Some x \<Rightarrow> covers s (GetWildcardDomain d) x"
    using best_covers [OF ex, where d = "GetWildcardDomain d" and pref = pref and now = now']
    by (auto simp: w split: option.splits)
  show ?thesis
    using E W unfolding FallbackInfo_eq [OF e w] usable_def
    by (cases e; cases w) auto
qed

text \<open>\<open>m[k] = append(m[k], x)\<close> adds one element to what the slices of the map hold together.\<close>

lemma mset_append_entry:
  "mset (concat (map snd (gm_put k (gm_get [] m k @ [x]) m))) = add_mset x (mset (concat (map snd m)))"
proof (induction m)
  case (Cons p m)
  obtain k' v where p: "p = (k', v)" by (cases p)
  have "gm_put k (gm_get [] (p # m) k @ [x]) (p # m) =
      (if k' = k then (k, v @ [x]) # m else (k', v) # gm_put k (gm_get [] m k @ [x]) m)"
    by (auto simp: p gm_put_def gm_get_def)
  with Cons show ?case by (simp add: p)
qed (simp add: gm_put_def)

definition secret_for :: "OptimizedStore \<Rightarrow> NamespacedName \<Rightarrow> string \<Rightarrow> bool" where
  "secret_for s nn d \<longleftrightarrow> (\<exists>sec. GetSecret s nn = Some sec \<and> usable s d sec)"

lemma usable_secret_for: "usable s d sec \<Longrightarrow> secret_for s (meta_nn (s_meta sec)) d"
  by (auto simp: secret_for_def usable_def covers_def GetSecret_def)

definition entries_ok :: "OptimizedStore \<Rightarrow> (NamespacedName, string list) gomap \<Rightarrow> bool" where
  "entries_ok s m \<longleftrightarrow> (\<forall>(nn, ds) \<in> set m. ds \<noteq> [] \<and> (\<forall>d \<in> set ds. secret_for s nn d))"

lemma entries_ok_append:
  assumes "gm_wf m" "entries_ok s m" "secret_for s nn d"
  shows "entries_ok s (gm_put nn (gm_get [] m nn @ [d]) m)"
proof -
  have wf: "gm_wf (gm_put nn (gm_get [] m nn @ [d]) m)" using assms(1) by simp
  have old: "\<forall>e \<in> set (gm_get [] m nn). secret_for s nn e"
  proof (cases "map_of m nn")
    case (Some es)
    then have "(nn, es) \<in> set m" by (rule map_of_SomeD)
    with assms(2) Some show ?thesis by (auto simp: gm_get_def entries_ok_def)
  qed (simp add: gm_get_def)
  have "es \<noteq> [] \<and> (\<forall>e \<in> set es. secret_for s n e)"
    if "(n, es) \<in> set (gm_put nn (gm_get [] m nn @ [d]) m)" for n es
  proof (cases "n = nn")
    case True
    with that wf have "es = gm_get [] m nn @ [d]" by (simp add: gm_mem_iff)
    with True old assms(3) show ?thesis by simp
  next
    case False
    with that wf assms(1) have "(n, es) \<in> set m" by (simp add: gm_mem_iff)
    with assms(2) show ?thesis by (auto simp: entries_ok_def)
  qed
  then show ?thesis unfolding entries_ok_def by blast
qed

lemma via_autodiscovery_loop_ok:
  assumes "secrets_exact x509 s" "via_autodiscovery_loop s tm k pref ds m = Inr m'"
    "gm_wf m" "entries_ok s m"
  shows "gm_wf m' \<and> entries_ok s m' \<and>
    mset (concat (map snd m')) = mset (concat (map snd m)) + mset ds"
  using assms(2-)
proof (induction ds arbitrary: k m)
  case (Cons d ds)
  let ?r = "lr_Secret (GetDomainSecretWithWildcardFallbackInfo s d pref (tm k) (tm (k + 1)))"
  obtain sec where sec: "?r = Some sec" using Cons.prems(1) by (cases ?r) (auto simp: Let_def)
  have "secret_for s (meta_nn (s_meta sec)) d"
    using lookup_usable [OF assms(1), of d pref "tm k" "tm (k + 1)"] sec
    by (auto intro: usable_secret_for)
  with Cons.prems Cons.IH [of "k + 2" "gm_put (meta_nn (s_meta sec)) (gm_get [] m (meta_nn (s_meta sec)) @ [d]) m"]
  show ?case using sec by (simp add: Let_def entries_ok_append mset_append_entry)
qed simp

lemma via_autodiscovery_loop_total:
  assumes "secrets_exact x509 s"
  shows "is_ok (via_autodiscovery_loop s tm k pref ds m) \<longleftrightarrow> (\<forall>d \<in> set ds. \<exists>sec. usable s d sec)"
proof (induction ds arbitrary: k m)
  case (Cons d ds)
  then show ?case
    using lookup_usable [OF assms, of d pref "tm k" "tm (k + 1)"]
    by (auto simp: Let_def split: option.splits)
qed simp

text \<open>What a resolved TLS configuration holds, by the two ways to resolve it.\<close>

lemma GetSecretNameToDomains_Inr:
  assumes "c_TlsConfig (vs_common vs) = Some t"
  shows "GetSecretNameToDomains store tm vs domains = Inr m \<longleftrightarrow>
      (\<exists>ref. SecretRef t = Some ref \<and> AutoDiscovery t \<noteq> Some True \<and>
         m = getSecretNameToDomainsViaSecretRef ref (m_Namespace (vs_meta vs)) domains) \<or>
      SecretRef t = None \<and> AutoDiscovery t = Some True \<and>
        via_autodiscovery_loop store tm 0 (m_Namespace (vs_meta vs)) domains [] = Inr m"
proof (cases "GetTLSType (Some t)")
  case (Inl e)
  then have "\<nexists>ty. GetTLSType (Some t) = Inr ty" by simp
  then have "\<not> (SecretRef t \<noteq> None \<and> AutoDiscovery t \<noteq> Some True)" "\<not> (SecretRef t = None \<and> AutoDiscovery t = Some True)"
    unfolding GetTLSType_Inr by blast+
  then show ?thesis using Inl by (auto simp: GetSecretNameToDomains_def assms)
next
  case (Inr ty)
  then show ?thesis
    using GetTLSType_Inr [of t ty]
    by (auto simp: GetSecretNameToDomains_def assms SecretRefType_def
      AutoDiscoveryType_def getSecretNameToDomainsViaAutoDiscovery_def)
qed

lemma resolved_tls:
  assumes "secrets_exact x509 store" "c_TlsConfig (vs_common vs) = Some t"
    and "GetSecretNameToDomains store tm vs domains = Inr m"
  shows "gm_wf m" "mset (concat (map snd m)) = mset domains"
    "domains \<noteq> [] \<Longrightarrow> (nn, ds) \<in> set m \<Longrightarrow> ds \<noteq> []"
    "SecretRef t = None \<Longrightarrow> (nn, ds) \<in> set m \<Longrightarrow> ds \<noteq> [] \<and> (\<forall>d \<in> set ds. secret_for store nn d)"
proof -
  have "entries_ok store []" by (simp add: entries_ok_def)
  note disc = via_autodiscovery_loop_ok [OF assms(1) _ gm_wf_Nil this]
  have "gm_wf m \<and> mset (concat (map snd m)) = mset domains \<and>
      (domains \<noteq> [] \<longrightarrow> (\<forall>(nn, ds) \<in> set m. ds \<noteq> [])) \<and>
      (SecretRef t = None \<longrightarrow> (\<forall>(nn, ds) \<in> set m. ds \<noteq> [] \<and> (\<forall>d \<in> set ds. secret_for store nn d)))"
    using assms(3) unfolding GetSecretNameToDomains_Inr [OF assms(2)]
  proof (elim disjE exE conjE)
    fix ref assume "SecretRef t = Some ref"
      "m = getSecretNameToDomainsViaSecretRef ref (m_Namespace (vs_meta vs)) domains"
    then show ?thesis by (simp add: getSecretNameToDomainsViaSecretRef_def Let_def gm_put_def gm_wf_def)
  next
    assume "via_autodiscovery_loop store tm 0 (m_Namespace (vs_meta vs)) domains [] = Inr m"
    from disc [OF this] show ?thesis by (auto simp: entries_ok_def)
  qed
  then show "gm_wf m" "mset (concat (map snd m)) = mset domains"
    "domains \<noteq> [] \<Longrightarrow> (nn, ds) \<in> set m \<Longrightarrow> ds \<noteq> []"
    "SecretRef t = None \<Longrightarrow> (nn, ds) \<in> set m \<Longrightarrow> ds \<noteq> [] \<and> (\<forall>d \<in> set ds. secret_for store nn d)"
    by auto
qed

text \<open>
  On a store whose domain index is exact, the TLS configuration of a virtual service is
  resolved exactly when it names a secret, or asks for discovery and every domain has a usable
  secret. The result then puts every domain under exactly one secret and nothing else; a
  discovered secret is stored and annotated with the domain or its wildcard, whatever the clock
  reads in between.
\<close>

lemma tls_domains_covered:
  assumes "secrets_exact x509 store" "c_TlsConfig (vs_common vs) = Some t"
  shows "(is_ok (GetSecretNameToDomains store tm vs domains) \<longleftrightarrow>
      SecretRef t \<noteq> None \<and> AutoDiscovery t \<noteq> Some True \<or>
      SecretRef t = None \<and> AutoDiscovery t = Some True \<and> (\<forall>d \<in> set domains. \<exists>sec. usable store d sec)) \<and>
    (\<forall>m. GetSecretNameToDomains store tm vs domains = Inr m \<longrightarrow>
      gm_wf m \<and> mset (concat (map snd m)) = mset domains \<and>
      (SecretRef t = None \<longrightarrow> (\<forall>(nn, ds) \<in> set m. ds \<noteq> [] \<and> (\<forall>d \<in> set ds. secret_for store nn d))))"
proof -
  have total: "is_ok (via_autodiscovery_loop store tm 0 (m_Namespace (vs_meta vs)) domains []) \<longleftrightarrow>
      (\<forall>d \<in> set domains. \<exists>sec. usable store d sec)"
    by (rule via_autodiscovery_loop_total [OF assms(1)])
  have "is_ok (GetSecretNameToDomains store tm vs domains) \<longleftrightarrow>
      SecretRef t \<noteq> None \<and> AutoDiscovery t \<noteq> Some True \<or>
      SecretRef t = None \<and> AutoDiscovery t = Some True \<and> (\<forall>d \<in> set domains. \<exists>sec. usable store d sec)"
    unfolding total [symmetric] is_ok_iff GetSecretNameToDomains_Inr [OF assms(2)] by blast
  with resolved_tls [OF assms] show ?thesis by blast
qed

text \<open>A virtual service that asks for discovery, and a store with a wildcard certificate.\<close>

definition auto_vs :: VirtualService where
  "auto_vs = empty_vs\<lparr>vs_meta := empty_meta\<lparr>m_Namespace := ''edge'', m_Name := ''v''\<rparr>,
     vs_common := empty_common\<lparr>c_TlsConfig := Some \<lparr>SecretRef = None, AutoDiscovery = Some True\<rparr>\<rparr>\<rparr>"

definition wild_store :: OptimizedStore where
  "wild_store = SetSecret toy_x509 NewOptimizedStore wild_secret"

lemma wild_store_exact: "secrets_exact toy_x509 wild_store"
  unfolding wild_store_def by (rule secrets_exact_set [OF pool_ok_New secrets_exact_New])

lemma wild_resolved:
  "GetSecretNameToDomains wild_store (\<lambda>_. 3) auto_vs [''x.a.com'', ''y.a.com''] =
     Inr [(NN ''edge'' ''tls'', [''x.a.com'', ''y.a.com''])]"
  by code_simp

end
