(* ===== verification/FilterChains.thy ===== *)
theory FilterChains
  imports HttpFilters Tls
begin

text \<open>
  The filter chains of a virtual service (\<^verbatim>\<open>internal/xds/resbuilder/filter_chains\<close>), with the
  access log and tracing methods of the custom resources they decode
  (\<^verbatim>\<open>api/v1alpha1/accesslogconfig_methods.go\<close>, \<^verbatim>\<open>tracing_methods.go\<close>). The codecs and validators
  of the messages are the fields of \<open>chainlib\<close>. Deprecated access log fields write the status
  of the virtual service while they are read, so the functions on that path return the virtual
  service too.
\<close>

section \<open>Messages\<close>

type_synonym TracingV3 = bytes
type_synonym UpgradeConfig = bytes

record AccessLogV3 =
  al_TypedConfig :: "AnyPb option"
  al_body :: bytes

record FileAccessLog =
  fal_Path :: string
  fal_body :: bytes

record Http2ProtocolOptions =
  h2_MaxConcurrentStreams :: "32 word option"
  h2_InitialStreamWindowSize :: "32 word option"
  h2_InitialConnectionWindowSize :: "32 word option"
  h2_body :: bytes

text \<open>
  A connection manager, by what the controller writes or reads; one that the controller builds
  takes its routes from the management server under the given name.
\<close>

record HttpConnectionManager =
  hcm_StatPrefix :: string
  hcm_RouteConfigName :: string
  hcm_UseRemoteAddress :: "bool option"
  hcm_UpgradeConfigs :: "UpgradeConfig list"
  hcm_HttpFilters :: "HttpFilterV3 list"
  hcm_Http2ProtocolOptions :: "Http2ProtocolOptions option"
  hcm_Tracing :: "TracingV3 option"
  hcm_XffNumTrustedHops :: "32 word"
  hcm_AccessLog :: "AccessLogV3 list"
  hcm_body :: bytes

text \<open>The TLS context the controller builds: one secret from the management server.\<close>

record DownstreamTlsContext =
  tls_SecretName :: string
  tls_AlpnProtocols :: "string list"

record chainlib =
  Unmarshal_tracing :: "bytes \<Rightarrow> TracingV3 res"
  Validate_tracing :: "TracingV3 \<Rightarrow> unit res"
  Unmarshal_upgrade :: "bytes \<Rightarrow> UpgradeConfig res"
  Validate_upgrade :: "UpgradeConfig \<Rightarrow> unit res"
  Unmarshal_h2 :: "bytes \<Rightarrow> Http2ProtocolOptions res"
  Validate_h2 :: "Http2ProtocolOptions \<Rightarrow> unit res"
  Unmarshal_access_log :: "bytes \<Rightarrow> AccessLogV3 res"
  Validate_access_log :: "AccessLogV3 \<Rightarrow> unit res"
  UnmarshalTo_file :: "AnyPb \<Rightarrow> FileAccessLog res"
  New_any_file :: "FileAccessLog \<Rightarrow> AnyPb res"
  Validate_hcm :: "HttpConnectionManager \<Rightarrow> unit res"
  New_any_hcm :: "HttpConnectionManager \<Rightarrow> AnyPb res"
  New_any_tls :: "DownstreamTlsContext \<Rightarrow> AnyPb res"
  Validate_filter_chain :: "FilterChain \<Rightarrow> unit res"

section \<open>Access log resources\<close>

definition annotationAutogenFilename :: string where
  "annotationAutogenFilename = ''envoy.kaasops.io/auto-generated-filename''"

definition ErrInvalidAnnotationAutogenFilenameValue :: goerr where
  "ErrInvalidAnnotationAutogenFilenameValue =
     Err ''envoy.kaasops.io/auto-generated-filename annotation value must be true or false''"

definition ErrInvalidAccessLogConfigType :: goerr where
  "ErrInvalidAccessLogConfigType = Err ''access log config type must be of type file''"

text \<open>\<open>strconv.ParseBool\<close>.\<close>

definition ParseBool :: "string \<Rightarrow> bool option" where
  "ParseBool s =
     (if s \<in> set [''1'', ''t'', ''T'', ''TRUE'', ''true'', ''True''] then Some True
      else if s \<in> set [''0'', ''f'', ''F'', ''FALSE'', ''false'', ''False''] then Some False
      else None)"

definition append_filename :: "chainlib \<Rightarrow> string \<Rightarrow> AccessLogV3 \<Rightarrow> AccessLogV3 res" where
  "append_filename cl filename accessLog =
     (case al_TypedConfig accessLog of
        None \<Rightarrow> Inl ErrInvalidAccessLogConfigType
      | Some tc \<Rightarrow>
          (case UnmarshalTo_file cl tc of
             Inl _ \<Rightarrow> Inl ErrInvalidAccessLogConfigType
           | Inr fileConfig \<Rightarrow>
               (let fileConfig = fileConfig\<lparr>fal_Path := fal_Path fileConfig @ ''/'' @ filename @ ''.log''\<rparr>
                in and_then (wrap_err ''failed to marshal fileConfig to anypb'' (New_any_file cl fileConfig))
                     (\<lambda>fileConfigAny. Inr (accessLog\<lparr>al_TypedConfig := Some fileConfigAny\<rparr>)))))"

text \<open>The only option in use sets the file name; without it the name is \<open>access\<close>.\<close>

definition AccessLogConfig_unmarshalV3 :: "chainlib \<Rightarrow> string option \<Rightarrow> AccessLogConfig \<Rightarrow> AccessLogV3 res" where
  "AccessLogConfig_unmarshalV3 cl withFileName a =
     (case alc_Spec a of
        None \<Rightarrow> Inl ErrSpecNil
      | Some spec \<Rightarrow>
          and_then (Unmarshal_access_log cl (raw_bytes spec)) (\<lambda>accessLog.
          let filename = (case withFileName of None \<Rightarrow> ''access'' | Some n \<Rightarrow> n)
          in case map_of (nilmap (m_Annotations (alc_meta a))) annotationAutogenFilename of
               None \<Rightarrow> Inr accessLog
             | Some val \<Rightarrow>
                 (case ParseBool val of
                    None \<Rightarrow> Inl ErrInvalidAnnotationAutogenFilenameValue
                  | Some enabled \<Rightarrow>
                      if enabled then append_filename cl filename accessLog else Inr accessLog)))"

definition UnmarshalAndValidateV3 :: "chainlib \<Rightarrow> string option \<Rightarrow> AccessLogConfig \<Rightarrow> AccessLogV3 res" where
  "UnmarshalAndValidateV3 cl withFileName a =
     and_then (AccessLogConfig_unmarshalV3 cl withFileName a) (\<lambda>accessLog.
     and_then (Validate_access_log cl accessLog) (\<lambda>_.
     Inr accessLog))"

definition Tracing_UnmarshalV3 :: "chainlib \<Rightarrow> Tracing \<Rightarrow> TracingV3 res" where
  "Tracing_UnmarshalV3 cl t =
     (case tr_Spec t of
        None \<Rightarrow> Inl ErrSpecNil
      | Some spec \<Rightarrow> Unmarshal_tracing cl (raw_bytes spec))"

definition Tracing_UnmarshalV3AndValidate :: "chainlib \<Rightarrow> Tracing \<Rightarrow> TracingV3 res" where
  "Tracing_UnmarshalV3AndValidate cl t =
     and_then (Tracing_UnmarshalV3 cl t) (\<lambda>tracing.
     and_then (Validate_tracing cl tracing) (\<lambda>_.
     Inr tracing))"

section \<open>Parameters\<close>

record FilterChainsParams =
  VSName :: string
  UseRemoteAddress :: bool
  XFFNumTrustedHops :: "32 word option"
  RouteConfigName :: string
  StatPrefix :: string
  HTTPFilters :: "HttpFilterV3 list"
  UpgradeConfigs :: "UpgradeConfig list"
  AccessLogs :: "AccessLogV3 list"
  Domains :: "string list"
  DownstreamTLSContext :: "DownstreamTlsContext option"
  SecretNameToDomains :: "(NamespacedName, string list) gomap"
  IsTLS :: bool
  TracingCfg :: "TracingV3 option"
  H2Options :: "Http2ProtocolOptions option"

definition unmarshalInlineTracing :: "chainlib \<Rightarrow> RawExtension \<Rightarrow> TracingV3 res" where
  "unmarshalInlineTracing cl tracingSpec =
     and_then (wrap_err ''failed to unmarshal tracing'' (Unmarshal_tracing cl (raw_bytes tracingSpec))) (\<lambda>tracing.
     and_then (wrap_err ''failed to validate tracing'' (Validate_tracing cl tracing)) (\<lambda>_.
     Inr tracing))"

definition resolveTracingRef :: "chainlib \<Rightarrow> OptimizedStore \<Rightarrow> string \<Rightarrow> ResourceRef \<Rightarrow> TracingV3 res" where
  "resolveTracingRef cl store vsNamespace ref =
     (let tracingRefNs = GetNamespace (ref_Namespace ref) vsNamespace
      in case GetTracing store (NN tracingRefNs (ref_Name ref)) of
           None \<Rightarrow> Inl (Err (''tracing '' @ tracingRefNs @ ''/'' @ ref_Name ref @ '' not found''))
         | Some tr \<Rightarrow> wrap_err ''failed to unmarshal tracing'' (Tracing_UnmarshalV3AndValidate cl tr))"

definition configureTracing :: "chainlib \<Rightarrow> OptimizedStore \<Rightarrow> VirtualService \<Rightarrow> TracingV3 option res" where
  "configureTracing cl store vs =
     (case (c_Tracing (vs_common vs), c_TracingRef (vs_common vs)) of
        (Some _, Some _) \<Rightarrow> Inl (Err ''only one of spec.tracing or spec.tracingRef may be set'')
      | (Some spec, None) \<Rightarrow> and_then (unmarshalInlineTracing cl spec) (\<lambda>t. Inr (Some t))
      | (None, Some ref) \<Rightarrow>
          and_then (resolveTracingRef cl store (m_Namespace (vs_meta vs)) ref) (\<lambda>t. Inr (Some t))
      | (None, None) \<Rightarrow> Inr None)"

definition upgrade_config :: "chainlib \<Rightarrow> RawExtension \<Rightarrow> UpgradeConfig res" where
  "upgrade_config cl upgradeConfig =
     and_then (wrap_err ''failed to unmarshal upgrade config'' (Unmarshal_upgrade cl (raw_bytes upgradeConfig))) (\<lambda>uc.
     and_then (wrap_err ''failed to validate upgrade config'' (Validate_upgrade cl uc)) (\<lambda>_.
     Inr uc))"

definition configureUpgradeConfigs :: "chainlib \<Rightarrow> VirtualService \<Rightarrow> UpgradeConfig list res" where
  "configureUpgradeConfigs cl vs =
     (case c_UpgradeConfigs (vs_common vs) of
        None \<Rightarrow> Inr []
      | Some ucs \<Rightarrow> map_res (upgrade_config cl) ucs)"

definition configureHttp2ProtocolOptions :: "chainlib \<Rightarrow> VirtualService \<Rightarrow> Http2ProtocolOptions option res" where
  "configureHttp2ProtocolOptions cl vs =
     (case c_Http2ProtocolOptions (vs_common vs) of
        None \<Rightarrow> Inr None
      | Some raw \<Rightarrow>
          and_then (wrap_err ''failed to unmarshal http2ProtocolOptions'' (Unmarshal_h2 cl (raw_bytes raw))) (\<lambda>h2opts.
          and_then (wrap_err ''failed to validate http2ProtocolOptions'' (Validate_h2 cl h2opts)) (\<lambda>_.
          Inr (Some h2opts))))"

section \<open>Access logs\<close>

definition validateAccessLogConfiguration :: "VirtualService \<Rightarrow> goerr option" where
  "validateAccessLogConfiguration vs =
     (let count = (if c_AccessLog (vs_common vs) \<noteq> None then 1 else 0 :: nat)
            + (if c_AccessLogConfig (vs_common vs) \<noteq> None then 1 else 0)
            + (if length (c_AccessLogs (vs_common vs)) > 0 then 1 else 0)
            + (if length (c_AccessLogConfigs (vs_common vs)) > 0 then 1 else 0)
      in if count > 1
         then Some (Err (''can'' @ [CHR 0x27] @
           ''t use accessLog, accessLogConfig, accessLogs and accessLogConfigs at the same time''))
         else None)"

definition hasAccessLogConfiguration :: "VirtualService \<Rightarrow> bool" where
  "hasAccessLogConfiguration vs \<longleftrightarrow>
     c_AccessLog (vs_common vs) \<noteq> None \<or> c_AccessLogConfig (vs_common vs) \<noteq> None \<or>
     length (c_AccessLogs (vs_common vs)) > 0 \<or> length (c_AccessLogConfigs (vs_common vs)) > 0"

definition inline_access_log :: "chainlib \<Rightarrow> RawExtension \<Rightarrow> AccessLogV3 res" where
  "inline_access_log cl spec =
     and_then (wrap_err ''failed to unmarshal accessLog'' (Unmarshal_access_log cl (raw_bytes spec))) (\<lambda>accessLog.
     and_then (Validate_access_log cl accessLog) (\<lambda>_.
     Inr accessLog))"

definition access_log_ref :: "chainlib \<Rightarrow> OptimizedStore \<Rightarrow> VirtualService \<Rightarrow> ResourceRef \<Rightarrow> AccessLogV3 res" where
  "access_log_ref cl store vs ref =
     (let accessLogNs = GetNamespace (ref_Namespace ref) (m_Namespace (vs_meta vs))
      in case GetAccessLog store (NN accessLogNs (ref_Name ref)) of
           None \<Rightarrow> Inl (Err (''can'' @ [CHR 0x27] @ ''t find accessLogConfig '' @ accessLogNs @ ''/'' @ ref_Name ref))
         | Some accessLogConfig \<Rightarrow> UnmarshalAndValidateV3 cl (Some (m_Name (vs_meta vs))) accessLogConfig)"

text \<open>The deprecated fields leave a message in the status of the virtual service.\<close>

definition processDeprecatedAccessLog :: "chainlib \<Rightarrow> RawExtension \<Rightarrow> VirtualService
    \<Rightarrow> AccessLogV3 list res \<times> VirtualService" where
  "processDeprecatedAccessLog cl raw vs =
     (let vs = UpdateStatus vs False ''accessLog is deprecated, use accessLogs instead''
      in (and_then (inline_access_log cl raw) (\<lambda>accessLog. Inr [accessLog]), vs))"

definition processDeprecatedAccessLogConfig :: "chainlib \<Rightarrow> OptimizedStore \<Rightarrow> ResourceRef \<Rightarrow> VirtualService
    \<Rightarrow> AccessLogV3 list res \<times> VirtualService" where
  "processDeprecatedAccessLogConfig cl store ref vs =
     (let vs = UpdateStatus vs False ''accessLogConfig is deprecated, use accessLogConfigs instead''
      in (and_then (access_log_ref cl store vs ref) (\<lambda>accessLog. Inr [accessLog]), vs))"

definition processInlineAccessLogs :: "chainlib \<Rightarrow> RawExtension list \<Rightarrow> AccessLogV3 list res" where
  "processInlineAccessLogs cl accessLogSpecs = map_res (inline_access_log cl) accessLogSpecs"

definition processAccessLogConfigRefs :: "chainlib \<Rightarrow> OptimizedStore \<Rightarrow> VirtualService \<Rightarrow> AccessLogV3 list res" where
  "processAccessLogConfigRefs cl store vs =
     map_res (access_log_ref cl store vs) (c_AccessLogConfigs (vs_common vs))"

definition configureAccessLogs :: "chainlib \<Rightarrow> OptimizedStore \<Rightarrow> VirtualService
    \<Rightarrow> AccessLogV3 list res \<times> VirtualService" where
  "configureAccessLogs cl store vs =
     (case validateAccessLogConfiguration vs of
        Some e \<Rightarrow> (Inl e, vs)
      | None \<Rightarrow>
          if \<not> hasAccessLogConfiguration vs then (Inr [], vs)
          else
            (let (deprecated, vs) = (case c_AccessLog (vs_common vs) of
                    None \<Rightarrow> (Inr [], vs)
                  | Some raw \<Rightarrow> processDeprecatedAccessLog cl raw vs)
             in case deprecated of
                  Inl e \<Rightarrow> (Inl e, vs)
                | Inr logs1 \<Rightarrow>
                    (let (deprecatedConfig, vs) = (case c_AccessLogConfig (vs_common vs) of
                            None \<Rightarrow> (Inr [], vs)
                          | Some ref \<Rightarrow> processDeprecatedAccessLogConfig cl store ref vs)
                     in (and_then deprecatedConfig (\<lambda>logs2.
                         and_then (if length (c_AccessLogs (vs_common vs)) > 0
                             then processInlineAccessLogs cl (c_AccessLogs (vs_common vs)) else Inr []) (\<lambda>logs3.
                         and_then (if length (c_AccessLogConfigs (vs_common vs)) > 0
                             then processAccessLogConfigRefs cl store vs else Inr []) (\<lambda>logs4.
                         Inr (logs1 @ logs2 @ logs3 @ logs4)))), vs))))"

section \<open>TLS\<close>

definition validateTLSConfiguration :: "VirtualService \<Rightarrow> bool \<Rightarrow> goerr option" where
  "validateTLSConfiguration vs listenerIsTLS =
     (if listenerIsTLS \<and> c_TlsConfig (vs_common vs) = None
      then Some (Err ''tls listener not configured, virtual service has not tls config'')
      else if \<not> listenerIsTLS \<and> c_TlsConfig (vs_common vs) \<noteq> None
      then Some (Err ''listener is not tls, virtual service has tls config'')
      else None)"

definition configureTLS :: "OptimizedStore \<Rightarrow> clock \<Rightarrow> VirtualService \<Rightarrow> bool \<Rightarrow> VirtualHost
    \<Rightarrow> FilterChainsParams \<Rightarrow> FilterChainsParams res" where
  "configureTLS store tm vs listenerIsTLS virtualHost params =
     (case validateTLSConfiguration vs listenerIsTLS of
        Some e \<Rightarrow> Inl e
      | None \<Rightarrow>
          (case c_TlsConfig (vs_common vs) of
             None \<Rightarrow> Inr params
           | Some t \<Rightarrow>
               and_then (GetTLSType (Some t)) (\<lambda>_.
               and_then (GetSecretNameToDomains store tm vs (vh_Domains virtualHost)) (\<lambda>m.
               Inr (params\<lparr>SecretNameToDomains := m\<rparr>)))))"

definition replace_char :: "char \<Rightarrow> char \<Rightarrow> string \<Rightarrow> string" where
  "replace_char a b s = map (\<lambda>c. if c = a then b else c) s"

definition BuildFilterChainParams :: "chainlib \<Rightarrow> OptimizedStore \<Rightarrow> clock \<Rightarrow> VirtualService \<Rightarrow> NamespacedName
    \<Rightarrow> HttpFilterV3 list \<Rightarrow> bool \<Rightarrow> VirtualHost \<Rightarrow> FilterChainsParams res \<times> VirtualService" where
  "BuildFilterChainParams cl store tm vs nn httpFs listenerIsTLS virtualHost =
     (let params = \<lparr>VSName = NamespacedName_String nn,
            UseRemoteAddress = BoolFromPtr (c_UseRemoteAddress (vs_common vs)),
            XFFNumTrustedHops = c_XFFNumTrustedHops (vs_common vs),
            RouteConfigName = NamespacedName_String nn,
            StatPrefix = replace_char CHR ''.'' CHR ''-'' (NamespacedName_String nn),
            HTTPFilters = httpFs, UpgradeConfigs = [], AccessLogs = [], Domains = [],
            DownstreamTLSContext = None, SecretNameToDomains = [], IsTLS = listenerIsTLS,
            TracingCfg = None, H2Options = None\<rparr>
      in case configureTracing cl store vs of
           Inl e \<Rightarrow> (Inl e, vs)
         | Inr tracing \<Rightarrow>
         case configureUpgradeConfigs cl vs of
           Inl e \<Rightarrow> (Inl e, vs)
         | Inr upgrades \<Rightarrow>
             (let (logs, vs) = configureAccessLogs cl store vs
              in (and_then logs (\<lambda>als.
                  and_then (configureTLS store tm vs listenerIsTLS virtualHost
                      (params\<lparr>TracingCfg := tracing, UpgradeConfigs := upgrades, AccessLogs := als\<rparr>)) (\<lambda>params.
                  and_then (configureHttp2ProtocolOptions cl vs) (\<lambda>h2opts.
                  Inr (params\<lparr>H2Options := h2opts\<rparr>)))), vs)))"

section \<open>The chains\<close>

definition default_h2 :: Http2ProtocolOptions where
  "default_h2 = \<lparr>h2_MaxConcurrentStreams = Some 100, h2_InitialStreamWindowSize = Some 65536,
     h2_InitialConnectionWindowSize = Some 1048576, h2_body = []\<rparr>"

definition build_hcm :: "FilterChainsParams \<Rightarrow> HttpConnectionManager" where
  "build_hcm params =
     \<lparr>hcm_StatPrefix = StatPrefix params, hcm_RouteConfigName = RouteConfigName params,
      hcm_UseRemoteAddress = Some (UseRemoteAddress params), hcm_UpgradeConfigs = UpgradeConfigs params,
      hcm_HttpFilters = HTTPFilters params,
      hcm_Http2ProtocolOptions = (case H2Options params of
          Some h \<Rightarrow> Some h
        | None \<Rightarrow> if IsTLS params then Some default_h2 else None),
      hcm_Tracing = TracingCfg params,
      hcm_XffNumTrustedHops = (case XFFNumTrustedHops params of Some n \<Rightarrow> n | None \<Rightarrow> 0),
      hcm_AccessLog = AccessLogs params, hcm_body = []\<rparr>"

definition HTTPConnectionManager_name :: string where
  "HTTPConnectionManager_name = ''envoy.filters.network.http_connection_manager''"

definition buildFilterChain :: "chainlib \<Rightarrow> FilterChainsParams \<Rightarrow> FilterChain res" where
  "buildFilterChain cl params =
     (let httpConnectionManager = build_hcm params
      in and_then (wrap_err ''failed to validate HTTP connection manager'' (Validate_hcm cl httpConnectionManager)) (\<lambda>_.
         and_then (wrap_err ''failed to marshal HTTP connection manager to Any''
             (New_any_hcm cl httpConnectionManager)) (\<lambda>pbst.
         let fc = \<lparr>fc_Name = [], fc_Filters = [\<lparr>flt_Name = HTTPConnectionManager_name, flt_TypedConfig = Some pbst\<rparr>],
               fc_ServerNames = (if IsTLS params \<and> length (Domains params) > 0 \<and> ''*'' \<notin> set (Domains params)
                 then Some (Domains params) else None),
               fc_TransportSocket = None, fc_body = []\<rparr>
         in and_then (case DownstreamTLSContext params of
               None \<Rightarrow> Inr fc
             | Some tls \<Rightarrow>
                 and_then (wrap_err ''failed to marshal downstream TLS context to Any'' (New_any_tls cl tls)) (\<lambda>scfg.
                 Inr (fc\<lparr>fc_TransportSocket :=
                   Some \<lparr>ts_Name = ''envoy.transport_sockets.tls'', ts_TypedConfig = scfg\<rparr>\<rparr>))) (\<lambda>fc.
            let fc = fc\<lparr>fc_Name := VSName params\<rparr>
            in and_then (wrap_err ''failed to validate filter chain'' (Validate_filter_chain cl fc)) (\<lambda>_.
               Inr fc)))))"

definition tls_context :: "NamespacedName \<Rightarrow> DownstreamTlsContext" where
  "tls_context secretName =
     \<lparr>tls_SecretName = NamespacedName_String secretName, tls_AlpnProtocols = [''h2'', ''http/1.1'']\<rparr>"

definition BuildFilterChains :: "chainlib \<Rightarrow> FilterChainsParams \<Rightarrow> FilterChain list res" where
  "BuildFilterChains cl params =
     (if length (SecretNameToDomains params) > 0 then
        map_res (\<lambda>(secretName, ds).
            wrap_err (''failed to build filter chain for domain ['' @ join_with '' '' ds @ '']'')
              (buildFilterChain cl (params\<lparr>Domains := ds, DownstreamTLSContext := Some (tls_context secretName)\<rparr>)))
          (SecretNameToDomains params)
      else
        and_then (wrap_err ''failed to build filter chain'' (buildFilterChain cl params)) (\<lambda>fc.
        Inr [fc]))"

section \<open>Listeners with chains of their own\<close>

fun first_conflict :: "(bool \<times> string) list \<Rightarrow> goerr option" where
  "first_conflict [] = None"
| "first_conflict ((condition, message) # rest) =
     (if condition then Some (Err (''conflict: '' @ message @ '', but filter chains are found in listener''))
      else first_conflict rest)"

definition CheckFilterChainsConflicts :: "VirtualService \<Rightarrow> goerr option" where
  "CheckFilterChainsConflicts vs =
     (let c = vs_common vs in first_conflict
       [(c_VirtualHost c \<noteq> None, ''virtual host is set''),
        (length (c_AdditionalRoutes c) > 0, ''additional routes are set''),
        (length (c_HTTPFilters c) > 0, ''http filters are set''),
        (length (c_AdditionalHttpFilters c) > 0, ''additional http filters are set''),
        (c_TlsConfig c \<noteq> None, ''tls config is set''),
        (c_RBAC c \<noteq> None, ''rbac is set''),
        (c_UseRemoteAddress c \<noteq> None, ''use remote address is set''),
        (c_XFFNumTrustedHops c \<noteq> None, ''xff_num_trusted_hops is set''),
        (c_UpgradeConfigs c \<noteq> None, ''upgrade configs is set''),
        (c_AccessLog c \<noteq> None, ''access log is set''),
        (c_AccessLogConfig c \<noteq> None, ''access log config is set''),
        (length (c_AccessLogs c) > 0, ''access logs are set''),
        (length (c_AccessLogConfigs c) > 0, ''access log configs are set''),
        (c_Http2ProtocolOptions c \<noteq> None, ''http2 protocol options are set'')])"

section \<open>TLS chains cover the domains\<close>

lemma configureAccessLogs_keeps:
  "vs_common (snd (configureAccessLogs cl store vs)) = vs_common vs \<and>
   vs_meta (snd (configureAccessLogs cl store vs)) = vs_meta vs"
  by (simp add: configureAccessLogs_def processDeprecatedAccessLog_def processDeprecatedAccessLogConfig_def
      UpdateStatus_def Let_def split: option.splits sum.splits)

lemma GetSecretNameToDomains_cong:
  assumes "vs_common vs' = vs_common vs" "vs_meta vs' = vs_meta vs"
  shows "GetSecretNameToDomains store tm vs' ds = GetSecretNameToDomains store tm vs ds"
  unfolding GetSecretNameToDomains_def assms by (rule refl)

text \<open>What the parameters of a virtual service on a TLS listener hold.\<close>

lemma tls_params:
  assumes "BuildFilterChainParams cl store tm vs nn fs True vh = (Inr params, vs')"
  shows "IsTLS params \<and> VSName params = NamespacedName_String nn \<and>
    (\<exists>t. c_TlsConfig (vs_common vs) = Some t) \<and>
    GetSecretNameToDomains store tm vs (vh_Domains vh) = Inr (SecretNameToDomains params)"
proof -
  obtain logs vs1 where al: "configureAccessLogs cl store vs = (logs, vs1)" by (cases "configureAccessLogs cl store vs")
  have keep: "vs_common vs1 = vs_common vs" "vs_meta vs1 = vs_meta vs"
    using configureAccessLogs_keeps [of cl store vs] by (simp_all add: al)
  obtain p0 p1 h2 where p: "configureTLS store tm vs1 True vh p0 = Inr p1" "params = p1\<lparr>H2Options := h2\<rparr>"
    "IsTLS p0" "VSName p0 = NamespacedName_String nn"
    using assms by (fastforce simp: BuildFilterChainParams_def al Let_def exits split: sum.splits)
  then show ?thesis
    by (auto simp: configureTLS_def validateTLSConfiguration_def keep exits
        GetSecretNameToDomains_cong [OF keep] split: option.splits if_splits)
qed

lemma buildFilterChain_Inr:
  assumes "buildFilterChain cl params = Inr fc"
  shows "fc_Name fc = VSName params \<and>
    (\<exists>pbst. New_any_hcm cl (build_hcm params) = Inr pbst \<and>
       fc_Filters fc = [\<lparr>flt_Name = HTTPConnectionManager_name, flt_TypedConfig = Some pbst\<rparr>]) \<and>
    fc_ServerNames fc = (if IsTLS params \<and> Domains params \<noteq> [] \<and> ''*'' \<notin> set (Domains params)
      then Some (Domains params) else None) \<and>
    (case DownstreamTLSContext params of
       None \<Rightarrow> fc_TransportSocket fc = None
     | Some tls \<Rightarrow> \<exists>scfg. New_any_tls cl tls = Inr scfg \<and>
         fc_TransportSocket fc = Some \<lparr>ts_Name = ''envoy.transport_sockets.tls'', ts_TypedConfig = scfg\<rparr>)"
  using assms
  by (cases "DownstreamTLSContext params") (auto simp: buildFilterChain_def Let_def exits)

text \<open>Every chain has one connection manager for the routes, and at most one secret.\<close>

definition routes_by :: "chainlib \<Rightarrow> FilterChainsParams \<Rightarrow> FilterChain \<Rightarrow> bool" where
  "routes_by cl params fc \<longleftrightarrow>
     (\<exists>hcm pbst. hcm_RouteConfigName hcm = RouteConfigName params \<and> hcm_HttpFilters hcm = HTTPFilters params \<and>
        New_any_hcm cl hcm = Inr pbst \<and>
        fc_Filters fc = [\<lparr>flt_Name = HTTPConnectionManager_name, flt_TypedConfig = Some pbst\<rparr>])"

definition chain_shape :: "chainlib \<Rightarrow> FilterChainsParams \<Rightarrow> FilterChain \<Rightarrow> bool" where
  "chain_shape cl params fc \<longleftrightarrow>
     fc_Name fc = VSName params \<and> routes_by cl params fc \<and>
     (\<forall>ts. fc_TransportSocket fc = Some ts \<longrightarrow>
        (\<exists>secretName \<in> fst ` set (SecretNameToDomains params).
           New_any_tls cl (tls_context secretName) = Inr (ts_TypedConfig ts)))"

lemma built_routes_by:
  assumes "buildFilterChain cl p = Inr fc" "RouteConfigName p = RouteConfigName params" "HTTPFilters p = HTTPFilters params"
  shows "routes_by cl params fc"
proof -
  obtain pbst where "New_any_hcm cl (build_hcm p) = Inr pbst"
    "fc_Filters fc = [\<lparr>flt_Name = HTTPConnectionManager_name, flt_TypedConfig = Some pbst\<rparr>]"
    using buildFilterChain_Inr [OF assms(1)] by blast
  moreover have "hcm_RouteConfigName (build_hcm p) = RouteConfigName params" "hcm_HttpFilters (build_hcm p) = HTTPFilters params"
    using assms(2,3) by (simp_all add: build_hcm_def)
  ultimately show ?thesis unfolding routes_by_def by blast
qed

lemma chain_shape_plain:
  assumes "buildFilterChain cl params = Inr fc" "DownstreamTLSContext params = None"
  shows "chain_shape cl params fc"
  using buildFilterChain_Inr [OF assms(1)] built_routes_by [OF assms(1)] assms(2) by (simp add: chain_shape_def)

lemma chain_shape_tls:
  assumes "buildFilterChain cl (params\<lparr>Domains := ds, DownstreamTLSContext := Some (tls_context k)\<rparr>) = Inr fc"
    "(k, ds) \<in> set (SecretNameToDomains params)"
  shows "chain_shape cl params fc"
proof -
  have "routes_by cl params fc" by (rule built_routes_by [OF assms(1)]) simp_all
  moreover have "k \<in> fst ` set (SecretNameToDomains params)" using assms(2) by (rule rev_image_eqI) simp
  moreover obtain scfg where "New_any_tls cl (tls_context k) = Inr scfg"
    "fc_TransportSocket fc = Some \<lparr>ts_Name = ''envoy.transport_sockets.tls'', ts_TypedConfig = scfg\<rparr>"
    "fc_Name fc = VSName params"
    using buildFilterChain_Inr [OF assms(1)] by auto
  ultimately show ?thesis by (auto simp: chain_shape_def simp del: bex_simps)
qed

lemma BuildFilterChains_shape:
  assumes "BuildFilterChains cl params = Inr fcs" "DownstreamTLSContext params = None"
  shows "fcs \<noteq> [] \<and> (\<forall>fc \<in> set fcs. chain_shape cl params fc)"
proof (cases "SecretNameToDomains params = []")
  case True
  with assms obtain fc where "buildFilterChain cl params = Inr fc" "fcs = [fc]"
    by (auto simp: BuildFilterChains_def exits)
  with chain_shape_plain [OF _ assms(2)] show ?thesis by simp
next
  case False
  have all: "list_all2 (\<lambda>p fc. (case p of (secretName, ds) \<Rightarrow>
            wrap_err (''failed to build filter chain for domain ['' @ join_with '' '' ds @ '']'')
              (buildFilterChain cl (params\<lparr>Domains := ds, DownstreamTLSContext := Some (tls_context secretName)\<rparr>))) = Inr fc)
     (SecretNameToDomains params) fcs"
    using assms(1) False unfolding BuildFilterChains_def by (auto dest: map_res_Inr)
  have "chain_shape cl params fc" if "fc \<in> set fcs" for fc
  proof -
    from \<open>fc \<in> set fcs\<close> obtain i where i: "i < length fcs" "fc = fcs ! i" by (metis in_set_conv_nth)
    obtain k ds where kd: "SecretNameToDomains params ! i = (k, ds)" by (cases "SecretNameToDomains params ! i")
    have "(k, ds) \<in> set (SecretNameToDomains params)" using i kd list_all2_lengthD [OF all] by (metis nth_mem)
    moreover have "buildFilterChain cl (params\<lparr>Domains := ds, DownstreamTLSContext := Some (tls_context k)\<rparr>) = Inr fc"
      using list_all2_nthD2 [OF all i(1)] kd i(2) by (simp add: exits)
    ultimately show ?thesis by (rule chain_shape_tls [rotated])
  qed
  moreover have "fcs \<noteq> []" using list_all2_lengthD [OF all] False by auto
  ultimately show ?thesis by blast
qed

lemma unique_slice:
  assumes "distinct (concat xss)" "d \<in> set (concat xss)"
  shows "\<exists>!i. i < length xss \<and> d \<in> set (xss ! i)"
proof (rule ex_ex1I)
  from assms(2) obtain xs where "xs \<in> set xss" "d \<in> set xs" by auto
  then show "\<exists>i. i < length xss \<and> d \<in> set (xss ! i)" by (metis in_set_conv_nth)
next
  fix i j assume i: "i < length xss \<and> d \<in> set (xss ! i)" and j: "j < length xss \<and> d \<in> set (xss ! j)"
  have False if "a < b" "b < length xss" "d \<in> set (xss ! a)" "d \<in> set (xss ! b)" for a b
  proof -
    have "xss = take b xss @ drop b xss" by simp
    then have "distinct (concat (take b xss) @ concat (drop b xss))" using assms(1) by (metis concat_append)
    moreover have "xss ! a \<in> set (take b xss)" using that by (metis in_set_conv_nth length_take min.absorb4 nth_take)
    moreover have "xss ! b \<in> set (drop b xss)" using that by (simp add: Cons_nth_drop_Suc [symmetric])
    ultimately show False using that(3,4) by fastforce
  qed
  then show "i = j" using i j by (metis linorder_neqE_nat)
qed

text \<open>The chain built for one entry of the map from secrets to domains.\<close>

definition chain_for :: "chainlib \<Rightarrow> string \<Rightarrow> NamespacedName \<Rightarrow> string list \<Rightarrow> FilterChain \<Rightarrow> bool" where
  "chain_for cl name secretName ds fc \<longleftrightarrow>
     fc_Name fc = name \<and>
     fc_ServerNames fc = (if ds \<noteq> [] \<and> ''*'' \<notin> set ds then Some ds else None) \<and>
     (\<exists>scfg. New_any_tls cl (tls_context secretName) = Inr scfg \<and>
        fc_TransportSocket fc = Some \<lparr>ts_Name = ''envoy.transport_sockets.tls'', ts_TypedConfig = scfg\<rparr>)"

lemma BuildFilterChains_tls:
  assumes "BuildFilterChains cl params = Inr fcs" "SecretNameToDomains params \<noteq> []" "IsTLS params"
  shows "list_all2 (\<lambda>(nn, ds) fc. chain_for cl (VSName params) nn ds fc) (SecretNameToDomains params) fcs"
proof -
  have "list_all2 (\<lambda>p fc. (case p of (secretName, ds) \<Rightarrow>
            wrap_err (''failed to build filter chain for domain ['' @ join_with '' '' ds @ '']'')
              (buildFilterChain cl (params\<lparr>Domains := ds, DownstreamTLSContext := Some (tls_context secretName)\<rparr>))) = Inr fc)
     (SecretNameToDomains params) fcs"
    using assms(1,2) unfolding BuildFilterChains_def by (auto dest: map_res_Inr)
  then show ?thesis
    by (rule list_all2_mono) (use assms(3) in \<open>auto simp: exits chain_for_def dest!: buildFilterChain_Inr\<close>)
qed

text \<open>What makes the chain of one secret right for the virtual service.\<close>

definition tls_chain :: "chainlib \<Rightarrow> OptimizedStore \<Rightarrow> VirtualService \<Rightarrow> NamespacedName \<Rightarrow> string list
    \<Rightarrow> NamespacedName \<Rightarrow> string list \<Rightarrow> FilterChain \<Rightarrow> bool" where
  "tls_chain cl store vs nn domains secretName names fc \<longleftrightarrow>
     fc_Name fc = NamespacedName_String nn \<and>
     fc_ServerNames fc = Some names \<and> names \<noteq> [] \<and> set names \<subseteq> set domains \<and>
     (\<exists>scfg. New_any_tls cl (tls_context secretName) = Inr scfg \<and>
        fc_TransportSocket fc = Some \<lparr>ts_Name = ''envoy.transport_sockets.tls'', ts_TypedConfig = scfg\<rparr>) \<and>
     (\<forall>t. c_TlsConfig (vs_common vs) = Some t \<and> SecretRef t = None \<longrightarrow>
        (\<forall>d \<in> set names. secret_for store secretName d))"

lemma tls_chains:
  assumes "secrets_exact x509 store"
    and "BuildFilterChainParams cl store tm vs nn fs True vh = (Inr params, vs')"
    and "BuildFilterChains cl params = Inr fcs"
    and "vh_Domains vh \<noteq> []" "''*'' \<notin> set (vh_Domains vh)"
  shows "mset (concat (map snd (SecretNameToDomains params))) = mset (vh_Domains vh)"
    "list_all2 (\<lambda>(k, ds) fc. tls_chain cl store vs nn (vh_Domains vh) k ds fc) (SecretNameToDomains params) fcs"
proof -
  let ?m = "SecretNameToDomains params"
  obtain t where tls: "IsTLS params" "VSName params = NamespacedName_String nn"
      "c_TlsConfig (vs_common vs) = Some t" "GetSecretNameToDomains store tm vs (vh_Domains vh) = Inr ?m"
    using tls_params [OF assms(2)] by blast
  note m = resolved_tls [OF assms(1) tls(3,4)]
  show "mset (concat (map snd ?m)) = mset (vh_Domains vh)" by (rule m(2))
  have "?m \<noteq> []" using m(2) assms(4) by auto
  note chs = BuildFilterChains_tls [OF assms(3) this tls(1)]
  show "list_all2 (\<lambda>(k, ds) fc. tls_chain cl store vs nn (vh_Domains vh) k ds fc) ?m fcs"
  proof (rule list.rel_mono_strong [OF chs], clarify)
    fix k ds fc assume mem: "(k, ds) \<in> set ?m" and ch: "chain_for cl (VSName params) k ds fc"
    have all: "set ds \<subseteq> set (vh_Domains vh)" using mem m(2) by (fastforce dest: mset_eq_setD)
    have ne: "ds \<noteq> []" by (rule m(3) [OF assms(4) mem])
    have "\<forall>d \<in> set ds. secret_for store k d" if "SecretRef t = None" using m(4) [OF that mem] by blast
    with ch all ne assms(5) tls(2,3) show "tls_chain cl store vs nn (vh_Domains vh) k ds fc"
      unfolding tls_chain_def chain_for_def by auto
  qed
qed

text \<open>
  C27: On a TLS listener, when the domain index is exact and the virtual host has distinct
  domains without the catch-all, the filter chains of a virtual service split its domains: each
  domain is a server name of exactly one chain, every chain presents one secret, and a secret
  found by discovery is stored and annotated for every server name of its chain.
\<close>

theorem tls_chains_split_domains:
  assumes "secrets_exact x509 store"
    and "BuildFilterChainParams cl store tm vs nn fs True vh = (Inr params, vs')"
    and "BuildFilterChains cl params = Inr fcs"
    and "vh_Domains vh \<noteq> []" "distinct (vh_Domains vh)" "''*'' \<notin> set (vh_Domains vh)"
  shows "(\<forall>d \<in> set (vh_Domains vh).
        \<exists>!i. i < length fcs \<and> (\<exists>names. fc_ServerNames (fcs ! i) = Some names \<and> d \<in> set names)) \<and>
    (\<forall>fc \<in> set fcs. \<exists>secretName names. tls_chain cl store vs nn (vh_Domains vh) secretName names fc)"
proof -
  let ?m = "SecretNameToDomains params"
  note chs = tls_chains [OF assms(1-4,6)]
  have len: "length fcs = length ?m" using list_all2_lengthD [OF chs(2)] by simp
  have each: "tls_chain cl store vs nn (vh_Domains vh) (fst (?m ! i)) (snd (?m ! i)) (fcs ! i)" if "i < length ?m" for i
    using list_all2_nthD [OF chs(2) that] by (simp add: case_prod_beta)
  then have names: "fc_ServerNames (fcs ! i) = Some (snd (?m ! i))" if "i < length ?m" for i
    using that by (simp add: tls_chain_def)
  have idx: "i < length fcs \<and> (\<exists>names. fc_ServerNames (fcs ! i) = Some names \<and> d \<in> set names) \<longleftrightarrow>
      i < length (map snd ?m) \<and> d \<in> set (map snd ?m ! i)" for i d
    using names [of i] len by auto
  have "distinct (concat (map snd ?m))" using chs(1) assms(5) by (metis mset_eq_imp_distinct_iff)
  moreover have "set (concat (map snd ?m)) = set (vh_Domains vh)" by (rule mset_eq_setD [OF chs(1)])
  ultimately have "\<forall>d \<in> set (vh_Domains vh).
      \<exists>!i. i < length fcs \<and> (\<exists>names. fc_ServerNames (fcs ! i) = Some names \<and> d \<in> set names)"
    unfolding idx using unique_slice [of "map snd ?m"] by simp
  moreover have "\<forall>fc \<in> set fcs. \<exists>secretName names. tls_chain cl store vs nn (vh_Domains vh) secretName names fc"
    using each len by (metis in_set_conv_nth)
  ultimately show ?thesis by blast
qed

text \<open>Codecs that keep the name of what they encode, and a host with two domains of one wildcard.\<close>

definition toy_cl :: chainlib where
  "toy_cl = \<lparr>Unmarshal_tracing = Inr, Validate_tracing = (\<lambda>_. Inr ()), Unmarshal_upgrade = Inr,
     Validate_upgrade = (\<lambda>_. Inr ()),
     Unmarshal_h2 = (\<lambda>b. Inr \<lparr>h2_MaxConcurrentStreams = None, h2_InitialStreamWindowSize = None,
       h2_InitialConnectionWindowSize = None, h2_body = b\<rparr>), Validate_h2 = (\<lambda>_. Inr ()),
     Unmarshal_access_log = (\<lambda>b. Inr \<lparr>al_TypedConfig = Some \<lparr>TypeUrl = ''file'', any_Value = b\<rparr>, al_body = []\<rparr>),
     Validate_access_log = (\<lambda>_. Inr ()),
     UnmarshalTo_file = (\<lambda>a. Inr \<lparr>fal_Path = any_Value a, fal_body = []\<rparr>),
     New_any_file = (\<lambda>f. Inr \<lparr>TypeUrl = ''file'', any_Value = fal_Path f\<rparr>),
     Validate_hcm = (\<lambda>_. Inr ()), New_any_hcm = (\<lambda>h. Inr \<lparr>TypeUrl = ''hcm'', any_Value = hcm_RouteConfigName h\<rparr>),
     New_any_tls = (\<lambda>t. Inr \<lparr>TypeUrl = ''tls'', any_Value = tls_SecretName t\<rparr>),
     Validate_filter_chain = (\<lambda>_. Inr ())\<rparr>"

definition toy_host :: VirtualHost where
  "toy_host = \<lparr>vh_Name = ''edge/v'', vh_Domains = [''x.a.com'', ''y.a.com''], vh_Routes = [], vh_body = []\<rparr>"

definition toy_params :: FilterChainsParams where
  "toy_params = \<lparr>VSName = ''edge/v'', UseRemoteAddress = False, XFFNumTrustedHops = None,
     RouteConfigName = ''edge/v'', StatPrefix = ''edge/v'', HTTPFilters = [], UpgradeConfigs = [], AccessLogs = [],
     Domains = [], DownstreamTLSContext = None,
     SecretNameToDomains = [(NN ''edge'' ''tls'', [''x.a.com'', ''y.a.com''])], IsTLS = True,
     TracingCfg = None, H2Options = None\<rparr>"

definition toy_fc :: FilterChain where
  "toy_fc = \<lparr>fc_Name = ''edge/v'',
     fc_Filters = [\<lparr>flt_Name = HTTPConnectionManager_name,
       flt_TypedConfig = Some \<lparr>TypeUrl = ''hcm'', any_Value = ''edge/v''\<rparr>\<rparr>],
     fc_ServerNames = Some [''x.a.com'', ''y.a.com''],
     fc_TransportSocket = Some \<lparr>ts_Name = ''envoy.transport_sockets.tls'',
       ts_TypedConfig = \<lparr>TypeUrl = ''tls'', any_Value = ''edge/tls''\<rparr>\<rparr>,
     fc_body = []\<rparr>"

lemma toy_params_built:
  "BuildFilterChainParams toy_cl wild_store (\<lambda>_. 3) auto_vs (NN ''edge'' ''v'') [] True toy_host = (Inr toy_params, auto_vs)"
  by code_simp

lemma toy_chains_built: "BuildFilterChains toy_cl toy_params = Inr [toy_fc]"
  by code_simp

theorem tls_chains_split_domains_witness:
  "secrets_exact toy_x509 wild_store \<and>
   (\<exists>secretName names. tls_chain toy_cl wild_store auto_vs (NN ''edge'' ''v'') (vh_Domains toy_host) secretName names toy_fc)"
proof -
  have d: "vh_Domains toy_host \<noteq> []" "distinct (vh_Domains toy_host)" "''*'' \<notin> set (vh_Domains toy_host)"
    by (simp_all add: toy_host_def)
  from tls_chains_split_domains [OF wild_store_exact toy_params_built toy_chains_built d] wild_store_exact
  show ?thesis by simp
qed

end
