(* ===== verification/StoreVS.thy ===== *)
theory StoreVS
  imports StoreIndex
begin

text \<open>
  The two resource kinds of the store with a third map: clusters, indexed by the name of the
  Envoy cluster in their spec, and virtual services, indexed by the template they use.
\<close>

section \<open>Clusters\<close>

text \<open>The Envoy name of a cluster, when its spec can be decoded.\<close>

definition spec_key :: "protolib \<Rightarrow> Cluster \<Rightarrow> string option" where
  "spec_key lib c = (case Cluster_UnmarshalV3 lib c of Inl _ \<Rightarrow> None | Inr v3 \<Rightarrow> Some (cv3_Name v3))"

lemma SetCluster_eq:
  "pool_ok s \<Longrightarrow> SetCluster lib s c =
     s\<lparr>stringPool := intern_pool (stringPool s) (cl_meta c),
       clusters := gm_put (meta_nn (cl_meta c)) c (clusters s),
       uidToCluster := gm_put (cl_uid c) c
         (case map_of (clusters s) (meta_nn (cl_meta c)) of
            None \<Rightarrow> uidToCluster s
          | Some old \<Rightarrow> gm_del (cl_uid old) (uidToCluster s)),
       specClusters :=
         (let sc = (case map_of (clusters s) (meta_nn (cl_meta c)) of
                      None \<Rightarrow> specClusters s
                    | Some old \<Rightarrow>
                        (case spec_key lib old of
                           None \<Rightarrow> specClusters s
                         | Some n \<Rightarrow> gm_del n (specClusters s)))
          in case spec_key lib c of None \<Rightarrow> sc | Some n \<Rightarrow> gm_put n c sc)\<rparr>"
  by (simp add: SetCluster_def intern_meta_eq spec_key_def split: option.split sum.split)

lemma DeleteCluster_eq:
  "DeleteCluster lib s name =
     (case map_of (clusters s) name of
        None \<Rightarrow> s
      | Some c \<Rightarrow>
          s\<lparr>clusters := gm_del name (clusters s),
            uidToCluster := gm_del (cl_uid c) (uidToCluster s),
            specClusters :=
              (case spec_key lib c of
                 None \<Rightarrow> specClusters s
               | Some n \<Rightarrow> gm_del n (specClusters s))\<rparr>)"
  by (simp add: DeleteCluster_def spec_key_def split: option.split sum.split)

interpretation cu: secondary_index cl_meta "\<lambda>c. Some (cl_uid c)" clusters uidToCluster
    "SetCluster lib" "DeleteCluster lib" pool_ok
  for lib
  by unfold_locales
     (simp_all add: SetCluster_eq DeleteCluster_eq key_put_def key_del_def fun_upd_idem
        split: option.split)

interpretation cs: secondary_index cl_meta "spec_key lib" clusters specClusters
    "SetCluster lib" "DeleteCluster lib" pool_ok
  for lib
  by unfold_locales
     (auto simp: SetCluster_eq DeleteCluster_eq key_put_def key_del_def Let_def fun_upd_idem
        split: option.split)

section \<open>Virtual services\<close>

text \<open>The template index on its own, as a map from template to the services that use it.\<close>

definition tmpl_key :: "VirtualService \<Rightarrow> NamespacedName option" where
  "tmpl_key vs = map_option (templateKey vs) (vs_Template vs)"

definition tix_add :: "(NamespacedName, VirtualService list) gomap \<Rightarrow> VirtualService
    \<Rightarrow> (NamespacedName, VirtualService list) gomap" where
  "tix_add tix vs =
     (case tmpl_key vs of
        None \<Rightarrow> tix
      | Some key \<Rightarrow>
          (if \<exists>x \<in> set (gm_get [] tix key). vs_uid x = vs_uid vs then tix
           else gm_put key (gm_get [] tix key @ [vs]) tix))"

definition tix_remove :: "(NamespacedName, VirtualService list) gomap \<Rightarrow> VirtualService
    \<Rightarrow> (NamespacedName, VirtualService list) gomap" where
  "tix_remove tix vs =
     (case tmpl_key vs of
        None \<Rightarrow> tix
      | Some key \<Rightarrow>
          (if \<exists>x \<in> set (gm_get [] tix key). vs_uid x = vs_uid vs
           then gm_put key (remove_first_uid (vs_uid vs) (gm_get [] tix key)) tix
           else tix))"

lemma updateTemplateIndex_eq:
  "updateTemplateIndex s vs = s\<lparr>templateToVS := tix_add (templateToVS s) vs\<rparr>"
  by (simp add: updateTemplateIndex_def tix_add_def tmpl_key_def Let_def split: option.split)

lemma removeFromTemplateIndex_eq:
  "removeFromTemplateIndex s vs = s\<lparr>templateToVS := tix_remove (templateToVS s) vs\<rparr>"
  by (simp add: removeFromTemplateIndex_def tix_remove_def tmpl_key_def Let_def split: option.split)

lemma SetVirtualService_eq:
  "pool_ok s \<Longrightarrow> SetVirtualService s vs =
     s\<lparr>stringPool := intern_pool (stringPool s) (vs_meta vs),
       virtualServices := gm_put (vs_nn vs) vs (virtualServices s),
       uidToVS := gm_put (vs_uid vs) vs
         (case map_of (virtualServices s) (vs_nn vs) of
            None \<Rightarrow> uidToVS s
          | Some old \<Rightarrow> gm_del (vs_uid old) (uidToVS s)),
       templateToVS := tix_add
         (case map_of (virtualServices s) (vs_nn vs) of
            None \<Rightarrow> templateToVS s
          | Some old \<Rightarrow> tix_remove (templateToVS s) old) vs\<rparr>"
  by (simp add: SetVirtualService_def intern_meta_eq updateTemplateIndex_eq
      removeFromTemplateIndex_eq split: option.split)

lemma DeleteVirtualService_eq:
  "DeleteVirtualService s name =
     (case map_of (virtualServices s) name of
        None \<Rightarrow> s
      | Some vs \<Rightarrow>
          s\<lparr>virtualServices := gm_del name (virtualServices s),
            uidToVS := gm_del (vs_uid vs) (uidToVS s),
            templateToVS := tix_remove (templateToVS s) vs,
            vsStatusStorage := DeleteStatus (vsStatusStorage s) name\<rparr>)"
  by (simp add: DeleteVirtualService_def removeFromTemplateIndex_eq
      DeleteVirtualServiceStatus_def split: option.split)

interpretation vi: secondary_index vs_meta "\<lambda>vs. Some (vs_uid vs)" virtualServices uidToVS
    SetVirtualService DeleteVirtualService pool_ok
  by unfold_locales
     (simp_all add: SetVirtualService_eq DeleteVirtualService_eq key_put_def key_del_def fun_upd_idem
        split: option.split)

section \<open>Exactness of the template index\<close>

text \<open>
  Under every template the index lists exactly the stored virtual services that use it, each
  once.
\<close>

definition template_exact ::
    "(NamespacedName \<Rightarrow> VirtualService option) \<Rightarrow> (NamespacedName, VirtualService list) gomap \<Rightarrow> bool" where
  "template_exact names tix \<longleftrightarrow>
     (\<forall>key. distinct (map vs_uid (gm_get [] tix key)) \<and>
        set (gm_get [] tix key) = {vs. names (vs_nn vs) = Some vs \<and> tmpl_key vs = Some key})"

lemma remove_first_uid_distinct:
  "distinct (map vs_uid xs) \<Longrightarrow> remove_first_uid u xs = filter (\<lambda>x. vs_uid x \<noteq> u) xs"
proof (induction xs)
  case (Cons x xs)
  then show ?case
    by (auto intro!: filter_True [symmetric]) (metis image_eqI)
qed simp

lemma distinct_map_filter_uid:
  "distinct (map vs_uid xs) \<Longrightarrow> distinct (map vs_uid (filter P xs))"
  by (induction xs) auto

lemma gm_get_tix_remove:
  assumes "\<And>key. distinct (map vs_uid (gm_get [] tix key))"
  shows "gm_get [] (tix_remove tix vs) key =
    (if tmpl_key vs = Some key then filter (\<lambda>x. vs_uid x \<noteq> vs_uid vs) (gm_get [] tix key)
     else gm_get [] tix key)"
  using assms by (auto simp: tix_remove_def remove_first_uid_distinct split: option.split)

lemma template_exact_remove:
  assumes te: "template_exact names tix" and old: "names nn = Some old" and nn: "vs_nn old = nn"
    and inj: "\<And>r. names (vs_nn r) = Some r \<Longrightarrow> vs_uid r = vs_uid old \<Longrightarrow> r = old"
  shows "template_exact (names(nn := None)) (tix_remove tix old)"
proof -
  have d: "distinct (map vs_uid (gm_get [] tix key))"
    and set_eq: "set (gm_get [] tix key) = {vs. names (vs_nn vs) = Some vs \<and> tmpl_key vs = Some key}"
    for key using te by (simp_all add: template_exact_def)
  have "set (gm_get [] (tix_remove tix old) key) =
      {vs. (names(nn := None)) (vs_nn vs) = Some vs \<and> tmpl_key vs = Some key}" for key
    using old nn inj by (auto simp: gm_get_tix_remove [OF d] set_eq)
  then show ?thesis
    by (simp add: template_exact_def gm_get_tix_remove [OF d] distinct_map_filter_uid d)
qed

lemma template_exact_add:
  assumes te: "template_exact names tix" and new: "names (vs_nn vs) = None"
    and free: "\<And>r. names (vs_nn r) = Some r \<Longrightarrow> vs_uid r \<noteq> vs_uid vs"
  shows "template_exact (names(vs_nn vs \<mapsto> vs)) (tix_add tix vs)"
proof -
  have d: "distinct (map vs_uid (gm_get [] tix key))"
    and set_eq: "set (gm_get [] tix key) = {vs. names (vs_nn vs) = Some vs \<and> tmpl_key vs = Some key}"
    for key using te by (simp_all add: template_exact_def)
  have fresh: "\<not> (\<exists>x \<in> set (gm_get [] tix key). vs_uid x = vs_uid vs)" for key
    using free set_eq by auto
  have get: "gm_get [] (tix_add tix vs) key =
      gm_get [] tix key @ (if tmpl_key vs = Some key then [vs] else [])" for key
    using fresh by (auto simp: tix_add_def split: option.split)
  have "set (gm_get [] (tix_add tix vs) key) =
      {x. (names(vs_nn vs \<mapsto> vs)) (vs_nn x) = Some x \<and> tmpl_key x = Some key}" for key
    using new by (auto simp: get set_eq)
  moreover have "distinct (map vs_uid (gm_get [] (tix_add tix vs) key))" for key
  proof -
    have "vs_uid vs \<notin> vs_uid ` set (gm_get [] tix key)" using fresh [of key] by fastforce
    then show ?thesis using d [of key] by (simp add: get)
  qed
  ultimately show ?thesis by (simp add: template_exact_def)
qed

abbreviation templates_ok :: "OptimizedStore \<Rightarrow> bool" where
  "templates_ok s \<equiv> template_exact (map_of (virtualServices s)) (templateToVS s)"

text \<open>The UID of a virtual service belongs to no service stored under another name.\<close>

abbreviation vs_uid_free :: "OptimizedStore \<Rightarrow> VirtualService \<Rightarrow> bool" where
  "vs_uid_free s vs \<equiv>
     key_free vs_meta (\<lambda>vs. Some (vs_uid vs)) (map_of (virtualServices s)) vs"

lemma vi_exact_unique:
  assumes "vi.exact s" "map_of (virtualServices s) nn = Some old"
  shows "vs_nn old = nn"
    and "map_of (virtualServices s) (vs_nn r) = Some r \<Longrightarrow> vs_uid r = vs_uid old \<Longrightarrow> r = old"
proof -
  show "vs_nn old = nn" using assms by (auto simp: vi.exact_def index_exact_def keyed_def)
  show "r = old" if "map_of (virtualServices s) (vs_nn r) = Some r" "vs_uid r = vs_uid old"
    using index_exact_inj [OF assms(1) [unfolded vi.exact_def] that(1) assms(2)] that(2) by simp
qed

lemma templates_ok_set:
  assumes "pool_ok s" and ex: "vi.exact s" and te: "templates_ok s" and free: "vs_uid_free s vs"
  shows "templates_ok (SetVirtualService s vs)"
proof -
  have fr: "vs_uid r \<noteq> vs_uid vs"
    if "map_of (virtualServices s) (vs_nn r) = Some r" "vs_nn r \<noteq> vs_nn vs" for r
    using free that unfolding key_free_def by blast
  show ?thesis
  proof (cases "map_of (virtualServices s) (vs_nn vs)")
    case None
    then have "vs_uid r \<noteq> vs_uid vs" if "map_of (virtualServices s) (vs_nn r) = Some r" for r
      using fr [OF that] that by (metis option.distinct(1))
    from template_exact_add [OF te None this] None assms(1) show ?thesis
      by (simp add: SetVirtualService_eq)
  next
    case (Some old)
    let ?names = "(map_of (virtualServices s))(vs_nn vs := None)"
    have te': "template_exact ?names (tix_remove (templateToVS s) old)"
      using template_exact_remove [OF te Some] vi_exact_unique [OF ex Some] by blast
    have "vs_uid r \<noteq> vs_uid vs" if "?names (vs_nn r) = Some r" for r
    proof (cases "vs_nn r = vs_nn vs")
      case False
      then show ?thesis using that fr [of r] by (metis fun_upd_other)
    qed (use that in simp)
    from template_exact_add [OF te' _ this] Some assms(1) show ?thesis
      by (simp add: SetVirtualService_eq)
  qed
qed

lemma templates_ok_del:
  assumes "vi.exact s" "templates_ok s"
  shows "templates_ok (DeleteVirtualService s nn)"
proof (cases "map_of (virtualServices s) nn")
  case (Some old)
  with template_exact_remove [OF assms(2) Some] vi_exact_unique [OF assms(1) Some]
  show ?thesis by (simp add: DeleteVirtualService_eq)
qed (simp add: DeleteVirtualService_eq assms(2))

end
