(* ===== verification/StoreInv.thy ===== *)
theory StoreInv
  imports StoreVS StoreSecrets
begin

text \<open>
  The invariant of the whole store and the step relation of its mutators. UIDs are those the
  Kubernetes API server hands out, so a step that stores an object is guarded by the condition
  that no object stored under another name has its UID.
\<close>

section \<open>The invariant\<close>

abbreviation uid_free :: "('r \<Rightarrow> ObjectMeta) \<Rightarrow> (NamespacedName, 'r) gomap \<Rightarrow> 'r \<Rightarrow> bool" where
  "uid_free meta m r \<equiv> key_free meta (\<lambda>r. Some (m_UID (meta r))) (map_of m) r"

text \<open>Every map of the store has each key once.\<close>

definition store_wf :: "OptimizedStore \<Rightarrow> bool" where
  "store_wf s \<longleftrightarrow>
     gm_wf (virtualServices s) \<and> gm_wf (listeners s) \<and> gm_wf (clusters s) \<and> gm_wf (uidToVS s) \<and>
     gm_wf (uidToListener s) \<and> gm_wf (uidToCluster s) \<and> gm_wf (templateToVS s) \<and>
     gm_wf (virtualServiceTemplates s) \<and> gm_wf (virtualServiceTemplatesByUID s) \<and>
     gm_wf (routes s) \<and> gm_wf (routesByUID s) \<and> gm_wf (httpFilters s) \<and> gm_wf (httpFiltersByUID s) \<and>
     gm_wf (accessLogs s) \<and> gm_wf (accessLogsByUID s) \<and> gm_wf (secrets s) \<and> gm_wf (policies s) \<and>
     gm_wf (policiesByUID s) \<and> gm_wf (tracings s) \<and> gm_wf (tracingsByUID s) \<and> gm_wf (specClusters s)"

definition node_domains_wf :: "(string, strset) gomap \<Rightarrow> bool" where
  "node_domains_wf nd \<longleftrightarrow> gm_wf nd \<and> (\<forall>n ds. map_of nd n = Some ds \<longrightarrow> gm_wf ds)"

definition uid_indices_ok :: "OptimizedStore \<Rightarrow> bool" where
  "uid_indices_ok s \<longleftrightarrow>
     vi.exact s \<and> li.exact s \<and> cu.exact s \<and> vt.exact s \<and> ro.exact s \<and> hf.exact s \<and>
     al.exact s \<and> po.exact s \<and> tr.exact s"

definition store_inv :: "protolib \<Rightarrow> x509lib \<Rightarrow> OptimizedStore \<Rightarrow> bool" where
  "store_inv lib x509 s \<longleftrightarrow>
     pool_ok s \<and> store_wf s \<and> uid_indices_ok s \<and> templates_ok s \<and> cs.exact lib s \<and>
     secrets_exact x509 s \<and> node_domains_wf (nodeDomains s) \<and> status_wf (vsStatusStorage s)"

lemmas exact_defs = vi.exact_def li.exact_def cu.exact_def vt.exact_def ro.exact_def hf.exact_def
  al.exact_def po.exact_def tr.exact_def cs.exact_def

lemmas inv_defs = store_inv_def store_wf_def uid_indices_ok_def exact_defs secrets_exact_def

lemma gm_wf_case [simp]:
  "gm_wf (case x of None \<Rightarrow> m | Some y \<Rightarrow> f y) \<longleftrightarrow> (case x of None \<Rightarrow> gm_wf m | Some y \<Rightarrow> gm_wf (f y))"
  by (cases x) simp_all

lemma tix_wf: "gm_wf tix \<Longrightarrow> gm_wf (tix_add tix vs)" "gm_wf tix \<Longrightarrow> gm_wf (tix_remove tix vs)"
  by (simp_all add: tix_add_def tix_remove_def split: option.split)

lemma store_inv_New: "store_inv lib x509 NewOptimizedStore"
proof -
  have "templates_ok NewOptimizedStore"
    by (simp add: template_exact_def NewOptimizedStore_def)
  then show ?thesis
    using secrets_exact_New [of x509] pool_ok_New
    unfolding store_inv_def store_wf_def uid_indices_ok_def exact_defs
    by (simp add: NewOptimizedStore_def node_domains_wf_def status_wf_ops)
qed

section \<open>Every mutator keeps the invariant\<close>

lemma inv_SetListener:
  assumes "store_inv lib x509 s" "uid_free l_meta (listeners s) l"
  shows "store_inv lib x509 (SetListener s l)"
proof -
  have ok: "pool_ok s" using assms by (simp add: store_inv_def)
  have "li.exact (SetListener s l)"
    using li.exact_set [OF ok _ assms(2)] assms(1) by (simp add: store_inv_def uid_indices_ok_def)
  then show ?thesis
    using assms(1) unfolding inv_defs
    by (simp add: SetListener_eq ok intern_meta_eq(2) split: option.splits)
qed

lemma inv_DeleteListener:
  assumes "store_inv lib x509 s"
  shows "store_inv lib x509 (DeleteListener s nn)"
proof -
  have "li.exact (DeleteListener s nn)"
    using li.exact_del assms by (simp add: store_inv_def uid_indices_ok_def)
  then show ?thesis
    using assms unfolding inv_defs by (simp add: DeleteListener_def split: option.splits)
qed

lemma inv_SetVirtualServiceTemplate:
  assumes "store_inv lib x509 s" "uid_free vst_meta (virtualServiceTemplates s) t"
  shows "store_inv lib x509 (SetVirtualServiceTemplate s t)"
proof -
  have ok: "pool_ok s" using assms by (simp add: store_inv_def)
  have "vt.exact (SetVirtualServiceTemplate s t)"
    using vt.exact_set [OF ok _ assms(2)] assms(1) by (simp add: store_inv_def uid_indices_ok_def)
  then show ?thesis
    using assms(1) unfolding inv_defs
    by (simp add: SetVirtualServiceTemplate_eq ok intern_meta_eq(2) split: option.splits)
qed

lemma inv_DeleteVirtualServiceTemplate:
  assumes "store_inv lib x509 s"
  shows "store_inv lib x509 (DeleteVirtualServiceTemplate s nn)"
proof -
  have "vt.exact (DeleteVirtualServiceTemplate s nn)"
    using vt.exact_del assms by (simp add: store_inv_def uid_indices_ok_def)
  then show ?thesis
    using assms unfolding inv_defs by (simp add: DeleteVirtualServiceTemplate_def split: option.splits)
qed

lemma inv_SetRoute:
  assumes "store_inv lib x509 s" "uid_free r_meta (routes s) r"
  shows "store_inv lib x509 (SetRoute s r)"
proof -
  have ok: "pool_ok s" using assms by (simp add: store_inv_def)
  have "ro.exact (SetRoute s r)"
    using ro.exact_set [OF ok _ assms(2)] assms(1) by (simp add: store_inv_def uid_indices_ok_def)
  then show ?thesis
    using assms(1) unfolding inv_defs
    by (simp add: SetRoute_eq ok intern_meta_eq(2) split: option.splits)
qed

lemma inv_DeleteRoute:
  assumes "store_inv lib x509 s"
  shows "store_inv lib x509 (DeleteRoute s nn)"
proof -
  have "ro.exact (DeleteRoute s nn)"
    using ro.exact_del assms by (simp add: store_inv_def uid_indices_ok_def)
  then show ?thesis
    using assms unfolding inv_defs by (simp add: DeleteRoute_def split: option.splits)
qed

lemma inv_SetHTTPFilter:
  assumes "store_inv lib x509 s" "uid_free hf_meta (httpFilters s) h"
  shows "store_inv lib x509 (SetHTTPFilter s h)"
proof -
  have ok: "pool_ok s" using assms by (simp add: store_inv_def)
  have "hf.exact (SetHTTPFilter s h)"
    using hf.exact_set [OF ok _ assms(2)] assms(1) by (simp add: store_inv_def uid_indices_ok_def)
  then show ?thesis
    using assms(1) unfolding inv_defs
    by (simp add: SetHTTPFilter_eq ok intern_meta_eq(2) split: option.splits)
qed

lemma inv_DeleteHTTPFilter:
  assumes "store_inv lib x509 s"
  shows "store_inv lib x509 (DeleteHTTPFilter s nn)"
proof -
  have "hf.exact (DeleteHTTPFilter s nn)"
    using hf.exact_del assms by (simp add: store_inv_def uid_indices_ok_def)
  then show ?thesis
    using assms unfolding inv_defs by (simp add: DeleteHTTPFilter_def split: option.splits)
qed

lemma inv_SetAccessLog:
  assumes "store_inv lib x509 s" "uid_free alc_meta (accessLogs s) a"
  shows "store_inv lib x509 (SetAccessLog s a)"
proof -
  have ok: "pool_ok s" using assms by (simp add: store_inv_def)
  have "al.exact (SetAccessLog s a)"
    using al.exact_set [OF ok _ assms(2)] assms(1) by (simp add: store_inv_def uid_indices_ok_def)
  then show ?thesis
    using assms(1) unfolding inv_defs
    by (simp add: SetAccessLog_eq ok intern_meta_eq(2) split: option.splits)
qed

lemma inv_DeleteAccessLog:
  assumes "store_inv lib x509 s"
  shows "store_inv lib x509 (DeleteAccessLog s nn)"
proof -
  have "al.exact (DeleteAccessLog s nn)"
    using al.exact_del assms by (simp add: store_inv_def uid_indices_ok_def)
  then show ?thesis
    using assms unfolding inv_defs by (simp add: DeleteAccessLog_def split: option.splits)
qed

lemma inv_SetPolicy:
  assumes "store_inv lib x509 s" "uid_free p_meta (policies s) p"
  shows "store_inv lib x509 (SetPolicy s p)"
proof -
  have ok: "pool_ok s" using assms by (simp add: store_inv_def)
  have "po.exact (SetPolicy s p)"
    using po.exact_set [OF ok _ assms(2)] assms(1) by (simp add: store_inv_def uid_indices_ok_def)
  then show ?thesis
    using assms(1) unfolding inv_defs
    by (simp add: SetPolicy_eq ok intern_meta_eq(2) split: option.splits)
qed

lemma inv_DeletePolicy:
  assumes "store_inv lib x509 s"
  shows "store_inv lib x509 (DeletePolicy s nn)"
proof -
  have "po.exact (DeletePolicy s nn)"
    using po.exact_del assms by (simp add: store_inv_def uid_indices_ok_def)
  then show ?thesis
    using assms unfolding inv_defs by (simp add: DeletePolicy_def split: option.splits)
qed

lemma inv_SetTracing:
  assumes "store_inv lib x509 s" "uid_free tr_meta (tracings s) x"
  shows "store_inv lib x509 (SetTracing s x)"
proof -
  have ok: "pool_ok s" using assms by (simp add: store_inv_def)
  have "tr.exact (SetTracing s x)"
    using tr.exact_set [OF ok _ assms(2)] assms(1) by (simp add: store_inv_def uid_indices_ok_def)
  then show ?thesis
    using assms(1) unfolding inv_defs
    by (simp add: SetTracing_eq ok intern_meta_eq(2) split: option.splits)
qed

lemma inv_DeleteTracing:
  assumes "store_inv lib x509 s"
  shows "store_inv lib x509 (DeleteTracing s nn)"
proof -
  have "tr.exact (DeleteTracing s nn)"
    using tr.exact_del assms by (simp add: store_inv_def uid_indices_ok_def)
  then show ?thesis
    using assms unfolding inv_defs by (simp add: DeleteTracing_def split: option.splits)
qed

lemma inv_SetVirtualService:
  assumes "store_inv lib x509 s" "uid_free vs_meta (virtualServices s) vs"
  shows "store_inv lib x509 (SetVirtualService s vs)"
proof -
  have ok: "pool_ok s" and ex: "vi.exact s" and te: "templates_ok s"
    using assms by (simp_all add: store_inv_def uid_indices_ok_def)
  have "vi.exact (SetVirtualService s vs)" by (rule vi.exact_set [OF ok ex assms(2)])
  moreover have "templates_ok (SetVirtualService s vs)" by (rule templates_ok_set [OF ok ex te assms(2)])
  ultimately show ?thesis
    using assms(1) unfolding inv_defs
    by (simp add: SetVirtualService_eq ok intern_meta_eq(2) tix_wf split: option.splits)
qed

lemma inv_DeleteVirtualService:
  assumes "store_inv lib x509 s"
  shows "store_inv lib x509 (DeleteVirtualService s nn)"
proof -
  have ex: "vi.exact s" and te: "templates_ok s"
    using assms by (simp_all add: store_inv_def uid_indices_ok_def)
  have "vi.exact (DeleteVirtualService s nn)" by (rule vi.exact_del [OF ex])
  moreover have "templates_ok (DeleteVirtualService s nn)" by (rule templates_ok_del [OF ex te])
  ultimately show ?thesis
    using assms unfolding inv_defs
    by (simp add: DeleteVirtualService_eq tix_wf status_wf_ops split: option.splits)
qed

lemma inv_SetCluster:
  assumes "store_inv lib x509 s" "uid_free cl_meta (clusters s) c"
    and "key_free cl_meta (spec_key lib) (map_of (clusters s)) c"
  shows "store_inv lib x509 (SetCluster lib s c)"
proof -
  have ok: "pool_ok s" and exu: "cu.exact s" and exs: "cs.exact lib s"
    using assms by (simp_all add: store_inv_def uid_indices_ok_def)
  have "cu.exact (SetCluster lib s c)" by (rule cu.exact_set [OF ok exu assms(2)])
  moreover have "cs.exact lib (SetCluster lib s c)" by (rule cs.exact_set [OF ok exs assms(3)])
  ultimately show ?thesis
    using assms(1) unfolding inv_defs
    by (simp add: SetCluster_eq ok intern_meta_eq(2) Let_def split: option.splits)
qed

lemma inv_DeleteCluster:
  assumes "store_inv lib x509 s"
  shows "store_inv lib x509 (DeleteCluster lib s nn)"
proof -
  have exu: "cu.exact s" and exs: "cs.exact lib s"
    using assms by (simp_all add: store_inv_def uid_indices_ok_def)
  have "cu.exact (DeleteCluster lib s nn)" by (rule cu.exact_del [OF exu])
  moreover have "cs.exact lib (DeleteCluster lib s nn)" by (rule cs.exact_del [OF exs])
  ultimately show ?thesis
    using assms unfolding inv_defs by (simp add: DeleteCluster_eq split: option.splits)
qed

lemma inv_SetSecret:
  assumes "store_inv lib x509 s"
  shows "store_inv lib x509 (SetSecret x509 s sec)"
proof -
  have ok: "pool_ok s" using assms by (simp add: store_inv_def)
  have "secrets_exact x509 (SetSecret x509 s sec)"
    using secrets_exact_set [OF ok] assms by (simp add: store_inv_def)
  then show ?thesis
    using assms intern_names_eq [OF ok] unfolding store_inv_def store_wf_def uid_indices_ok_def exact_defs
    by (simp add: SetSecret_eq [OF ok])
qed

lemma inv_DeleteSecret:
  assumes "store_inv lib x509 s"
  shows "store_inv lib x509 (DeleteSecret s nn)"
proof -
  have "secrets_exact x509 (DeleteSecret s nn)"
    using secrets_exact_del assms by (simp add: store_inv_def)
  then show ?thesis
    using assms unfolding store_inv_def store_wf_def uid_indices_ok_def exact_defs
    by (simp add: DeleteSecret_eq split: option.split)
qed

lemma inv_statuses:
  "store_inv lib x509 s \<Longrightarrow> store_inv lib x509 (SetVirtualServiceStatus s nn i m)"
  "store_inv lib x509 s \<Longrightarrow> store_inv lib x509 (DeleteVirtualServiceStatus s nn)"
  unfolding inv_defs
  by (simp_all add: SetVirtualServiceStatus_def DeleteVirtualServiceStatus_def status_wf_ops)

lemma copy_nested_wf_gen:
  "gm_wf acc \<Longrightarrow> (\<forall>k v. map_of acc k = Some v \<longrightarrow> gm_wf v) \<Longrightarrow>
     gm_wf (fold (\<lambda>(k, inner) acc. gm_put k (gm_copy_into inner []) acc) m acc) \<and>
     (\<forall>k v. map_of (fold (\<lambda>(k, inner) acc. gm_put k (gm_copy_into inner []) acc) m acc) k = Some v
        \<longrightarrow> gm_wf v)"
proof (induction m arbitrary: acc)
  case (Cons p m)
  obtain k i where p: "p = (k, i)" by (cases p)
  have "\<forall>k' v. map_of (gm_put k (gm_copy_into i []) acc) k' = Some v \<longrightarrow> gm_wf v"
    using Cons.prems(2) by (simp add: gm_wf_copy)
  from Cons.IH [OF gm_wf_put [OF Cons.prems(1)] this] show ?case by (simp add: p)
qed simp

lemma copy_nested_wf: "node_domains_wf (copy_nested m)"
  using copy_nested_wf_gen [of "[]" m] by (simp add: node_domains_wf_def copy_nested_def)

lemma inv_ReplaceNodeDomainsIndex:
  "store_inv lib x509 s \<Longrightarrow> store_inv lib x509 (ReplaceNodeDomainsIndex s idx)"
  unfolding inv_defs by (simp add: ReplaceNodeDomainsIndex_def copy_nested_wf)

section \<open>Runs of the store\<close>

inductive store_step :: "protolib \<Rightarrow> x509lib \<Rightarrow> OptimizedStore \<Rightarrow> OptimizedStore \<Rightarrow> bool"
  for lib :: protolib and x509 :: x509lib where
  set_virtualService: "uid_free vs_meta (virtualServices s) vs \<Longrightarrow>
    store_step lib x509 s (SetVirtualService s vs)"
| delete_virtualService: "store_step lib x509 s (DeleteVirtualService s nn)"
| set_cluster: "uid_free cl_meta (clusters s) c \<Longrightarrow>
    key_free cl_meta (spec_key lib) (map_of (clusters s)) c \<Longrightarrow>
    store_step lib x509 s (SetCluster lib s c)"
| delete_cluster: "store_step lib x509 s (DeleteCluster lib s nn)"
| set_listener: "uid_free l_meta (listeners s) l \<Longrightarrow>
    store_step lib x509 s (SetListener s l)"
| delete_listener: "store_step lib x509 s (DeleteListener s nn)"
| set_virtualServiceTemplate: "uid_free vst_meta (virtualServiceTemplates s) t \<Longrightarrow>
    store_step lib x509 s (SetVirtualServiceTemplate s t)"
| delete_virtualServiceTemplate: "store_step lib x509 s (DeleteVirtualServiceTemplate s nn)"
| set_route: "uid_free r_meta (routes s) r \<Longrightarrow>
    store_step lib x509 s (SetRoute s r)"
| delete_route: "store_step lib x509 s (DeleteRoute s nn)"
| set_hTTPFilter: "uid_free hf_meta (httpFilters s) h \<Longrightarrow>
    store_step lib x509 s (SetHTTPFilter s h)"
| delete_hTTPFilter: "store_step lib x509 s (DeleteHTTPFilter s nn)"
| set_accessLog: "uid_free alc_meta (accessLogs s) a \<Longrightarrow>
    store_step lib x509 s (SetAccessLog s a)"
| delete_accessLog: "store_step lib x509 s (DeleteAccessLog s nn)"
| set_policy: "uid_free p_meta (policies s) p \<Longrightarrow>
    store_step lib x509 s (SetPolicy s p)"
| delete_policy: "store_step lib x509 s (DeletePolicy s nn)"
| set_tracing: "uid_free tr_meta (tracings s) x \<Longrightarrow>
    store_step lib x509 s (SetTracing s x)"
| delete_tracing: "store_step lib x509 s (DeleteTracing s nn)"
| set_secret: "store_step lib x509 s (SetSecret x509 s sec)"
| delete_secret: "store_step lib x509 s (DeleteSecret s nn)"
| set_status: "store_step lib x509 s (SetVirtualServiceStatus s nn invalid message)"
| delete_status: "store_step lib x509 s (DeleteVirtualServiceStatus s nn)"
| replace_nodeDomains: "store_step lib x509 s (ReplaceNodeDomainsIndex s idx)"

inductive store_reachable :: "protolib \<Rightarrow> x509lib \<Rightarrow> OptimizedStore \<Rightarrow> bool"
  for lib :: protolib and x509 :: x509lib where
  fresh: "store_reachable lib x509 NewOptimizedStore"
| step: "store_reachable lib x509 s \<Longrightarrow> store_step lib x509 s s' \<Longrightarrow> store_reachable lib x509 s'"

lemmas inv_ops = inv_SetVirtualService inv_DeleteVirtualService inv_SetCluster inv_DeleteCluster
  inv_SetListener inv_DeleteListener
  inv_SetVirtualServiceTemplate inv_DeleteVirtualServiceTemplate
  inv_SetRoute inv_DeleteRoute
  inv_SetHTTPFilter inv_DeleteHTTPFilter
  inv_SetAccessLog inv_DeleteAccessLog
  inv_SetPolicy inv_DeletePolicy
  inv_SetTracing inv_DeleteTracing
  inv_SetSecret inv_DeleteSecret inv_statuses inv_ReplaceNodeDomainsIndex

lemma store_step_inv: "store_step lib x509 s s' \<Longrightarrow> store_inv lib x509 s \<Longrightarrow> store_inv lib x509 s'"
  by (induction rule: store_step.induct) (auto intro: inv_ops)

lemma reachable_inv: "store_reachable lib x509 s \<Longrightarrow> store_inv lib x509 s"
  by (induction rule: store_reachable.induct) (auto intro: store_inv_New store_step_inv)

end
