(* ===== verification/StoreSpec.thy ===== *)
theory StoreSpec
  imports StoreInv
begin

text \<open>
  What the store promises its clients, in terms of its public operations, for every state that
  a run of mutators can reach.
\<close>

section \<open>Look-ups by UID\<close>

text \<open>
  C1: in every reachable state the look-up by UID of each kind of resource answers with the
  stored object that has the UID, and with nothing when no stored object has it: replaced and
  deleted objects leave no trace in the indices.
\<close>

theorem uid_lookup_exact:
  assumes "store_reachable lib x509 s"
  shows "(GetVirtualServiceByUID s uid = Some vs \<longleftrightarrow>
            vs_uid vs = uid \<and> GetVirtualService s (vs_nn vs) = Some vs)
    \<and> (GetListenerByUID s uid = Some l \<longleftrightarrow>
            l_uid l = uid \<and> GetListener s (meta_nn (l_meta l)) = Some l)
    \<and> (GetClusterByUID s uid = Some c \<longleftrightarrow>
            cl_uid c = uid \<and> GetCluster s (meta_nn (cl_meta c)) = Some c)
    \<and> (GetVirtualServiceTemplateByUID s uid = Some t \<longleftrightarrow>
            m_UID (vst_meta t) = uid \<and> GetVirtualServiceTemplate s (meta_nn (vst_meta t)) = Some t)
    \<and> (GetRouteByUID s uid = Some r \<longleftrightarrow>
            m_UID (r_meta r) = uid \<and> GetRoute s (meta_nn (r_meta r)) = Some r)
    \<and> (GetHTTPFilterByUID s uid = Some h \<longleftrightarrow>
            m_UID (hf_meta h) = uid \<and> GetHTTPFilter s (meta_nn (hf_meta h)) = Some h)
    \<and> (GetAccessLogByUID s uid = Some a \<longleftrightarrow>
            m_UID (alc_meta a) = uid \<and> GetAccessLog s (meta_nn (alc_meta a)) = Some a)"
proof -
  have inv: "uid_indices_ok s" using reachable_inv [OF assms] by (simp add: store_inv_def)
  show ?thesis
    unfolding GetVirtualServiceByUID_def GetVirtualService_def GetListenerByUID_def GetListener_def
      GetClusterByUID_def GetCluster_def GetVirtualServiceTemplateByUID_def
      GetVirtualServiceTemplate_def GetRouteByUID_def GetRoute_def GetHTTPFilterByUID_def
      GetHTTPFilter_def GetAccessLogByUID_def GetAccessLog_def
    using inv unfolding uid_indices_ok_def exact_defs index_exact_def
    by (intro conjI) simp_all
qed

definition vs_a :: VirtualService where
  "vs_a = empty_vs\<lparr>vs_meta := empty_meta\<lparr>m_Namespace := ''prod'', m_Name := ''a'', m_UID := ''u1''\<rparr>,
     vs_Template := Some \<lparr>ref_Name = ''base'', ref_Namespace = None\<rparr>\<rparr>"

definition vs_a2 :: VirtualService where
  "vs_a2 = vs_a\<lparr>vs_meta := (vs_meta vs_a)\<lparr>m_UID := ''u2''\<rparr>\<rparr>"

text \<open>A service created and then replaced by one of the same name and a new UID.\<close>

definition store_a1 :: OptimizedStore where
  "store_a1 = SetVirtualService NewOptimizedStore vs_a"

definition store_a :: OptimizedStore where
  "store_a = SetVirtualService store_a1 vs_a2"

lemma store_a1_eq:
  "virtualServices store_a1 = [(NN ''prod'' ''a'', vs_a)]"
  "templateToVS store_a1 = [(NN ''prod'' ''base'', [vs_a])]"
  "pool_ok store_a1"
  unfolding store_a1_def SetVirtualService_eq [OF pool_ok_New]
  by (simp_all add: pool_ok_New intern_meta_eq(2))
     (simp_all add: vs_a_def empty_vs_def empty_meta_def gm_put_def NewOptimizedStore_def
       tix_add_def tmpl_key_def templateKey_def)

lemma store_a_eq:
  "virtualServices store_a = [(NN ''prod'' ''a'', vs_a2)]"
  "templateToVS store_a = [(NN ''prod'' ''base'', [vs_a2])]"
  unfolding store_a_def SetVirtualService_eq [OF store_a1_eq(3)]
  by (simp_all add: store_a1_eq)
     (simp_all add: vs_a_def vs_a2_def empty_vs_def empty_meta_def gm_put_def gm_get_def
       tix_add_def tix_remove_def tmpl_key_def templateKey_def)

lemma store_a_reachable: "store_reachable toy_lib toy_x509 store_a"
proof -
  have "store_step toy_lib toy_x509 NewOptimizedStore store_a1"
    unfolding store_a1_def
    by (rule set_virtualService) (simp add: NewOptimizedStore_def key_free_def)
  moreover have "store_step toy_lib toy_x509 store_a1 store_a"
    unfolding store_a_def
    by (rule set_virtualService)
       (simp add: key_free_def store_a1_eq vs_a_def vs_a2_def empty_vs_def empty_meta_def)
  ultimately show ?thesis by (blast intro: store_reachable.intros)
qed

theorem uid_lookup_exact_witness:
  "GetVirtualServiceByUID store_a ''u2'' = Some vs_a2 \<and> GetVirtualServiceByUID store_a ''u1'' = None"
proof
  have "vs_uid vs_a2 = ''u2''" "GetVirtualService store_a (vs_nn vs_a2) = Some vs_a2"
    by (simp_all add: GetVirtualService_def store_a_eq)
       (simp_all add: vs_a2_def vs_a_def empty_vs_def empty_meta_def)
  with uid_lookup_exact [OF store_a_reachable] show "GetVirtualServiceByUID store_a ''u2'' = Some vs_a2"
    by blast
  have "GetVirtualServiceByUID store_a ''u1'' \<noteq> Some vs" for vs
  proof
    assume "GetVirtualServiceByUID store_a ''u1'' = Some vs"
    with uid_lookup_exact [OF store_a_reachable]
    have "vs_uid vs = ''u1''" "GetVirtualService store_a (vs_nn vs) = Some vs" by blast+
    then show False
      by (auto simp: GetVirtualService_def store_a_eq vs_a2_def split: if_splits)
  qed
  then show "GetVirtualServiceByUID store_a ''u1'' = None" by (cases "GetVirtualServiceByUID store_a ''u1''") auto
qed

section \<open>Look-ups by template\<close>

text \<open>
  C2: in every reachable state the services listed under a template are exactly the stored
  virtual services that refer to it, the namespace defaulting to their own, and none is listed
  twice.
\<close>

theorem template_lookup_exact:
  assumes "store_reachable lib x509 s"
  shows "set (GetVirtualServicesByTemplate s nn) =
      {vs. GetVirtualService s (vs_nn vs) = Some vs \<and>
           (\<exists>t. vs_Template vs = Some t \<and> templateKey vs t = nn)}
    \<and> distinct (GetVirtualServicesByTemplate s nn)"
proof -
  have "templates_ok s" using reachable_inv [OF assms] by (simp add: store_inv_def)
  then have "set (gm_get [] (templateToVS s) nn) =
      {vs. map_of (virtualServices s) (vs_nn vs) = Some vs \<and> tmpl_key vs = Some nn}"
    "distinct (gm_get [] (templateToVS s) nn)"
    by (simp_all add: template_exact_def distinct_map)
  moreover have "GetVirtualServicesByTemplate s nn = gm_get [] (templateToVS s) nn"
    by (simp add: GetVirtualServicesByTemplate_def gm_get_def split: option.split)
  moreover have "tmpl_key vs = Some nn \<longleftrightarrow> (\<exists>t. vs_Template vs = Some t \<and> templateKey vs t = nn)" for vs
    unfolding tmpl_key_def by (cases "vs_Template vs") simp_all
  ultimately show ?thesis by (simp only: GetVirtualService_def)
qed

theorem template_lookup_exact_witness:
  "GetVirtualServicesByTemplate store_a (NN ''prod'' ''base'') = [vs_a2] \<and>
   set (GetVirtualServicesByTemplate store_a (NN ''prod'' ''base'')) =
      {vs. GetVirtualService store_a (vs_nn vs) = Some vs \<and>
           (\<exists>t. vs_Template vs = Some t \<and> templateKey vs t = NN ''prod'' ''base'')}"
proof
  show "GetVirtualServicesByTemplate store_a (NN ''prod'' ''base'') = [vs_a2]"
    by (simp add: GetVirtualServicesByTemplate_def store_a_eq)
qed (use template_lookup_exact [OF store_a_reachable] in blast)

section \<open>The domain index\<close>

text \<open>
  C3: the domain index kept up to date by SetSecret and DeleteSecret is, in every reachable
  state, the index a full rebuild from the stored secrets gives, and so answers every query
  in the same way.
\<close>

theorem incremental_index_is_rebuild:
  assumes "store_reachable lib x509 s"
  shows "idx_lookup (domainSecretsIndex (updateDomainSecretsMap x509 s))
      = idx_lookup (domainSecretsIndex s)
    \<and> GetDomainSecretForNamespace (updateDomainSecretsMap x509 s) d pref now
      = GetDomainSecretForNamespace s d pref now"
proof -
  have ex: "secrets_exact x509 s" and wf: "gm_wf (secrets s)"
    using reachable_inv [OF assms] by (simp_all add: store_inv_def store_wf_def)
  have ex': "secrets_exact x509 (updateDomainSecretsMap x509 s)"
    using updateDomainSecretsMap_exact [OF wf] ex by (simp add: secrets_exact_def)
  have same: "secrets (updateDomainSecretsMap x509 s) = secrets s"
    by (simp add: updateDomainSecretsMap_eq)
  have look: "idx_lookup (domainSecretsIndex (updateDomainSecretsMap x509 s))
      = idx_lookup (domainSecretsIndex s)"
    using ex ex' by (simp add: secrets_exact_def same)
  have "best_of (gm_get [] (domainSecretsIndex (updateDomainSecretsMap x509 s)) d) pref (secrets s) now
      = best_of (gm_get [] (domainSecretsIndex s) d) pref (secrets s) now"
    using ex ex' fun_cong [OF look, of d]
    by (intro best_of_perm) (simp_all add: secrets_exact_def idx_wf_inner idx_lookup_def fun_eq_iff)
  with look show ?thesis
    by (simp add: GetDomainSecretForNamespace_def GetBestSecret_def GetBest_best_of same)
qed

theorem incremental_index_is_rebuild_witness:
  "GetDomainSecretForNamespace
     (updateDomainSecretsMap toy_x509 (SetSecret toy_x509 NewOptimizedStore wild_secret))
     ''*.a.com'' ''edge'' 3
   = GetDomainSecretForNamespace (SetSecret toy_x509 NewOptimizedStore wild_secret) ''*.a.com'' ''edge'' 3"
proof -
  have "store_reachable toy_lib toy_x509 (SetSecret toy_x509 NewOptimizedStore wild_secret)"
    by (rule store_reachable.step [OF store_reachable.fresh set_secret])
  then show ?thesis using incremental_index_is_rebuild by blast
qed

section \<open>Copies\<close>

text \<open>Two states that answer every look-up alike.\<close>

definition same_answers :: "OptimizedStore \<Rightarrow> OptimizedStore \<Rightarrow> bool" where
  "same_answers s t \<longleftrightarrow>
     stringPool s = stringPool t \<and>
     gm_eq (virtualServices s) (virtualServices t) \<and>
     gm_eq (listeners s) (listeners t) \<and>
     gm_eq (clusters s) (clusters t) \<and>
     gm_eq (uidToVS s) (uidToVS t) \<and>
     gm_eq (uidToListener s) (uidToListener t) \<and>
     gm_eq (uidToCluster s) (uidToCluster t) \<and>
     gm_eq (virtualServiceTemplates s) (virtualServiceTemplates t) \<and>
     gm_eq (virtualServiceTemplatesByUID s) (virtualServiceTemplatesByUID t) \<and>
     gm_eq (routes s) (routes t) \<and>
     gm_eq (routesByUID s) (routesByUID t) \<and>
     gm_eq (httpFilters s) (httpFilters t) \<and>
     gm_eq (httpFiltersByUID s) (httpFiltersByUID t) \<and>
     gm_eq (accessLogs s) (accessLogs t) \<and>
     gm_eq (accessLogsByUID s) (accessLogsByUID t) \<and>
     gm_eq (secrets s) (secrets t) \<and>
     gm_eq (policies s) (policies t) \<and>
     gm_eq (policiesByUID s) (policiesByUID t) \<and>
     gm_eq (tracings s) (tracings t) \<and>
     gm_eq (tracingsByUID s) (tracingsByUID t) \<and>
     gm_eq (specClusters s) (specClusters t) \<and>
     gm_eq (templateToVS s) (templateToVS t) \<and>
     idx_lookup (domainSecretsIndex s) = idx_lookup (domainSecretsIndex t) \<and>
     (\<forall>n. map_option set (map_of (nodeDomains s) n) = map_option set (map_of (nodeDomains t) n)) \<and>
     GetStatus (vsStatusStorage s) = GetStatus (vsStatusStorage t)"

lemma copy_nested_fold:
  assumes "gm_wf m" "\<And>k. k \<in> fst ` set m \<Longrightarrow> map_of acc k = None"
  shows "map_of (fold (\<lambda>(k, i) acc. gm_put k (gm_copy_into i []) acc) m acc) k =
    (case map_of m k of Some i \<Rightarrow> Some (gm_copy_into i []) | None \<Rightarrow> map_of acc k)"
  using assms
proof (induction m arbitrary: acc)
  case (Cons p m)
  obtain j i where p: "p = (j, i)" by (cases p)
  have j: "j \<notin> fst ` set m" and wf: "gm_wf m" using Cons.prems(1) by (auto simp: p gm_wf_def)
  have "map_of (gm_put j (gm_copy_into i []) acc) k' = None" if "k' \<in> fst ` set m" for k'
    using that j Cons.prems(2) [of k'] by auto
  from Cons.IH [OF wf this] j show ?case
    by (auto simp: p map_of_eq_None_iff [symmetric] split: option.split)
qed simp

lemma copy_nested_lookup:
  "gm_wf m \<Longrightarrow> map_of (copy_nested m) k = map_option (\<lambda>i. gm_copy_into i []) (map_of m k)"
  by (simp add: copy_nested_def copy_nested_fold split: option.split)

lemma copy_slices_lookup:
  assumes "gm_wf m"
  shows "map_of (fold (\<lambda>(k, l) acc. gm_put k ([] @ l) acc) m []) = map_of m"
  using gm_copy_empty [OF assms] by (simp add: gm_copy_into_def)

lemma gm_copy_Nil_iff: "gm_copy_into m [] = [] \<longleftrightarrow> m = []"
proof (cases m)
  case (Cons p m')
  have "map_of (gm_copy_into m' acc) k \<noteq> None" if "map_of acc k \<noteq> None" for acc k
    using that by (induction m' arbitrary: acc) (auto simp: gm_copy_into_def)
  then have "map_of (gm_copy_into m []) (fst p) \<noteq> None"
    by (cases p) (simp add: Cons gm_copy_into_def)
  then show ?thesis using Cons by auto
qed (simp add: gm_copy_into_def)

lemma copy_nested_index:
  assumes "idx_wf idx"
  shows "idx_wf (copy_nested idx)" and "idx_lookup (copy_nested idx) = idx_lookup idx"
proof -
  have wf: "gm_wf idx" "\<And>d es. map_of idx d = Some es \<Longrightarrow> gm_wf es \<and> es \<noteq> []"
    using assms by (auto simp: idx_wf_def)
  show "idx_wf (copy_nested idx)"
    using copy_nested_wf_gen [of "[]" idx] wf
    by (auto simp: idx_wf_def copy_nested_lookup gm_wf_copy gm_copy_Nil_iff)
       (simp add: copy_nested_def)
  show "idx_lookup (copy_nested idx) = idx_lookup idx"
    using wf by (auto simp: fun_eq_iff idx_lookup_def gm_get_def copy_nested_lookup gm_copy_empty
        split: option.split)
qed

lemma set_gm_copy: "gm_wf m \<Longrightarrow> set (gm_copy_into m []) = set m"
  by (metis gm_copy_empty gm_same_mset gm_wf_Nil gm_wf_copy set_mset_mset)

text \<open>
  C4: Copy gives a store that answers every look-up as the original does, and that satisfies
  the invariant when the original does, so a rebuild can work on the copy.
\<close>

theorem Copy_same_answers:
  assumes "store_inv lib x509 s"
  shows "same_answers (Copy s) s \<and> store_inv lib x509 (Copy s)"
proof -
  have wf: "store_wf s" and idx: "idx_wf (domainSecretsIndex s)"
    and nd: "node_domains_wf (nodeDomains s)" and st: "status_wf (vsStatusStorage s)"
    using assms by (simp_all add: store_inv_def secrets_exact_def)
  have nodes: "map_option set (map_of (copy_nested (nodeDomains s)) n)
      = map_option set (map_of (nodeDomains s) n)" for n
    using nd by (cases "map_of (nodeDomains s) n")
      (simp_all add: node_domains_wf_def copy_nested_lookup set_gm_copy)
  have stat: "GetStatus (StatusStorage_Copy (vsStatusStorage s)) = GetStatus (vsStatusStorage s)"
    by (simp add: fun_eq_iff GetStatus_Copy [OF st])
  have "same_answers (Copy s) s"
    using wf unfolding same_answers_def store_wf_def gm_eq_def Copy_def
    by (simp add: gm_copy_empty copy_slices_lookup copy_nested_index [OF idx] nodes stat
        del: append_Nil)
  moreover have "gm_wf (fold (\<lambda>(k, l) acc. gm_put k ([] @ l) acc) (templateToVS s) [])"
    using gm_wf_copy [of "[]" "templateToVS s"] by (simp add: gm_copy_into_def)
  moreover have "gm_get [] (fold (\<lambda>(k, l) acc. gm_put k ([] @ l) acc) (templateToVS s) [])
      = gm_get [] (templateToVS s)"
    using wf by (simp add: fun_eq_iff gm_get_def copy_slices_lookup store_wf_def del: append_Nil)
  ultimately show ?thesis
    using assms unfolding inv_defs template_exact_def Copy_def
    by (simp add: gm_copy_empty gm_wf_copy copy_nested_index copy_nested_wf status_wf_ops
        del: append_Nil)
qed

theorem Copy_same_answers_witness:
  "store_inv toy_lib toy_x509 store_a \<and> same_answers (Copy store_a) store_a"
  using Copy_same_answers [OF reachable_inv [OF store_a_reachable]] reachable_inv [OF store_a_reachable]
  by blast

section \<open>Clusters by Envoy name\<close>

text \<open>
  In every reachable state the cluster found under an Envoy cluster name is the stored
  resource whose spec decodes to a cluster of that name. The steps that store a cluster are
  guarded by the condition that no other stored cluster has its Envoy name.
\<close>

lemma spec_cluster_lookup_exact:
  assumes "store_reachable lib x509 s"
  shows "GetSpecCluster s name = Some c \<longleftrightarrow>
    GetCluster s (meta_nn (cl_meta c)) = Some c \<and>
    (\<exists>cv3. Cluster_UnmarshalV3 lib c = Inr cv3 \<and> cv3_Name cv3 = name)"
proof -
  have "cs.exact lib s" using reachable_inv [OF assms] by (simp add: store_inv_def)
  then have "map_of (specClusters s) name = Some c \<longleftrightarrow>
      spec_key lib c = Some name \<and> map_of (clusters s) (meta_nn (cl_meta c)) = Some c"
    by (simp add: cs.exact_def index_exact_def)
  moreover have "spec_key lib c = Some name \<longleftrightarrow>
      (\<exists>cv3. Cluster_UnmarshalV3 lib c = Inr cv3 \<and> cv3_Name cv3 = name)"
    by (simp add: spec_key_def split: sum.split)
  ultimately show ?thesis by (auto simp only: GetSpecCluster_def GetCluster_def)
qed

definition cluster_x :: Cluster where
  "cluster_x = \<lparr>cl_meta = empty_meta\<lparr>m_Namespace := ''prod'', m_Name := ''x'', m_UID := ''c1''\<rparr>,
     cl_Spec = Some \<lparr>Raw = Some ''backend'', Object = None\<rparr>\<rparr>"

text \<open>
  Without that condition the index loses resources. Two Cluster resources may hold Envoy
  clusters of one name; deleting either of them drops the name from the index although the
  other resource is still stored.
\<close>

lemma spec_cluster_index_loses_namesake:
  assumes "GetCluster s nn = Some c" "GetCluster s nn' = Some c'" "nn \<noteq> nn'"
    and "Cluster_UnmarshalV3 lib c = Inr cv3" "Cluster_UnmarshalV3 lib c' = Inr cv3'"
    and "cv3_Name cv3 = cv3_Name cv3'"
  shows "GetCluster (DeleteCluster lib s nn) nn' = Some c'
    \<and> GetSpecCluster (DeleteCluster lib s nn) (cv3_Name cv3') = None"
  using assms
  by (simp add: GetCluster_def GetSpecCluster_def DeleteCluster_eq spec_key_def)

definition cluster_y :: Cluster where
  "cluster_y = cluster_x\<lparr>cl_meta := (cl_meta cluster_x)\<lparr>m_Name := ''y'', m_UID := ''c2''\<rparr>\<rparr>"

definition store_xy :: OptimizedStore where
  "store_xy = NewOptimizedStore\<lparr>clusters := [(NN ''prod'' ''x'', cluster_x), (NN ''prod'' ''y'', cluster_y)],
     specClusters := [(''backend'', cluster_y)]\<rparr>"

end
