(* ===== verification/Clusters.thy ===== *)
theory Clusters
  imports FilterChains StoreSpec
begin

text \<open>
  The clusters a virtual service needs (\<^verbatim>\<open>internal/xds/resbuilder/clusters\<close>): names found in
  routes, in the OAuth2 filters, in the tracing configuration and in the filter chains a listener
  brings along, resolved against the store. Names inside configurations are searched in their
  JSON form by \<open>FindClusterNames\<close> (\<^verbatim>\<open>utils/helpers.go\<close>). The codecs are the fields of \<open>clusterlib\<close>;
  the process-wide cache of results is passed as a state.
\<close>

section \<open>Searching JSON for cluster names\<close>

definition maxRecursionDepth :: nat where
  "maxRecursionDepth = 50"

function findClusterNamesWithDepth :: "json \<Rightarrow> string \<Rightarrow> nat \<Rightarrow> string list" where
  "findClusterNamesWithDepth data clusterField depth =
     (if depth \<ge> maxRecursionDepth then []
      else (case data of
          JObj v \<Rightarrow> concat (map (\<lambda>(key, value).
              if key = clusterField
              then (case value of JStr str \<Rightarrow> if str \<noteq> [] then [str] else [] | _ \<Rightarrow> [])
              else findClusterNamesWithDepth value clusterField (depth + 1)) v)
        | JArr v \<Rightarrow> concat (map (\<lambda>item. findClusterNamesWithDepth item clusterField (depth + 1)) v)
        | _ \<Rightarrow> []))"
  by pat_completeness auto
termination by (relation "measure (\<lambda>(_, _, depth). maxRecursionDepth - depth)") auto

declare findClusterNamesWithDepth.simps [simp del]

definition FindClusterNames :: "json \<Rightarrow> string \<Rightarrow> string list" where
  "FindClusterNames data clusterField = findClusterNamesWithDepth data clusterField 0"

text \<open>A name held by the field at a given depth, below objects and arrays but not below the field.\<close>

inductive named_at :: "string \<Rightarrow> json \<Rightarrow> string \<Rightarrow> nat \<Rightarrow> bool" where
  here: "(field, JStr s) \<in> set v \<Longrightarrow> s \<noteq> [] \<Longrightarrow> named_at field (JObj v) s 0"
| in_object: "(key, value) \<in> set v \<Longrightarrow> key \<noteq> field \<Longrightarrow> named_at field value s n \<Longrightarrow>
    named_at field (JObj v) s (Suc n)"
| in_array: "item \<in> set v \<Longrightarrow> named_at field item s n \<Longrightarrow> named_at field (JArr v) s (Suc n)"

inductive_simps named_at_JObj: "named_at field (JObj v) s n"
inductive_simps named_at_JArr: "named_at field (JArr v) s n"
inductive_cases named_at_atom: "named_at field JNull s n" "named_at field (JBool b) s n"
  "named_at field (JNum m) s n" "named_at field (JStr t) s n"

lemma search_sound:
  "s \<in> set (findClusterNamesWithDepth data field depth) \<Longrightarrow>
   \<exists>n. depth + n < maxRecursionDepth \<and> named_at field data s n"
proof (induction data field depth rule: findClusterNamesWithDepth.induct)
  case (1 data field depth)
  have low: "\<not> maxRecursionDepth \<le> depth" using "1.prems" by (auto simp: findClusterNamesWithDepth.simps)
  show ?case
  proof (cases data)
    case (JObj v)
    with "1.prems" low obtain key val where kv: "(key, val) \<in> set v" and
      mem: "s \<in> set (if key = field then (case val of JStr str \<Rightarrow> if str \<noteq> [] then [str] else [] | _ \<Rightarrow> [])
          else findClusterNamesWithDepth val field (depth + 1))"
      by (subst (asm) findClusterNamesWithDepth.simps) auto
    show ?thesis
    proof (cases "key = field")
      case True
      with mem have "val = JStr s" "s \<noteq> []" by (auto split: json.splits if_splits)
      with kv True JObj low show ?thesis by (intro exI [of _ 0]) (auto intro: here)
    next
      case False
      with mem "1.IH"(2) [OF low JObj kv refl False] obtain n where
        "depth + 1 + n < maxRecursionDepth" "named_at field val s n" by auto
      with kv False JObj show ?thesis by (intro exI [of _ "Suc n"]) (auto intro: in_object)
    qed
  next
    case (JArr v)
    with "1.prems" low obtain item where it: "item \<in> set v"
      "s \<in> set (findClusterNamesWithDepth item field (depth + 1))"
      by (subst (asm) findClusterNamesWithDepth.simps) auto
    with "1.IH"(1) [OF low JArr it(1)] obtain n where
      "depth + 1 + n < maxRecursionDepth" "named_at field item s n" by auto
    with it JArr show ?thesis by (intro exI [of _ "Suc n"]) (auto intro: in_array)
  qed (use "1.prems" low in \<open>subst (asm) findClusterNamesWithDepth.simps, simp\<close>)+
qed

lemma search_complete:
  "named_at field data s n \<Longrightarrow> depth + n < maxRecursionDepth \<Longrightarrow>
   s \<in> set (findClusterNamesWithDepth data field depth)"
proof (induction arbitrary: depth rule: named_at.induct)
  case (here field s v)
  then show ?case by (subst findClusterNamesWithDepth.simps) (force intro: rev_image_eqI)
next
  case (in_object key val v field s n)
  from in_object.IH [of "depth + 1"] in_object.prems
  have "s \<in> set (findClusterNamesWithDepth val field (depth + 1))" by simp
  with in_object.hyps(1,2) in_object.prems show ?case
    by (subst findClusterNamesWithDepth.simps) (auto intro!: bexI [of _ "(key, val)"])
next
  case (in_array item v field s n)
  from in_array.IH [of "depth + 1"] in_array.prems
  have "s \<in> set (findClusterNamesWithDepth item field (depth + 1))" by simp
  with in_array.hyps(1) in_array.prems show ?case
    by (subst findClusterNamesWithDepth.simps) auto
qed

text \<open>
  The search finds exactly the non-empty names the field holds below fewer than fifty
  objects and arrays; a name nested deeper is not found.
\<close>

lemma cluster_names_exact:
  "s \<in> set (FindClusterNames data clusterField) \<longleftrightarrow>
   (\<exists>n < 50. named_at clusterField data s n)"
  using search_sound [of s data clusterField 0] search_complete [of clusterField data s _ 0]
  by (auto simp: FindClusterNames_def maxRecursionDepth_def)

section \<open>Resolving names\<close>

text \<open>The codecs of the configurations that are searched.\<close>

record clusterlib =
  json_Unmarshal :: "bytes \<Rightarrow> json res"
  json_Marshal_object :: "bytes \<Rightarrow> bytes res"
  UnmarshalTo_oauth2 :: "AnyPb \<Rightarrow> bytes res"
  json_Marshal_oauth2 :: "bytes \<Rightarrow> bytes res"
  UnmarshalTo_hcm :: "AnyPb \<Rightarrow> HttpConnectionManager res"
  UnmarshalTo_tcp :: "AnyPb \<Rightarrow> ClusterSpecifier option res"
  anypb_UnmarshalNew :: "AnyPb \<Rightarrow> bytes res"
  protojson_Marshal :: "bytes \<Rightarrow> bytes res"
  protojson_Marshal_tracing :: "TracingV3 \<Rightarrow> bytes res"
  digest_hex :: "bytes \<Rightarrow> string"

definition resolve_cluster :: "protolib \<Rightarrow> OptimizedStore \<Rightarrow> string \<Rightarrow> ClusterV3 res" where
  "resolve_cluster lib store clusterName =
     (case GetSpecCluster store clusterName of
        None \<Rightarrow> Inl (Err (''cluster '' @ clusterName @ '' not found''))
      | Some cl \<Rightarrow> wrap_err (''failed to unmarshal cluster '' @ clusterName) (Cluster_UnmarshalV3AndValidate lib cl))"

definition getClustersByNames :: "protolib \<Rightarrow> OptimizedStore \<Rightarrow> string list \<Rightarrow> ClusterV3 list res" where
  "getClustersByNames lib store names = map_res (resolve_cluster lib store) names"

definition extractClusterNamesFromRoute :: "RouteV3 \<Rightarrow> string list" where
  "extractClusterNamesFromRoute route =
     (case rt_Action route of
        Some (RA_Route (Some (CS_Cluster c))) \<Rightarrow> if c \<noteq> [] then [c] else []
      | Some (RA_Route (Some (CS_WeightedClusters (Some wcs)))) \<Rightarrow> filter (\<lambda>n. n \<noteq> []) wcs
      | _ \<Rightarrow> [])"

definition FromVirtualHostRoutes :: "protolib \<Rightarrow> OptimizedStore \<Rightarrow> VirtualHost \<Rightarrow> ClusterV3 list res" where
  "FromVirtualHostRoutes lib store virtualHost =
     (let clusterNames = concat (map extractClusterNamesFromRoute (vh_Routes virtualHost))
      in if length clusterNames = 0 then Inr [] else getClustersByNames lib store clusterNames)"

section \<open>Cache keys\<close>

definition writeClusterGenerations :: "OptimizedStore \<Rightarrow> string list \<Rightarrow> bytes" where
  "writeClusterGenerations store clusterNames =
     concat (map (\<lambda>name. case GetSpecCluster store name of
         None \<Rightarrow> []
       | Some cl \<Rightarrow> name @ '':'' @ Itoa (m_Generation (cl_meta cl)) @ '','') clusterNames)"

definition TypeURLOAuth2 :: string where
  "TypeURLOAuth2 = ''type.googleapis.com/envoy.extensions.filters.http.oauth2.v3.OAuth2''"

text \<open>The typed configurations of the OAuth2 filters among the filters.\<close>

definition oauth2_configs :: "HttpFilterV3 list \<Rightarrow> AnyPb list" where
  "oauth2_configs hfs =
     filter (\<lambda>tc. TypeUrl tc = TypeURLOAuth2) (List.map_filter hfv3_TypedConfig hfs)"

definition oauth2_names :: "clusterlib \<Rightarrow> AnyPb \<Rightarrow> string list res" where
  "oauth2_names cx tc =
     and_then (wrap_err ''failed to unmarshal oauth2 config'' (UnmarshalTo_oauth2 cx tc)) (\<lambda>oauthCfg.
     and_then (wrap_err ''failed to marshal oauth2 config'' (json_Marshal_oauth2 cx oauthCfg)) (\<lambda>jsonData.
     and_then (wrap_err ''failed to unmarshal oauth2 config data'' (json_Unmarshal cx jsonData)) (\<lambda>data.
     Inr (FindClusterNames data ''Cluster''))))"

definition generateOAuth2CacheKey :: "clusterlib \<Rightarrow> OptimizedStore \<Rightarrow> HttpFilterV3 list \<Rightarrow> string" where
  "generateOAuth2CacheKey cx store hfs =
     (let allClusterNames = concat (map (\<lambda>tc. case oauth2_names cx tc of Inl _ \<Rightarrow> [] | Inr ns \<Rightarrow> ns)
            (oauth2_configs hfs))
      in ''oauth2_'' @ digest_hex cx (concat (map any_Value (oauth2_configs hfs))
           @ writeClusterGenerations store allClusterNames))"

text \<open>The JSON of a raw extension: its bytes, or the encoding of its object, or nothing.\<close>

definition raw_json :: "clusterlib \<Rightarrow> string \<Rightarrow> string \<Rightarrow> RawExtension \<Rightarrow> json option res" where
  "raw_json cx rawMsg objMsg tr =
     (case Raw tr of
        Some raw \<Rightarrow> and_then (wrap_err (''failed to unmarshal '' @ rawMsg) (json_Unmarshal cx raw)) (\<lambda>d. Inr (Some d))
      | None \<Rightarrow> (case Object tr of
            None \<Rightarrow> Inr None
          | Some obj \<Rightarrow>
              and_then (wrap_err (''failed to marshal '' @ objMsg) (json_Marshal_object cx obj)) (\<lambda>jsonData.
              and_then (wrap_err (''failed to unmarshal '' @ objMsg @ '' data'') (json_Unmarshal cx jsonData)) (\<lambda>d.
              Inr (Some d)))))"

definition tracing_names :: "json \<Rightarrow> string list" where
  "tracing_names data = FindClusterNames data ''cluster_name'' @ FindClusterNames data ''collector_cluster''"

definition extractClusterNamesFromTracing :: "clusterlib \<Rightarrow> RawExtension option \<Rightarrow> string list" where
  "extractClusterNamesFromTracing cx spec =
     (case spec of
        None \<Rightarrow> []
      | Some tr \<Rightarrow> (case raw_json cx [] [] tr of Inr (Some data) \<Rightarrow> tracing_names data | _ \<Rightarrow> []))"

text \<open>The bytes of a raw extension that go into a key.\<close>

definition raw_key :: "clusterlib \<Rightarrow> RawExtension \<Rightarrow> bytes" where
  "raw_key cx tr =
     (case Raw tr of
        Some raw \<Rightarrow> raw
      | None \<Rightarrow> (case Object tr of
            None \<Rightarrow> []
          | Some obj \<Rightarrow> (case json_Marshal_object cx obj of Inl _ \<Rightarrow> [] | Inr d \<Rightarrow> d)))"

definition generateTracingRawCacheKey :: "clusterlib \<Rightarrow> OptimizedStore \<Rightarrow> RawExtension option \<Rightarrow> string" where
  "generateTracingRawCacheKey cx store tr =
     (case tr of
        None \<Rightarrow> ''tracing_raw_nil''
      | Some r \<Rightarrow> ''tracing_raw_'' @ digest_hex cx (raw_key cx r
          @ writeClusterGenerations store (extractClusterNamesFromTracing cx tr)))"

definition generateTracingRefCacheKey :: "clusterlib \<Rightarrow> OptimizedStore \<Rightarrow> VirtualService \<Rightarrow> string" where
  "generateTracingRefCacheKey cx store vs =
     (case c_TracingRef (vs_common vs) of
        None \<Rightarrow> ''tracing_ref_nil''
      | Some ref \<Rightarrow>
          (let tracingRefNs = GetNamespace (ref_Namespace ref) (m_Namespace (vs_meta vs));
               path = tracingRefNs @ ''/'' @ ref_Name ref;
               content = (case GetTracing store (NN tracingRefNs (ref_Name ref)) of
                   None \<Rightarrow> []
                 | Some tracing \<Rightarrow>
                     (case tr_Spec tracing of None \<Rightarrow> [] | Some spec \<Rightarrow> raw_key cx spec)
                     @ writeClusterGenerations store (extractClusterNamesFromTracing cx (tr_Spec tracing)))
           in ''tracing_ref_'' @ digest_hex cx (path @ content)))"

section \<open>Clusters of filters and tracing, cached\<close>

text \<open>
  The three extractors share one discipline: look the key up, otherwise compute, and store what
  was computed without error. \<open>keep\<close> says whether a result is stored.
\<close>

definition cached_clusters :: "string \<Rightarrow> int \<Rightarrow> int \<Rightarrow> (bool \<times> ClusterV3 list) res \<Rightarrow> ClusterLRUCache
    \<Rightarrow> ClusterV3 list res \<times> ClusterLRUCache" where
  "cached_clusters cacheKey now now' compute c =
     (case ClusterLRUCache_Get c cacheKey now of
        (Some cached, c) \<Rightarrow> (Inr cached, c)
      | (None, c) \<Rightarrow>
          (case compute of
             Inl e \<Rightarrow> (Inl e, c)
           | Inr (keep, cls) \<Rightarrow> (Inr cls, if keep then ClusterLRUCache_Set c cacheKey cls now' else c)))"

definition oauth2_clusters :: "protolib \<Rightarrow> clusterlib \<Rightarrow> OptimizedStore \<Rightarrow> HttpFilterV3 list \<Rightarrow> ClusterV3 list res" where
  "oauth2_clusters lib cx store hfs =
     and_then (map_res (\<lambda>tc. and_then (oauth2_names cx tc) (getClustersByNames lib store)) (oauth2_configs hfs))
       (\<lambda>clss. Inr (concat clss))"

definition FromOAuth2HTTPFilters :: "protolib \<Rightarrow> clusterlib \<Rightarrow> OptimizedStore \<Rightarrow> int \<Rightarrow> int \<Rightarrow> HttpFilterV3 list
    \<Rightarrow> ClusterLRUCache \<Rightarrow> ClusterV3 list res \<times> ClusterLRUCache" where
  "FromOAuth2HTTPFilters lib cx store now now' hfs c =
     cached_clusters (generateOAuth2CacheKey cx store hfs) now now'
       (and_then (oauth2_clusters lib cx store hfs) (\<lambda>cls. Inr (True, cls))) c"

definition tracing_clusters :: "protolib \<Rightarrow> OptimizedStore \<Rightarrow> json option \<Rightarrow> (bool \<times> ClusterV3 list) res" where
  "tracing_clusters lib store data =
     (case data of
        None \<Rightarrow> Inr (False, [])
      | Some d \<Rightarrow>
          and_then (if length (tracing_names d) > 0 then getClustersByNames lib store (tracing_names d) else Inr [])
            (\<lambda>cls. Inr (True, cls)))"

definition FromTracingRaw :: "protolib \<Rightarrow> clusterlib \<Rightarrow> OptimizedStore \<Rightarrow> int \<Rightarrow> int \<Rightarrow> RawExtension option
    \<Rightarrow> ClusterLRUCache \<Rightarrow> ClusterV3 list res \<times> ClusterLRUCache" where
  "FromTracingRaw lib cx store now now' tr c =
     (case tr of
        None \<Rightarrow> (Inr [], c)
      | Some r \<Rightarrow>
          cached_clusters (generateTracingRawCacheKey cx store tr) now now'
            (and_then (raw_json cx ''tracing raw data'' ''tracing object'' r) (tracing_clusters lib store)) c)"

definition FromTracingRef :: "protolib \<Rightarrow> clusterlib \<Rightarrow> OptimizedStore \<Rightarrow> int \<Rightarrow> int \<Rightarrow> VirtualService
    \<Rightarrow> ClusterLRUCache \<Rightarrow> ClusterV3 list res \<times> ClusterLRUCache" where
  "FromTracingRef lib cx store now now' vs c =
     (case c_TracingRef (vs_common vs) of
        None \<Rightarrow> (Inr [], c)
      | Some ref \<Rightarrow>
          (let tracingRefNs = GetNamespace (ref_Namespace ref) (m_Namespace (vs_meta vs))
           in cached_clusters (generateTracingRefCacheKey cx store vs) now now'
                (case GetTracing store (NN tracingRefNs (ref_Name ref)) of
                   None \<Rightarrow> Inl (Err (''tracing '' @ tracingRefNs @ ''/'' @ ref_Name ref @ '' not found''))
                 | Some tracing \<Rightarrow>
                     and_then (case tr_Spec tracing of
                         None \<Rightarrow> Inr None
                       | Some spec \<Rightarrow> raw_json cx ''tracing spec raw'' ''tracing spec object'' spec)
                       (tracing_clusters lib store)) c))"

section \<open>Clusters of the chains a listener brings along\<close>

record clusterExtractionResult =
  xr_name :: string
  xr_isRequired :: bool

definition toRequiredResults :: "string list \<Rightarrow> clusterExtractionResult list" where
  "toRequiredResults names = map (\<lambda>name. \<lparr>xr_name = name, xr_isRequired = True\<rparr>) names"

definition toOptionalResults :: "string list \<Rightarrow> clusterExtractionResult list" where
  "toOptionalResults names = map (\<lambda>name. \<lparr>xr_name = name, xr_isRequired = False\<rparr>) names"

definition find_all :: "json \<Rightarrow> string list \<Rightarrow> string list" where
  "find_all data clusterFields = concat (map (FindClusterNames data) clusterFields)"

text \<open>An HTTP filter whose configuration cannot be turned into JSON has no clusters.\<close>

definition extractClustersFromHTTPFilter :: "clusterlib \<Rightarrow> HttpFilterV3 \<Rightarrow> string list" where
  "extractClustersFromHTTPFilter cx httpFilter =
     (case hfv3_TypedConfig httpFilter of
        None \<Rightarrow> []
      | Some typedConfig \<Rightarrow>
          (case and_then (anypb_UnmarshalNew cx typedConfig) (\<lambda>msg.
                and_then (protojson_Marshal cx msg) (json_Unmarshal cx)) of
             Inl _ \<Rightarrow> []
           | Inr data \<Rightarrow> find_all data [''cluster'', ''cluster_name'', ''token_cluster'', ''authorization_cluster'']))"

definition extractClustersFromAccessLog :: "clusterlib \<Rightarrow> AccessLogV3 \<Rightarrow> string list res" where
  "extractClustersFromAccessLog cx accessLog =
     (case al_TypedConfig accessLog of
        None \<Rightarrow> Inr []
      | Some typedConfig \<Rightarrow>
          (case anypb_UnmarshalNew cx typedConfig of
             Inl _ \<Rightarrow> Inr []
           | Inr msg \<Rightarrow>
               and_then (wrap_err ''failed to marshal access log config to JSON'' (protojson_Marshal cx msg)) (\<lambda>jsonBytes.
               and_then (wrap_err ''failed to unmarshal access log config'' (json_Unmarshal cx jsonBytes)) (\<lambda>data.
               Inr (find_all data [''cluster_name'', ''cluster''])))))"

definition extractClustersFromTracing :: "clusterlib \<Rightarrow> TracingV3 \<Rightarrow> string list res" where
  "extractClustersFromTracing cx tracing =
     and_then (wrap_err ''failed to marshal tracing config'' (protojson_Marshal_tracing cx tracing)) (\<lambda>jsonData.
     and_then (wrap_err ''failed to unmarshal tracing config'' (json_Unmarshal cx jsonData)) (\<lambda>data.
     Inr (find_all data [''cluster_name'', ''collector_cluster''])))"

definition extractClustersFromHCMFilter :: "clusterlib \<Rightarrow> Filter \<Rightarrow> string list res" where
  "extractClustersFromHCMFilter cx flt =
     (case flt_TypedConfig flt of
        None \<Rightarrow> Inr []
      | Some typedConfig \<Rightarrow>
          and_then (wrap_err ''failed to unmarshal HCM config'' (UnmarshalTo_hcm cx typedConfig)) (\<lambda>hcm.
          let names = concat (map (extractClustersFromHTTPFilter cx) (hcm_HttpFilters hcm))
          in and_then (map_res (extractClustersFromAccessLog cx) (hcm_AccessLog hcm)) (\<lambda>logNames.
             and_then (case hcm_Tracing hcm of
                 None \<Rightarrow> Inr []
               | Some tracing \<Rightarrow> extractClustersFromTracing cx tracing) (\<lambda>tracingNames.
             Inr (names @ concat logNames @ tracingNames)))))"

definition extractClustersFromTCPProxyFilter :: "clusterlib \<Rightarrow> Filter \<Rightarrow> string list res" where
  "extractClustersFromTCPProxyFilter cx flt =
     (case flt_TypedConfig flt of
        None \<Rightarrow> Inr []
      | Some typedConfig \<Rightarrow>
          and_then (wrap_err ''failed to unmarshal TCP proxy config'' (UnmarshalTo_tcp cx typedConfig)) (\<lambda>spec.
          case spec of
            Some (CS_Cluster c) \<Rightarrow> Inr (if c \<noteq> [] then [c] else [])
          | Some (CS_WeightedClusters (Some wcs)) \<Rightarrow> Inr (filter (\<lambda>n. n \<noteq> []) wcs)
          | _ \<Rightarrow> Inr []))"

fun removeDuplicateStrings_loop :: "string list \<Rightarrow> strset \<Rightarrow> string list \<Rightarrow> string list" where
  "removeDuplicateStrings_loop [] seen result = result"
| "removeDuplicateStrings_loop (s # rest) seen result =
     (if \<not> gm_has seen s \<and> s \<noteq> [] then removeDuplicateStrings_loop rest (gm_put s () seen) (result @ [s])
      else removeDuplicateStrings_loop rest seen result)"

definition removeDuplicateStrings :: "string list \<Rightarrow> string list" where
  "removeDuplicateStrings strings = removeDuplicateStrings_loop strings [] []"

definition extractClustersFromGenericFilter :: "clusterlib \<Rightarrow> Filter \<Rightarrow> string list res" where
  "extractClustersFromGenericFilter cx flt =
     (case flt_TypedConfig flt of
        None \<Rightarrow> Inr []
      | Some typedConfig \<Rightarrow>
          (case anypb_UnmarshalNew cx typedConfig of
             Inl _ \<Rightarrow> Inr []
           | Inr msg \<Rightarrow>
               and_then (wrap_err ''failed to marshal filter config to JSON'' (protojson_Marshal cx msg)) (\<lambda>jsonBytes.
               and_then (wrap_err ''failed to unmarshal JSON'' (json_Unmarshal cx jsonBytes)) (\<lambda>data.
               Inr (removeDuplicateStrings (find_all data [''cluster'', ''cluster_name'', ''collector_cluster'']))))))"

definition TCPProxy_name :: string where
  "TCPProxy_name = ''envoy.filters.network.tcp_proxy''"

definition extractClustersFromFilter :: "clusterlib \<Rightarrow> Filter \<Rightarrow> clusterExtractionResult list res" where
  "extractClustersFromFilter cx flt =
     (if flt_Name flt = HTTPConnectionManager_name then
        and_then (extractClustersFromHCMFilter cx flt) (\<lambda>names. Inr (toRequiredResults names))
      else if flt_Name flt = TCPProxy_name then
        and_then (extractClustersFromTCPProxyFilter cx flt) (\<lambda>names. Inr (toRequiredResults names))
      else
        and_then (extractClustersFromGenericFilter cx flt) (\<lambda>names. Inr (toOptionalResults names)))"

text \<open>The first entry of the name becomes required.\<close>

fun mark_required :: "string \<Rightarrow> clusterExtractionResult list \<Rightarrow> clusterExtractionResult list" where
  "mark_required n [] = []"
| "mark_required n (r # rest) =
     (if xr_name r = n then r\<lparr>xr_isRequired := True\<rparr> # rest else r # mark_required n rest)"

fun removeDuplicateResults_loop :: "clusterExtractionResult list \<Rightarrow> (string, bool) gomap
    \<Rightarrow> clusterExtractionResult list \<Rightarrow> clusterExtractionResult list" where
  "removeDuplicateResults_loop [] seen uniqueResults = uniqueResults"
| "removeDuplicateResults_loop (r # rest) seen uniqueResults =
     (if xr_name r = [] then removeDuplicateResults_loop rest seen uniqueResults
      else (case map_of seen (xr_name r) of
          Some isRequired \<Rightarrow>
            if xr_isRequired r \<and> \<not> isRequired
            then removeDuplicateResults_loop rest (gm_put (xr_name r) True seen)
                   (mark_required (xr_name r) uniqueResults)
            else removeDuplicateResults_loop rest seen uniqueResults
        | None \<Rightarrow>
            removeDuplicateResults_loop rest (gm_put (xr_name r) (xr_isRequired r) seen) (uniqueResults @ [r])))"

definition removeDuplicateResults :: "clusterExtractionResult list \<Rightarrow> clusterExtractionResult list" where
  "removeDuplicateResults results =
     (if length results = 0 then [] else removeDuplicateResults_loop results [] [])"

fun resolve_results :: "protolib \<Rightarrow> OptimizedStore \<Rightarrow> clusterExtractionResult list \<Rightarrow> ClusterV3 list res" where
  "resolve_results lib store [] = Inr []"
| "resolve_results lib store (r # rest) =
     (case GetSpecCluster store (xr_name r) of
        None \<Rightarrow>
          if xr_isRequired r then Inl (Err (''cluster '' @ xr_name r @ '' not found''))
          else resolve_results lib store rest
      | Some cl \<Rightarrow>
          and_then (wrap_err (''failed to unmarshal cluster '' @ xr_name r) (Cluster_UnmarshalV3AndValidate lib cl))
            (\<lambda>xdsCluster. and_then (resolve_results lib store rest) (\<lambda>cls. Inr (xdsCluster # cls))))"

definition ExtractClustersFromFilterChains :: "protolib \<Rightarrow> clusterlib \<Rightarrow> OptimizedStore \<Rightarrow> FilterChain list
    \<Rightarrow> ClusterV3 list res" where
  "ExtractClustersFromFilterChains lib cx store fcs =
     and_then (map_res (\<lambda>flt. wrap_err (''failed to extract clusters from filter '' @ flt_Name flt)
         (extractClustersFromFilter cx flt)) (concat (map fc_Filters fcs))) (\<lambda>results.
     let results = concat results
     in if length results = 0 then Inr []
        else resolve_results lib store (removeDuplicateResults results))"

section \<open>What is delivered\<close>

text \<open>The clusters of a reachable store are found under the names they decode to.\<close>

lemma spec_cluster_name:
  assumes "store_reachable lib x509 s" "GetSpecCluster s name = Some c"
  shows "\<exists>cv3. Cluster_UnmarshalV3 lib c = Inr cv3 \<and> cv3_Name cv3 = name"
proof -
  have "cs.exact lib s" using reachable_inv [OF assms(1)] by (simp add: store_inv_def)
  with assms(2) have "spec_key lib c = Some name" by (simp add: cs.exact_def index_exact_def GetSpecCluster_def)
  then show ?thesis by (auto simp: spec_key_def split: sum.splits)
qed

lemma validated_is_decoded: "Cluster_UnmarshalV3AndValidate lib c = Inr cv3 \<Longrightarrow> Cluster_UnmarshalV3 lib c = Inr cv3"
  by (auto simp: Cluster_UnmarshalV3AndValidate_def split: sum.splits)

lemma resolved_name:
  assumes "store_reachable lib x509 s" "resolve_cluster lib s name = Inr cv3"
  shows "cv3_Name cv3 = name"
proof -
  from assms(2) obtain c where c: "GetSpecCluster s name = Some c" "Cluster_UnmarshalV3AndValidate lib c = Inr cv3"
    by (auto simp: resolve_cluster_def exits split: option.splits)
  from spec_cluster_name [OF assms(1) c(1)] validated_is_decoded [OF c(2)] show ?thesis by auto
qed

lemma getClustersByNames_names:
  assumes "store_reachable lib x509 s" "getClustersByNames lib s names = Inr cls"
  shows "map cv3_Name cls = names"
proof -
  have "list_all2 (\<lambda>n c. cv3_Name c = n) names cls"
    using map_res_Inr [OF assms(2) [unfolded getClustersByNames_def]]
    by (rule list_all2_mono) (rule resolved_name [OF assms(1)])
  then show ?thesis by (induction rule: list_all2_induct) auto
qed

lemma extractClusterNamesFromRoute_eq: "extractClusterNamesFromRoute r = action_clusters (rt_Action r)"
  unfolding extractClusterNamesFromRoute_def
  by (cases "rt_Action r" rule: action_clusters.cases) auto

lemma FromVirtualHostRoutes_names:
  assumes "store_reachable lib x509 s" "FromVirtualHostRoutes lib s vh = Inr cls"
  shows "map cv3_Name cls = concat (map (\<lambda>r. action_clusters (rt_Action r)) (vh_Routes vh))"
  using assms(2) getClustersByNames_names [OF assms(1)]
  by (auto simp: FromVirtualHostRoutes_def Let_def extractClusterNamesFromRoute_eq [abs_def] split: if_splits)

text \<open>Removing duplicates keeps the first occurrence of each name, required if any occurrence is.\<close>

definition required_in :: "clusterExtractionResult list \<Rightarrow> string \<Rightarrow> bool" where
  "required_in rs n \<longleftrightarrow> (\<exists>r \<in> set rs. xr_name r = n \<and> xr_isRequired r)"

lemma mark_required_eq:
  "distinct (map xr_name us) \<Longrightarrow>
   mark_required n us = map (\<lambda>r. if xr_name r = n then r\<lparr>xr_isRequired := True\<rparr> else r) us"
proof (induction us)
  case (Cons r us)
  from Cons.prems have r: "xr_name r \<notin> xr_name ` set us" by simp
  have "map (\<lambda>r. if xr_name r = n then r\<lparr>xr_isRequired := True\<rparr> else r) us = us" if "xr_name r = n"
  proof (rule map_idI)
    fix x assume "x \<in> set us"
    then have "xr_name x \<in> xr_name ` set us" by (rule imageI)
    with r that have "xr_name x \<noteq> n" by metis
    then show "(if xr_name x = n then x\<lparr>xr_isRequired := True\<rparr> else x) = x" by simp
  qed
  with Cons show ?case by auto
qed simp

definition seen_ok :: "(string, bool) gomap \<Rightarrow> clusterExtractionResult list \<Rightarrow> bool" where
  "seen_ok seen us \<longleftrightarrow> distinct (map xr_name us) \<and>
     (\<forall>n. map_of seen n = (if n \<in> xr_name ` set us then Some (required_in us n) else None))"

lemma seen_ok_mark:
  assumes "seen_ok seen us" "n \<in> xr_name ` set us"
  shows "seen_ok (gm_put n True seen) (mark_required n us)"
    "xr_name ` set (mark_required n us) = xr_name ` set us"
    "required_in (mark_required n us) m \<longleftrightarrow> required_in us m \<or> m = n"
proof -
  have d: "distinct (map xr_name us)" using assms(1) by (simp add: seen_ok_def)
  note eq = mark_required_eq [OF d, of n]
  have names: "map xr_name (mark_required n us) = map xr_name us" by (simp add: eq)
  then show img: "xr_name ` set (mark_required n us) = xr_name ` set us" by (metis list.set_map)
  have "required_in (mark_required n us) m \<longleftrightarrow> (\<exists>r \<in> set us. xr_name r = m \<and> (xr_isRequired r \<or> xr_name r = n))" for m
    unfolding eq required_in_def set_map bex_simps(7) by (rule bex_cong) auto
  then show req: "required_in (mark_required n us) m \<longleftrightarrow> required_in us m \<or> m = n" for m
    using assms(2) by (auto simp: required_in_def)
  show "seen_ok (gm_put n True seen) (mark_required n us)"
    using assms by (auto simp: seen_ok_def names img req)
qed

lemma removeDuplicateResults_loop_props:
  assumes "seen_ok seen us"
  shows "distinct (map xr_name (removeDuplicateResults_loop rs seen us)) \<and>
    xr_name ` set (removeDuplicateResults_loop rs seen us) = xr_name ` set us \<union> (xr_name ` set rs - {[]}) \<and>
    (\<forall>n. required_in (removeDuplicateResults_loop rs seen us) n \<longleftrightarrow>
       required_in us n \<or> n \<noteq> [] \<and> required_in rs n)"
  using assms
proof (induction rs arbitrary: seen us)
  case Nil
  then show ?case by (simp add: seen_ok_def required_in_def)
next
  case (Cons r rs)
  let ?n = "xr_name r"
  have req: "required_in (r # rs) m \<longleftrightarrow> (?n = m \<and> xr_isRequired r) \<or> required_in rs m" for m
    by (auto simp: required_in_def)
  consider (empty) "?n = []" | (seen) "?n \<noteq> []" "?n \<in> xr_name ` set us" | (new) "?n \<noteq> []" "?n \<notin> xr_name ` set us"
    by blast
  then show ?case
  proof cases
    case empty
    then show ?thesis using Cons.IH [OF Cons.prems] by (auto simp: req)
  next
    case seen
    have look: "map_of seen ?n = Some (required_in us ?n)" using Cons.prems seen by (simp add: seen_ok_def)
    show ?thesis
    proof (cases "xr_isRequired r \<and> \<not> required_in us ?n")
      case True
      note mark = seen_ok_mark [OF Cons.prems seen(2)]
      from Cons.IH [OF mark(1)] True seen look show ?thesis by (auto simp: req mark(2,3))
    next
      case False
      from Cons.IH [OF Cons.prems] False seen look show ?thesis by (auto simp: req)
    qed
  next
    case new
    have look: "map_of seen ?n = None" using Cons.prems new by (simp add: seen_ok_def)
    have reqs: "required_in (us @ [r]) m \<longleftrightarrow> required_in us m \<or> (?n = m \<and> xr_isRequired r)" for m
      by (auto simp: required_in_def)
    have none: "\<not> required_in us ?n" using new(2) unfolding required_in_def by (metis imageI)
    have "seen_ok (gm_put ?n (xr_isRequired r) seen) (us @ [r])"
      using Cons.prems new none by (auto simp: seen_ok_def reqs)
    from Cons.IH [OF this] new look show ?thesis by (auto simp: req reqs)
  qed
qed

lemma removeDuplicateResults_props:
  "distinct (map xr_name (removeDuplicateResults rs))"
  "xr_name ` set (removeDuplicateResults rs) = xr_name ` set rs - {[]}"
  "required_in (removeDuplicateResults rs) n \<longleftrightarrow> n \<noteq> [] \<and> required_in rs n"
proof -
  have "seen_ok [] []" by (simp add: seen_ok_def)
  from removeDuplicateResults_loop_props [OF this, of rs]
  show "distinct (map xr_name (removeDuplicateResults rs))"
    "xr_name ` set (removeDuplicateResults rs) = xr_name ` set rs - {[]}"
    "required_in (removeDuplicateResults rs) n \<longleftrightarrow> n \<noteq> [] \<and> required_in rs n"
    by (auto simp: removeDuplicateResults_def required_in_def)
qed

lemma resolve_results_names:
  assumes "store_reachable lib x509 s" "resolve_results lib s us = Inr cls"
  shows "map cv3_Name cls = filter (\<lambda>n. GetSpecCluster s n \<noteq> None) (map xr_name us)"
    "\<forall>n. required_in us n \<longrightarrow> GetSpecCluster s n \<noteq> None"
proof -
  have "map cv3_Name cls = filter (\<lambda>n. GetSpecCluster s n \<noteq> None) (map xr_name us) \<and>
      (\<forall>r \<in> set us. xr_isRequired r \<longrightarrow> GetSpecCluster s (xr_name r) \<noteq> None)"
    using assms(2)
  proof (induction us arbitrary: cls)
    case (Cons r us)
    show ?case
    proof (cases "GetSpecCluster s (xr_name r)")
      case None
      with Cons.prems have "\<not> xr_isRequired r" "resolve_results lib s us = Inr cls" by (auto split: if_splits)
      with Cons.IH None show ?thesis by simp
    next
      case (Some c)
      with Cons.prems obtain cv3 cls' where
        c: "Cluster_UnmarshalV3AndValidate lib c = Inr cv3" "resolve_results lib s us = Inr cls'" "cls = cv3 # cls'"
        by (auto simp: exits)
      have "cv3_Name cv3 = xr_name r"
        using spec_cluster_name [OF assms(1) Some] validated_is_decoded [OF c(1)] by auto
      with Cons.IH [OF c(2)] c(3) Some show ?thesis by simp
    qed
  qed simp
  then show "map cv3_Name cls = filter (\<lambda>n. GetSpecCluster s n \<noteq> None) (map xr_name us)"
    "\<forall>n. required_in us n \<longrightarrow> GetSpecCluster s n \<noteq> None"
    by (auto simp: required_in_def)
qed

lemma map_res_wrap: "map_res (\<lambda>x. wrap_err (m x) (f x)) xs = Inr ys \<longleftrightarrow> map_res f xs = Inr ys"
proof (induction xs arbitrary: ys)
  case (Cons x xs)
  show ?case
  proof (cases "f x")
    case (Inr y)
    then show ?thesis using Cons [of "tl ys"] by (cases ys) (auto split: sum.splits)
  qed simp
qed simp

text \<open>
  C28: Of the filter chains a listener brings along, each cluster that is named by a filter and
  stored is delivered exactly once, and nothing else is. A name found in a connection manager or
  a TCP proxy must be stored, or the build fails; a name found by guessing in another filter may
  be missing.
\<close>

theorem listener_clusters_exact:
  assumes "store_reachable lib x509 store"
    and "ExtractClustersFromFilterChains lib cx store fcs = Inr cls"
  shows "\<exists>rss. map_res (extractClustersFromFilter cx) (concat (map fc_Filters fcs)) = Inr rss \<and>
    distinct (map cv3_Name cls) \<and>
    set (map cv3_Name cls) = {n \<in> xr_name ` set (concat rss). n \<noteq> [] \<and> GetSpecCluster store n \<noteq> None} \<and>
    (\<forall>n. n \<noteq> [] \<and> required_in (concat rss) n \<longrightarrow> n \<in> set (map cv3_Name cls))"
proof -
  from assms(2) obtain rss where rss: "map_res (extractClustersFromFilter cx) (concat (map fc_Filters fcs)) = Inr rss"
    and rest: "(if length (concat rss) = 0 then Inr [] else resolve_results lib store (removeDuplicateResults (concat rss))) = Inr cls"
    unfolding ExtractClustersFromFilterChains_def and_then_Inr map_res_wrap Let_def by blast
  let ?us = "removeDuplicateResults (concat rss)"
  have "resolve_results lib store ?us = Inr cls" using rest by (cases "concat rss") (auto simp: removeDuplicateResults_def)
  note res = resolve_results_names [OF assms(1) this]
  note us = removeDuplicateResults_props [of "concat rss"]
  have "distinct (map cv3_Name cls)" unfolding res(1) using us(1) by (rule distinct_filter)
  moreover have names: "set (map cv3_Name cls) = {n \<in> xr_name ` set (concat rss). n \<noteq> [] \<and> GetSpecCluster store n \<noteq> None}"
    unfolding res(1) set_filter set_map us(2) by blast
  moreover have "n \<in> set (map cv3_Name cls)" if "n \<noteq> []" "required_in (concat rss) n" for n
  proof -
    have "required_in ?us n" using that us(3) by simp
    with res(2) have "GetSpecCluster store n \<noteq> None" by blast
    moreover have "n \<in> xr_name ` set (concat rss)" using that(2) unfolding required_in_def by (metis imageI)
    ultimately show ?thesis using that(1) unfolding names by blast
  qed
  ultimately show ?thesis using rss by blast
qed

section \<open>What the cache key leaves out\<close>

text \<open>
  A cluster enters the key of the tracing clusters by its generation. A cluster that is deleted
  and created anew starts at the same generation, and until the entry expires the clusters of
  the old resource are delivered.
\<close>

lemma cached_clusters_again:
  assumes "lru_inv c" "fst (Get c key now) = None" "cached_clusters key now now' compute c = (Inr cls, c')"
    "compute = Inr (True, cls)" "ttl c \<le> 0 \<or> later - now' \<le> ttl c"
  shows "fst (cached_clusters key later later' compute' c') = Inr cls"
proof -
  obtain c1 where get: "Get c key now = (None, c1)" using assms(2) by (cases "Get c key now") auto
  have inv: "lru_inv c1" and life: "ttl c1 = ttl c"
    using lru.ok_get [OF assms(1), of key now] get ttl_get [of c key now] by (simp_all add: Get_eq_locked [symmetric])
  have c': "c' = Set c1 key cls now'"
    using assms(3,4) get by (simp add: cached_clusters_def ClusterLRUCache_Get_def ClusterLRUCache_Set_def)
  have "fst (Get c' key later) = Some cls"
    unfolding c' by (rule lru.get_put_same [OF inv]) (use assms(5) life in simp)
  then show ?thesis by (cases "Get c' key later") (simp add: cached_clusters_def ClusterLRUCache_Get_def)
qed

lemma recreated_cluster_ignored:
  assumes "lru_inv c" "fst (Get c (generateTracingRawCacheKey cx store tr) now) = None"
    and "FromTracingRaw lib cx store now now' tr c = (Inr cls, c')" "tr = Some r" "Raw r = Some raw"
    and "\<forall>n. map_option (\<lambda>c. m_Generation (cl_meta c)) (GetSpecCluster store' n)
           = map_option (\<lambda>c. m_Generation (cl_meta c)) (GetSpecCluster store n)"
    and "ttl c \<le> 0 \<or> later - now' \<le> ttl c"
  shows "fst (FromTracingRaw lib cx store' later later' tr c') = Inr cls"
proof -
  have "(case GetSpecCluster store' n of None \<Rightarrow> [] | Some c \<Rightarrow> n @ '':'' @ Itoa (m_Generation (cl_meta c)) @ '','')
      = (case GetSpecCluster store n of None \<Rightarrow> [] | Some c \<Rightarrow> n @ '':'' @ Itoa (m_Generation (cl_meta c)) @ '','')" for n
    using assms(6) [rule_format, of n] by (cases "GetSpecCluster store' n"; cases "GetSpecCluster store n") auto
  then have "writeClusterGenerations store' = writeClusterGenerations store"
    unfolding writeClusterGenerations_def by presburger
  then have key: "generateTracingRawCacheKey cx store' tr = generateTracingRawCacheKey cx store tr"
    unfolding generateTracingRawCacheKey_def by (simp add: assms(4))
  obtain compute where run: "cached_clusters (generateTracingRawCacheKey cx store tr) now now' compute c = (Inr cls, c')"
    "compute = and_then (raw_json cx ''tracing raw data'' ''tracing object'' r) (tracing_clusters lib store)"
    using assms(3,4) by (simp add: FromTracingRaw_def)
  obtain c1 where "Get c (generateTracingRawCacheKey cx store tr) now = (None, c1)"
    using assms(2) by (cases "Get c (generateTracingRawCacheKey cx store tr) now") auto
  with run(1) obtain keep where "compute = Inr (keep, cls)"
    by (auto simp: cached_clusters_def ClusterLRUCache_Get_def split: sum.splits)
  moreover from this run(2) have keep by (auto simp: raw_json_def assms(5) tracing_clusters_def exits)
  ultimately have "compute = Inr (True, cls)" by simp
  from cached_clusters_again [OF assms(1,2) run(1) this assms(7)] show ?thesis
    by (simp add: FromTracingRaw_def assms(4) key [unfolded assms(4)])
qed

end
