(* ===== verification/Mixer.thy ===== *)
theory Mixer
  imports Store Template
begin

text \<open>
  The mixer of \<^verbatim>\<open>internal/xds/updater/mixer.go\<close>: it collects the resources of all virtual
  services per node and turns them into one ordered list per node and resource type.
\<close>

section \<open>Resources\<close>

datatype rtype = ListenerType | ClusterType | RouteType | SecretType

datatype Resource =
    ResL ListenerV3
  | ResC ClusterV3
  | ResR RouteConfiguration
  | ResS SecretV3

text \<open>\<open>cachev3.GetResourceName\<close>, and the reflective \<open>getName\<close>: the field \<open>name\<close>.\<close>

fun resource_name :: "Resource \<Rightarrow> string" where
  "resource_name (ResL l) = lv3_Name l"
| "resource_name (ResC c) = cv3_Name c"
| "resource_name (ResR r) = rc_Name r"
| "resource_name (ResS s) = sv3_Name s"

type_synonym resmap = "(rtype, Resource list) gomap"

record Mixer =
  mx_listeners :: "(NamespacedName, (string, FilterChain list) gomap) gomap"
  mx_data :: "(string, resmap) gomap"
  mx_nodeIDs :: strset

definition NewMixer :: Mixer where
  "NewMixer = \<lparr>mx_listeners = [], mx_data = [], mx_nodeIDs = []\<rparr>"

definition Mixer_Add :: "Mixer \<Rightarrow> string \<Rightarrow> rtype \<Rightarrow> Resource \<Rightarrow> Mixer" where
  "Mixer_Add m nodeID resourceType resource =
     (case map_of (mx_data m) nodeID of
        Some resources \<Rightarrow>
          m\<lparr>mx_data := gm_put nodeID
              (gm_put resourceType (gm_get [] resources resourceType @ [resource]) resources) (mx_data m)\<rparr>
      | None \<Rightarrow>
          m\<lparr>mx_data := gm_put nodeID [(resourceType, [resource])] (mx_data m),
            mx_nodeIDs := gm_put nodeID () (mx_nodeIDs m)\<rparr>)"

definition AddListenerParams :: "Mixer \<Rightarrow> NamespacedName \<Rightarrow> FilterChain list \<Rightarrow> string \<Rightarrow> Mixer" where
  "AddListenerParams m listenerNN fcs nodeID =
     (let per_node = gm_get [] (mx_listeners m) listenerNN
      in m\<lparr>mx_listeners := gm_put listenerNN
             (gm_put nodeID (gm_get [] per_node nodeID @ fcs) per_node) (mx_listeners m),
           mx_nodeIDs := gm_put nodeID () (mx_nodeIDs m)\<rparr>)"

section \<open>Mixing\<close>

definition sortFilterChains :: "FilterChain list \<Rightarrow> FilterChain list" where
  "sortFilterChains fcs =
     (if length fcs < 2 then fcs else sort_slice (\<lambda>a b. fc_Name a < fc_Name b) fcs)"

definition sortResources :: "Resource list \<Rightarrow> Resource list" where
  "sortResources resources =
     (if length resources < 2 then resources
      else sort_slice (\<lambda>a b. resource_name a < resource_name b) resources)"

text \<open>
  One turn of the loop over the nodes of a listener. The method \<open>UnmarshalV3\<close> on a missing
  listener dereferences a nil pointer.
\<close>

definition mix_listener :: "protolib \<Rightarrow> Listener option \<Rightarrow> NamespacedName \<Rightarrow> string \<Rightarrow> FilterChain list
    \<Rightarrow> (string, resmap) gomap \<Rightarrow> (string, resmap) gomap res" where
  "mix_listener lib listener listenerNN nodeID fcs result =
     (case listener of
        None \<Rightarrow> Inl nil_panic
      | Some l \<Rightarrow>
          (case Listener_UnmarshalV3 lib l of
             Inl err \<Rightarrow> Inl err
           | Inr lv3 \<Rightarrow>
               (let lv3 = lv3\<lparr>lv3_FilterChains := sortFilterChains fcs,
                              lv3_Name := NamespacedName_String listenerNN\<rparr>
                in case map_of result nodeID of
                     Some resources \<Rightarrow>
                       Inr (gm_put nodeID (gm_put ListenerType
                         (gm_get [] resources ListenerType @ [ResL lv3]) resources) result)
                   | None \<Rightarrow> Inr (gm_put nodeID [(ListenerType, [ResL lv3])] result))))"

fun mix_nodes :: "protolib \<Rightarrow> Listener option \<Rightarrow> NamespacedName \<Rightarrow> (string, FilterChain list) gomap
    \<Rightarrow> (string, resmap) gomap \<Rightarrow> (string, resmap) gomap res" where
  "mix_nodes lib listener listenerNN [] result = Inr result"
| "mix_nodes lib listener listenerNN ((nodeID, fcs) # rest) result =
     (case mix_listener lib listener listenerNN nodeID fcs result of
        Inl err \<Rightarrow> Inl err
      | Inr result \<Rightarrow> mix_nodes lib listener listenerNN rest result)"

fun mix_listeners :: "protolib \<Rightarrow> OptimizedStore
    \<Rightarrow> (NamespacedName, (string, FilterChain list) gomap) gomap
    \<Rightarrow> (string, resmap) gomap \<Rightarrow> (string, resmap) gomap res" where
  "mix_listeners lib st [] result = Inr result"
| "mix_listeners lib st ((listenerNN, data) # rest) result =
     (case mix_nodes lib (GetListener st listenerNN) listenerNN data result of
        Inl err \<Rightarrow> Inl err
      | Inr result \<Rightarrow> mix_listeners lib st rest result)"

definition mix_data :: "(string, resmap) gomap \<Rightarrow> (string, resmap) gomap \<Rightarrow> (string, resmap) gomap" where
  "mix_data data result =
     fold (\<lambda>(nodeID, resources) result.
         (let r = gm_get [] result nodeID;
              r = gm_put SecretType (gm_get [] resources SecretType) r;
              r = gm_put ClusterType (gm_get [] resources ClusterType) r;
              r = gm_put RouteType (gm_get [] resources RouteType) r
          in gm_put nodeID r result))
       data result"

text \<open>\<open>sortResources\<close> sorts the slice in the map in place; a missing slice stays missing.\<close>

definition sort_node :: "resmap \<Rightarrow> resmap" where
  "sort_node r = map (\<lambda>(t, rs). (t, sortResources rs)) r"

definition Mix :: "protolib \<Rightarrow> Mixer \<Rightarrow> OptimizedStore \<Rightarrow> (string, resmap) gomap res" where
  "Mix lib m st =
     (case mix_listeners lib st (mx_listeners m) [] of
        Inl err \<Rightarrow> Inl err
      | Inr result \<Rightarrow> Inr (map (\<lambda>(n, r). (n, sort_node r)) (mix_data (mx_data m) result)))"

section \<open>The result of mixing\<close>

text \<open>The listener resource for one listener and the filter chains of one node.\<close>

definition mixed :: "protolib \<Rightarrow> OptimizedStore \<Rightarrow> NamespacedName \<Rightarrow> FilterChain list \<Rightarrow> ListenerV3 res" where
  "mixed lib st nn fcs =
     (case GetListener st nn of
        None \<Rightarrow> Inl nil_panic
      | Some l \<Rightarrow>
          (case Listener_UnmarshalV3 lib l of
             Inl err \<Rightarrow> Inl err
           | Inr lv3 \<Rightarrow> Inr (lv3\<lparr>lv3_FilterChains := sortFilterChains fcs,
               lv3_Name := NamespacedName_String nn\<rparr>)))"

definition view :: "(string, resmap) gomap \<Rightarrow> string \<Rightarrow> (rtype \<Rightarrow> Resource list option) option" where
  "view r n = map_option map_of (map_of r n)"

text \<open>The loop over listeners and nodes as one loop over their pairs.\<close>

definition flat :: "(NamespacedName, (string, FilterChain list) gomap) gomap
    \<Rightarrow> (NamespacedName \<times> string \<times> FilterChain list) list" where
  "flat ls = concat (map (\<lambda>(nn, data). map (\<lambda>(n, fcs). (nn, n, fcs)) data) ls)"

fun mix_flat :: "protolib \<Rightarrow> OptimizedStore \<Rightarrow> (NamespacedName \<times> string \<times> FilterChain list) list
    \<Rightarrow> (string, resmap) gomap \<Rightarrow> (string, resmap) gomap res" where
  "mix_flat lib st [] result = Inr result"
| "mix_flat lib st ((nn, n, fcs) # rest) result =
     (case mix_listener lib (GetListener st nn) nn n fcs result of
        Inl err \<Rightarrow> Inl err
      | Inr result \<Rightarrow> mix_flat lib st rest result)"

lemma mix_flat_append:
  "mix_flat lib st (xs @ ys) result =
     (case mix_flat lib st xs result of Inl e \<Rightarrow> Inl e | Inr r \<Rightarrow> mix_flat lib st ys r)"
  by (induction xs arbitrary: result) (auto split: sum.split)

lemma mix_nodes_flat:
  "mix_nodes lib (GetListener st nn) nn data result =
     mix_flat lib st (map (\<lambda>(n, fcs). (nn, n, fcs)) data) result"
  by (induction data arbitrary: result) (auto split: sum.split)

lemma mix_listeners_flat: "mix_listeners lib st ls result = mix_flat lib st (flat ls) result"
  by (induction ls arbitrary: result) (auto simp: flat_def mix_flat_append mix_nodes_flat split: sum.split)

definition add_listener :: "ListenerV3 \<Rightarrow> string \<Rightarrow> (string \<Rightarrow> (rtype \<Rightarrow> Resource list option) option)
    \<Rightarrow> (string \<Rightarrow> (rtype \<Rightarrow> Resource list option) option)" where
  "add_listener lv3 n v =
     v(n \<mapsto> (case v n of
         None \<Rightarrow> [ListenerType \<mapsto> [ResL lv3]]
       | Some f \<Rightarrow> f(ListenerType \<mapsto> (case f ListenerType of None \<Rightarrow> [] | Some rs \<Rightarrow> rs) @ [ResL lv3])))"

lemma mix_listener_view:
  "(case mixed lib st nn fcs of
      Inl e \<Rightarrow> mix_listener lib (GetListener st nn) nn n fcs result = Inl e
    | Inr lv3 \<Rightarrow> \<exists>r. mix_listener lib (GetListener st nn) nn n fcs result = Inr r
        \<and> view r = add_listener lv3 n (view result))"
  by (auto simp: mixed_def mix_listener_def Let_def view_def add_listener_def fun_eq_iff gm_get_def
      split: option.split sum.split)

text \<open>The listeners of a node, in the order of the loop.\<close>

definition node_listeners :: "protolib \<Rightarrow> OptimizedStore
    \<Rightarrow> (NamespacedName \<times> string \<times> FilterChain list) list \<Rightarrow> string \<Rightarrow> Resource list" where
  "node_listeners lib st xs n =
     concat (map (\<lambda>(nn, n', fcs).
        if n' = n then (case mixed lib st nn fcs of Inl _ \<Rightarrow> [] | Inr lv3 \<Rightarrow> [ResL lv3]) else []) xs)"

definition listener_view :: "Resource list \<Rightarrow> (rtype \<Rightarrow> Resource list option) option" where
  "listener_view rs = (if rs = [] then None else Some [ListenerType \<mapsto> rs])"

lemma mix_flat_ok:
  "is_ok (mix_flat lib st xs result) \<longleftrightarrow> (\<forall>(nn, n, fcs) \<in> set xs. is_ok (mixed lib st nn fcs))"
proof (induction xs arbitrary: result)
  case (Cons x xs)
  obtain nn n fcs where x: "x = (nn, n, fcs)" by (cases x)
  show ?case
    using Cons.IH mix_listener_view [where lib = lib and st = st and nn = nn and fcs = fcs and n = n and result = result]
    by (cases "mixed lib st nn fcs") (auto simp: x)
qed simp

lemma mix_flat_view:
  assumes "mix_flat lib st xs result = Inr r"
    and "\<And>n. view result n = listener_view (pre n)"
  shows "view r n = listener_view (pre n @ node_listeners lib st xs n)"
  using assms
proof (induction xs arbitrary: result pre)
  case Nil
  then show ?case by (simp add: node_listeners_def)
next
  case (Cons x xs)
  obtain nn n' fcs where x: "x = (nn, n', fcs)" by (cases x)
  obtain lv3 where m: "mixed lib st nn fcs = Inr lv3"
    using Cons.prems(1) mix_listener_view [where lib = lib and st = st and nn = nn and fcs = fcs and n = n' and result = result]
    by (cases "mixed lib st nn fcs") (auto simp: x)
  obtain r1 where r1: "mix_listener lib (GetListener st nn) nn n' fcs result = Inr r1"
    "view r1 = add_listener lv3 n' (view result)"
    using mix_listener_view [where lib = lib and st = st and nn = nn and fcs = fcs and n = n' and result = result] m by auto
  let ?pre = "\<lambda>k. pre k @ (if k = n' then [ResL lv3] else [])"
  have "view r1 k = listener_view (?pre k)" for k
    using Cons.prems(2) by (simp add: r1(2) add_listener_def listener_view_def)
  from Cons.IH [OF _ this] Cons.prems(1) r1(1) show ?case
    by (simp add: x node_listeners_def m)
qed

definition add_data :: "resmap \<Rightarrow> (rtype \<Rightarrow> Resource list option) option \<Rightarrow> (rtype \<Rightarrow> Resource list option) option" where
  "add_data d v = Some ((case v of None \<Rightarrow> Map.empty | Some f \<Rightarrow> f)
     (SecretType \<mapsto> gm_get [] d SecretType, ClusterType \<mapsto> gm_get [] d ClusterType,
      RouteType \<mapsto> gm_get [] d RouteType))"

lemma mix_data_view:
  assumes "gm_wf data"
  shows "view (mix_data data result) n =
    (case map_of data n of None \<Rightarrow> view result n | Some d \<Rightarrow> add_data d (view result n))"
  using assms
proof (induction data arbitrary: result)
  case (Cons p data)
  obtain k d where p: "p = (k, d)" by (cases p)
  have wf: "gm_wf data" and k: "map_of data k = None"
    using Cons.prems by (auto simp: p gm_wf_def map_of_eq_None_iff)
  let ?r = "gm_put k (gm_put RouteType (gm_get [] d RouteType) (gm_put ClusterType (gm_get [] d ClusterType)
      (gm_put SecretType (gm_get [] d SecretType) (gm_get [] result k)))) result"
  have step: "mix_data ((k, d) # data) result = mix_data data ?r"
    by (simp add: mix_data_def Let_def)
  have "view ?r n = (if n = k then add_data d (view result n) else view result n)"
    by (auto simp: view_def add_data_def gm_get_def split: option.split)
  with Cons.IH [OF wf, of ?r] k show ?case
    unfolding p step by (cases "n = k") (simp_all split: option.split)
qed (simp add: mix_data_def)

lemma map_of_map_snd: "map_of (map (\<lambda>(k, v). (k, f v)) m) k = map_option f (map_of m k)"
  by (induction m) auto

lemma sort_view:
  "view (map (\<lambda>(n, r). (n, sort_node r)) m) n = map_option (\<lambda>f t. map_option sortResources (f t)) (view m n)"
  by (cases "map_of m n") (simp_all add: view_def map_of_map_snd sort_node_def fun_eq_iff)

text \<open>What Mix answers for a node and a type.\<close>

definition mix_spec :: "protolib \<Rightarrow> Mixer \<Rightarrow> OptimizedStore \<Rightarrow> string
    \<Rightarrow> (rtype \<Rightarrow> Resource list option) option" where
  "mix_spec lib m st n =
     map_option (\<lambda>f t. map_option sortResources (f t))
       (let ls = listener_view (node_listeners lib st (flat (mx_listeners m)) n)
        in case map_of (mx_data m) n of None \<Rightarrow> ls | Some d \<Rightarrow> add_data d ls)"

lemma Mix_view:
  assumes "gm_wf (mx_data m)"
  shows "is_ok (Mix lib m st) \<longleftrightarrow> (\<forall>(nn, n, fcs) \<in> set (flat (mx_listeners m)). is_ok (mixed lib st nn fcs))"
    and "Mix lib m st = Inr r \<Longrightarrow> view r = mix_spec lib m st"
proof -
  note flat_ok = mix_flat_ok [of lib st "flat (mx_listeners m)" "[]"]
  show "is_ok (Mix lib m st) \<longleftrightarrow> (\<forall>(nn, n, fcs) \<in> set (flat (mx_listeners m)). is_ok (mixed lib st nn fcs))"
    unfolding flat_ok [symmetric] Mix_def mix_listeners_flat by (simp split: sum.split)
  assume "Mix lib m st = Inr r"
  then obtain r1 where r1: "mix_flat lib st (flat (mx_listeners m)) [] = Inr r1"
    and r: "r = map (\<lambda>(n, r). (n, sort_node r)) (mix_data (mx_data m) r1)"
    by (auto simp: Mix_def mix_listeners_flat split: sum.splits)
  have "view r1 n = listener_view ([] @ node_listeners lib st (flat (mx_listeners m)) n)" for n
    by (rule mix_flat_view [OF r1]) (simp add: view_def listener_view_def)
  then show "view r = mix_spec lib m st"
    by (simp add: fun_eq_iff r sort_view mix_data_view [OF assms] mix_spec_def Let_def
        cong: option.case_cong)
qed

section \<open>Determinism\<close>

definition fcs_at :: "Mixer \<Rightarrow> NamespacedName \<Rightarrow> string \<Rightarrow> FilterChain list option" where
  "fcs_at m nn n = Option.bind (map_of (mx_listeners m) nn) (\<lambda>d. map_of d n)"

definition mixer_wf :: "Mixer \<Rightarrow> bool" where
  "mixer_wf m \<longleftrightarrow> gm_wf (mx_data m) \<and> gm_wf (mx_listeners m) \<and>
     (\<forall>nn d. map_of (mx_listeners m) nn = Some d \<longrightarrow> gm_wf d)"

text \<open>
  The conditions the comments of the source state: names are unique among the filter chains of
  a listener and node, and among the resources of one type of a node. Namespaces are as
  Kubernetes allows them.
\<close>

definition mixer_names_ok :: "Mixer \<Rightarrow> bool" where
  "mixer_names_ok m \<longleftrightarrow>
     (\<forall>nn n fcs. fcs_at m nn n = Some fcs \<longrightarrow> distinct (map fc_Name fcs) \<and>
        Namespace nn \<noteq> [] \<and> CHR ''/'' \<notin> set (Namespace nn)) \<and>
     (\<forall>n d t. map_of (mx_data m) n = Some d \<longrightarrow> distinct (map resource_name (gm_get [] d t)))"

text \<open>Two mixers that collected the same things, perhaps in another order.\<close>

definition same_contents :: "Mixer \<Rightarrow> Mixer \<Rightarrow> bool" where
  "same_contents m m' \<longleftrightarrow>
     (\<forall>nn n. rel_option (\<lambda>a b. mset a = mset b) (fcs_at m nn n) (fcs_at m' nn n)) \<and>
     (\<forall>n. rel_option (\<lambda>d d'. \<forall>t. mset (gm_get [] d t) = mset (gm_get [] d' t))
        (map_of (mx_data m) n) (map_of (mx_data m') n))"

lemma sort_slice_short: "length xs < 2 \<Longrightarrow> sort_slice lt xs = xs"
  by (cases xs; cases "tl xs") auto

lemma sortFilterChains_eq: "sortFilterChains fcs = sort_slice (\<lambda>a b. fc_Name a < fc_Name b) fcs"
  by (simp add: sortFilterChains_def sort_slice_short)

lemma sortResources_eq: "sortResources rs = sort_slice (\<lambda>a b. resource_name a < resource_name b) rs"
  by (simp add: sortResources_def sort_slice_short)

lemma sortFilterChains_perm:
  "mset a = mset b \<Longrightarrow> distinct (map fc_Name a) \<Longrightarrow> sortFilterChains a = sortFilterChains b"
  unfolding sortFilterChains_eq by (rule sort_slice_perm [where f = fc_Name]) (auto simp: distinct_map)

lemma sortResources_perm:
  "mset a = mset b \<Longrightarrow> distinct (map resource_name a) \<Longrightarrow> sortResources a = sortResources b"
  unfolding sortResources_eq by (rule sort_slice_perm [where f = resource_name]) (auto simp: distinct_map)

lemma set_flat:
  assumes "mixer_wf m"
  shows "(nn, n, fcs) \<in> set (flat (mx_listeners m)) \<longleftrightarrow> fcs_at m nn n = Some fcs"
proof -
  have "(nn, n, fcs) \<in> set (flat (mx_listeners m)) \<longleftrightarrow>
      (\<exists>d. (nn, d) \<in> set (mx_listeners m) \<and> (n, fcs) \<in> set d)"
    by (force simp: flat_def)
  also have "\<dots> \<longleftrightarrow> fcs_at m nn n = Some fcs"
    using assms by (auto simp: fcs_at_def mixer_wf_def gm_mem_iff bind_eq_Some_conv)
  finally show ?thesis .
qed

lemma flat_Cons: "flat ((nn, d) # ls) = map (\<lambda>(n, fcs). (nn, n, fcs)) d @ flat ls"
  by (simp add: flat_def)

lemma filter_node:
  "gm_wf d \<Longrightarrow> filter (\<lambda>x. fst (snd x) = n) (map (\<lambda>(n', fcs). (nn, n', fcs)) d) =
     (case map_of d n of None \<Rightarrow> [] | Some fcs \<Rightarrow> [(nn, n, fcs)])"
proof (induction d)
  case (Cons q d)
  then show ?case
    by (cases q) (force simp: gm_wf_def map_of_eq_None_iff filter_empty_conv split: option.split)
qed simp

lemma distinct_flat_nn:
  assumes "mixer_wf m"
  shows "distinct (map fst (filter (\<lambda>x. fst (snd x) = n) (flat (mx_listeners m))))"
proof -
  have "distinct (map fst (filter (\<lambda>x. fst (snd x) = n) (flat ls)))
      \<and> fst ` set (filter (\<lambda>x. fst (snd x) = n) (flat ls)) \<subseteq> fst ` set ls"
    if "gm_wf ls" "\<forall>(nn, d) \<in> set ls. gm_wf d" for ls
    using that
  proof (induction ls)
    case Nil
    then show ?case by (simp add: flat_def)
  next
    case (Cons p ls)
    obtain nn d where p: "p = (nn, d)" by (cases p)
    have "gm_wf d" using Cons.prems(2) by (simp add: p)
    have nn: "nn \<notin> fst ` set ls" and wf: "gm_wf ls" using Cons.prems(1) by (auto simp: p gm_wf_def)
    have "distinct (map fst (filter (\<lambda>x. fst (snd x) = n) (flat ls)))"
      and sub: "fst ` set (filter (\<lambda>x. fst (snd x) = n) (flat ls)) \<subseteq> fst ` set ls"
      using Cons.IH [OF wf] Cons.prems(2) by auto
    moreover have "nn \<notin> fst ` set (filter (\<lambda>x. fst (snd x) = n) (flat ls))" using nn sub by blast
    moreover have "filter (\<lambda>x. fst (snd x) = n) (flat (p # ls)) =
        (case map_of d n of None \<Rightarrow> [] | Some fcs \<Rightarrow> [(nn, n, fcs)]) @ filter (\<lambda>x. fst (snd x) = n) (flat ls)"
      unfolding p flat_Cons filter_append filter_node [OF \<open>gm_wf d\<close>] ..
    ultimately show ?case by (cases "map_of d n") (auto simp: p)
  qed
  moreover have "\<forall>(nn, d) \<in> set (mx_listeners m). gm_wf d"
    using assms by (auto simp: mixer_wf_def gm_mem_iff)
  ultimately show ?thesis using assms by (simp add: mixer_wf_def)
qed

lemma mixed_name: "mixed lib st nn fcs = Inr lv3 \<Longrightarrow> lv3_Name lv3 = NamespacedName_String nn"
  by (auto simp: mixed_def split: option.splits sum.splits)

lemma mixed_cong: "sortFilterChains a = sortFilterChains b \<Longrightarrow> mixed lib st nn a = mixed lib st nn b"
  by (simp add: mixed_def cong: option.case_cong sum.case_cong)

lemma node_listeners_names:
  assumes "mixer_wf m" "mixer_names_ok m"
    and ok: "\<forall>(nn, n, fcs) \<in> set (flat (mx_listeners m)). is_ok (mixed lib st nn fcs)"
  shows "distinct (map resource_name (node_listeners lib st (flat (mx_listeners m)) n))"
proof -
  let ?xs = "filter (\<lambda>x. fst (snd x) = n) (flat (mx_listeners m))"
  have names: "map resource_name (node_listeners lib st xs n) =
      map (NamespacedName_String \<circ> fst) (filter (\<lambda>x. fst (snd x) = n) xs)"
    if "\<forall>(nn, n, fcs) \<in> set xs. is_ok (mixed lib st nn fcs)" for xs
    using that
    by (induction xs) (auto simp: node_listeners_def is_ok_iff mixed_name)
  have "inj_on NamespacedName_String (fst ` set ?xs)"
  proof (rule inj_onI)
    fix a b assume "a \<in> fst ` set ?xs" "b \<in> fst ` set ?xs" "NamespacedName_String a = NamespacedName_String b"
    moreover have "Namespace c \<noteq> [] \<and> CHR ''/'' \<notin> set (Namespace c)" if "c \<in> fst ` set ?xs" for c
      using that assms(2) set_flat [OF assms(1)] unfolding mixer_names_ok_def by fastforce
    ultimately have "Namespace a = Namespace b \<and> Name a = Name b"
      using NamespacedName_String_inject [of a b] by (simp add: effective_ns_def)
    then show "a = b" by simp
  qed
  with distinct_flat_nn [OF assms(1), of n] have "distinct (map NamespacedName_String (map fst ?xs))"
    by (simp add: distinct_map comp_inj_on_iff [symmetric] image_image)
  then show ?thesis unfolding names [OF ok] by simp
qed

lemma mem_node_listeners:
  "x \<in> set (node_listeners lib st xs n) \<longleftrightarrow>
     (\<exists>nn fcs lv3. (nn, n, fcs) \<in> set xs \<and> mixed lib st nn fcs = Inr lv3 \<and> x = ResL lv3)"
  (is "?l \<longleftrightarrow> ?r")
proof -
  define F where "F = (\<lambda>(nn, n', fcs). if n' = n then (case mixed lib st nn fcs of
      Inl _ \<Rightarrow> [] | Inr lv3 \<Rightarrow> [ResL lv3]) else [])"
  have F: "F (nn, n', fcs) = (if n' = n then (case mixed lib st nn fcs of
      Inl _ \<Rightarrow> [] | Inr lv3 \<Rightarrow> [ResL lv3]) else [])" for nn n' fcs
    unfolding F_def prod.case ..
  have nl: "node_listeners lib st xs n = concat (map F xs)" unfolding node_listeners_def F_def ..
  show ?thesis
  proof
    assume ?l
    then obtain z where z: "z \<in> set xs" "x \<in> set (F z)" unfolding nl by auto
    obtain nn n' fcs where z': "z = (nn, n', fcs)" by (rule prod_cases3)
    show ?r
    proof (cases "n' = n \<and> is_ok (mixed lib st nn fcs)")
      case True
      then obtain lv3 where lv3: "n' = n" "mixed lib st nn fcs = Inr lv3" by (auto simp: is_ok_iff)
      then have "F z = [ResL lv3]" by (simp add: z' F)
      with z lv3 show ?thesis unfolding z' by (intro exI [of _ nn] exI [of _ fcs] exI [of _ lv3]) simp
    next
      case False
      then have "F z = []" by (auto simp: z' F is_ok_iff split: sum.split)
      with z show ?thesis by simp
    qed
  next
    assume ?r
    then obtain nn fcs lv3 where y: "(nn, n, fcs) \<in> set xs" "mixed lib st nn fcs = Inr lv3" "x = ResL lv3"
      by metis
    then have "F (nn, n, fcs) = [x]" by (simp add: F)
    with y(1) show ?l unfolding nl set_concat set_map by (metis UN_I image_eqI list.set_intros(1))
  qed
qed

lemma set_node_listeners:
  assumes "mixer_wf m"
  shows "set (node_listeners lib st (flat (mx_listeners m)) n) =
    {ResL lv3 | lv3 nn fcs. fcs_at m nn n = Some fcs \<and> mixed lib st nn fcs = Inr lv3}"
  unfolding set_eq_iff mem_Collect_eq mem_node_listeners set_flat [OF assms] by metis

lemma node_listeners_sub:
  assumes "mixer_wf m" "mixer_wf m'"
    and "\<And>nn b. fcs_at m' nn n = Some b \<Longrightarrow>
      \<exists>a. fcs_at m nn n = Some a \<and> mixed lib st nn a = mixed lib st nn b"
  shows "set (node_listeners lib st (flat (mx_listeners m')) n)
    \<subseteq> set (node_listeners lib st (flat (mx_listeners m)) n)"
proof
  fix x assume "x \<in> set (node_listeners lib st (flat (mx_listeners m')) n)"
  then obtain lv3 nn b where x: "x = ResL lv3" "fcs_at m' nn n = Some b" "mixed lib st nn b = Inr lv3"
    unfolding set_node_listeners [OF assms(2)] by blast
  from assms(3) [OF x(2)] obtain a where "fcs_at m nn n = Some a" "mixed lib st nn a = Inr lv3"
    using x(3) by metis
  with x(1) show "x \<in> set (node_listeners lib st (flat (mx_listeners m)) n)"
    unfolding set_node_listeners [OF assms(1)] by blast
qed

lemma rel_option_symD: "rel_option R x y \<Longrightarrow> (\<And>a b. R a b \<Longrightarrow> S b a) \<Longrightarrow> rel_option S y x"
  by (cases x; cases y) auto

lemma same_contents_sym: "same_contents m m' \<Longrightarrow> same_contents m' m"
  unfolding same_contents_def by (intro conjI allI; elim conjE allE; erule rel_option_symD; simp)

lemma same_contents_names:
  assumes "same_contents m m'" "mixer_names_ok m"
  shows "mixer_names_ok m'"
  unfolding mixer_names_ok_def
proof (intro conjI allI impI)
  fix nn n b assume b: "fcs_at m' nn n = Some b"
  have "rel_option (\<lambda>a b. mset a = mset b) (fcs_at m nn n) (fcs_at m' nn n)"
    using assms(1) by (simp add: same_contents_def)
  with b obtain a where a: "fcs_at m nn n = Some a" "mset a = mset b" by (cases "fcs_at m nn n") auto
  with assms(2) have "distinct (map fc_Name a)" "Namespace nn \<noteq> [] \<and> CHR ''/'' \<notin> set (Namespace nn)"
    by (auto simp: mixer_names_ok_def)
  with a(2) show "distinct (map fc_Name b)" "Namespace nn \<noteq> []" "CHR ''/'' \<notin> set (Namespace nn)"
    by (metis mset_eq_imp_distinct_iff mset_map, simp_all)
next
  fix n d' t assume d': "map_of (mx_data m') n = Some d'"
  have "rel_option (\<lambda>d d'. \<forall>t. mset (gm_get [] d t) = mset (gm_get [] d' t))
      (map_of (mx_data m) n) (map_of (mx_data m') n)"
    using assms(1) by (simp add: same_contents_def)
  with d' obtain d where d: "map_of (mx_data m) n = Some d" "mset (gm_get [] d t) = mset (gm_get [] d' t)"
    by (cases "map_of (mx_data m) n") auto
  with assms(2) have "distinct (map resource_name (gm_get [] d t))" by (auto simp: mixer_names_ok_def)
  with d(2) show "distinct (map resource_name (gm_get [] d' t))"
    by (metis mset_eq_imp_distinct_iff mset_map)
qed

lemma same_chains:
  assumes "same_contents m m'" "mixer_names_ok m" "fcs_at m' nn n = Some b"
  shows "\<exists>a. fcs_at m nn n = Some a \<and> mixed lib st nn a = mixed lib st nn b"
proof -
  have "rel_option (\<lambda>a b. mset a = mset b) (fcs_at m nn n) (fcs_at m' nn n)"
    using assms(1) by (simp add: same_contents_def)
  with assms(3) obtain a where a: "fcs_at m nn n = Some a" "mset a = mset b" by (cases "fcs_at m nn n") auto
  moreover from a assms(2) have "distinct (map fc_Name a)" by (auto simp: mixer_names_ok_def)
  ultimately have "sortFilterChains a = sortFilterChains b" by (intro sortFilterChains_perm)
  with a(1) show ?thesis by (blast intro: mixed_cong)
qed


definition toy_chain :: "string \<Rightarrow> FilterChain" where
  "toy_chain n = \<lparr>fc_Name = n, fc_Filters = [], fc_ServerNames = None, fc_TransportSocket = None, fc_body = []\<rparr>"

definition toy_listener :: Listener where
  "toy_listener = \<lparr>l_meta = empty_meta\<lparr>m_Name := ''https'', m_Namespace := ''prod''\<rparr>, l_Spec = Some \<lparr>Raw = Some ''{}'', Object = None\<rparr>\<rparr>"

definition toy_mixer :: "string list \<Rightarrow> string list \<Rightarrow> Mixer" where
  "toy_mixer cs ds =
     foldl (\<lambda>m c. Mixer_Add m ''edge'' ClusterType (ResC \<lparr>cv3_Name = c, cv3_body = []\<rparr>))
       (AddListenerParams NewMixer (NN ''prod'' ''https'') (map toy_chain cs) ''edge'') ds"


end
