(* ===== verification/Snapshot.thy ===== *)
theory Snapshot
  imports Loops Mixer
begin

text \<open>
  The snapshot cache of \<^verbatim>\<open>internal/xds/cache/wrapper.go\<close> and the snapshot versioning of
  \<^verbatim>\<open>internal/xds/updater/updater.go\<close> (\<open>updateSnapshot\<close>, \<open>checkResourcesChanged\<close>).
  The wrapped cache and its snapshots come from the package go-control-plane; what the code
  calls of it is the record \<open>cplib\<close>, an argument of every operation. What the code relies on is
  \<open>cplib_ok\<close>, the documented behaviour of those calls.
\<close>

section \<open>Snapshots\<close>

text \<open>A group of resources of one type: its version, and the resources by name.\<close>

record ResGroup =
  rg_Version :: string
  rg_Items :: "(string, Resource) gomap"

definition zero_group :: ResGroup where
  "zero_group = \<lparr>rg_Version = [], rg_Items = []\<rparr>"

text \<open>\<open>cache.Snapshot\<close>: an array of groups, indexed by type.\<close>

type_synonym Snapshot = "rtype \<Rightarrow> ResGroup"

definition empty_snapshot :: Snapshot where
  "empty_snapshot = (\<lambda>_. zero_group)"

definition GetVersion :: "Snapshot \<Rightarrow> rtype \<Rightarrow> string" where
  "GetVersion s t = rg_Version (s t)"

definition GetResources :: "Snapshot \<Rightarrow> rtype \<Rightarrow> (string, Resource) gomap" where
  "GetResources s t = rg_Items (s t)"

text \<open>
  The calls into go-control-plane and into \<open>proto\<close> and \<open>sha256\<close>; \<open>'c\<close> is the state of the
  wrapped cache. \<open>cp_known\<close> tells whether \<open>GetResponseType\<close> knows a type,
  \<open>cp_type_url\<close> is the name of a type.
\<close>

record 'c cplib =
  cp_NewSnapshotCache :: 'c
  cp_SetSnapshot :: "'c \<Rightarrow> string \<Rightarrow> Snapshot \<Rightarrow> goerr option \<times> 'c"
  cp_GetSnapshot :: "'c \<Rightarrow> string \<Rightarrow> Snapshot res"
  cp_ClearSnapshot :: "'c \<Rightarrow> string \<Rightarrow> 'c"
  cp_known :: "rtype \<Rightarrow> bool"
  cp_type_url :: "rtype \<Rightarrow> string"
  cp_NewResources :: "string \<Rightarrow> Resource list \<Rightarrow> ResGroup"
  cp_NewSnapshot :: "string \<Rightarrow> resmap \<Rightarrow> Snapshot res"
  cp_Consistent :: "Snapshot \<Rightarrow> goerr option"
  cp_Marshal :: "Resource \<Rightarrow> bytes res"
  cp_sha256_hex :: "bytes \<Rightarrow> string"

definition by_name :: "Resource list \<Rightarrow> string \<Rightarrow> Resource option" where
  "by_name rs = map_of (rev (map (\<lambda>r. (resource_name r, r)) rs))"

text \<open>
  What the code relies on: a new cache is empty and the cache keeps a snapshot per node, where an
  update that reports an error may or may not have taken place; a group made of a list holds
  the resources of the list by name, the last one where names repeat; a new snapshot has a group
  for every type it is given; the four types the controller uses are known.
\<close>

definition cplib_ok :: "'c cplib \<Rightarrow> bool" where
  "cplib_ok cp \<longleftrightarrow>
     (\<forall>c n s c'. cp_SetSnapshot cp c n s = (None, c') \<longrightarrow> cp_GetSnapshot cp c' n = Inr s) \<and>
     (\<forall>c n s. cp_GetSnapshot cp (snd (cp_SetSnapshot cp c n s)) n \<in> {Inr s, cp_GetSnapshot cp c n}) \<and>
     (\<forall>c n s m. m \<noteq> n \<longrightarrow> cp_GetSnapshot cp (snd (cp_SetSnapshot cp c n s)) m = cp_GetSnapshot cp c m) \<and>
     (\<forall>n. \<not> is_ok (cp_GetSnapshot cp (cp_NewSnapshotCache cp) n)) \<and>
     (\<forall>c n. \<not> is_ok (cp_GetSnapshot cp (cp_ClearSnapshot cp c n) n)) \<and>
     (\<forall>c n m. m \<noteq> n \<longrightarrow> cp_GetSnapshot cp (cp_ClearSnapshot cp c n) m = cp_GetSnapshot cp c m) \<and>
     (\<forall>t. cp_known cp t) \<and>
     (\<forall>v rs. rg_Version (cp_NewResources cp v rs) = v \<and>
        gm_wf (rg_Items (cp_NewResources cp v rs)) \<and>
        map_of (rg_Items (cp_NewResources cp v rs)) = by_name rs) \<and>
     (\<forall>v rm. cp_NewSnapshot cp v rm = Inr (\<lambda>t. case map_of rm t of
        None \<Rightarrow> zero_group | Some rs \<Rightarrow> cp_NewResources cp v rs))"

section \<open>The cache wrapper\<close>

record 'c SnapshotCache =
  sc_cache :: 'c
  sc_nodeIDs :: strset

definition NewSnapshotCache :: "'c cplib \<Rightarrow> 'c SnapshotCache" where
  "NewSnapshotCache cp = \<lparr>sc_cache = cp_NewSnapshotCache cp, sc_nodeIDs = []\<rparr>"

text \<open>A failed type assertion panics.\<close>

definition cast_panic :: goerr where
  "cast_panic = Err ''panic: interface conversion''"

definition getListenersFromSnapshot :: "Snapshot \<Rightarrow> ListenerV3 list res" where
  "getListenersFromSnapshot snapshot =
     map_res (\<lambda>(_, r). case r of ResL l \<Rightarrow> Inr l | _ \<Rightarrow> Inl cast_panic) (GetResources snapshot ListenerType)"

text \<open>The getters of the messages return zero values for what is not set.\<close>

definition GetSocketAddress_Address :: "ListenerV3 \<Rightarrow> string" where
  "GetSocketAddress_Address l =
     (case Option.bind (lv3_Address l) addr_SocketAddress of None \<Rightarrow> [] | Some sa \<Rightarrow> sa_Address sa)"

definition GetSocketAddress_PortValue :: "ListenerV3 \<Rightarrow> 32 word" where
  "GetSocketAddress_PortValue l =
     (case Option.bind (lv3_Address l) addr_SocketAddress of None \<Rightarrow> 0 | Some sa \<Rightarrow> sa_PortValue sa)"

definition hostPort :: "ListenerV3 \<Rightarrow> string" where
  "hostPort l = GetSocketAddress_Address l @ '':'' @ itoa (unat (GetSocketAddress_PortValue l))"

fun validateCache_loop :: "ListenerV3 list \<Rightarrow> (string, string) gomap \<Rightarrow> goerr option" where
  "validateCache_loop [] addressListener = None"
| "validateCache_loop (listener # ls) addressListener =
     (case map_of addressListener (hostPort listener) of
        Some existListener \<Rightarrow>
          Some (Err (quoted (lv3_Name listener) @ '' has duplicate address '' @ quoted (hostPort listener) @
            '' as existing listener '' @ quoted existListener))
      | None \<Rightarrow> validateCache_loop ls (gm_put (hostPort listener) (lv3_Name listener) addressListener))"

definition validateCache :: "Snapshot \<Rightarrow> goerr option" where
  "validateCache snapshot =
     (case getListenersFromSnapshot snapshot of
        Inl p \<Rightarrow> Some p
      | Inr ls \<Rightarrow> validateCache_loop ls [])"

text \<open>The node is recorded before the snapshot is looked at.\<close>

definition SetSnapshot :: "'c cplib \<Rightarrow> 'c SnapshotCache \<Rightarrow> string \<Rightarrow> Snapshot
    \<Rightarrow> goerr option \<times> 'c SnapshotCache" where
  "SetSnapshot cp c nodeID snapshot =
     (let c = c\<lparr>sc_nodeIDs := gm_put nodeID () (sc_nodeIDs c)\<rparr>
      in case validateCache snapshot of
           Some err \<Rightarrow> (Some (Wrap ''snapshot is invalid'' err), c)
         | None \<Rightarrow>
             (case cp_SetSnapshot cp (sc_cache c) nodeID snapshot of
                (err, inner) \<Rightarrow> (err, c\<lparr>sc_cache := inner\<rparr>)))"

definition GetSnapshot :: "'c cplib \<Rightarrow> 'c SnapshotCache \<Rightarrow> string \<Rightarrow> Snapshot res" where
  "GetSnapshot cp c nodeID = cp_GetSnapshot cp (sc_cache c) nodeID"

definition ClearSnapshot :: "'c cplib \<Rightarrow> 'c SnapshotCache \<Rightarrow> string \<Rightarrow> 'c SnapshotCache" where
  "ClearSnapshot cp c nodeID =
     c\<lparr>sc_nodeIDs := gm_del nodeID (sc_nodeIDs c), sc_cache := cp_ClearSnapshot cp (sc_cache c) nodeID\<rparr>"

definition GetNodeIDsAsMap :: "'c SnapshotCache \<Rightarrow> strset" where
  "GetNodeIDsAsMap c = gm_copy_into (sc_nodeIDs c) []"

definition SnapshotCache_GetNodeIDs :: "'c SnapshotCache \<Rightarrow> string list" where
  "SnapshotCache_GetNodeIDs c = map fst (sc_nodeIDs c)"

definition GetClusters :: "'c cplib \<Rightarrow> 'c SnapshotCache \<Rightarrow> string \<Rightarrow> ClusterV3 list res" where
  "GetClusters cp c nodeID =
     and_then (GetSnapshot cp c nodeID) (\<lambda>snapshot.
       map_res (\<lambda>(_, r). case r of ResC x \<Rightarrow> Inr x | _ \<Rightarrow> Inl cast_panic) (GetResources snapshot ClusterType))"

definition GetSecrets :: "'c cplib \<Rightarrow> 'c SnapshotCache \<Rightarrow> string \<Rightarrow> SecretV3 list res" where
  "GetSecrets cp c nodeID =
     and_then (GetSnapshot cp c nodeID) (\<lambda>snapshot.
       map_res (\<lambda>(_, r). case r of ResS x \<Rightarrow> Inr x | _ \<Rightarrow> Inl cast_panic) (GetResources snapshot SecretType))"

definition GetRouteConfigurations :: "'c cplib \<Rightarrow> 'c SnapshotCache \<Rightarrow> string \<Rightarrow> RouteConfiguration list res" where
  "GetRouteConfigurations cp c nodeID =
     and_then (GetSnapshot cp c nodeID) (\<lambda>snapshot.
       map_res (\<lambda>(_, r). case r of ResR x \<Rightarrow> Inr x | _ \<Rightarrow> Inl cast_panic) (GetResources snapshot RouteType))"

definition GetListeners :: "'c cplib \<Rightarrow> 'c SnapshotCache \<Rightarrow> string \<Rightarrow> ListenerV3 list res" where
  "GetListeners cp c nodeID = and_then (GetSnapshot cp c nodeID) getListenersFromSnapshot"

definition GetVersions :: "'c cplib \<Rightarrow> 'c SnapshotCache \<Rightarrow> string \<Rightarrow> (string, string) gomap res" where
  "GetVersions cp c nodeID =
     and_then (GetSnapshot cp c nodeID) (\<lambda>snapshot. Inr (
       fold (\<lambda>(typ, typeURL) m. gm_put typ (GetVersion snapshot typeURL) m)
         [(''clusters'', ClusterType), (''routes'', RouteType), (''listeners'', ListenerType), (''secrets'', SecretType)]
         []))"

record ResourceVersion =
  rv_Name :: string
  rv_Version :: string

record ResourceVersions =
  rvs_Clusters :: "ResourceVersion list"
  rvs_Listeners :: "ResourceVersion list"
  rvs_Routes :: "ResourceVersion list"
  rvs_Secrets :: "ResourceVersion list"

definition computeResourceHash :: "'c cplib \<Rightarrow> Resource \<Rightarrow> string" where
  "computeResourceHash cp msg =
     (case cp_Marshal cp msg of Inl _ \<Rightarrow> ''error'' | Inr data \<Rightarrow> cp_sha256_hex cp data)"

definition computeResourceVersions :: "'c cplib \<Rightarrow> (string, Resource) gomap \<Rightarrow> ResourceVersion list" where
  "computeResourceVersions cp resources =
     map (\<lambda>(name, res). \<lparr>rv_Name = name, rv_Version = computeResourceHash cp res\<rparr>) resources"

definition GetResourceVersions :: "'c cplib \<Rightarrow> 'c SnapshotCache \<Rightarrow> string \<Rightarrow> ResourceVersions res" where
  "GetResourceVersions cp c nodeID =
     and_then (GetSnapshot cp c nodeID) (\<lambda>snapshot. Inr
       \<lparr>rvs_Clusters = computeResourceVersions cp (GetResources snapshot ClusterType),
        rvs_Listeners = computeResourceVersions cp (GetResources snapshot ListenerType),
        rvs_Routes = computeResourceVersions cp (GetResources snapshot RouteType),
        rvs_Secrets = computeResourceVersions cp (GetResources snapshot SecretType)\<rparr>)"

section \<open>Snapshot versions\<close>

definition checkResourcesChanged :: "(string, Resource) gomap \<Rightarrow> Resource list \<Rightarrow> bool" where
  "checkResourcesChanged prevRes newRes =
     (if length prevRes \<noteq> length newRes then True
      else list_ex (\<lambda>newR. case map_of prevRes (resource_name newR) of
             Some val \<Rightarrow> val \<noteq> newR
           | None \<Rightarrow> True) newRes)"

definition next_version :: "string \<Rightarrow> string" where
  "next_version version = Itoa (wrap64 (Atoi version + 1))"

fun updateSnapshot_loop :: "'c cplib \<Rightarrow> Snapshot \<Rightarrow> resmap \<Rightarrow> Snapshot \<Rightarrow> bool
    \<Rightarrow> (Snapshot \<times> bool) res" where
  "updateSnapshot_loop cp prevSnapshot [] snapshot hasChanges = Inr (snapshot, hasChanges)"
| "updateSnapshot_loop cp prevSnapshot ((typ, res) # resources) snapshot hasChanges =
     (if \<not> cp_known cp typ then Inl (Err (''unknown resource type: '' @ cp_type_url cp typ))
      else
        let version = GetVersion prevSnapshot typ;
            version = (if version = [] then ''0'' else version);
            changed = checkResourcesChanged (GetResources prevSnapshot typ) res;
            version = (if changed then next_version version else version)
        in updateSnapshot_loop cp prevSnapshot resources
             (snapshot(typ := cp_NewResources cp version res)) (hasChanges \<or> changed))"

definition updateSnapshot :: "'c cplib \<Rightarrow> Snapshot option \<Rightarrow> resmap \<Rightarrow> (Snapshot \<times> bool) res" where
  "updateSnapshot cp prevSnapshot resources =
     (case prevSnapshot of
        None \<Rightarrow> Inl (Err ''snapshot is nil'')
      | Some prev \<Rightarrow> updateSnapshot_loop cp prev resources empty_snapshot False)"

section \<open>Typed snapshots\<close>

fun typed_as :: "rtype \<Rightarrow> Resource \<Rightarrow> bool" where
  "typed_as ListenerType (ResL _) = True"
| "typed_as ClusterType (ResC _) = True"
| "typed_as RouteType (ResR _) = True"
| "typed_as SecretType (ResS _) = True"
| "typed_as _ _ = False"

definition snap_typed :: "Snapshot \<Rightarrow> bool" where
  "snap_typed s \<longleftrightarrow> (\<forall>t. \<forall>(n, r) \<in> set (GetResources s t). typed_as t r)"

definition resmap_typed :: "resmap \<Rightarrow> bool" where
  "resmap_typed rm \<longleftrightarrow> (\<forall>(t, rs) \<in> set rm. \<forall>r \<in> set rs. typed_as t r)"

lemma typed_as_ListenerType: "typed_as ListenerType r \<longleftrightarrow> (\<exists>x. r = ResL x)"
  and typed_as_ClusterType: "typed_as ClusterType r \<longleftrightarrow> (\<exists>x. r = ResC x)"
  and typed_as_RouteType: "typed_as RouteType r \<longleftrightarrow> (\<exists>x. r = ResR x)"
  and typed_as_SecretType: "typed_as SecretType r \<longleftrightarrow> (\<exists>x. r = ResS x)"
  by (cases r; simp)+

lemmas typed_as_iff = typed_as_ListenerType typed_as_ClusterType typed_as_RouteType typed_as_SecretType

lemma snap_typed_empty [simp]: "snap_typed empty_snapshot"
  by (simp add: snap_typed_def empty_snapshot_def GetResources_def zero_group_def)

lemma snap_typed_items: "snap_typed s \<Longrightarrow> (n, r) \<in> set (GetResources s t) \<Longrightarrow> typed_as t r"
  by (auto simp: snap_typed_def)

lemma casts_ok:
  assumes "snap_typed s"
  shows "is_ok (getListenersFromSnapshot s)"
    and "is_ok (map_res (\<lambda>(_, r). case r of ResC x \<Rightarrow> Inr x | _ \<Rightarrow> Inl cast_panic) (GetResources s ClusterType))"
    and "is_ok (map_res (\<lambda>(_, r). case r of ResS x \<Rightarrow> Inr x | _ \<Rightarrow> Inl cast_panic) (GetResources s SecretType))"
    and "is_ok (map_res (\<lambda>(_, r). case r of ResR x \<Rightarrow> Inr x | _ \<Rightarrow> Inl cast_panic) (GetResources s RouteType))"
  unfolding getListenersFromSnapshot_def is_ok_iff map_res_ok_iff
  using snap_typed_items [OF assms] by (fastforce simp: typed_as_iff)+

text \<open>The listeners of a snapshot, where it is typed.\<close>

definition listeners_of :: "Snapshot \<Rightarrow> ListenerV3 list" where
  "listeners_of s = [l. (_, ResL l) \<leftarrow> GetResources s ListenerType]"

lemma getListeners_eq: "snap_typed s \<Longrightarrow> getListenersFromSnapshot s = Inr (listeners_of s)"
proof -
  have "map_res (\<lambda>(_, r). case r of ResL l \<Rightarrow> Inr l | _ \<Rightarrow> Inl cast_panic) xs = Inr [l. (_, ResL l) \<leftarrow> xs]"
    if "\<forall>(n, r) \<in> set xs. typed_as ListenerType r" for xs :: "(string \<times> Resource) list"
    using that by (induction xs) (auto simp: typed_as_iff)
  then show "snap_typed s \<Longrightarrow> ?thesis"
    by (simp add: getListenersFromSnapshot_def listeners_of_def snap_typed_def)
qed

section \<open>Listener addresses\<close>

lemma itoa_no_colon: "CHR '':'' \<notin> set (itoa n)"
  using itoa_digits(1) [of n] by (auto simp: list_all_iff is_digit_def)

lemma last_sep_inject:
  assumes "a @ c # x = b @ c # y" "c \<notin> set x" "c \<notin> set y"
  shows "a = b \<and> x = y"
proof -
  have tail: "takeWhile (\<lambda>z. z \<noteq> c) (rev (u @ c # v)) = rev v" if "c \<notin> set v" for u v
    using that by (subst rev_append) (auto simp: takeWhile_append)
  from tail [OF assms(2), of a] tail [OF assms(3), of b] assms(1) have "rev x = rev y" by simp
  with assms(1) show ?thesis by simp
qed

lemma hostPort_inject:
  "hostPort l = hostPort l' \<longleftrightarrow>
     GetSocketAddress_Address l = GetSocketAddress_Address l' \<and>
     GetSocketAddress_PortValue l = GetSocketAddress_PortValue l'"
proof
  assume "hostPort l = hostPort l'"
  then show "GetSocketAddress_Address l = GetSocketAddress_Address l' \<and>
      GetSocketAddress_PortValue l = GetSocketAddress_PortValue l'"
    unfolding hostPort_def
    by (auto dest!: last_sep_inject simp: itoa_no_colon word_unat_eq_iff)
qed (simp add: hostPort_def)

definition socket_address :: "ListenerV3 \<Rightarrow> string \<times> 32 word" where
  "socket_address l = (GetSocketAddress_Address l, GetSocketAddress_PortValue l)"

lemma hostPort_iff: "hostPort l = hostPort l' \<longleftrightarrow> socket_address l = socket_address l'"
  by (simp add: hostPort_inject socket_address_def)

lemma validateCache_loop_None:
  "validateCache_loop ls seen = None \<longleftrightarrow>
     distinct (map socket_address ls) \<and> (\<forall>l \<in> set ls. map_of seen (hostPort l) = None)"
proof (induction ls arbitrary: seen)
  case (Cons l ls)
  then show ?case
    by (auto simp: hostPort_iff image_iff split: option.split)
qed simp

lemma validateCache_None:
  "snap_typed s \<Longrightarrow> validateCache s = None \<longleftrightarrow> distinct (map socket_address (listeners_of s))"
  by (simp add: validateCache_def getListeners_eq validateCache_loop_None)

section \<open>Laws of the wrapped cache\<close>

lemma cplib_ok_simps:
  assumes "cplib_ok cp"
  shows "cp_SetSnapshot cp c n s = (None, c') \<Longrightarrow> cp_GetSnapshot cp c' n = Inr s"
    and "m \<noteq> n \<Longrightarrow> cp_GetSnapshot cp (snd (cp_SetSnapshot cp c n s)) m = cp_GetSnapshot cp c m"
    and "\<not> is_ok (cp_GetSnapshot cp (cp_ClearSnapshot cp c n) n)"
    and "m \<noteq> n \<Longrightarrow> cp_GetSnapshot cp (cp_ClearSnapshot cp c n) m = cp_GetSnapshot cp c m"
    and "cp_known cp t"
    and "rg_Version (cp_NewResources cp v rs) = v"
    and "gm_wf (rg_Items (cp_NewResources cp v rs))"
    and "map_of (rg_Items (cp_NewResources cp v rs)) = by_name rs"
    and "cp_NewSnapshot cp v rm = Inr (\<lambda>t. case map_of rm t of
        None \<Rightarrow> zero_group | Some rs \<Rightarrow> cp_NewResources cp v rs)"
    and "cp_GetSnapshot cp (snd (cp_SetSnapshot cp c n s)) n \<in> {Inr s, cp_GetSnapshot cp c n}"
    and "\<not> is_ok (cp_GetSnapshot cp (cp_NewSnapshotCache cp) n)"
  using assms by (simp_all add: cplib_ok_def)

lemma SetSnapshot_nodeIDs: "sc_nodeIDs (snd (SetSnapshot cp c n s)) = gm_put n () (sc_nodeIDs c)"
  by (simp add: SetSnapshot_def Let_def split: option.split prod.split)

lemma SetSnapshot_other:
  "cplib_ok cp \<Longrightarrow> m \<noteq> n \<Longrightarrow> GetSnapshot cp (snd (SetSnapshot cp c n s)) m = GetSnapshot cp c m"
  using cplib_ok_simps(2) [of cp m n "sc_cache c" s]
  by (cases "cp_SetSnapshot cp (sc_cache c) n s") (simp add: SetSnapshot_def GetSnapshot_def Let_def split: option.split)

lemma SetSnapshot_invalid:
  "validateCache s = Some e \<Longrightarrow> SetSnapshot cp c n s =
     (Some (Wrap ''snapshot is invalid'' e), c\<lparr>sc_nodeIDs := gm_put n () (sc_nodeIDs c)\<rparr>)"
  by (simp add: SetSnapshot_def)

lemma SetSnapshot_stored:
  "cplib_ok cp \<Longrightarrow> SetSnapshot cp c n s = (None, c') \<Longrightarrow> GetSnapshot cp c' n = Inr s"
  by (auto simp: SetSnapshot_def GetSnapshot_def Let_def split: option.splits prod.splits
      intro: cplib_ok_simps(1))

lemma SetSnapshot_ok_valid: "SetSnapshot cp c n s = (None, c') \<Longrightarrow> validateCache s = None"
  by (auto simp: SetSnapshot_def Let_def split: option.splits)

text \<open>An instance of the library: snapshots in an association list, groups built by name.\<close>

definition toy_group :: "string \<Rightarrow> Resource list \<Rightarrow> ResGroup" where
  "toy_group v rs = \<lparr>rg_Version = v, rg_Items = fold (\<lambda>r m. gm_put (resource_name r) r m) rs []\<rparr>"

definition toy_cp :: "(string, Snapshot) gomap cplib" where
  "toy_cp = \<lparr>cp_NewSnapshotCache = [],
     cp_SetSnapshot = (\<lambda>c n s. (None, gm_put n s c)),
     cp_GetSnapshot = (\<lambda>c n. case map_of c n of None \<Rightarrow> Inl (Err ''no snapshot'') | Some s \<Rightarrow> Inr s),
     cp_ClearSnapshot = (\<lambda>c n. gm_del n c),
     cp_known = (\<lambda>_. True), cp_type_url = (\<lambda>_. []),
     cp_NewResources = toy_group,
     cp_NewSnapshot = (\<lambda>v rm. Inr (\<lambda>t. case map_of rm t of None \<Rightarrow> zero_group | Some rs \<Rightarrow> toy_group v rs)),
     cp_Consistent = (\<lambda>_. None),
     cp_Marshal = (\<lambda>r. Inr (resource_name r)), cp_sha256_hex = (\<lambda>b. b)\<rparr>"

lemma toy_group_items:
  "gm_wf m \<Longrightarrow> gm_wf (fold (\<lambda>r m. gm_put (resource_name r) r m) rs m) \<and>
     map_of (fold (\<lambda>r m. gm_put (resource_name r) r m) rs m) = map_of m ++ by_name rs"
  by (induction rs arbitrary: m) (simp_all add: by_name_def map_add_def fun_eq_iff split: option.split)

lemma toy_cp_ok: "cplib_ok toy_cp"
  using toy_group_items [of "[]"]
  by (simp add: cplib_ok_def toy_cp_def cong: option.case_cong) (simp add: toy_group_def)

text \<open>
  A snapshot is accepted only when no two of its listeners bind the same address and
  port. An accepted snapshot is what the cache then answers for the node; a rejected one
  changes no snapshot, but the node is recorded as known either way. No other node is
  touched.
\<close>

lemma SetSnapshot_spec:
  assumes "cplib_ok cp" "snap_typed s"
    and "SetSnapshot cp c n s = (err, c')"
  shows "(if distinct (map socket_address (listeners_of s))
            then (err = None \<longrightarrow> GetSnapshot cp c' n = Inr s)
            else err \<noteq> None \<and> (\<forall>m. GetSnapshot cp c' m = GetSnapshot cp c m)) \<and>
         (\<forall>m. m \<noteq> n \<longrightarrow> GetSnapshot cp c' m = GetSnapshot cp c m) \<and>
         gm_has (sc_nodeIDs c') n"
proof -
  have c': "c' = snd (SetSnapshot cp c n s)" using assms(3) by simp
  have "err \<noteq> None \<and> (\<forall>m. GetSnapshot cp c' m = GetSnapshot cp c m)"
    if "\<not> distinct (map socket_address (listeners_of s))"
  proof -
    from that obtain e where "validateCache s = Some e"
      using validateCache_None [OF assms(2)] by (cases "validateCache s") auto
    with assms(3) show ?thesis by (auto simp: SetSnapshot_invalid GetSnapshot_def)
  qed
  moreover have "err = None \<Longrightarrow> GetSnapshot cp c' n = Inr s"
    using SetSnapshot_stored [OF assms(1)] assms(3) by simp
  moreover have "gm_has (sc_nodeIDs c') n" unfolding c' SetSnapshot_nodeIDs by (simp add: gm_has_def)
  ultimately show ?thesis using SetSnapshot_other [OF assms(1)] c' by auto
qed

definition toy_lv3 :: "string \<Rightarrow> 32 word \<Rightarrow> ListenerV3" where
  "toy_lv3 n p = \<lparr>lv3_Name = n,
     lv3_Address = Some \<lparr>addr_SocketAddress = Some \<lparr>sa_Address = ''0.0.0.0'', sa_PortValue = p\<rparr>\<rparr>,
     lv3_ListenerFilters = [], lv3_FilterChains = [], lv3_body = []\<rparr>"

definition toy_snapshot :: "(string \<times> 32 word) list \<Rightarrow> Snapshot" where
  "toy_snapshot ls = empty_snapshot(ListenerType := toy_group ''1'' (map (\<lambda>(n, p). ResL (toy_lv3 n p)) ls))"

section \<open>What an update of a snapshot does\<close>

text \<open>The items of a group stand under their own names, each name once.\<close>

definition named_items :: "(string, Resource) gomap \<Rightarrow> bool" where
  "named_items m \<longleftrightarrow> gm_wf m \<and> (\<forall>(n, r) \<in> set m. n = resource_name r)"

lemma by_name_Some: "by_name rs n = Some r \<Longrightarrow> r \<in> set rs \<and> resource_name r = n"
  by (auto simp: by_name_def dest!: map_of_SomeD)

lemma by_name_None: "by_name rs n = None \<longleftrightarrow> n \<notin> resource_name ` set rs"
  by (simp add: by_name_def map_of_eq_None_iff image_image)

lemma by_name_distinct:
  "distinct (map resource_name rs) \<Longrightarrow> by_name rs n = Some r \<longleftrightarrow> r \<in> set rs \<and> resource_name r = n"
proof -
  assume d: "distinct (map resource_name rs)"
  then have "distinct (rev (map resource_name rs))" by simp
  then have "distinct (map fst (rev (map (\<lambda>r. (resource_name r, r)) rs)))"
    by (simp add: rev_map comp_def)
  then have "by_name rs n = Some r \<longleftrightarrow> (n, r) \<in> set (rev (map (\<lambda>r. (resource_name r, r)) rs))"
    unfolding by_name_def by (rule map_of_eq_Some_iff)
  then show ?thesis by auto
qed

lemma named_items_new:
  "cplib_ok cp \<Longrightarrow> named_items (rg_Items (cp_NewResources cp v rs))"
  unfolding named_items_def
  using cplib_ok_simps(7,8) [of cp v rs] by (auto simp: gm_mem_iff dest: by_name_Some)

lemma length_new_items:
  assumes "cplib_ok cp"
  shows "length (rg_Items (cp_NewResources cp v rs)) = card (resource_name ` set rs)"
proof -
  let ?m = "rg_Items (cp_NewResources cp v rs)"
  have wf: "gm_wf ?m" and mo: "map_of ?m = by_name rs" using cplib_ok_simps(7,8) [OF assms] by auto
  have "fst ` set ?m = dom (map_of ?m)" by (simp add: dom_map_of_conv_image_fst)
  also have "\<dots> = resource_name ` set rs" unfolding mo using by_name_None by (auto simp: dom_def)
  finally show ?thesis using wf by (metis distinct_card gm_wf_def length_map list.set_map)
qed

text \<open>With names that do not repeat, the comparison finds every difference and only differences.\<close>

lemma checkResourcesChanged_exact:
  assumes "named_items prev" "distinct (map resource_name new)"
  shows "\<not> checkResourcesChanged prev new \<longleftrightarrow> snd ` set prev = set new"
proof -
  have wf: "gm_wf prev" and named: "\<And>n r. (n, r) \<in> set prev \<Longrightarrow> n = resource_name r"
    using assms(1) by (auto simp: named_items_def)
  have inj: "inj_on snd (set prev)"
    by (rule inj_onI) (metis named prod.collapse)
  have len: "length prev = card (snd ` set prev)"
    using wf inj by (metis card_image distinct_card distinct_map gm_wf_def)
  have d: "distinct new" using assms(2) by (simp add: distinct_map)
  have mem: "map_of prev (resource_name r) = Some r \<longleftrightarrow> r \<in> snd ` set prev" for r
    using named gm_mem_iff [OF wf] by force
  have diff: "(case o' of Some val \<Rightarrow> val \<noteq> r | None \<Rightarrow> True) \<longleftrightarrow> o' \<noteq> Some r" for o' and r :: Resource
    by (simp split: option.split)
  have "\<not> checkResourcesChanged prev new \<longleftrightarrow> length prev = length new \<and> set new \<subseteq> snd ` set prev"
    unfolding checkResourcesChanged_def diff mem list_ex_iff by auto
  also have "\<dots> \<longleftrightarrow> snd ` set prev = set new"
    unfolding len using d by (metis List.finite_set card_subset_eq distinct_card finite_imageI subset_refl)
  finally show ?thesis .
qed

text \<open>
  When a list of resources has a name twice, the comparison with the group made of the very
  same list reports a change.
\<close>

lemma duplicate_names_always_change:
  assumes "cplib_ok cp" "\<not> distinct (map resource_name rs)"
  shows "checkResourcesChanged (rg_Items (cp_NewResources cp v rs)) rs"
proof -
  have "card (resource_name ` set rs) \<noteq> length rs"
    using assms(2) by (metis card_distinct length_map list.set_map)
  then show ?thesis by (simp add: checkResourcesChanged_def length_new_items [OF assms(1)])
qed

section \<open>Versions\<close>

text \<open>
  A version is the decimal form of a counter. A change makes it the next number; only at
  the end of the 64-bit range it wraps around to the most negative one. Versions that
  differ are different strings.
\<close>

lemma next_version_bounds:
  assumes "n < 2 ^ 63"
  shows "next_version (itoa n) =
    (if n = 2 ^ 63 - 1 then ''-9223372036854775808'' else itoa (Suc n)) \<and> next_version (itoa n) \<noteq> itoa n"
proof (cases "n = 2 ^ 63 - 1")
  case True
  have "next_version (itoa n) = ''-9223372036854775808''"
  proof -
    have "Atoi (itoa n) = 9223372036854775807" using assms by (simp add: Atoi_itoa True)
    moreover have "wrap64 (9223372036854775807 + 1) = - 9223372036854775808" by (simp add: wrap64_def)
    moreover have "Itoa (- 9223372036854775808) = ''-9223372036854775808''"
      by (simp add: Itoa_def itoa.simps digit_chars del: One_nat_def)
    ultimately show ?thesis by (simp only: next_version_def)
  qed
  moreover have "\<dots> \<noteq> itoa n" using itoa_no_sign(1) [of n] by (cases "itoa n") auto
  ultimately show ?thesis using True by simp
next
  case False
  with assms have n: "int n + 1 < 2 ^ 63" "int n < 2 ^ 63" by simp_all
  then have "wrap64 (int n + 1) = int n + 1" by (simp add: wrap64_def)
  then have "next_version (itoa n) = itoa (Suc n)"
    using n by (simp add: next_version_def Atoi_itoa Itoa_def nat_add_distrib)
  with False show ?thesis by simp
qed

section \<open>Updating a snapshot\<close>

definition base_version :: "Snapshot \<Rightarrow> rtype \<Rightarrow> string" where
  "base_version prev t = (if GetVersion prev t = [] then ''0'' else GetVersion prev t)"

definition updated_group :: "'c cplib \<Rightarrow> Snapshot \<Rightarrow> rtype \<Rightarrow> Resource list \<Rightarrow> ResGroup" where
  "updated_group cp prev t rs =
     cp_NewResources cp (if checkResourcesChanged (GetResources prev t) rs
       then next_version (base_version prev t) else base_version prev t) rs"

lemma new_items_set:
  assumes "cplib_ok cp" "distinct (map resource_name rs)"
  shows "snd ` set (rg_Items (cp_NewResources cp v rs)) = set rs"
proof -
  have "(n, r) \<in> set (rg_Items (cp_NewResources cp v rs)) \<longleftrightarrow> r \<in> set rs \<and> resource_name r = n" for n r
    using cplib_ok_simps(7,8) [OF assms(1), of v rs]
    by (simp add: gm_mem_iff by_name_distinct [OF assms(2)])
  note mem = this
  show ?thesis
  proof (intro equalityI subsetI)
    fix r assume "r \<in> snd ` set (rg_Items (cp_NewResources cp v rs))"
    then obtain n where "(n, r) \<in> set (rg_Items (cp_NewResources cp v rs))" by (metis imageE prod.collapse)
    then show "r \<in> set rs" by (simp add: mem)
  next
    fix r assume "r \<in> set rs"
    then have "(resource_name r, r) \<in> set (rg_Items (cp_NewResources cp v rs))" by (simp add: mem)
    then show "r \<in> snd ` set (rg_Items (cp_NewResources cp v rs))" by (rule rev_image_eqI) simp
  qed
qed

lemma updated_group_items:
  "cplib_ok cp \<Longrightarrow> distinct (map resource_name rs) \<Longrightarrow> snd ` set (rg_Items (updated_group cp prev t rs)) = set rs"
  unfolding updated_group_def by (rule new_items_set)

definition group_changed :: "Snapshot \<Rightarrow> resmap \<Rightarrow> bool" where
  "group_changed prev rm \<longleftrightarrow> (\<exists>(t, rs) \<in> set rm. checkResourcesChanged (GetResources prev t) rs)"

lemma updateSnapshot_loop_eq:
  assumes "cplib_ok cp" "gm_wf rm"
  shows "updateSnapshot_loop cp prev rm acc ch =
    Inr (\<lambda>t. case map_of rm t of None \<Rightarrow> acc t | Some rs \<Rightarrow> updated_group cp prev t rs,
         ch \<or> group_changed prev rm)"
  using assms(2)
proof (induction rm arbitrary: acc ch)
  case (Cons p rm)
  obtain t rs where p: "p = (t, rs)" by (cases p)
  have wf: "gm_wf rm" and t: "map_of rm t = None"
    using Cons.prems by (auto simp: p gm_wf_def map_of_eq_None_iff)
  have step: "updateSnapshot_loop cp prev (p # rm) acc ch =
      updateSnapshot_loop cp prev rm (acc(t := updated_group cp prev t rs))
        (ch \<or> checkResourcesChanged (GetResources prev t) rs)"
    using cplib_ok_simps(5) [OF assms(1)] by (simp add: p Let_def updated_group_def base_version_def)
  show ?case
    unfolding step Cons.IH [OF wf] by (auto simp: fun_eq_iff p group_changed_def t split: option.split)
qed (simp add: group_changed_def)

lemma updateSnapshot_eq:
  assumes "cplib_ok cp" "gm_wf rm"
  shows "updateSnapshot cp (Some prev) rm =
    Inr (\<lambda>t. case map_of rm t of None \<Rightarrow> zero_group | Some rs \<Rightarrow> updated_group cp prev t rs,
         group_changed prev rm)"
  using updateSnapshot_loop_eq [OF assms] by (simp add: updateSnapshot_def empty_snapshot_def cong: option.case_cong)

definition resmap_names_ok :: "resmap \<Rightarrow> bool" where
  "resmap_names_ok rm \<longleftrightarrow> (\<forall>(t, rs) \<in> set rm. distinct (map resource_name rs))"

definition snap_named :: "Snapshot \<Rightarrow> bool" where
  "snap_named s \<longleftrightarrow> (\<forall>t. named_items (GetResources s t))"

lemma group_changed_iff:
  assumes "gm_wf rm" "resmap_names_ok rm" "snap_named prev"
  shows "group_changed prev rm \<longleftrightarrow>
    (\<exists>t rs. map_of rm t = Some rs \<and> snd ` set (GetResources prev t) \<noteq> set rs)"
proof -
  have *: "checkResourcesChanged (GetResources prev t) rs \<longleftrightarrow> snd ` set (GetResources prev t) \<noteq> set rs"
    if "map_of rm t = Some rs" for t rs
    using checkResourcesChanged_exact [of "GetResources prev t" rs] assms(2,3) map_of_SomeD [OF that]
    by (auto simp: resmap_names_ok_def snap_named_def)
  show ?thesis unfolding group_changed_def using * gm_mem_iff [OF assms(1)] by fast
qed

text \<open>
  An update of a snapshot keeps the version of every type whose resources are the same
  set as before and takes the next version for every other type, whatever the order of the
  resources. The new groups hold exactly the new resources, and a change is reported exactly
  when the resources of some type differ.
\<close>

lemma updateSnapshot_spec:
  assumes "cplib_ok cp" "gm_wf rm" "resmap_names_ok rm" "snap_named prev"
  shows "\<exists>s changed. updateSnapshot cp (Some prev) rm = Inr (s, changed) \<and>
    (changed \<longleftrightarrow> (\<exists>t rs. map_of rm t = Some rs \<and> snd ` set (GetResources prev t) \<noteq> set rs)) \<and>
    (\<forall>t rs. map_of rm t = Some rs \<longrightarrow>
       snd ` set (GetResources s t) = set rs \<and>
       GetVersion s t = (if snd ` set (GetResources prev t) = set rs
         then base_version prev t else next_version (base_version prev t)))"
proof (intro exI conjI)
  let ?s = "\<lambda>t. case map_of rm t of None \<Rightarrow> zero_group | Some rs \<Rightarrow> updated_group cp prev t rs"
  show "updateSnapshot cp (Some prev) rm = Inr (?s, group_changed prev rm)"
    by (rule updateSnapshot_eq [OF assms(1,2)])
  show "group_changed prev rm \<longleftrightarrow> (\<exists>t rs. map_of rm t = Some rs \<and> snd ` set (GetResources prev t) \<noteq> set rs)"
    by (rule group_changed_iff [OF assms(2-4)])
  show "\<forall>t rs. map_of rm t = Some rs \<longrightarrow> snd ` set (GetResources ?s t) = set rs \<and>
       GetVersion ?s t = (if snd ` set (GetResources prev t) = set rs
         then base_version prev t else next_version (base_version prev t))"
  proof (intro allI impI conjI)
    fix t rs assume rs: "map_of rm t = Some rs"
    then have d: "distinct (map resource_name rs)" and p: "named_items (GetResources prev t)"
      using assms(3,4) map_of_SomeD [OF rs] by (auto simp: resmap_names_ok_def snap_named_def)
    have s: "?s t = updated_group cp prev t rs" using rs by simp
    show "snd ` set (GetResources ?s t) = set rs"
      unfolding GetResources_def s by (rule updated_group_items [OF assms(1) d])
    show "GetVersion ?s t = (if snd ` set (GetResources prev t) = set rs
         then base_version prev t else next_version (base_version prev t))"
      unfolding GetVersion_def [of ?s] s unfolding updated_group_def
      using cplib_ok_simps(6) [OF assms(1)] checkResourcesChanged_exact [OF p d] by metis
  qed
qed

end
