(* ===== verification/Build.thy ===== *)
theory Build
  imports Snapshot
begin

text \<open>
  Building all snapshots: \<open>buildSnapshots\<close> of \<^verbatim>\<open>internal/xds/updater/updater.go\<close>. The function
  that builds the resources of one virtual service is a package variable of the source and an
  argument here, \<open>bld\<close>. \<open>ctx.Err()\<close> is polled many times; \<open>ctx k\<close> is its answer at the
  \<open>k\<close>-th poll of a build. The durations collected for logging are left out.
\<close>

section \<open>State of a build\<close>

text \<open>\<open>resbuilder.Resources\<close>: what is built for one virtual service.\<close>

record Resources =
  r_Listener :: NamespacedName
  r_FilterChain :: "FilterChain list"
  r_RouteConfig :: "RouteConfiguration option"
  r_Clusters :: "ClusterV3 list"
  r_Secrets :: "SecretV3 list"
  r_UsedSecrets :: "NamespacedName list"
  r_Domains :: "string list"

type_synonym builder = "VirtualService \<Rightarrow> OptimizedStore \<Rightarrow> Resources res"
type_synonym ctx = "nat \<Rightarrow> goerr option"

text \<open>\<open>VSStatus\<close> has the fields of the stored status.\<close>

type_synonym VSStatus = VirtualServiceStatus
type_synonym vs_statuses = "(NamespacedName, VSStatus) gomap"
type_synonym used_secrets = "(NamespacedName, NamespacedName) gomap"

record build =
  b_polls :: nat
  b_errs :: "goerr list"
  b_vsStatuses :: vs_statuses
  b_usedSecrets :: used_secrets
  b_nodeIDDomainsSet :: strset
  b_nodeDomainsIndex :: "(string, strset) gomap"
  b_mixer :: Mixer
  b_common :: "VirtualService list"

definition new_build :: build where
  "new_build = \<lparr>b_polls = 0, b_errs = [], b_vsStatuses = [], b_usedSecrets = [], b_nodeIDDomainsSet = [],
     b_nodeDomainsIndex = [], b_mixer = NewMixer, b_common = []\<rparr>"

text \<open>What an early return hands back: the error, the used secrets or nil, and the statuses.\<close>

type_synonym build_exit = "goerr \<times> used_secrets option \<times> vs_statuses"

definition poll :: "ctx \<Rightarrow> build \<Rightarrow> build_exit + build" where
  "poll ctx b =
     (case ctx (b_polls b) of
        Some err \<Rightarrow> Inl (err, Some (b_usedSecrets b), b_vsStatuses b)
      | None \<Rightarrow> Inr (b\<lparr>b_polls := Suc (b_polls b)\<rparr>))"

text \<open>\<open>multierr.Combine\<close> on errors that are not nil.\<close>

definition multierr_Combine :: "goerr list \<Rightarrow> goerr option" where
  "multierr_Combine errs = (case errs of [] \<Rightarrow> None | [e] \<Rightarrow> Some e | _ \<Rightarrow> Some (Multi errs))"

section \<open>Collecting the resources\<close>

definition isCommonVirtualService :: "string list \<Rightarrow> bool" where
  "isCommonVirtualService nodeIDs \<longleftrightarrow> length nodeIDs = 1 \<and> nodeIDs ! 0 = ''*''"

definition nodeIDDomain :: "string \<Rightarrow> string \<Rightarrow> string" where
  "nodeIDDomain nodeID domain = nodeID @ '':'' @ domain"

definition add_domain :: "ctx \<Rightarrow> bool \<Rightarrow> string \<Rightarrow> string \<Rightarrow> build \<Rightarrow> build_exit + build" where
  "add_domain ctx buildDomainsIndex nodeID domain b =
     and_then (poll ctx b) (\<lambda>b.
       let nodeDom = nodeIDDomain nodeID domain
       in if gm_has (b_nodeIDDomainsSet b) nodeDom
          then Inl (Err (''duplicate domain '' @ domain @ '' for node '' @ nodeID), None, b_vsStatuses b)
          else
            let b = b\<lparr>b_nodeIDDomainsSet := gm_put nodeDom () (b_nodeIDDomainsSet b)\<rparr>
            in Inr (if buildDomainsIndex
                 then b\<lparr>b_nodeDomainsIndex := gm_put nodeID
                        (gm_put domain () (gm_get [] (b_nodeDomainsIndex b) nodeID)) (b_nodeDomainsIndex b)\<rparr>
                 else b))"

definition add_resources :: "Resources \<Rightarrow> string \<Rightarrow> Mixer \<Rightarrow> Mixer" where
  "add_resources vsRes nodeID m =
     (let m = (case r_RouteConfig vsRes of None \<Rightarrow> m | Some rc \<Rightarrow> Mixer_Add m nodeID RouteType (ResR rc));
          m = fold (\<lambda>cl m. Mixer_Add m nodeID ClusterType (ResC cl)) (r_Clusters vsRes) m;
          m = fold (\<lambda>s m. Mixer_Add m nodeID SecretType (ResS s)) (r_Secrets vsRes) m
      in AddListenerParams m (r_Listener vsRes) (r_FilterChain vsRes) nodeID)"

text \<open>One node of a virtual service.\<close>

definition add_node :: "ctx \<Rightarrow> bool \<Rightarrow> Resources \<Rightarrow> string \<Rightarrow> build \<Rightarrow> build_exit + build" where
  "add_node ctx buildDomainsIndex vsRes nodeID b =
     and_then (poll ctx b) (\<lambda>b.
     and_then (for_each (add_domain ctx buildDomainsIndex nodeID) (r_Domains vsRes) b) (\<lambda>b.
       Inr (b\<lparr>b_mixer := add_resources vsRes nodeID (b_mixer b)\<rparr>)))"

definition use_secrets :: "Resources \<Rightarrow> VirtualService \<Rightarrow> build \<Rightarrow> build" where
  "use_secrets vsRes vs b =
     b\<lparr>b_usedSecrets := fold (\<lambda>secret m. gm_put secret (meta_nn (vs_meta vs)) m) (r_UsedSecrets vsRes) (b_usedSecrets b)\<rparr>"

definition set_status :: "VirtualService \<Rightarrow> bool \<Rightarrow> string \<Rightarrow> build \<Rightarrow> build" where
  "set_status vs invalid message b =
     b\<lparr>b_vsStatuses := gm_put (meta_nn (vs_meta vs)) \<lparr>Invalid = invalid, Message = message\<rparr> (b_vsStatuses b)\<rparr>"

definition add_err :: "goerr \<Rightarrow> build \<Rightarrow> build" where
  "add_err err b = b\<lparr>b_errs := b_errs b @ [err]\<rparr>"

definition no_node_ids :: "VirtualService \<Rightarrow> goerr" where
  "no_node_ids vs = Err (''virtual service '' @ m_Namespace (vs_meta vs) @ ''/'' @ m_Name (vs_meta vs) @ '' has no node IDs'')"

text \<open>One turn of the loop over all virtual services.\<close>

definition process_vs :: "ctx \<Rightarrow> bool \<Rightarrow> builder \<Rightarrow> OptimizedStore \<Rightarrow> VirtualService \<Rightarrow> build
    \<Rightarrow> build_exit + build" where
  "process_vs ctx buildDomainsIndex bld store vs b =
     and_then (poll ctx b) (\<lambda>b.
       let b = set_status vs False [] b;
           vsNodeIDs = GetNodeIDs vs
       in if vsNodeIDs = [] then
            let err = no_node_ids vs
            in Inr (add_err err (set_status vs True (err_Error (getRootCause err)) b))
          else if isCommonVirtualService vsNodeIDs then Inr (b\<lparr>b_common := b_common b @ [vs]\<rparr>)
          else
            and_then (poll ctx b) (\<lambda>b.
              case bld vs store of
                Inl err \<Rightarrow> Inr (add_err err (set_status vs True (err_Error (getRootCause err)) b))
              | Inr vsRes \<Rightarrow>
                  and_then (poll ctx b) (\<lambda>b.
                    for_each (add_node ctx buildDomainsIndex vsRes) vsNodeIDs (use_secrets vsRes vs b))))"

text \<open>One turn of the loop over the virtual services for all nodes.\<close>

definition process_common :: "ctx \<Rightarrow> bool \<Rightarrow> builder \<Rightarrow> OptimizedStore \<Rightarrow> VirtualService \<Rightarrow> build
    \<Rightarrow> build_exit + build" where
  "process_common ctx buildDomainsIndex bld store vs b =
     and_then (poll ctx b) (\<lambda>b.
       case bld vs store of
         Inl err \<Rightarrow> Inr (add_err err b)
       | Inr vsRes \<Rightarrow>
           and_then (poll ctx b) (\<lambda>b.
             for_each (add_node ctx buildDomainsIndex vsRes) (map fst (mx_nodeIDs (b_mixer b)))
               (use_secrets vsRes vs b)))"

definition collect :: "ctx \<Rightarrow> bool \<Rightarrow> builder \<Rightarrow> OptimizedStore \<Rightarrow> build \<Rightarrow> build_exit + build" where
  "collect ctx buildDomainsIndex bld store b =
     and_then (for_each (process_vs ctx buildDomainsIndex bld store) (map snd (MapVirtualServices store)) b) (\<lambda>b.
       for_each (process_common ctx buildDomainsIndex bld store) (b_common b) b)"

section \<open>Staging and committing\<close>

record plan =
  p_build :: build
  p_staged :: "(string, Snapshot) gomap"
  p_nodeIDsForCleanup :: strset

definition plan_err :: "goerr \<Rightarrow> plan \<Rightarrow> plan" where
  "plan_err err p = p\<lparr>p_build := add_err err (p_build p)\<rparr>"

text \<open>The snapshot for a node, and whether it differs from the one in the cache.\<close>

definition node_snapshot :: "'c cplib \<Rightarrow> 'c SnapshotCache \<Rightarrow> string \<Rightarrow> resmap \<Rightarrow> (Snapshot \<times> bool) res" where
  "node_snapshot cp snapshotCache nodeID resMap =
     (case GetSnapshot cp snapshotCache nodeID of
        Inr prevSnapshot \<Rightarrow> updateSnapshot cp (Some prevSnapshot) resMap
      | Inl _ \<Rightarrow> and_then (cp_NewSnapshot cp ''1'' resMap) (\<lambda>snapshot. Inr (snapshot, True)))"

definition stage_node :: "ctx \<Rightarrow> 'c cplib \<Rightarrow> 'c SnapshotCache \<Rightarrow> string \<times> resmap \<Rightarrow> plan \<Rightarrow> build_exit + plan" where
  "stage_node ctx cp snapshotCache = (\<lambda>(nodeID, resMap) p.
     and_then (poll ctx (p_build p)) (\<lambda>b.
       let p = p\<lparr>p_build := b\<rparr>
       in case node_snapshot cp snapshotCache nodeID resMap of
            Inl err \<Rightarrow> Inr (plan_err err p)
          | Inr (snapshot, hasChanges) \<Rightarrow>
              (case (if hasChanges then cp_Consistent cp snapshot else None) of
                 Some err \<Rightarrow> Inr (plan_err err p)
               | None \<Rightarrow>
                   Inr (p\<lparr>p_staged := (if hasChanges then gm_put nodeID snapshot (p_staged p) else p_staged p),
                          p_nodeIDsForCleanup := gm_del nodeID (p_nodeIDsForCleanup p)\<rparr>))))"

text \<open>
  Everything up to the commit. A listener that is missing from the store makes \<open>Mix\<close> panic; the
  panic is kept as an error value here.
\<close>

definition make_plan :: "ctx \<Rightarrow> bool \<Rightarrow> 'c cplib \<Rightarrow> protolib \<Rightarrow> builder \<Rightarrow> 'c SnapshotCache \<Rightarrow> OptimizedStore
    \<Rightarrow> build_exit + plan" where
  "make_plan ctx buildDomainsIndex cp lib bld snapshotCache store =
     (case ctx 0 of
        Some err \<Rightarrow> Inl (err, None, [])
      | None \<Rightarrow>
          and_then (collect ctx buildDomainsIndex bld store (new_build\<lparr>b_polls := 1\<rparr>)) (\<lambda>b.
          and_then (poll ctx b) (\<lambda>b.
            case Mix lib (b_mixer b) store of
              Inl err \<Rightarrow> Inl (the (multierr_Combine (b_errs b @ [err])), Some (b_usedSecrets b), b_vsStatuses b)
            | Inr tmp \<Rightarrow>
                and_then (for_each (stage_node ctx cp snapshotCache) tmp
                  \<lparr>p_build = b, p_staged = [], p_nodeIDsForCleanup = GetNodeIDsAsMap snapshotCache\<rparr>) (\<lambda>p.
                case multierr_Combine (b_errs (p_build p)) of
                  Some err \<Rightarrow> Inl (err, Some (b_usedSecrets (p_build p)), b_vsStatuses (p_build p))
                | None \<Rightarrow> and_then (poll ctx (p_build p)) (\<lambda>b. Inr (p\<lparr>p_build := b\<rparr>))))))"

fun commit :: "'c cplib \<Rightarrow> (string \<times> Snapshot) list \<Rightarrow> goerr list \<Rightarrow> 'c SnapshotCache
    \<Rightarrow> goerr list \<times> 'c SnapshotCache" where
  "commit cp [] errs c = (errs, c)"
| "commit cp ((nodeID, snapshot) # rest) errs c =
     (case SetSnapshot cp c nodeID snapshot of
        (None, c) \<Rightarrow> commit cp rest errs c
      | (Some err, c) \<Rightarrow> commit cp rest (errs @ [err]) c)"

text \<open>Every node touched has an entry in the index of domains, an empty one if need be.\<close>

definition complete_index :: "plan \<Rightarrow> (string, strset) gomap" where
  "complete_index p =
     fold (\<lambda>nodeID idx. if gm_has idx nodeID then idx else gm_put nodeID [] idx)
       (map fst (p_staged p) @ map fst (p_nodeIDsForCleanup p)) (b_nodeDomainsIndex (p_build p))"

record 'c built =
  bt_err :: "goerr option"
  bt_usedSecrets :: "used_secrets option"
  bt_vsStatuses :: vs_statuses
  bt_cache :: "'c SnapshotCache"
  bt_store :: OptimizedStore

definition buildSnapshots :: "ctx \<Rightarrow> bool \<Rightarrow> 'c cplib \<Rightarrow> protolib \<Rightarrow> builder \<Rightarrow> 'c SnapshotCache \<Rightarrow> OptimizedStore
    \<Rightarrow> 'c built" where
  "buildSnapshots ctx buildDomainsIndex cp lib bld snapshotCache store =
     (case make_plan ctx buildDomainsIndex cp lib bld snapshotCache store of
        Inl (err, usedSecrets, vsStatuses) \<Rightarrow>
          \<lparr>bt_err = Some err, bt_usedSecrets = usedSecrets, bt_vsStatuses = vsStatuses,
           bt_cache = snapshotCache, bt_store = store\<rparr>
      | Inr p \<Rightarrow>
          (let (errs, c) = commit cp (p_staged p) [] snapshotCache;
               (errs, c) = commit cp (map (\<lambda>(nodeID, _). (nodeID, empty_snapshot)) (p_nodeIDsForCleanup p)) errs c
           in \<lparr>bt_err = multierr_Combine errs, bt_usedSecrets = Some (b_usedSecrets (p_build p)),
               bt_vsStatuses = b_vsStatuses (p_build p), bt_cache = c,
               bt_store = (if errs = [] \<and> buildDomainsIndex
                 then ReplaceNodeDomainsIndex store (complete_index p) else store)\<rparr>))"

end
