(* ===== verification/Updater.thy ===== *)
theory Updater
  imports Build
begin

text \<open>
  The cache updater of \<^verbatim>\<open>internal/xds/updater\<close>: the store, the snapshot cache and the secrets in
  use under one lock; applying and deleting each kind of resource; full and light dry runs for the
  admission webhooks. The lock makes each exported method one step of the state.
  What the methods call outside the package stays an argument: the libraries \<open>cp\<close>, \<open>lib\<close>, \<open>x509\<close>
  and \<open>sl\<close>, the builder \<open>bld\<close> and the context; \<open>idx\<close> is the feature flag for validation indices.
\<close>

section \<open>State\<close>

record 'c CacheUpdater =
  cu_snapshotCache :: "'c SnapshotCache"
  cu_store :: OptimizedStore
  cu_usedSecrets :: used_secrets

definition NewCacheUpdater :: "'c SnapshotCache \<Rightarrow> OptimizedStore \<Rightarrow> 'c CacheUpdater" where
  "NewCacheUpdater wsc store = \<lparr>cu_snapshotCache = wsc, cu_store = store, cu_usedSecrets = []\<rparr>"

text \<open>\<open>getValidationIndicesEnabled\<close>, for the value of the environment variable.\<close>

definition ToLower :: "string \<Rightarrow> string" where
  "ToLower s = map (\<lambda>c. if 65 \<le> (of_char c :: nat) \<and> (of_char c :: nat) \<le> 90 then char_of (of_char c + 32 :: nat) else c) s"

definition getValidationIndicesEnabled :: "string \<Rightarrow> bool" where
  "getValidationIndicesEnabled env = (ToLower env \<in> {''1'', ''true'', ''yes'', ''on''})"

section \<open>Rebuilding\<close>

text \<open>The environment of the updater.\<close>

record 'c env =
  e_cp :: "'c cplib"
  e_lib :: protolib
  e_x509 :: x509lib
  e_sl :: speclib
  e_bld :: builder
  e_idx :: bool

text \<open>The statuses are stored whether or not the build failed.\<close>

definition apply_statuses :: "vs_statuses \<Rightarrow> OptimizedStore \<Rightarrow> OptimizedStore" where
  "apply_statuses vsStatuses store =
     fold (\<lambda>(vsNN, status) store. SetVirtualServiceStatus store vsNN (Invalid status) (Message status)) vsStatuses store"

definition rebuildSnapshots :: "'c env \<Rightarrow> ctx \<Rightarrow> 'c CacheUpdater \<Rightarrow> goerr option \<times> 'c CacheUpdater" where
  "rebuildSnapshots e ctx c =
     (let r = buildSnapshots ctx (e_idx e) (e_cp e) (e_lib e) (e_bld e) (cu_snapshotCache c) (cu_store c);
          c = c\<lparr>cu_snapshotCache := bt_cache r, cu_store := apply_statuses (bt_vsStatuses r) (bt_store r)\<rparr>
      in case bt_err r of
           Some err \<Rightarrow> (Some err, c)
         | None \<Rightarrow> (None, c\<lparr>cu_usedSecrets := nilmap (bt_usedSecrets r)\<rparr>))"

definition RebuildSnapshots :: "'c env \<Rightarrow> ctx \<Rightarrow> 'c CacheUpdater \<Rightarrow> goerr option \<times> 'c CacheUpdater" where
  "RebuildSnapshots e ctx c = rebuildSnapshots e ctx c"

definition CopyStore :: "'c CacheUpdater \<Rightarrow> OptimizedStore" where
  "CopyStore c = Copy (cu_store c)"

definition GetUsedSecrets :: "'c CacheUpdater \<Rightarrow> used_secrets" where
  "GetUsedSecrets c = gm_copy_into (cu_usedSecrets c) []"

definition Updater_GetVirtualServiceWithStatus :: "'c CacheUpdater \<Rightarrow> NamespacedName \<Rightarrow> VirtualService option" where
  "Updater_GetVirtualServiceWithStatus c nn = GetVirtualServiceWithStatus (cu_store c) nn"

definition Updater_GetVirtualServicesByTemplate :: "'c CacheUpdater \<Rightarrow> VirtualServiceTemplate \<Rightarrow> VirtualService list" where
  "Updater_GetVirtualServicesByTemplate c vst =
     GetVirtualServicesByTemplateNN (cu_store c) (meta_nn (vst_meta vst))"

definition Updater_GetSpecCluster :: "'c CacheUpdater \<Rightarrow> string \<Rightarrow> Cluster option" where
  "Updater_GetSpecCluster c specCluster = GetSpecCluster (cu_store c) specCluster"

section \<open>Applying and deleting resources\<close>

text \<open>The resource is stored and the snapshots rebuilt; the error of the rebuild is dropped.\<close>

definition with_store :: "'c env \<Rightarrow> ctx \<Rightarrow> 'c CacheUpdater \<Rightarrow> OptimizedStore \<Rightarrow> 'c CacheUpdater" where
  "with_store e ctx c store = snd (rebuildSnapshots e ctx (c\<lparr>cu_store := store\<rparr>))"

definition ApplyVirtualService :: "'c env \<Rightarrow> ctx \<Rightarrow> VirtualService \<Rightarrow> 'c CacheUpdater \<Rightarrow> 'c CacheUpdater" where
  "ApplyVirtualService e ctx vs c =
     (let vs = VirtualService_NormalizeSpec vs
      in case GetVirtualService (cu_store c) (vs_nn vs) of
           None \<Rightarrow> with_store e ctx c (SetVirtualService (cu_store c) vs)
         | Some prevVS \<Rightarrow>
             if VirtualService_IsEqual (e_sl e) (Some prevVS) (Some vs) then c
             else with_store e ctx c (SetVirtualService (cu_store c) vs))"

definition Updater_DeleteVirtualService :: "'c env \<Rightarrow> ctx \<Rightarrow> NamespacedName \<Rightarrow> 'c CacheUpdater
    \<Rightarrow> goerr option \<times> 'c CacheUpdater" where
  "Updater_DeleteVirtualService e ctx nn c =
     (if \<not> IsExistingVirtualService (cu_store c) nn then (None, c)
      else rebuildSnapshots e ctx (c\<lparr>cu_store := DeleteVirtualService (cu_store c) nn\<rparr>))"

text \<open>The flag tells that an existing template changed.\<close>

definition ApplyVirtualServiceTemplate :: "'c env \<Rightarrow> ctx \<Rightarrow> VirtualServiceTemplate \<Rightarrow> 'c CacheUpdater
    \<Rightarrow> bool \<times> 'c CacheUpdater" where
  "ApplyVirtualServiceTemplate e ctx vst c =
     (let vst = VirtualServiceTemplate_NormalizeSpec vst
      in case GetVirtualServiceTemplate (cu_store c) (meta_nn (vst_meta vst)) of
           None \<Rightarrow> (False, with_store e ctx c (SetVirtualServiceTemplate (cu_store c) vst))
         | Some prevVST \<Rightarrow>
             if VirtualServiceTemplate_IsEqual (e_sl e) (Some prevVST) (Some vst) then (False, c)
             else (True, with_store e ctx c (SetVirtualServiceTemplate (cu_store c) vst)))"

definition Updater_DeleteVirtualServiceTemplate :: "'c env \<Rightarrow> ctx \<Rightarrow> NamespacedName \<Rightarrow> 'c CacheUpdater
    \<Rightarrow> goerr option \<times> 'c CacheUpdater" where
  "Updater_DeleteVirtualServiceTemplate e ctx nn c =
     (if \<not> IsExistingVirtualServiceTemplate (cu_store c) nn then (None, c)
      else rebuildSnapshots e ctx (c\<lparr>cu_store := DeleteVirtualServiceTemplate (cu_store c) nn\<rparr>))"

definition secretsEqual :: "Secret \<Rightarrow> Secret \<Rightarrow> bool" where
  "secretsEqual a b =
     (case (s_Data a, s_Data b) of
        (None, None) \<Rightarrow> True
      | (Some da, Some db) \<Rightarrow>
          length da = length db \<and>
          list_all (\<lambda>(k, v). map_of db k = Some v) da \<and>
          map_of (nilmap (m_Annotations (s_meta a))) AnnotationSecretDomains =
            map_of (nilmap (m_Annotations (s_meta b))) AnnotationSecretDomains
      | _ \<Rightarrow> False)"

definition ApplySecret :: "'c env \<Rightarrow> ctx \<Rightarrow> Secret \<Rightarrow> 'c CacheUpdater \<Rightarrow> 'c CacheUpdater" where
  "ApplySecret e ctx secret c =
     (case GetSecret (cu_store c) (meta_nn (s_meta secret)) of
        None \<Rightarrow> with_store e ctx c (SetSecret (e_x509 e) (cu_store c) secret)
      | Some prevSecret \<Rightarrow>
          if secretsEqual prevSecret secret then c
          else with_store e ctx c (SetSecret (e_x509 e) (cu_store c) secret))"

definition Updater_DeleteSecret :: "'c env \<Rightarrow> ctx \<Rightarrow> NamespacedName \<Rightarrow> 'c CacheUpdater \<Rightarrow> 'c CacheUpdater" where
  "Updater_DeleteSecret e ctx nn c =
     (if \<not> IsExistingSecret (cu_store c) nn then c else with_store e ctx c (DeleteSecret (cu_store c) nn))"

definition ApplyCluster :: "'c env \<Rightarrow> ctx \<Rightarrow> Cluster \<Rightarrow> 'c CacheUpdater \<Rightarrow> 'c CacheUpdater" where
  "ApplyCluster e ctx cl c =
     (case GetCluster (cu_store c) (meta_nn (cl_meta cl)) of
        None \<Rightarrow> with_store e ctx c (SetCluster (e_lib e) (cu_store c) cl)
      | Some prevCluster \<Rightarrow>
          if Cluster_IsEqual (Some prevCluster) (Some cl) then c
          else with_store e ctx c (SetCluster (e_lib e) (cu_store c) cl))"

definition Updater_DeleteCluster :: "'c env \<Rightarrow> ctx \<Rightarrow> NamespacedName \<Rightarrow> 'c CacheUpdater \<Rightarrow> 'c CacheUpdater" where
  "Updater_DeleteCluster e ctx nn c =
     (if \<not> IsExistingCluster (cu_store c) nn then c
      else with_store e ctx c (DeleteCluster (e_lib e) (cu_store c) nn))"

definition ApplyListener :: "'c env \<Rightarrow> ctx \<Rightarrow> Listener \<Rightarrow> 'c CacheUpdater \<Rightarrow> 'c CacheUpdater" where
  "ApplyListener e ctx listener c =
     (case GetListener (cu_store c) (meta_nn (l_meta listener)) of
        None \<Rightarrow> with_store e ctx c (SetListener (cu_store c) listener)
      | Some prevListener \<Rightarrow>
          if Listener_IsEqual (Some prevListener) (Some listener) then c
          else with_store e ctx c (SetListener (cu_store c) listener))"

definition Updater_DeleteListener :: "'c env \<Rightarrow> ctx \<Rightarrow> NamespacedName \<Rightarrow> 'c CacheUpdater \<Rightarrow> 'c CacheUpdater" where
  "Updater_DeleteListener e ctx nn c =
     (if \<not> IsExistingListener (cu_store c) nn then c else with_store e ctx c (DeleteListener (cu_store c) nn))"

definition ApplyPolicy :: "'c env \<Rightarrow> ctx \<Rightarrow> Policy \<Rightarrow> 'c CacheUpdater \<Rightarrow> 'c CacheUpdater" where
  "ApplyPolicy e ctx policy c =
     (case GetPolicy (cu_store c) (meta_nn (p_meta policy)) of
        None \<Rightarrow> with_store e ctx c (SetPolicy (cu_store c) policy)
      | Some prevPolicy \<Rightarrow>
          if Policy_IsEqual (Some prevPolicy) (Some policy) then c
          else with_store e ctx c (SetPolicy (cu_store c) policy))"

definition Updater_DeletePolicy :: "'c env \<Rightarrow> ctx \<Rightarrow> NamespacedName \<Rightarrow> 'c CacheUpdater \<Rightarrow> 'c CacheUpdater" where
  "Updater_DeletePolicy e ctx nn c =
     (if \<not> IsExistingPolicy (cu_store c) nn then c else with_store e ctx c (DeletePolicy (cu_store c) nn))"

definition ApplyRoute :: "'c env \<Rightarrow> ctx \<Rightarrow> Route \<Rightarrow> 'c CacheUpdater \<Rightarrow> 'c CacheUpdater" where
  "ApplyRoute e ctx route c =
     (case GetRoute (cu_store c) (meta_nn (r_meta route)) of
        None \<Rightarrow> with_store e ctx c (SetRoute (cu_store c) route)
      | Some prevRoute \<Rightarrow>
          if Route_IsEqual (Some prevRoute) (Some route) then c
          else with_store e ctx c (SetRoute (cu_store c) route))"

definition Updater_DeleteRoute :: "'c env \<Rightarrow> ctx \<Rightarrow> NamespacedName \<Rightarrow> 'c CacheUpdater \<Rightarrow> 'c CacheUpdater" where
  "Updater_DeleteRoute e ctx nn c =
     (if \<not> IsExistingRoute (cu_store c) nn then c else with_store e ctx c (DeleteRoute (cu_store c) nn))"

definition ApplyTracing :: "'c env \<Rightarrow> ctx \<Rightarrow> Tracing \<Rightarrow> 'c CacheUpdater \<Rightarrow> 'c CacheUpdater" where
  "ApplyTracing e ctx tracing c =
     (case GetTracing (cu_store c) (meta_nn (tr_meta tracing)) of
        None \<Rightarrow> with_store e ctx c (SetTracing (cu_store c) tracing)
      | Some prevTracing \<Rightarrow>
          if Tracing_IsEqual (Some prevTracing) (Some tracing) then c
          else with_store e ctx c (SetTracing (cu_store c) tracing))"

definition Updater_DeleteTracing :: "'c env \<Rightarrow> ctx \<Rightarrow> NamespacedName \<Rightarrow> 'c CacheUpdater \<Rightarrow> 'c CacheUpdater" where
  "Updater_DeleteTracing e ctx nn c =
     (if \<not> IsExistingTracing (cu_store c) nn then c else with_store e ctx c (DeleteTracing (cu_store c) nn))"

definition ApplyHTTPFilter :: "'c env \<Rightarrow> ctx \<Rightarrow> HttpFilter \<Rightarrow> 'c CacheUpdater \<Rightarrow> 'c CacheUpdater" where
  "ApplyHTTPFilter e ctx httpFilter c =
     (case GetHTTPFilter (cu_store c) (meta_nn (hf_meta httpFilter)) of
        None \<Rightarrow> with_store e ctx c (SetHTTPFilter (cu_store c) httpFilter)
      | Some prevHTTPFilter \<Rightarrow>
          if HttpFilter_IsEqual (e_sl e) (Some prevHTTPFilter) (Some httpFilter) then c
          else with_store e ctx c (SetHTTPFilter (cu_store c) httpFilter))"

definition Updater_DeleteHTTPFilter :: "'c env \<Rightarrow> ctx \<Rightarrow> NamespacedName \<Rightarrow> 'c CacheUpdater \<Rightarrow> 'c CacheUpdater" where
  "Updater_DeleteHTTPFilter e ctx nn c =
     (if \<not> IsExistingHTTPFilter (cu_store c) nn then c else with_store e ctx c (DeleteHTTPFilter (cu_store c) nn))"

definition ApplyAccessLogConfig :: "'c env \<Rightarrow> ctx \<Rightarrow> AccessLogConfig \<Rightarrow> 'c CacheUpdater \<Rightarrow> 'c CacheUpdater" where
  "ApplyAccessLogConfig e ctx alc c =
     (case GetAccessLog (cu_store c) (meta_nn (alc_meta alc)) of
        None \<Rightarrow> with_store e ctx c (SetAccessLog (cu_store c) alc)
      | Some prevALC \<Rightarrow>
          if AccessLogConfig_IsEqual (Some prevALC) (Some alc) then c
          else with_store e ctx c (SetAccessLog (cu_store c) alc))"

definition Updater_DeleteAccessLogConfig :: "'c env \<Rightarrow> ctx \<Rightarrow> NamespacedName \<Rightarrow> 'c CacheUpdater \<Rightarrow> 'c CacheUpdater" where
  "Updater_DeleteAccessLogConfig e ctx nn c =
     (if \<not> IsExistingAccessLog (cu_store c) nn then c else with_store e ctx c (DeleteAccessLog (cu_store c) nn))"

section \<open>Dry runs\<close>

definition DryBuildSnapshotsWithVirtualService :: "'c env \<Rightarrow> ctx \<Rightarrow> VirtualService \<Rightarrow> 'c CacheUpdater \<Rightarrow> goerr option" where
  "DryBuildSnapshotsWithVirtualService e ctx vs c =
     (let storeCopy = SetVirtualService (Copy (cu_store c)) vs
      in bt_err (buildSnapshots ctx (e_idx e) (e_cp e) (e_lib e) (e_bld e) (NewSnapshotCache (e_cp e)) storeCopy))"

definition DryBuildSnapshotsWithVirtualServiceTemplate ::
    "'c env \<Rightarrow> ctx \<Rightarrow> VirtualServiceTemplate \<Rightarrow> 'c CacheUpdater \<Rightarrow> goerr option" where
  "DryBuildSnapshotsWithVirtualServiceTemplate e ctx vst c =
     (let storeCopy = SetVirtualServiceTemplate (Copy (cu_store c)) vst
      in bt_err (buildSnapshots ctx (e_idx e) (e_cp e) (e_lib e) (e_bld e) (NewSnapshotCache (e_cp e)) storeCopy))"

end
