(* ===== verification/Light.thy ===== *)
theory Light
  imports Updater
begin

text \<open>
  The light validation of a virtual service in \<^verbatim>\<open>internal/xds/updater/updater.go\<close>: instead of a
  full dry run it builds the candidate only and compares its domains with what the nodes already
  serve, taken from the store's domain index or from the snapshot cache.
\<close>

definition ErrLightValidationInsufficientCoverage :: goerr where
  "ErrLightValidationInsufficientCoverage = Err ''light validation insufficient coverage''"

definition resolveTargetNodeIDs :: "string list \<Rightarrow> 'c SnapshotCache \<Rightarrow> string list" where
  "resolveTargetNodeIDs nodeIDs snapshotCache =
     (if isCommonVirtualService nodeIDs then SnapshotCache_GetNodeIDs snapshotCache else nodeIDs)"

definition validateDomainsWithinVS :: "string list \<Rightarrow> strset res" where
  "validateDomainsWithinVS domains =
     for_each (\<lambda>d seen.
       if gm_has seen d then Inl (Err (''duplicate domain '' @ quoted d @ '' within VirtualService''))
       else Inr (gm_put d () seen)) domains []"

section \<open>Listener addresses\<close>

definition add_missing :: "string list \<Rightarrow> string list \<Rightarrow> string list" where
  "add_missing nodeIDs existing =
     fold (\<lambda>nodeID existing. if nodeID \<in> set existing then existing else existing @ [nodeID]) nodeIDs existing"

definition buildListenerToNodeIDsMapping :: "OptimizedStore \<Rightarrow> 'c SnapshotCache \<Rightarrow> (NamespacedName, string list) gomap" where
  "buildListenerToNodeIDsMapping storeCopy snapshotCache =
     fold (\<lambda>(_, vs) mapping.
       let vsNodeIDs = GetNodeIDs vs
       in if vsNodeIDs = [] then mapping
          else case c_Listener (vs_common vs) of
                 None \<Rightarrow> mapping
               | Some ref \<Rightarrow>
                   if ref_Name ref = [] then mapping
                   else
                     let listenerNN = NN (m_Namespace (vs_meta vs)) (ref_Name ref)
                     in gm_put listenerNN (add_missing (resolveTargetNodeIDs vsNodeIDs snapshotCache)
                          (gm_get [] mapping listenerNN)) mapping)
       (MapVirtualServices storeCopy) []"

definition group_by_node :: "(NamespacedName, string list) gomap \<Rightarrow> (string, NamespacedName list) gomap" where
  "group_by_node listenerToNodeIDs =
     fold (\<lambda>(listenerNN, nodeIDs).
       fold (\<lambda>nodeID m. gm_put nodeID (gm_get [] m nodeID @ [listenerNN]) m) nodeIDs) listenerToNodeIDs []"

definition duplicate_address :: "NamespacedName \<Rightarrow> string \<Rightarrow> NamespacedName \<Rightarrow> string \<Rightarrow> goerr" where
  "duplicate_address listenerNN hp existingListener nodeID =
     Err (''listener '' @ quoted (NamespacedName_String listenerNN) @ '' has duplicate address '' @ quoted hp @
       '' as existing listener '' @ quoted (NamespacedName_String existingListener) @ '' within nodeID '' @ quoted nodeID)"

definition claim_address :: "string \<Rightarrow> NamespacedName \<Rightarrow> string \<Rightarrow> (string, NamespacedName) gomap
    \<Rightarrow> (string, NamespacedName) gomap res" where
  "claim_address nodeID listenerNN hp addrToListener =
     (case map_of addrToListener hp of
        Some existingListener \<Rightarrow> Inl (duplicate_address listenerNN hp existingListener nodeID)
      | None \<Rightarrow> Inr (gm_put hp listenerNN addrToListener))"

definition quick_listener :: "protolib \<Rightarrow> OptimizedStore \<Rightarrow> string \<Rightarrow> NamespacedName
    \<Rightarrow> (string, NamespacedName) gomap \<Rightarrow> (string, NamespacedName) gomap res" where
  "quick_listener lib storeCopy nodeID listenerNN addrToListener =
     (case map_of (MapListeners storeCopy) listenerNN of
        None \<Rightarrow> Inr addrToListener
      | Some listener \<Rightarrow>
          (case Listener_UnmarshalV3 lib listener of
             Inl _ \<Rightarrow> Inr addrToListener
           | Inr lv3 \<Rightarrow>
               (case Option.bind (lv3_Address lv3) addr_SocketAddress of
                  None \<Rightarrow> Inr addrToListener
                | Some _ \<Rightarrow> claim_address nodeID listenerNN (hostPort lv3) addrToListener)))"

definition validateListenerAddressesPerNodeID :: "protolib \<Rightarrow> OptimizedStore \<Rightarrow> (NamespacedName, string list) gomap
    \<Rightarrow> unit res" where
  "validateListenerAddressesPerNodeID lib storeCopy listenerToNodeIDs =
     for_each (\<lambda>(nodeID, lns) u.
       and_then (for_each (quick_listener lib storeCopy nodeID) lns []) (\<lambda>_. Inr u))
       (group_by_node listenerToNodeIDs) ()"

definition thorough_listener :: "protolib \<Rightarrow> OptimizedStore \<Rightarrow> string \<Rightarrow> NamespacedName
    \<Rightarrow> (string, NamespacedName) gomap \<Rightarrow> (string, NamespacedName) gomap res" where
  "thorough_listener lib storeCopy nodeID listenerNN addrToListener =
     (case map_of (MapListeners storeCopy) listenerNN of
        None \<Rightarrow> Inl (Err (''listener '' @ NamespacedName_String listenerNN @ '' referenced by nodeID '' @ nodeID @ '' not found''))
      | Some listener \<Rightarrow>
          (case Listener_UnmarshalV3 lib listener of
             Inl err \<Rightarrow> Inl (Wrap (''failed to unmarshal listener '' @ NamespacedName_String listenerNN @ '' to v3'') err)
           | Inr lv3 \<Rightarrow>
               (case lv3_Address lv3 of
                  None \<Rightarrow> Inl (Err (''listener '' @ NamespacedName_String listenerNN @ '' has no address configured''))
                | Some addr \<Rightarrow>
                    (case addr_SocketAddress addr of
                       None \<Rightarrow> Inl (Err (''listener '' @ NamespacedName_String listenerNN @ '' has no socket address configured''))
                     | Some _ \<Rightarrow> claim_address nodeID listenerNN (hostPort lv3) addrToListener))))"

definition validateListenerAddressesUniquePerNodeID :: "protolib \<Rightarrow> OptimizedStore
    \<Rightarrow> (NamespacedName, string list) gomap \<Rightarrow> unit res" where
  "validateListenerAddressesUniquePerNodeID lib storeCopy listenerToNodeIDs =
     for_each (\<lambda>(nodeID, lns) u.
       and_then (for_each (thorough_listener lib storeCopy nodeID) lns []) (\<lambda>_. Inr u))
       (group_by_node listenerToNodeIDs) ()"

definition validateListenerAddresses :: "protolib \<Rightarrow> OptimizedStore \<Rightarrow> 'c SnapshotCache \<Rightarrow> bool \<Rightarrow> unit res" where
  "validateListenerAddresses lib storeCopy snapshotCache validationIndices =
     (let listenerToNodeIDs = buildListenerToNodeIDsMapping storeCopy snapshotCache
      in and_then (if validationIndices then validateListenerAddressesPerNodeID lib storeCopy listenerToNodeIDs else Inr ())
           (\<lambda>_. validateListenerAddressesUniquePerNodeID lib storeCopy listenerToNodeIDs))"

section \<open>Domains already served\<close>

text \<open>
  \<open>polls\<close> counts how often the context was asked before. A node without a snapshot is counted as
  missing; the panic of a failed type assertion is not.
\<close>

definition snapshot_domains :: "RouteConfiguration list \<Rightarrow> strset" where
  "snapshot_domains rcs =
     fold (\<lambda>rc. fold (\<lambda>vh. fold (\<lambda>dom st. gm_put dom () st) (vh_Domains vh)) (rc_VirtualHosts rc)) rcs []"

fun existing_from_cache :: "'c cplib \<Rightarrow> ctx \<Rightarrow> nat \<Rightarrow> 'c SnapshotCache \<Rightarrow> string list \<Rightarrow> nat
    \<Rightarrow> (string, strset) gomap \<Rightarrow> (nat \<times> (string, strset) gomap) res" where
  "existing_from_cache cp ctx polls sc [] missing existingByNode = Inr (missing, existingByNode)"
| "existing_from_cache cp ctx polls sc (nodeID # rest) missing existingByNode =
     (case ctx polls of
        Some err \<Rightarrow> Inl err
      | None \<Rightarrow>
          (case GetRouteConfigurations cp sc nodeID of
             Inl err \<Rightarrow>
               if err = cast_panic then Inl err
               else existing_from_cache cp ctx (Suc polls) sc rest (Suc missing) existingByNode
           | Inr rcs \<Rightarrow>
               existing_from_cache cp ctx (Suc polls) sc rest missing
                 (gm_put nodeID (snapshot_domains rcs) existingByNode)))"

definition buildExistingDomainsMap :: "'c cplib \<Rightarrow> ctx \<Rightarrow> nat \<Rightarrow> 'c CacheUpdater \<Rightarrow> string list \<Rightarrow> OptimizedStore \<Rightarrow> bool
    \<Rightarrow> (string, strset) gomap res" where
  "buildExistingDomainsMap cp ctx polls c targetNodeIDs storeCopy validationIndices =
     (if validationIndices then
        (case GetNodeDomainsForNodes storeCopy targetNodeIDs of
           (idx, missing) \<Rightarrow>
             if missing \<noteq> [] then Inl ErrLightValidationInsufficientCoverage else Inr idx)
      else
        and_then (existing_from_cache cp ctx polls (cu_snapshotCache c) targetNodeIDs 0 []) (\<lambda>(missing, existingByNode).
          if missing > 0 then Inl ErrLightValidationInsufficientCoverage else Inr existingByNode))"

definition excludePreviousVSDomains :: "builder \<Rightarrow> 'c CacheUpdater \<Rightarrow> VirtualService \<Rightarrow> string list
    \<Rightarrow> (string, strset) gomap \<Rightarrow> (string, strset) gomap res" where
  "excludePreviousVSDomains bld c prevVS targetNodeIDs existingByNode =
     (case bld prevVS (Copy (cu_store c)) of
        Inl err \<Rightarrow> Inl (Wrap ''failed to build resources for previous VS'' err)
      | Inr prevRes \<Rightarrow>
          let prevNodeIDs = resolveTargetNodeIDs (GetNodeIDs prevVS) (cu_snapshotCache c)
          in Inr (fold (\<lambda>nodeID m.
               case map_of m nodeID of
                 None \<Rightarrow> m
               | Some st \<Rightarrow> if nodeID \<in> set prevNodeIDs then gm_put nodeID (fold gm_del (r_Domains prevRes) st) m else m)
               targetNodeIDs existingByNode))"

definition checkDomainCollisions :: "string list \<Rightarrow> string list \<Rightarrow> (string, strset) gomap \<Rightarrow> unit res" where
  "checkDomainCollisions candidateDomains targetNodeIDs existingByNode =
     for_each (\<lambda>nodeID u.
       for_each (\<lambda>d u.
         if gm_has (gm_get [] existingByNode nodeID) d
         then Inl (Err (''duplicate domain '' @ quoted d @ '' for node '' @ nodeID))
         else Inr u) candidateDomains u) targetNodeIDs ()"

section \<open>The light dry run\<close>

definition DryValidateVirtualServiceLight :: "'c env \<Rightarrow> ctx \<Rightarrow> VirtualService \<Rightarrow> VirtualService option \<Rightarrow> bool
    \<Rightarrow> 'c CacheUpdater \<Rightarrow> unit res" where
  "DryValidateVirtualServiceLight e ctx vs prevVS validationIndices c =
     (case ctx 0 of
        Some err \<Rightarrow> Inl err
      | None \<Rightarrow>
          let storeCopy = SetVirtualService (Copy (cu_store c)) vs
          in case e_bld e vs storeCopy of
               Inl err \<Rightarrow> Inl (Wrap ''failed to build resources for VS'' err)
             | Inr vsRes \<Rightarrow>
                 and_then (validateDomainsWithinVS (r_Domains vsRes)) (\<lambda>_.
                 and_then (validateListenerAddresses (e_lib e) storeCopy (cu_snapshotCache c) validationIndices) (\<lambda>_.
                   let targetNodeIDs = resolveTargetNodeIDs (GetNodeIDs vs) (cu_snapshotCache c)
                   in if targetNodeIDs = [] \<or> r_Domains vsRes = [] then Inr ()
                      else
                        and_then (buildExistingDomainsMap (e_cp e) ctx 1 c targetNodeIDs storeCopy validationIndices) (\<lambda>existingByNode.
                        and_then (case prevVS of
                                    None \<Rightarrow> Inr existingByNode
                                  | Some prevVS \<Rightarrow> excludePreviousVSDomains (e_bld e) c prevVS targetNodeIDs existingByNode) (\<lambda>existingByNode.
                          checkDomainCollisions (r_Domains vsRes) targetNodeIDs existingByNode)))))"

end
