(* ===== verification/Webhook.thy ===== *)
theory Webhook
  imports Clusters Light
begin

text \<open>
  The admission webhooks of \<^verbatim>\<open>internal/webhook/v1alpha1\<close>. A handler is given an object of the API
  server, reads through the client and the updater and returns warnings or an error; none changes
  the state. The client's answers are the fields of \<open>apiclient\<close>. A context with a timeout is a
  context like any other: a function from the number of the poll to the error it reports.
\<close>

section \<open>Objects, client and errors\<close>

datatype runtime_Object =
    O_VirtualService VirtualService
  | O_VirtualServiceTemplate VirtualServiceTemplate
  | O_Listener Listener
  | O_Cluster Cluster
  | O_Route Route
  | O_HttpFilter HttpFilter
  | O_AccessLogConfig AccessLogConfig
  | O_Policy Policy
  | O_Tracing Tracing
  | O_Secret Secret

text \<open>The verb \<open>%T\<close>.\<close>

definition type_name :: "runtime_Object \<Rightarrow> string" where
  "type_name obj =
     (case obj of
        O_VirtualService _ \<Rightarrow> ''*v1alpha1.VirtualService''
      | O_VirtualServiceTemplate _ \<Rightarrow> ''*v1alpha1.VirtualServiceTemplate''
      | O_Listener _ \<Rightarrow> ''*v1alpha1.Listener''
      | O_Cluster _ \<Rightarrow> ''*v1alpha1.Cluster''
      | O_Route _ \<Rightarrow> ''*v1alpha1.Route''
      | O_HttpFilter _ \<Rightarrow> ''*v1alpha1.HttpFilter''
      | O_AccessLogConfig _ \<Rightarrow> ''*v1alpha1.AccessLogConfig''
      | O_Policy _ \<Rightarrow> ''*v1alpha1.Policy''
      | O_Tracing _ \<Rightarrow> ''*v1alpha1.Tracing''
      | O_Secret _ \<Rightarrow> ''*v1.Secret'')"

definition wrong_type :: "string \<Rightarrow> runtime_Object \<Rightarrow> 'a res" where
  "wrong_type what obj = Inl (Err (''expected a '' @ what @ '' but got '' @ type_name obj))"

text \<open>\<open>List\<close> takes the namespace, \<open>Get\<close> the name of the object.\<close>

record apiclient =
  ls_VirtualService :: "string \<Rightarrow> VirtualService list res"
  ls_VirtualServiceTemplate :: "string \<Rightarrow> VirtualServiceTemplate list res"
  ls_Route :: "string \<Rightarrow> Route list res"
  ls_Tracing :: "string \<Rightarrow> Tracing list res"
  get_Tracing :: "NamespacedName \<Rightarrow> Tracing res"

type_synonym warnings = "string list"

text \<open>\<open>errors.Is\<close>, through \<open>%w\<close> and through the combined errors of \<open>multierr\<close>.\<close>

fun errors_Is :: "goerr \<Rightarrow> goerr \<Rightarrow> bool" where
  "errors_Is (Err m) target = (Err m = target)"
| "errors_Is (Wrap m e) target = (Wrap m e = target \<or> errors_Is e target)"
| "errors_Is (Multi es) target = (Multi es = target \<or> list_ex (\<lambda>e. errors_Is e target) es)"

definition DeadlineExceeded :: goerr where
  "DeadlineExceeded = Err ''context deadline exceeded''"

text \<open>The verb \<open>%s\<close> on a slice of strings.\<close>

definition sprint_strings :: "string list \<Rightarrow> string" where
  "sprint_strings xs = ''['' @ join_with '' '' xs @ '']''"

section \<open>References that stand in the way of a deletion\<close>

definition still_referenced :: "string \<Rightarrow> string \<Rightarrow> string \<Rightarrow> string list \<Rightarrow> unit res" where
  "still_referenced kind name by_kind refNames =
     (if length refNames > 0
      then Inl (Err (''cannot delete '' @ kind @ '' '' @ name @ '' because it is still referenced by '' @
        by_kind @ ''(s) '' @ sprint_strings refNames))
      else Inr ())"

definition names_ref :: "ResourceRef option \<Rightarrow> string \<Rightarrow> bool" where
  "names_ref ref name = (case ref of None \<Rightarrow> False | Some r \<Rightarrow> ref_Name r = name)"

definition policy_refs :: "VirtualServiceCommonSpec \<Rightarrow> ResourceRef list" where
  "policy_refs c = (case c_RBAC c of None \<Rightarrow> [] | Some rbac \<Rightarrow> rbac_AdditionalPolicies rbac)"

abbreviation list_vs :: "apiclient \<Rightarrow> string \<Rightarrow> VirtualService list res" where
  "list_vs cl ns \<equiv> wrap_err ''failed to list VirtualService resources'' (ls_VirtualService cl ns)"

abbreviation list_vst :: "apiclient \<Rightarrow> string \<Rightarrow> VirtualServiceTemplate list res" where
  "list_vst cl ns \<equiv> wrap_err ''failed to list VirtualServiceTemplate resources'' (ls_VirtualServiceTemplate cl ns)"

section \<open>Listeners\<close>

definition Listener_ValidateCreate :: "protolib \<Rightarrow> runtime_Object \<Rightarrow> warnings res" where
  "Listener_ValidateCreate lib obj =
     (case obj of
        O_Listener listener \<Rightarrow> and_then (Listener_UnmarshalV3AndValidate lib listener) (\<lambda>_. Inr [])
      | _ \<Rightarrow> wrong_type ''Listener object'' obj)"

definition Listener_ValidateUpdate :: "protolib \<Rightarrow> runtime_Object \<Rightarrow> runtime_Object \<Rightarrow> warnings res" where
  "Listener_ValidateUpdate lib _ newObj =
     (case newObj of
        O_Listener listener \<Rightarrow> and_then (Listener_UnmarshalV3AndValidate lib listener) (\<lambda>_. Inr [])
      | _ \<Rightarrow> wrong_type ''Listener object for the newObj'' newObj)"

definition Listener_ValidateDelete :: "apiclient \<Rightarrow> runtime_Object \<Rightarrow> warnings res" where
  "Listener_ValidateDelete cl obj =
     (case obj of
        O_Listener listener \<Rightarrow>
          (let ns = m_Namespace (l_meta listener); name = m_Name (l_meta listener) in
           and_then (list_vs cl ns) (\<lambda>vss.
           and_then (still_referenced ''Listener'' name ''VirtualService''
             (map GetLabelName (filter (\<lambda>vs. names_ref (c_Listener (vs_common vs)) name) vss))) (\<lambda>_.
           and_then (list_vst cl ns) (\<lambda>vsts.
           and_then (still_referenced ''Listener'' name ''VirtualServiceTemplate''
             (map (\<lambda>vst. m_Name (vst_meta vst)) (filter (\<lambda>vst. names_ref (c_Listener (vst_common vst)) name) vsts))) (\<lambda>_.
           Inr [])))))
      | _ \<Rightarrow> wrong_type ''Listener object'' obj)"

section \<open>Access logs\<close>

definition AccessLogConfig_ValidateCreate :: "chainlib \<Rightarrow> runtime_Object \<Rightarrow> warnings res" where
  "AccessLogConfig_ValidateCreate xl obj =
     (case obj of
        O_AccessLogConfig accesslogconfig \<Rightarrow> and_then (UnmarshalAndValidateV3 xl None accesslogconfig) (\<lambda>_. Inr [])
      | _ \<Rightarrow> wrong_type ''AccessLogConfig object'' obj)"

definition AccessLogConfig_ValidateUpdate :: "chainlib \<Rightarrow> runtime_Object \<Rightarrow> runtime_Object \<Rightarrow> warnings res" where
  "AccessLogConfig_ValidateUpdate xl _ newObj =
     (case newObj of
        O_AccessLogConfig accesslogconfig \<Rightarrow> and_then (UnmarshalAndValidateV3 xl None accesslogconfig) (\<lambda>_. Inr [])
      | _ \<Rightarrow> wrong_type ''AccessLogConfig object for the newObj'' newObj)"

text \<open>Only the single reference is looked at, not the list \<open>AccessLogConfigs\<close>.\<close>

definition AccessLogConfig_ValidateDelete :: "apiclient \<Rightarrow> runtime_Object \<Rightarrow> warnings res" where
  "AccessLogConfig_ValidateDelete cl obj =
     (case obj of
        O_AccessLogConfig alc \<Rightarrow>
          (let ns = m_Namespace (alc_meta alc); name = m_Name (alc_meta alc) in
           and_then (list_vs cl ns) (\<lambda>vss.
           and_then (still_referenced ''AccessLogConfig'' name ''VirtualService''
             (map GetLabelName (filter (\<lambda>vs. names_ref (c_AccessLogConfig (vs_common vs)) name) vss))) (\<lambda>_.
           and_then (list_vst cl ns) (\<lambda>vsts.
           and_then (still_referenced ''AccessLogConfig'' name ''VirtualServiceTemplate''
             (map (\<lambda>vst. m_Name (vst_meta vst)) (filter (\<lambda>vst. names_ref (c_AccessLogConfig (vst_common vst)) name) vsts))) (\<lambda>_.
           Inr [])))))
      | _ \<Rightarrow> wrong_type ''AccessLogConfig object'' obj)"

section \<open>Tracings\<close>

definition Tracing_ValidateCreate :: "chainlib \<Rightarrow> runtime_Object \<Rightarrow> warnings res" where
  "Tracing_ValidateCreate xl obj =
     (case obj of
        O_Tracing tracing \<Rightarrow> and_then (Tracing_UnmarshalV3AndValidate xl tracing) (\<lambda>_. Inr [])
      | _ \<Rightarrow> wrong_type ''Tracing object'' obj)"

definition Tracing_ValidateUpdate :: "chainlib \<Rightarrow> runtime_Object \<Rightarrow> runtime_Object \<Rightarrow> warnings res" where
  "Tracing_ValidateUpdate xl _ newObj =
     (case newObj of
        O_Tracing tracing \<Rightarrow> and_then (Tracing_UnmarshalV3AndValidate xl tracing) (\<lambda>_. Inr [])
      | _ \<Rightarrow> wrong_type ''Tracing object for the newObj'' newObj)"

definition Tracing_ValidateDelete :: "apiclient \<Rightarrow> runtime_Object \<Rightarrow> warnings res" where
  "Tracing_ValidateDelete cl obj =
     (case obj of
        O_Tracing tracing \<Rightarrow>
          (let ns = m_Namespace (tr_meta tracing); name = m_Name (tr_meta tracing) in
           and_then (list_vs cl ns) (\<lambda>vss.
           and_then (still_referenced ''Tracing'' name ''VirtualService''
             (map GetLabelName (filter (\<lambda>vs. names_ref (c_TracingRef (vs_common vs)) name) vss))) (\<lambda>_.
           and_then (list_vst cl ns) (\<lambda>vsts.
           and_then (still_referenced ''Tracing'' name ''VirtualServiceTemplate''
             (map (\<lambda>vst. m_Name (vst_meta vst)) (filter (\<lambda>vst. names_ref (c_TracingRef (vst_common vst)) name) vsts))) (\<lambda>_.
           Inr [])))))
      | _ \<Rightarrow> wrong_type ''Tracing object'' obj)"

section \<open>HTTP filters\<close>

definition HttpFilter_UnmarshalV3 :: "filterlib \<Rightarrow> HttpFilter \<Rightarrow> HttpFilterV3 list res" where
  "HttpFilter_UnmarshalV3 fl h =
     (if length (hf_Spec h) = 0 then Inl ErrSpecNil
      else map_res (\<lambda>spec. case spec of
             None \<Rightarrow> Inl nil_panic
           | Some spec \<Rightarrow> Unmarshal_http_filter fl (raw_bytes spec)) (hf_Spec h))"

definition HttpFilter_UnmarshalV3AndValidate :: "filterlib \<Rightarrow> HttpFilter \<Rightarrow> HttpFilterV3 list res" where
  "HttpFilter_UnmarshalV3AndValidate fl h =
     and_then (HttpFilter_UnmarshalV3 fl h) (\<lambda>hfs.
     and_then (for_each (\<lambda>httpFilter _. Validate_http_filter fl httpFilter) hfs ()) (\<lambda>_.
     Inr hfs))"

definition HttpFilter_ValidateCreate :: "filterlib \<Rightarrow> runtime_Object \<Rightarrow> warnings res" where
  "HttpFilter_ValidateCreate fl obj =
     (case obj of
        O_HttpFilter httpfilter \<Rightarrow> and_then (HttpFilter_UnmarshalV3AndValidate fl httpfilter) (\<lambda>_. Inr [])
      | _ \<Rightarrow> wrong_type ''HttpFilter object'' obj)"

definition HttpFilter_ValidateUpdate :: "filterlib \<Rightarrow> runtime_Object \<Rightarrow> runtime_Object \<Rightarrow> warnings res" where
  "HttpFilter_ValidateUpdate fl _ newObj =
     (case newObj of
        O_HttpFilter httpfilter \<Rightarrow> and_then (HttpFilter_UnmarshalV3AndValidate fl httpfilter) (\<lambda>_. Inr [])
      | _ \<Rightarrow> wrong_type ''HttpFilter object for the newObj'' newObj)"

text \<open>A virtual service is named once for each of its references.\<close>

definition HttpFilter_ValidateDelete :: "apiclient \<Rightarrow> runtime_Object \<Rightarrow> warnings res" where
  "HttpFilter_ValidateDelete cl obj =
     (case obj of
        O_HttpFilter httpfilter \<Rightarrow>
          (let ns = m_Namespace (hf_meta httpfilter); name = m_Name (hf_meta httpfilter) in
           and_then (list_vs cl ns) (\<lambda>vss.
           and_then (still_referenced ''HttpFilter'' name ''VirtualService''
             (concat (map (\<lambda>vs. map (\<lambda>_. GetLabelName vs)
               (filter (\<lambda>r. ref_Name r = name) (c_AdditionalHttpFilters (vs_common vs)))) vss))) (\<lambda>_.
           and_then (wrap_err ''failed to list VirtualService resources'' (ls_VirtualServiceTemplate cl ns)) (\<lambda>vsts.
           and_then (still_referenced ''HttpFilter'' name ''VirtualServiceTemplate''
             (concat (map (\<lambda>vst. map (\<lambda>_. m_Name (vst_meta vst))
               (filter (\<lambda>r. ref_Name r = name) (c_AdditionalHttpFilters (vst_common vst)))) vsts))) (\<lambda>_.
           Inr [])))))
      | _ \<Rightarrow> wrong_type ''HttpFilter object'' obj)"

section \<open>Policies\<close>

definition Policy_UnmarshalV3 :: "filterlib \<Rightarrow> Policy \<Rightarrow> RbacPolicy res" where
  "Policy_UnmarshalV3 fl p =
     (case p_Spec p of
        None \<Rightarrow> Inl ErrSpecNil
      | Some spec \<Rightarrow> Unmarshal_rbac_policy fl (raw_bytes spec))"

definition Policy_UnmarshalV3AndValidate :: "filterlib \<Rightarrow> Policy \<Rightarrow> RbacPolicy res" where
  "Policy_UnmarshalV3AndValidate fl p =
     and_then (Policy_UnmarshalV3 fl p) (\<lambda>policy.
     and_then (Validate_rbac_policy fl policy) (\<lambda>_.
     Inr policy))"

definition Policy_ValidateCreate :: "filterlib \<Rightarrow> runtime_Object \<Rightarrow> warnings res" where
  "Policy_ValidateCreate fl obj =
     (case obj of
        O_Policy policy \<Rightarrow> and_then (Policy_UnmarshalV3AndValidate fl policy) (\<lambda>_. Inr [])
      | _ \<Rightarrow> wrong_type ''Policy object'' obj)"

definition Policy_ValidateUpdate :: "filterlib \<Rightarrow> runtime_Object \<Rightarrow> runtime_Object \<Rightarrow> warnings res" where
  "Policy_ValidateUpdate fl _ newObj =
     (case newObj of
        O_Policy policy \<Rightarrow> and_then (Policy_UnmarshalV3AndValidate fl policy) (\<lambda>_. Inr [])
      | _ \<Rightarrow> wrong_type ''Policy object for the newObj'' newObj)"

definition Policy_ValidateDelete :: "apiclient \<Rightarrow> runtime_Object \<Rightarrow> warnings res" where
  "Policy_ValidateDelete cl obj =
     (case obj of
        O_Policy policy \<Rightarrow>
          (let ns = m_Namespace (p_meta policy); name = m_Name (p_meta policy) in
           and_then (list_vs cl ns) (\<lambda>vss.
           and_then (still_referenced ''Policy'' name ''VirtualService''
             (map (\<lambda>vs. m_Name (vs_meta vs)) (filter (\<lambda>vs. list_ex (\<lambda>r. ref_Name r = name) (policy_refs (vs_common vs))) vss))) (\<lambda>_.
           and_then (list_vst cl ns) (\<lambda>vsts.
           and_then (still_referenced ''Policy'' name ''VirtualServiceTemplate''
             (map (\<lambda>vst. m_Name (vst_meta vst)) (filter (\<lambda>vst. list_ex (\<lambda>r. ref_Name r = name) (policy_refs (vst_common vst))) vsts))) (\<lambda>_.
           Inr [])))))
      | _ \<Rightarrow> wrong_type ''Policy object'' obj)"

section \<open>Routes\<close>

definition Route_ValidateCreate :: "protolib \<Rightarrow> runtime_Object \<Rightarrow> warnings res" where
  "Route_ValidateCreate lib obj =
     (case obj of
        O_Route route \<Rightarrow> and_then (Route_UnmarshalV3AndValidate lib route) (\<lambda>_. Inr [])
      | _ \<Rightarrow> wrong_type ''Route object'' obj)"

definition Route_ValidateUpdate :: "protolib \<Rightarrow> runtime_Object \<Rightarrow> runtime_Object \<Rightarrow> warnings res" where
  "Route_ValidateUpdate lib _ newObj =
     (case newObj of
        O_Route route \<Rightarrow> and_then (Route_UnmarshalV3AndValidate lib route) (\<lambda>_. Inr [])
      | _ \<Rightarrow> wrong_type ''Route object for the newObj'' newObj)"

definition Route_ValidateDelete :: "apiclient \<Rightarrow> runtime_Object \<Rightarrow> warnings res" where
  "Route_ValidateDelete cl obj =
     (case obj of
        O_Route route \<Rightarrow>
          (let ns = m_Namespace (r_meta route); name = m_Name (r_meta route) in
           and_then (list_vs cl ns) (\<lambda>vss.
           and_then (still_referenced ''Route'' name ''VirtualService''
             (map (\<lambda>vs. m_Name (vs_meta vs)) (filter (\<lambda>vs. list_ex (\<lambda>r. ref_Name r = name) (c_AdditionalRoutes (vs_common vs))) vss))) (\<lambda>_.
           and_then (list_vst cl ns) (\<lambda>vsts.
           and_then (still_referenced ''Route'' name ''VirtualServiceTemplate''
             (map (\<lambda>vst. m_Name (vst_meta vst)) (filter (\<lambda>vst. list_ex (\<lambda>r. ref_Name r = name) (c_AdditionalRoutes (vst_common vst))) vsts))) (\<lambda>_.
           Inr [])))))
      | _ \<Rightarrow> wrong_type ''Route object'' obj)"

section \<open>Secrets\<close>

definition Secret_ValidateCreate :: "runtime_Object \<Rightarrow> warnings res" where
  "Secret_ValidateCreate _ = Inr []"

definition Secret_ValidateUpdate :: "runtime_Object \<Rightarrow> runtime_Object \<Rightarrow> warnings res" where
  "Secret_ValidateUpdate _ _ = Inr []"

definition Secret_ValidateDelete :: "'c CacheUpdater \<Rightarrow> runtime_Object \<Rightarrow> warnings res" where
  "Secret_ValidateDelete c obj =
     (case obj of
        O_Secret secret \<Rightarrow>
          (let usedSecrets = GetUsedSecrets c in
           if length usedSecrets > 0 then
             (let ns = m_Namespace (s_meta secret);
                  ns = (if ns = [] then ''default'' else ns)
              in case map_of usedSecrets (NN ns (m_Name (s_meta secret))) of
                   Some vs \<Rightarrow> Inl (Err (''secret '' @ m_Name (s_meta secret) @ '' is still used in virtual service: '' @
                     Namespace vs @ ''/'' @ Name vs))
                 | None \<Rightarrow> Inr [])
           else Inr [])
      | _ \<Rightarrow> wrong_type ''Secret object'' obj)"

section \<open>Clusters\<close>

definition Cluster_ValidateCreate :: "protolib \<Rightarrow> 'c CacheUpdater \<Rightarrow> runtime_Object \<Rightarrow> warnings res" where
  "Cluster_ValidateCreate lib c obj =
     (case obj of
        O_Cluster cluster \<Rightarrow>
          and_then (Cluster_UnmarshalV3AndValidate lib cluster) (\<lambda>clusterV3.
          case Updater_GetSpecCluster c (cv3_Name clusterV3) of
            None \<Rightarrow> Inr []
          | Some val \<Rightarrow>
              if m_Name (cl_meta val) \<noteq> m_Name (cl_meta cluster) \<or> m_Namespace (cl_meta val) \<noteq> m_Namespace (cl_meta cluster)
              then Inl (Err (''cluster '' @ cv3_Name clusterV3 @ '' already exists''))
              else Inr [])
      | _ \<Rightarrow> wrong_type ''Cluster object'' obj)"

definition Cluster_ValidateUpdate :: "protolib \<Rightarrow> runtime_Object \<Rightarrow> runtime_Object \<Rightarrow> warnings res" where
  "Cluster_ValidateUpdate lib _ newObj =
     (case newObj of
        O_Cluster cluster \<Rightarrow> and_then (Cluster_UnmarshalV3AndValidate lib cluster) (\<lambda>_. Inr [])
      | _ \<Rightarrow> wrong_type ''Cluster object for the newObj'' newObj)"

text \<open>
  The search of the webhook has no bound on the depth, descends below the field too, and prints
  whatever it finds. How numbers and containers print is left to the library, as is the JSON codec.
\<close>

record hooklib =
  json_Marshal_raw :: "bytes \<Rightarrow> bytes res"
  json_Unmarshal_any :: "bytes \<Rightarrow> json res"
  sprint_json :: "json \<Rightarrow> string"

definition Sprintf_v :: "hooklib \<Rightarrow> json \<Rightarrow> string" where
  "Sprintf_v hl v =
     (case v of
        JNull \<Rightarrow> ''<nil>''
      | JBool b \<Rightarrow> FormatBool b
      | JStr s \<Rightarrow> s
      | _ \<Rightarrow> sprint_json hl v)"

fun findClusterNames :: "hooklib \<Rightarrow> json \<Rightarrow> string \<Rightarrow> string list" where
  "findClusterNames hl (JObj value) fieldName =
     concat (map (\<lambda>(k, v). (if k = fieldName then [Sprintf_v hl v] else []) @ findClusterNames hl v fieldName) value)"
| "findClusterNames hl (JArr value) fieldName = concat (map (\<lambda>item. findClusterNames hl item fieldName) value)"
| "findClusterNames hl data fieldName = []"

text \<open>\<open>routeV3.GetRoute().GetCluster()\<close>, if the route forwards at all.\<close>

definition route_names_cluster :: "RouteV3 \<Rightarrow> string \<Rightarrow> bool" where
  "route_names_cluster rt name =
     (case rt_Action rt of
        Some (RA_Route (Some (CS_Cluster c))) \<Rightarrow> c = name
      | Some (RA_Route _) \<Rightarrow> name = []
      | _ \<Rightarrow> False)"

definition check_route :: "protolib \<Rightarrow> Cluster \<Rightarrow> string \<Rightarrow> Route \<Rightarrow> unit \<Rightarrow> unit res" where
  "check_route lib cluster name route u =
     (case Route_UnmarshalV3AndValidate lib route of
        Inl err \<Rightarrow> Inl (Err (''failed to unmarshal routes for cluster '' @
          m_Namespace (cl_meta cluster) @ ''/'' @ m_Name (cl_meta cluster) @ '': '' @ err_Error err))
      | Inr routesV3 \<Rightarrow>
          if list_ex (\<lambda>rt. route_names_cluster rt name) routesV3
          then Inl (Err (''route for cluster '' @ m_Namespace (cl_meta cluster) @ ''/'' @ m_Name (cl_meta cluster) @
            '' is still in use in Route '' @ m_Name (r_meta route)))
          else Inr u)"

text \<open>The names of the tracings that mention the cluster.\<close>

definition check_tracing :: "hooklib \<Rightarrow> string \<Rightarrow> Tracing \<Rightarrow> string list \<Rightarrow> string list res" where
  "check_tracing hl name t refTracingNames =
     (case tr_Spec t of
        None \<Rightarrow> Inr refTracingNames
      | Some spec \<Rightarrow>
          (case Raw spec of
             None \<Rightarrow> Inr refTracingNames
           | Some raw \<Rightarrow>
               and_then (wrap_err (''failed to marshal Tracing '' @ m_Name (tr_meta t) @ '' spec'') (json_Marshal_raw hl raw)) (\<lambda>jsonData.
               and_then (wrap_err (''failed to unmarshal Tracing '' @ m_Name (tr_meta t) @ '' spec'') (json_Unmarshal_any hl jsonData)) (\<lambda>data.
               Inr (if name \<in> set (findClusterNames hl data ''cluster_name'' @ findClusterNames hl data ''collector_cluster'')
                    then refTracingNames @ [m_Name (tr_meta t)] else refTracingNames)))))"

definition Cluster_ValidateDelete :: "protolib \<Rightarrow> hooklib \<Rightarrow> apiclient \<Rightarrow> runtime_Object \<Rightarrow> warnings res" where
  "Cluster_ValidateDelete lib hl cl obj =
     (case obj of
        O_Cluster cluster \<Rightarrow>
          (let ns = m_Namespace (cl_meta cluster); what = ns @ ''/'' @ m_Name (cl_meta cluster) in
           and_then (Cluster_UnmarshalV3 lib cluster) (\<lambda>clusterV3.
           case ls_Route cl ns of
             Inl err \<Rightarrow> Inl (Err (''failed to list routes for cluster '' @ what @ '': '' @ err_Error err))
           | Inr rts \<Rightarrow>
               and_then (for_each (check_route lib cluster (cv3_Name clusterV3)) rts ()) (\<lambda>_.
               and_then (wrap_err ''failed to list Tracing resources'' (ls_Tracing cl ns)) (\<lambda>ts.
               and_then (for_each (check_tracing hl (cv3_Name clusterV3)) ts []) (\<lambda>refTracingNames.
               if length refTracingNames > 0
               then Inl (Err (''cannot delete Cluster '' @ what @ '' because it is still referenced by Tracing(s) '' @
                 sprint_strings refTracingNames))
               else Inr [])))))
      | _ \<Rightarrow> wrong_type ''Cluster object'' obj)"

section \<open>Virtual services\<close>

record WebhookConfig =
  DryRunTimeoutMS :: int
  LightDryRun :: bool
  ValidationIndices :: bool
  DevMode :: bool

definition skipValidationAnnotation :: string where
  "skipValidationAnnotation = ''envoy.kaasops.io/skip-validation''"

definition annotationValueTrue :: string where
  "annotationValueTrue = ''true''"

definition skips_validation :: "WebhookConfig \<Rightarrow> VirtualService \<Rightarrow> bool" where
  "skips_validation cfg vs \<longleftrightarrow>
     DevMode cfg \<and> m_Annotations (vs_meta vs) \<noteq> None \<and>
     map_of (nilmap (m_Annotations (vs_meta vs))) skipValidationAnnotation = Some annotationValueTrue"

text \<open>A duration in nanoseconds; it enters the verdict only through the message of a timeout.\<close>

definition getDryRunTimeout :: "WebhookConfig \<Rightarrow> int" where
  "getDryRunTimeout cfg = (if DryRunTimeoutMS cfg > 0 then DryRunTimeoutMS cfg * 1000000 else 1000 * 1000000)"

definition getLightDryRunEnabled :: "WebhookConfig \<Rightarrow> bool" where
  "getLightDryRunEnabled cfg = LightDryRun cfg"

definition both_tracings :: goerr where
  "both_tracings = Err ''only one of spec.tracing or spec.tracingRef may be set''"

definition empty_tracing_name :: goerr where
  "empty_tracing_name = Err ''spec.tracingRef.name must not be empty when spec.tracingRef is set''"

definition tracing_not_found :: "NamespacedName \<Rightarrow> string" where
  "tracing_not_found nn = ''referenced Tracing '' @ Namespace nn @ ''/'' @ Name nn @ '' not found or not accessible''"

definition validateVSTracing :: "apiclient \<Rightarrow> VirtualService \<Rightarrow> unit res" where
  "validateVSTracing cl vs =
     (if c_Tracing (vs_common vs) \<noteq> None \<and> c_TracingRef (vs_common vs) \<noteq> None then Inl both_tracings
      else case c_TracingRef (vs_common vs) of
             None \<Rightarrow> Inr ()
           | Some ref \<Rightarrow>
               if ref_Name ref = [] then Inl empty_tracing_name
               else
                 (let nn = NN (GetNamespace (ref_Namespace ref) (m_Namespace (vs_meta vs))) (ref_Name ref)
                  in and_then (wrap_err (tracing_not_found nn) (get_Tracing cl nn)) (\<lambda>_. Inr ())))"

text \<open>The error of a timeout; the duration is printed by \<open>sprint_duration\<close>.\<close>

definition timeoutError :: "(int \<Rightarrow> string) \<Rightarrow> WebhookConfig \<Rightarrow> goerr" where
  "timeoutError sprint_duration cfg =
     Err (''validation timed out after '' @ sprint_duration (getDryRunTimeout cfg) @
       ''; please retry or increase WEBHOOK_DRYRUN_TIMEOUT_MS'')"

text \<open>
  \<open>ctxL\<close> and \<open>ctxH\<close> are what the one context with a timeout answers during the light and the heavy
  dry run.
\<close>

definition heavy_validation :: "(int \<Rightarrow> string) \<Rightarrow> WebhookConfig \<Rightarrow> 'c env \<Rightarrow> ctx \<Rightarrow> 'c CacheUpdater \<Rightarrow> VirtualService \<Rightarrow> unit res" where
  "heavy_validation sd cfg e ctxH c vs =
     (case DryBuildSnapshotsWithVirtualService e ctxH vs c of
        None \<Rightarrow> Inr ()
      | Some err \<Rightarrow>
          if errors_Is err DeadlineExceeded then Inl (timeoutError sd cfg)
          else Inl (Wrap ''failed to build snapshot with virtual service'' err))"

definition light_validation :: "(int \<Rightarrow> string) \<Rightarrow> WebhookConfig \<Rightarrow> 'c env \<Rightarrow> ctx \<Rightarrow> ctx \<Rightarrow> 'c CacheUpdater
    \<Rightarrow> VirtualService \<Rightarrow> VirtualService option \<Rightarrow> unit res" where
  "light_validation sd cfg e ctxL ctxH c vs prevVS =
     (case DryValidateVirtualServiceLight e ctxL vs prevVS (ValidationIndices cfg) c of
        Inr _ \<Rightarrow> Inr ()
      | Inl err \<Rightarrow>
          if errors_Is err ErrLightValidationInsufficientCoverage then heavy_validation sd cfg e ctxH c vs
          else if errors_Is err DeadlineExceeded then Inl (timeoutError sd cfg)
          else Inl (Wrap ''light validation failed'' err))"

definition validateVirtualService :: "(int \<Rightarrow> string) \<Rightarrow> WebhookConfig \<Rightarrow> 'c env \<Rightarrow> apiclient \<Rightarrow> ctx \<Rightarrow> ctx \<Rightarrow> 'c CacheUpdater
    \<Rightarrow> VirtualService \<Rightarrow> VirtualService option \<Rightarrow> unit res" where
  "validateVirtualService sd cfg e cl ctxL ctxH c vs prevVS =
     (if length (GetNodeIDs vs) = 0 then Inl (Err ''nodeIDs is required'')
      else
        and_then (validateVSTracing cl vs) (\<lambda>_.
        if getLightDryRunEnabled cfg then light_validation sd cfg e ctxL ctxH c vs prevVS
        else heavy_validation sd cfg e ctxH c vs))"

definition skipped_warning :: string where
  "skipped_warning = ''Validation skipped via annotation - only available in development mode''"

definition VirtualService_ValidateCreate :: "(int \<Rightarrow> string) \<Rightarrow> WebhookConfig \<Rightarrow> 'c env \<Rightarrow> apiclient \<Rightarrow> ctx \<Rightarrow> ctx
    \<Rightarrow> 'c CacheUpdater \<Rightarrow> runtime_Object \<Rightarrow> warnings res" where
  "VirtualService_ValidateCreate sd cfg e cl ctxL ctxH c obj =
     (case obj of
        O_VirtualService vs \<Rightarrow>
          if skips_validation cfg vs then Inr [skipped_warning]
          else
            and_then (wrap_err (''failed to validate VirtualService '' @ m_Name (vs_meta vs))
              (validateVirtualService sd cfg e cl ctxL ctxH c vs None)) (\<lambda>_. Inr [])
      | _ \<Rightarrow> wrong_type ''VirtualService object'' obj)"

definition VirtualService_ValidateUpdate :: "(int \<Rightarrow> string) \<Rightarrow> WebhookConfig \<Rightarrow> 'c env \<Rightarrow> apiclient \<Rightarrow> ctx \<Rightarrow> ctx
    \<Rightarrow> 'c CacheUpdater \<Rightarrow> runtime_Object \<Rightarrow> runtime_Object \<Rightarrow> warnings res" where
  "VirtualService_ValidateUpdate sd cfg e cl ctxL ctxH c oldObj newObj =
     (case newObj of
        O_VirtualService vs \<Rightarrow>
          (let prevVS = (case oldObj of O_VirtualService oldVS \<Rightarrow> Some oldVS | _ \<Rightarrow> None)
           in if prevVS \<noteq> None \<and> VirtualService_IsEqual (e_sl e) prevVS (Some vs) then Inr []
              else if skips_validation cfg vs then Inr [skipped_warning]
              else
                and_then (wrap_err (''failed to validate VirtualService '' @ m_Name (vs_meta vs))
                  (validateVirtualService sd cfg e cl ctxL ctxH c vs prevVS)) (\<lambda>_. Inr []))
      | _ \<Rightarrow> wrong_type ''VirtualService object for the newObj'' newObj)"

definition VirtualService_ValidateDelete :: "runtime_Object \<Rightarrow> warnings res" where
  "VirtualService_ValidateDelete _ = Inr []"

section \<open>Extra fields of a template\<close>

definition validTypes :: "string set" where
  "validTypes = {''string'', ''enum''}"

definition declare_field :: "ExtraField option \<Rightarrow> (string, bool) gomap \<Rightarrow> (string, bool) gomap res" where
  "declare_field field extraFieldsUsed =
     (case field of
        None \<Rightarrow> Inl nil_panic
      | Some f \<Rightarrow>
          if ef_Name f = [] then Inl (Err ''extraField name cannot be empty'')
          else if ef_Type f = [] then Inl (Err (''extraField '' @ quoted (ef_Name f) @ '' type cannot be empty''))
          else if ef_Type f \<notin> validTypes then
            Inl (Err (''extraField '' @ quoted (ef_Name f) @ '' has unknown type '' @ quoted (ef_Type f) @
              '', valid types are: string, enum''))
          else if ef_Type f = ''enum'' \<and> length (ef_Enum f) = 0 then
            Inl (Err (''extraField '' @ quoted (ef_Name f) @ '' type is '' @ quoted ''enum'' @ '' but no enum values are defined''))
          else Inr (gm_put (ef_Name f) False extraFieldsUsed))"

text \<open>
  The regular expression \<^verbatim>\<open>{{\s*\.([A-Za-z0-9_]+)\s*}}\<close>: the classes that follow one another are
  disjoint, so a greedy scan without backtracking decides it. \<open>match_reference\<close> matches at the start
  of a string and gives the group and what follows the match.
\<close>

definition is_space :: "char \<Rightarrow> bool" where
  "is_space ch \<longleftrightarrow> ch \<in> set [CHR 0x09, CHR 0x0A, CHR 0x0C, CHR 0x0D, CHR '' '']"

definition is_word :: "char \<Rightarrow> bool" where
  "is_word ch \<longleftrightarrow>
     (let n = (of_char ch :: nat) in
      (65 \<le> n \<and> n \<le> 90) \<or> (97 \<le> n \<and> n \<le> 122) \<or> (48 \<le> n \<and> n \<le> 57) \<or> n = 95)"

definition match_reference :: "string \<Rightarrow> (string \<times> string) option" where
  "match_reference s =
     (if take 2 s \<noteq> ''{{'' then None
      else case dropWhile is_space (drop 2 s) of
             [] \<Rightarrow> None
           | ch # s \<Rightarrow>
               if ch \<noteq> CHR ''.'' then None
               else
                 (let name = takeWhile is_word s; s = dropWhile is_space (dropWhile is_word s)
                  in if name = [] \<or> take 2 s \<noteq> ''}}'' then None else Some (name, drop 2 s)))"

text \<open>\<open>FindAllStringSubmatch\<close>: the leftmost matches that do not overlap; here their groups.\<close>

lemma match_reference_shorter: "match_reference s = Some (name, rest) \<Longrightarrow> length rest < length s"
proof -
  assume "match_reference s = Some (name, rest)"
  then obtain s' where "take 2 s = ''{{''" and s': "dropWhile is_space (drop 2 s) = CHR ''.'' # s'"
    and "rest = drop 2 (dropWhile is_space (dropWhile is_word s'))"
    by (auto simp: match_reference_def Let_def split: if_splits list.splits)
  moreover from s' have "length s' < length s"
    using length_dropWhile_le [of is_space "drop 2 s"] by simp
  ultimately show ?thesis
    using length_dropWhile_le [of is_word s'] length_dropWhile_le [of is_space "dropWhile is_word s'"] by simp
qed

function FindAllReferences :: "string \<Rightarrow> string list" where
  "FindAllReferences s =
     (case match_reference s of
        Some (name, rest) \<Rightarrow> name # FindAllReferences rest
      | None \<Rightarrow> (case s of [] \<Rightarrow> [] | _ # s' \<Rightarrow> FindAllReferences s'))"
  by pat_completeness auto
termination
  by (relation "measure length") (auto dest: match_reference_shorter)

declare FindAllReferences.simps [simp del]

definition mark_used :: "string list \<Rightarrow> (string, bool) gomap \<Rightarrow> (string, bool) gomap" where
  "mark_used names extraFieldsUsed =
     fold (\<lambda>fieldName m. if gm_has m fieldName then gm_put fieldName True m else m) names extraFieldsUsed"

definition validateExtraFieldsUsage :: "speclib \<Rightarrow> VirtualServiceTemplate \<Rightarrow> unit res" where
  "validateExtraFieldsUsage sl vst =
     (if length (vst_ExtraFields vst) = 0 then Inr ()
      else
        and_then (for_each declare_field (vst_ExtraFields vst) []) (\<lambda>extraFieldsUsed.
        and_then (wrap_err ''failed to marshal template spec'' (marshal_common sl (vst_common vst))) (\<lambda>specJSON.
          let extraFieldsUsed = mark_used (FindAllReferences specJSON) extraFieldsUsed;
              unusedFields = map fst (filter (\<lambda>(_, used). \<not> used) extraFieldsUsed)
          in if length unusedFields > 0
             then Inl (Err (''the following extraFields are defined but not used in the template: '' @
               join_with '', '' unusedFields))
             else Inr ())))"

section \<open>Templates\<close>

text \<open>The context is asked before the look-up and after one that failed.\<close>

definition validateTemplateTracing :: "ctx \<Rightarrow> apiclient \<Rightarrow> VirtualServiceTemplate \<Rightarrow> unit res" where
  "validateTemplateTracing ctx cl vst =
     (if c_Tracing (vst_common vst) \<noteq> None \<and> c_TracingRef (vst_common vst) \<noteq> None then Inl both_tracings
      else case c_TracingRef (vst_common vst) of
             None \<Rightarrow> Inr ()
           | Some ref \<Rightarrow>
               if ref_Name ref = [] then Inl empty_tracing_name
               else
                 (let nn = NN (GetNamespace (ref_Namespace ref) (m_Namespace (vst_meta vst))) (ref_Name ref)
                  in case ctx 0 of
                       Some err \<Rightarrow> Inl (Wrap ''context cancelled before Tracing lookup'' err)
                     | None \<Rightarrow>
                         (case get_Tracing cl nn of
                            Inr _ \<Rightarrow> Inr ()
                          | Inl err \<Rightarrow>
                              (case ctx 1 of
                                 Some ctxErr \<Rightarrow> Inl (Wrap ''context error during Tracing lookup'' ctxErr)
                               | None \<Rightarrow> Inl (Wrap (tracing_not_found nn) err)))))"

text \<open>The check of the tracing under its timeout; \<open>late\<close> is what the context answers afterwards.\<close>

definition timed_tracing :: "(int \<Rightarrow> string) \<Rightarrow> WebhookConfig \<Rightarrow> ctx \<Rightarrow> goerr option \<Rightarrow> apiclient \<Rightarrow> VirtualServiceTemplate \<Rightarrow> unit res" where
  "timed_tracing sd cfg ctx late cl vst =
     (case validateTemplateTracing ctx cl vst of
        Inr _ \<Rightarrow> Inr ()
      | Inl err \<Rightarrow>
          if (case late of None \<Rightarrow> False | Some ce \<Rightarrow> errors_Is ce DeadlineExceeded)
          then Inl (Err (''tracing validation timed out after '' @ sd (getDryRunTimeout cfg) @
            ''; please check Kubernetes API availability''))
          else Inl err)"

definition VirtualServiceTemplate_ValidateCreate :: "(int \<Rightarrow> string) \<Rightarrow> WebhookConfig \<Rightarrow> speclib \<Rightarrow> apiclient \<Rightarrow> ctx \<Rightarrow> goerr option
    \<Rightarrow> runtime_Object \<Rightarrow> warnings res" where
  "VirtualServiceTemplate_ValidateCreate sd cfg sl cl ctxTracing late obj =
     (case obj of
        O_VirtualServiceTemplate vst \<Rightarrow>
          and_then (validateExtraFieldsUsage sl vst) (\<lambda>_.
          and_then (timed_tracing sd cfg ctxTracing late cl vst) (\<lambda>_.
          Inr []))
      | _ \<Rightarrow> wrong_type ''VirtualServiceTemplate object'' obj)"

definition VirtualServiceTemplate_ValidateUpdate :: "(int \<Rightarrow> string) \<Rightarrow> WebhookConfig \<Rightarrow> 'c env \<Rightarrow> apiclient \<Rightarrow> ctx \<Rightarrow> goerr option
    \<Rightarrow> ctx \<Rightarrow> goerr option \<Rightarrow> 'c CacheUpdater \<Rightarrow> runtime_Object \<Rightarrow> runtime_Object \<Rightarrow> warnings res" where
  "VirtualServiceTemplate_ValidateUpdate sd cfg e cl ctxTracing lateTracing ctxTO lateTO c _ newObj =
     (case newObj of
        O_VirtualServiceTemplate vst \<Rightarrow>
          and_then (validateExtraFieldsUsage (e_sl e) vst) (\<lambda>_.
          and_then (timed_tracing sd cfg ctxTracing lateTracing cl vst) (\<lambda>_.
          case DryBuildSnapshotsWithVirtualServiceTemplate e ctxTO vst c of
            None \<Rightarrow> Inr []
          | Some err \<Rightarrow>
              if (case lateTO of None \<Rightarrow> False | Some ce \<Rightarrow> errors_Is ce DeadlineExceeded)
              then Inl (timeoutError sd cfg)
              else Inl (Wrap ''failed to apply VirtualServiceTemplate'' err)))
      | _ \<Rightarrow> wrong_type ''VirtualServiceTemplate object'' newObj)"

definition VirtualServiceTemplate_ValidateDelete :: "apiclient \<Rightarrow> runtime_Object \<Rightarrow> warnings res" where
  "VirtualServiceTemplate_ValidateDelete cl obj =
     (case obj of
        O_VirtualServiceTemplate vst \<Rightarrow>
          (let ns = m_Namespace (vst_meta vst); vstName = m_Name (vst_meta vst) in
           and_then (list_vs cl ns) (\<lambda>vss.
             let refVsNames = map GetLabelName (filter (\<lambda>vs. names_ref (vs_Template vs) vstName) vss)
             in if length refVsNames > 0
                then Inl (Err (''cannot delete VirtualServiceTemplate '' @ vstName @
                  '' because it is referenced by VirtualService(s) '' @ sprint_strings refVsNames))
                else Inr []))
      | _ \<Rightarrow> wrong_type ''VirtualServiceTemplate object'' obj)"

end
