(* ===== verification/BuildSpec.thy ===== *)
theory BuildSpec
  imports Build StoreInv
begin

text \<open>
  What a build of all snapshots guarantees: unique domains per node, exact statuses and domain
  index, snapshots that hold what was mixed, no change on failure before the commit.
\<close>

section \<open>Effects of the steps\<close>

definition doms :: "build \<Rightarrow> string list" where
  "doms b = map fst (b_nodeIDDomainsSet b)"

definition indexed :: "build \<Rightarrow> (string \<times> string) set" where
  "indexed b = {(n, d). gm_has (gm_get [] (b_nodeDomainsIndex b) n) d}"

text \<open>What adding domains and resources leaves alone.\<close>

definition frame :: "build \<Rightarrow> build \<Rightarrow> bool" where
  "frame b b' \<longleftrightarrow> b_errs b' = b_errs b \<and> b_vsStatuses b' = b_vsStatuses b \<and>
     b_usedSecrets b' = b_usedSecrets b \<and> b_common b' = b_common b"

lemma frame_refl [simp]: "frame b b"
  and frame_trans [trans]: "frame a b \<Longrightarrow> frame b c \<Longrightarrow> frame a c"
  by (simp_all add: frame_def)

lemma poll_Inr: "poll ctx b = Inr b' \<longleftrightarrow> ctx (b_polls b) = None \<and> b' = b\<lparr>b_polls := Suc (b_polls b)\<rparr>"
  by (auto simp: poll_def split: option.splits)

lemma gm_put_fresh: "\<not> gm_has m k \<Longrightarrow> map fst (gm_put k v m) = map fst m @ [k]"
  by (simp add: gm_put_def gm_has_iff update_keys)

lemma add_domain_effect:
  assumes "add_domain ctx idx n d b = Inr b'"
  shows "doms b' = doms b @ [nodeIDDomain n d]" "nodeIDDomain n d \<notin> set (doms b)"
    "b_mixer b' = b_mixer b" "frame b b'"
    "indexed b' = (if idx then insert (n, d) (indexed b) else indexed b)"
proof -
  let ?nd = "nodeIDDomain n d"
  let ?b1 = "b\<lparr>b_polls := Suc (b_polls b), b_nodeIDDomainsSet := gm_put ?nd () (b_nodeIDDomainsSet b)\<rparr>"
  let ?idx = "gm_put n (gm_put d () (gm_get [] (b_nodeDomainsIndex b) n)) (b_nodeDomainsIndex b)"
  from assms have fresh: "\<not> gm_has (b_nodeIDDomainsSet b) ?nd"
    and b': "b' = (if idx then ?b1\<lparr>b_nodeDomainsIndex := ?idx\<rparr> else ?b1)"
    by (auto simp: add_domain_def exits poll_Inr Let_def split: if_splits)
  show "doms b' = doms b @ [?nd]" using gm_put_fresh [OF fresh] by (simp add: b' doms_def)
  show "?nd \<notin> set (doms b)" using fresh by (simp add: doms_def gm_has_iff)
  show "b_mixer b' = b_mixer b" "frame b b'" by (simp_all add: b' frame_def)
  have "gm_has (gm_get [] ?idx n') d' \<longleftrightarrow> (n', d') = (n, d) \<or> gm_has (gm_get [] (b_nodeDomainsIndex b) n') d'" for n' d'
    by (auto simp: gm_get_def gm_has_def)
  then show "indexed b' = (if idx then insert (n, d) (indexed b) else indexed b)"
    by (auto simp: b' indexed_def)
qed

lemma add_domains_effect:
  assumes "for_each (add_domain ctx idx n) ds b = Inr b'"
  shows "doms b' = doms b @ map (nodeIDDomain n) ds" "distinct (doms b) \<Longrightarrow> distinct (doms b')"
    "b_mixer b' = b_mixer b" "frame b b'"
    "indexed b' = (if idx then indexed b \<union> {n} \<times> set ds else indexed b)"
proof -
  from assms have "doms b' = doms b @ map (nodeIDDomain n) ds \<and> (distinct (doms b) \<longrightarrow> distinct (doms b')) \<and>
    b_mixer b' = b_mixer b \<and> frame b b' \<and>
    indexed b' = (if idx then indexed b \<union> {n} \<times> set ds else indexed b)"
  proof (induction ds arbitrary: b)
    case (Cons d ds)
    then obtain b1 where b1: "add_domain ctx idx n d b = Inr b1" "for_each (add_domain ctx idx n) ds b1 = Inr b'"
      by (auto split: sum.splits)
    note e = add_domain_effect [OF b1(1)]
    from e(1,2) have d: "distinct (doms b) \<longrightarrow> distinct (doms b1)" by simp
    show ?case
    proof (intro conjI)
      show "doms b' = doms b @ map (nodeIDDomain n) (d # ds)" using Cons.IH [OF b1(2)] e(1) by simp
      show "distinct (doms b) \<longrightarrow> distinct (doms b')" using Cons.IH [OF b1(2)] d by blast
      show "b_mixer b' = b_mixer b" using Cons.IH [OF b1(2)] e(3) by simp
      show "frame b b'" using Cons.IH [OF b1(2)] e(4) by (blast intro: frame_trans)
      show "indexed b' = (if idx then indexed b \<union> {n} \<times> set (d # ds) else indexed b)"
        using Cons.IH [OF b1(2)] e(5) by auto
    qed
  qed simp
  then show "doms b' = doms b @ map (nodeIDDomain n) ds" "distinct (doms b) \<Longrightarrow> distinct (doms b')"
    "b_mixer b' = b_mixer b" "frame b b'"
    "indexed b' = (if idx then indexed b \<union> {n} \<times> set ds else indexed b)" by blast+
qed

text \<open>A step of the build: which domains it claims for which nodes, and what it adds to the mixer.\<close>

definition effect :: "bool \<Rightarrow> (string \<times> string) list \<Rightarrow> (Mixer \<Rightarrow> Mixer) \<Rightarrow> build \<Rightarrow> build \<Rightarrow> bool" where
  "effect idx cs f b b' \<longleftrightarrow>
     doms b' = doms b @ map (\<lambda>(n, d). nodeIDDomain n d) cs \<and>
     (distinct (doms b) \<longrightarrow> distinct (doms b')) \<and>
     indexed b' = (if idx then indexed b \<union> set cs else indexed b) \<and>
     b_mixer b' = f (b_mixer b)"

lemma effect_comp: "effect idx cs f b b1 \<Longrightarrow> effect idx ds g b1 b2 \<Longrightarrow> effect idx (cs @ ds) (g \<circ> f) b b2"
  unfolding effect_def by (elim conjE, intro conjI) (simp, blast, auto)

lemma effect_fields:
  "doms b1 = doms b \<Longrightarrow> indexed b1 = indexed b \<Longrightarrow> b_mixer b1 = b_mixer b \<Longrightarrow> effect idx [] id b b1"
  by (simp add: effect_def)

lemma add_node_effect:
  assumes "add_node ctx idx res n b = Inr b'"
  shows "effect idx (map (Pair n) (r_Domains res)) (add_resources res n) b b'" "frame b b'"
proof -
  from assms obtain b1 where b1: "for_each (add_domain ctx idx n) (r_Domains res) (b\<lparr>b_polls := Suc (b_polls b)\<rparr>) = Inr b1"
    and b': "b' = b1\<lparr>b_mixer := add_resources res n (b_mixer b1)\<rparr>"
    by (auto simp: add_node_def exits poll_Inr)
  note e = add_domains_effect [OF b1]
  have upd: "doms b' = doms b1" "indexed b' = indexed b1" "frame b1 b'"
    by (simp_all add: b' doms_def indexed_def frame_def)
  have pol: "doms (b\<lparr>b_polls := k\<rparr>) = doms b" "indexed (b\<lparr>b_polls := k\<rparr>) = indexed b" "frame b (b\<lparr>b_polls := k\<rparr>)" for k
    by (simp_all add: doms_def indexed_def frame_def)
  show "effect idx (map (Pair n) (r_Domains res)) (add_resources res n) b b'"
    unfolding effect_def
  proof (intro conjI)
    show "doms b' = doms b @ map (\<lambda>(n, d). nodeIDDomain n d) (map (Pair n) (r_Domains res))"
      unfolding upd e(1) pol by (simp add: comp_def)
    show "distinct (doms b) \<longrightarrow> distinct (doms b')" using e(2) unfolding upd pol by blast
    show "indexed b' = (if idx then indexed b \<union> set (map (Pair n) (r_Domains res)) else indexed b)"
      unfolding upd e(5) pol by auto
    show "b_mixer b' = add_resources res n (b_mixer b)" by (simp add: b' e(3))
  qed
  show "frame b b'" using frame_trans [OF pol(3) frame_trans [OF e(4) upd(3)]] .
qed

definition claims :: "Resources \<Rightarrow> string list \<Rightarrow> (string \<times> string) list" where
  "claims res ns = concat (map (\<lambda>n. map (Pair n) (r_Domains res)) ns)"

lemma set_claims: "set (claims res ns) = set ns \<times> set (r_Domains res)"
  by (auto simp: claims_def)

lemma add_nodes_effect:
  assumes "for_each (add_node ctx idx res) ns b = Inr b'"
  shows "effect idx (claims res ns) (fold (add_resources res) ns) b b' \<and> frame b b'"
  using assms
proof (induction ns arbitrary: b)
  case Nil
  then show ?case by (simp add: claims_def effect_def)
next
  case (Cons n ns)
  then obtain b1 where b1: "add_node ctx idx res n b = Inr b1" "for_each (add_node ctx idx res) ns b1 = Inr b'"
    by (auto split: sum.splits)
  from effect_comp [OF add_node_effect(1) [OF b1(1)], of "claims res ns" "fold (add_resources res) ns" b']
    frame_trans [OF add_node_effect(2) [OF b1(1)], of b'] Cons.IH [OF b1(2)]
  show ?case by (simp add: claims_def comp_def)
qed

section \<open>Collecting\<close>

text \<open>A virtual service is served on its nodes when it has some, is not common, and builds.\<close>

definition own_nodes :: "VirtualService \<Rightarrow> string list" where
  "own_nodes vs = (if isCommonVirtualService (GetNodeIDs vs) then [] else GetNodeIDs vs)"

definition is_common :: "VirtualService \<Rightarrow> bool" where
  "is_common vs \<longleftrightarrow> isCommonVirtualService (GetNodeIDs vs)"

text \<open>The status a virtual service ends up with.\<close>

definition build_status :: "builder \<Rightarrow> OptimizedStore \<Rightarrow> VirtualService \<Rightarrow> VSStatus" where
  "build_status bld store vs =
     (if GetNodeIDs vs = [] then \<lparr>Invalid = True, Message = err_Error (no_node_ids vs)\<rparr>
      else if is_common vs then \<lparr>Invalid = False, Message = []\<rparr>
      else case bld vs store of
             Inl err \<Rightarrow> \<lparr>Invalid = True, Message = err_Error (getRootCause err)\<rparr>
           | Inr _ \<Rightarrow> \<lparr>Invalid = False, Message = []\<rparr>)"

definition build_errs :: "builder \<Rightarrow> OptimizedStore \<Rightarrow> VirtualService \<Rightarrow> goerr list" where
  "build_errs bld store vs =
     (if GetNodeIDs vs = [] then [no_node_ids vs]
      else if is_common vs then []
      else case bld vs store of Inl err \<Rightarrow> [err] | Inr _ \<Rightarrow> [])"

definition claims_on :: "builder \<Rightarrow> OptimizedStore \<Rightarrow> string list \<Rightarrow> VirtualService \<Rightarrow> (string \<times> string) list" where
  "claims_on bld store ns vs = (case bld vs store of Inl _ \<Rightarrow> [] | Inr res \<Rightarrow> claims res ns)"

definition mix_on :: "builder \<Rightarrow> OptimizedStore \<Rightarrow> string list \<Rightarrow> VirtualService \<Rightarrow> Mixer \<Rightarrow> Mixer" where
  "mix_on bld store ns vs = (case bld vs store of Inl _ \<Rightarrow> id | Inr res \<Rightarrow> fold (add_resources res) ns)"

lemma no_node_ids_root [simp]: "getRootCause (no_node_ids vs) = no_node_ids vs"
  by (simp add: no_node_ids_def)

lemma effect_pre: "effect idx cs f b b' \<Longrightarrow> doms b0 = doms b \<Longrightarrow> indexed b0 = indexed b \<Longrightarrow>
    b_mixer b0 = b_mixer b \<Longrightarrow> effect idx cs f b0 b'"
  unfolding effect_def by metis

lemma build_upds [simp]:
  "doms (b\<lparr>b_polls := k\<rparr>) = doms b" "indexed (b\<lparr>b_polls := k\<rparr>) = indexed b"
  "doms (set_status vs i m b) = doms b" "indexed (set_status vs i m b) = indexed b" "b_mixer (set_status vs i m b) = b_mixer b"
  "doms (add_err e b) = doms b" "indexed (add_err e b) = indexed b" "b_mixer (add_err e b) = b_mixer b"
  "doms (use_secrets res vs b) = doms b" "indexed (use_secrets res vs b) = indexed b" "b_mixer (use_secrets res vs b) = b_mixer b"
  "doms (b\<lparr>b_common := c\<rparr>) = doms b" "indexed (b\<lparr>b_common := c\<rparr>) = indexed b"
  "b_errs (add_err e b) = b_errs b @ [e]" "b_vsStatuses (add_err e b) = b_vsStatuses b" "b_common (add_err e b) = b_common b"
  "b_errs (set_status vs i m b) = b_errs b" "b_common (set_status vs i m b) = b_common b"
  "b_vsStatuses (set_status vs i m b) = gm_put (meta_nn (vs_meta vs)) \<lparr>Invalid = i, Message = m\<rparr> (b_vsStatuses b)"
  "b_errs (use_secrets res vs b) = b_errs b" "b_vsStatuses (use_secrets res vs b) = b_vsStatuses b"
  "b_common (use_secrets res vs b) = b_common b"
  by (simp_all add: doms_def indexed_def set_status_def add_err_def use_secrets_def)

lemma effect_none [simp]: "effect idx [] id b b' \<longleftrightarrow>
    doms b' = doms b \<and> indexed b' = indexed b \<and> b_mixer b' = b_mixer b"
  by (auto simp: effect_def)

lemma process_vs_effect:
  assumes "process_vs ctx idx bld store vs b = Inr b'"
  shows "effect idx (claims_on bld store (own_nodes vs) vs) (mix_on bld store (own_nodes vs) vs) b b'"
    "map_of (b_vsStatuses b') = (map_of (b_vsStatuses b))(meta_nn (vs_meta vs) \<mapsto> build_status bld store vs)"
    "b_errs b' = b_errs b @ build_errs bld store vs"
    "b_common b' = b_common b @ (if is_common vs then [vs] else [])"
proof -
  have none: "claims_on bld store [] vs = []" "mix_on bld store [] vs = id"
    by (auto simp: claims_on_def mix_on_def claims_def fun_eq_iff split: sum.split)
  have "effect idx (claims_on bld store (own_nodes vs) vs) (mix_on bld store (own_nodes vs) vs) b b' \<and>
    map_of (b_vsStatuses b') = (map_of (b_vsStatuses b))(meta_nn (vs_meta vs) \<mapsto> build_status bld store vs) \<and>
    b_errs b' = b_errs b @ build_errs bld store vs \<and>
    b_common b' = b_common b @ (if is_common vs then [vs] else [])"
  proof (cases "GetNodeIDs vs = [] \<or> is_common vs")
    case True
    with assms show ?thesis
      by (auto simp: process_vs_def exits poll_Inr Let_def build_status_def build_errs_def is_common_def own_nodes_def
          none isCommonVirtualService_def)
  next
    case False
    then have ns: "GetNodeIDs vs \<noteq> []" "\<not> is_common vs" "own_nodes vs = GetNodeIDs vs"
      by (auto simp: own_nodes_def is_common_def)
    show ?thesis
    proof (cases "bld vs store")
      case (Inl err)
      with assms ns show ?thesis
        by (auto simp: process_vs_def exits poll_Inr Let_def build_status_def build_errs_def is_common_def
            claims_on_def mix_on_def)
    next
      case (Inr res)
      with assms ns obtain b1 where run: "for_each (add_node ctx idx res) (GetNodeIDs vs) b1 = Inr b'"
        and b1: "doms b1 = doms b" "indexed b1 = indexed b" "b_mixer b1 = b_mixer b" "b_errs b1 = b_errs b"
          "b_common b1 = b_common b"
          "map_of (b_vsStatuses b1) = (map_of (b_vsStatuses b))(meta_nn (vs_meta vs) \<mapsto> \<lparr>Invalid = False, Message = []\<rparr>)"
        by (auto simp: process_vs_def exits poll_Inr Let_def is_common_def)
      from add_nodes_effect [OF run] have e: "effect idx (claims res (GetNodeIDs vs)) (fold (add_resources res) (GetNodeIDs vs)) b1 b'"
        and f: "frame b1 b'" by auto
      from effect_pre [OF e] b1 f Inr ns show ?thesis
        by (simp add: frame_def claims_on_def mix_on_def build_status_def build_errs_def)
    qed
  qed
  then show "effect idx (claims_on bld store (own_nodes vs) vs) (mix_on bld store (own_nodes vs) vs) b b'"
    "map_of (b_vsStatuses b') = (map_of (b_vsStatuses b))(meta_nn (vs_meta vs) \<mapsto> build_status bld store vs)"
    "b_errs b' = b_errs b @ build_errs bld store vs"
    "b_common b' = b_common b @ (if is_common vs then [vs] else [])" by blast+
qed

text \<open>The nodes a mixer knows, in the order it met them.\<close>

definition known_nodes :: "Mixer \<Rightarrow> string list" where
  "known_nodes m = map fst (mx_nodeIDs m)"

lemma gm_put_keys_old: "k \<in> fst ` set m \<Longrightarrow> map fst (gm_put k v m) = map fst m"
  by (simp add: gm_put_def update_keys)

lemma known_nodes_Add:
  "set (known_nodes m) \<subseteq> set (known_nodes (Mixer_Add m n t r))"
  "set (known_nodes (Mixer_Add m n t r)) \<subseteq> insert n (set (known_nodes m))"
  "n \<in> set (known_nodes m) \<Longrightarrow> known_nodes (Mixer_Add m n t r) = known_nodes m"
  by (auto simp: known_nodes_def Mixer_Add_def gm_keys_put gm_put_keys_old split: option.split)

lemma known_nodes_AddListenerParams:
  "set (known_nodes (AddListenerParams m l fcs n)) = insert n (set (known_nodes m))"
  "n \<in> set (known_nodes m) \<Longrightarrow> known_nodes (AddListenerParams m l fcs n) = known_nodes m"
  by (auto simp: known_nodes_def AddListenerParams_def Let_def gm_keys_put gm_put_keys_old)

lemma known_nodes_Adds:
  "set (known_nodes m) \<subseteq> set (known_nodes (fold (\<lambda>x m. Mixer_Add m n t (f x)) xs m)) \<and>
   set (known_nodes (fold (\<lambda>x m. Mixer_Add m n t (f x)) xs m)) \<subseteq> insert n (set (known_nodes m)) \<and>
   (n \<in> set (known_nodes m) \<longrightarrow> known_nodes (fold (\<lambda>x m. Mixer_Add m n t (f x)) xs m) = known_nodes m)"
proof (induction xs arbitrary: m)
  case (Cons x xs)
  from Cons.IH [of "Mixer_Add m n t (f x)"] known_nodes_Add(1,2) [of m n t "f x"]
    known_nodes_Add(3) [of n m t "f x"]
  show ?case by auto
qed (simp add: subset_insertI)

lemma known_nodes_add_resources:
  "set (known_nodes (add_resources res n m)) = insert n (set (known_nodes m))"
  "n \<in> set (known_nodes m) \<Longrightarrow> known_nodes (add_resources res n m) = known_nodes m"
proof -
  let ?m1 = "case r_RouteConfig res of None \<Rightarrow> m | Some rc \<Rightarrow> Mixer_Add m n RouteType (ResR rc)"
  let ?m2 = "fold (\<lambda>cl m. Mixer_Add m n ClusterType (ResC cl)) (r_Clusters res) ?m1"
  let ?m3 = "fold (\<lambda>s m. Mixer_Add m n SecretType (ResS s)) (r_Secrets res) ?m2"
  have 1: "set (known_nodes m) \<subseteq> set (known_nodes ?m1)" "set (known_nodes ?m1) \<subseteq> insert n (set (known_nodes m))"
    "n \<in> set (known_nodes m) \<longrightarrow> known_nodes ?m1 = known_nodes m"
    using known_nodes_Add(1,2) [of m n RouteType] known_nodes_Add(3) [of n m RouteType]
    by (simp_all add: subset_insertI split: option.split)
  note 2 = known_nodes_Adds [of ?m1 n ClusterType ResC "r_Clusters res"]
  note 3 = known_nodes_Adds [of ?m2 n SecretType ResS "r_Secrets res"]
  have eq: "add_resources res n m = AddListenerParams ?m3 (r_Listener res) (r_FilterChain res) n"
    by (simp add: add_resources_def Let_def)
  show "set (known_nodes (add_resources res n m)) = insert n (set (known_nodes m))"
    unfolding eq known_nodes_AddListenerParams using 1 2 3 by blast
  show "known_nodes (add_resources res n m) = known_nodes m" if "n \<in> set (known_nodes m)"
    unfolding eq using 1 2 3 that by (simp add: known_nodes_AddListenerParams)
qed

lemma known_nodes_fold:
  "set (known_nodes (fold (add_resources res) ns m)) = set ns \<union> set (known_nodes m)"
  by (induction ns arbitrary: m) (auto simp: known_nodes_add_resources)

lemma known_nodes_fold_same:
  "set ns \<subseteq> set (known_nodes m) \<Longrightarrow> known_nodes (fold (add_resources res) ns m) = known_nodes m"
  by (induction ns arbitrary: m) (auto simp: known_nodes_add_resources)

lemma known_nodes_mix_on:
  "set (known_nodes (mix_on bld store ns vs m)) =
     (if is_ok (bld vs store) then set ns else {}) \<union> set (known_nodes m)"
  by (auto simp: mix_on_def known_nodes_fold split: sum.split)

lemma known_nodes_mix_on_same [simp]:
  "known_nodes (mix_on bld store (known_nodes m) vs m) = known_nodes m"
  by (simp add: mix_on_def known_nodes_fold_same split: sum.split)

lemma process_common_effect:
  assumes "process_common ctx idx bld store vs b = Inr b'"
  shows "effect idx (claims_on bld store (known_nodes (b_mixer b)) vs)
      (mix_on bld store (known_nodes (b_mixer b)) vs) b b'"
    "b_vsStatuses b' = b_vsStatuses b" "b_common b' = b_common b"
    "b_errs b' = b_errs b @ (case bld vs store of Inl err \<Rightarrow> [err] | Inr _ \<Rightarrow> [])"
proof -
  have "effect idx (claims_on bld store (known_nodes (b_mixer b)) vs)
      (mix_on bld store (known_nodes (b_mixer b)) vs) b b' \<and>
    b_vsStatuses b' = b_vsStatuses b \<and> b_common b' = b_common b \<and>
    b_errs b' = b_errs b @ (case bld vs store of Inl err \<Rightarrow> [err] | Inr _ \<Rightarrow> [])"
  proof (cases "bld vs store")
    case (Inl err)
    with assms show ?thesis
      by (auto simp: process_common_def exits poll_Inr claims_on_def mix_on_def)
  next
    case (Inr res)
    with assms obtain b1 where run: "for_each (add_node ctx idx res) (known_nodes (b_mixer b)) b1 = Inr b'"
      and b1: "doms b1 = doms b" "indexed b1 = indexed b" "b_mixer b1 = b_mixer b" "b_errs b1 = b_errs b"
        "b_common b1 = b_common b" "b_vsStatuses b1 = b_vsStatuses b"
      by (auto simp: process_common_def exits poll_Inr known_nodes_def)
    from add_nodes_effect [OF run] have e: "effect idx (claims res (known_nodes (b_mixer b)))
        (fold (add_resources res) (known_nodes (b_mixer b))) b1 b'" and f: "frame b1 b'" by auto
    from effect_pre [OF e] b1 f Inr show ?thesis by (simp add: frame_def claims_on_def mix_on_def)
  qed
  then show "effect idx (claims_on bld store (known_nodes (b_mixer b)) vs)
      (mix_on bld store (known_nodes (b_mixer b)) vs) b b'"
    "b_vsStatuses b' = b_vsStatuses b" "b_common b' = b_common b"
    "b_errs b' = b_errs b @ (case bld vs store of Inl err \<Rightarrow> [err] | Inr _ \<Rightarrow> [])" by blast+
qed

text \<open>The first loop, over all virtual services.\<close>

lemma process_all_effect:
  assumes "for_each (process_vs ctx idx bld store) vss b = Inr b'"
  shows "effect idx (concat (map (\<lambda>vs. claims_on bld store (own_nodes vs) vs) vss))
      (fold (\<lambda>vs. mix_on bld store (own_nodes vs) vs) vss) b b'"
    "b_errs b' = b_errs b @ concat (map (build_errs bld store) vss)"
    "b_common b' = b_common b @ filter is_common vss"
    "map_of (b_vsStatuses b') nn = (if nn \<in> (\<lambda>vs. meta_nn (vs_meta vs)) ` set vss
       then map_of (rev (map (\<lambda>vs. (meta_nn (vs_meta vs), build_status bld store vs)) vss)) nn
       else map_of (b_vsStatuses b) nn)"
proof -
  have "effect idx (concat (map (\<lambda>vs. claims_on bld store (own_nodes vs) vs) vss))
      (fold (\<lambda>vs. mix_on bld store (own_nodes vs) vs) vss) b b' \<and>
    b_errs b' = b_errs b @ concat (map (build_errs bld store) vss) \<and>
    b_common b' = b_common b @ filter is_common vss \<and>
    map_of (b_vsStatuses b') = map_of (b_vsStatuses b) ++
      map_of (rev (map (\<lambda>vs. (meta_nn (vs_meta vs), build_status bld store vs)) vss))"
    using assms
  proof (induction vss arbitrary: b)
    case (Cons vs vss)
    then obtain b1 where b1: "process_vs ctx idx bld store vs b = Inr b1"
      "for_each (process_vs ctx idx bld store) vss b1 = Inr b'" by (auto split: sum.splits)
    note e = process_vs_effect [OF b1(1)] and ih = Cons.IH [OF b1(2)]
    have "effect idx (concat (map (\<lambda>vs. claims_on bld store (own_nodes vs) vs) (vs # vss)))
      (fold (\<lambda>vs. mix_on bld store (own_nodes vs) vs) (vs # vss)) b b'"
      unfolding list.map concat.simps fold_Cons using effect_comp [OF e(1)] ih by blast
    moreover have "map_of (b_vsStatuses b') = map_of (b_vsStatuses b) ++
        map_of (rev (map (\<lambda>vs. (vs_nn vs, build_status bld store vs)) (vs # vss)))"
      using ih e(2) by (simp add: fun_eq_iff map_add_def split: option.split)
    moreover have "b_errs b' = b_errs b @ concat (map (build_errs bld store) (vs # vss))"
      "b_common b' = b_common b @ filter is_common (vs # vss)"
      using e(3,4) ih by simp_all
    ultimately show ?case by blast
  qed simp
  then show "effect idx (concat (map (\<lambda>vs. claims_on bld store (own_nodes vs) vs) vss))
      (fold (\<lambda>vs. mix_on bld store (own_nodes vs) vs) vss) b b'"
    "b_errs b' = b_errs b @ concat (map (build_errs bld store) vss)"
    "b_common b' = b_common b @ filter is_common vss"
    "map_of (b_vsStatuses b') nn = (if nn \<in> (\<lambda>vs. meta_nn (vs_meta vs)) ` set vss
       then map_of (rev (map (\<lambda>vs. (meta_nn (vs_meta vs), build_status bld store vs)) vss)) nn
       else map_of (b_vsStatuses b) nn)"
    by (auto simp: map_add_def map_of_eq_None_iff image_image split: option.split dest!: map_of_SomeD)
qed

text \<open>The second loop, over the common ones; no node is new to it.\<close>

lemma process_commons_effect:
  assumes "for_each (process_common ctx idx bld store) vss b = Inr b'"
  shows "effect idx (concat (map (claims_on bld store (known_nodes (b_mixer b))) vss))
      (fold (mix_on bld store (known_nodes (b_mixer b))) vss) b b'"
    "b_vsStatuses b' = b_vsStatuses b" "b_common b' = b_common b"
    "b_errs b' = b_errs b @ concat (map (\<lambda>vs. case bld vs store of Inl err \<Rightarrow> [err] | Inr _ \<Rightarrow> []) vss)"
    "known_nodes (b_mixer b') = known_nodes (b_mixer b)"
proof -
  have "effect idx (concat (map (claims_on bld store (known_nodes (b_mixer b))) vss))
      (fold (mix_on bld store (known_nodes (b_mixer b))) vss) b b' \<and>
    b_vsStatuses b' = b_vsStatuses b \<and> b_common b' = b_common b \<and>
    b_errs b' = b_errs b @ concat (map (\<lambda>vs. case bld vs store of Inl err \<Rightarrow> [err] | Inr _ \<Rightarrow> []) vss) \<and>
    known_nodes (b_mixer b') = known_nodes (b_mixer b)"
    using assms
  proof (induction vss arbitrary: b)
    case (Cons vs vss)
    then obtain b1 where b1: "process_common ctx idx bld store vs b = Inr b1"
      "for_each (process_common ctx idx bld store) vss b1 = Inr b'" by (auto split: sum.splits)
    note e = process_common_effect [OF b1(1)] and ih = Cons.IH [OF b1(2)]
    have n: "known_nodes (b_mixer b1) = known_nodes (b_mixer b)"
      using e(1) by (simp add: effect_def)
    from ih e(2-4) n effect_comp [OF e(1), of _ _ b'] show ?case by (simp add: comp_def)
  qed simp
  then show "effect idx (concat (map (claims_on bld store (known_nodes (b_mixer b))) vss))
      (fold (mix_on bld store (known_nodes (b_mixer b))) vss) b b'"
    "b_vsStatuses b' = b_vsStatuses b" "b_common b' = b_common b"
    "b_errs b' = b_errs b @ concat (map (\<lambda>vs. case bld vs store of Inl err \<Rightarrow> [err] | Inr _ \<Rightarrow> []) vss)"
    "known_nodes (b_mixer b') = known_nodes (b_mixer b)" by blast+
qed

section \<open>All of the collection\<close>

abbreviation all_vs :: "OptimizedStore \<Rightarrow> VirtualService list" where
  "all_vs store \<equiv> map snd (MapVirtualServices store)"

text \<open>The nodes that some virtual service names and builds for; common ones are served there.\<close>

definition active_nodes :: "builder \<Rightarrow> OptimizedStore \<Rightarrow> string set" where
  "active_nodes bld store = {n. \<exists>vs \<in> set (all_vs store). n \<in> set (own_nodes vs) \<and> is_ok (bld vs store)}"

definition served_on :: "builder \<Rightarrow> OptimizedStore \<Rightarrow> VirtualService \<Rightarrow> string set" where
  "served_on bld store vs = (if is_common vs then active_nodes bld store else set (own_nodes vs))"

definition all_claims :: "builder \<Rightarrow> OptimizedStore \<Rightarrow> string list \<Rightarrow> (string \<times> string) list" where
  "all_claims bld store ns =
     concat (map (\<lambda>vs. claims_on bld store (own_nodes vs) vs) (all_vs store)) @
     concat (map (claims_on bld store ns) (filter is_common (all_vs store)))"

lemma known_nodes_all:
  "set (known_nodes (fold (\<lambda>vs. mix_on bld store (own_nodes vs) vs) vss m)) =
     {n. \<exists>vs \<in> set vss. n \<in> set (own_nodes vs) \<and> is_ok (bld vs store)} \<union> set (known_nodes m)"
  by (induction vss arbitrary: m) (auto simp: known_nodes_mix_on split: if_splits)

lemma new_build_simps [simp]:
  "doms new_build = []" "indexed new_build = {}" "b_mixer new_build = NewMixer" "b_errs new_build = []"
  "b_vsStatuses new_build = []" "b_common new_build = []" "known_nodes NewMixer = []"
  by (simp_all add: new_build_def doms_def indexed_def known_nodes_def NewMixer_def gm_has_def)

lemma collect_effect:
  assumes "collect ctx idx bld store (new_build\<lparr>b_polls := k\<rparr>) = Inr b"
  shows "doms b = map (\<lambda>(n, d). nodeIDDomain n d) (all_claims bld store (known_nodes (b_mixer b)))"
    "distinct (doms b)"
    "indexed b = (if idx then set (all_claims bld store (known_nodes (b_mixer b))) else {})"
    "set (known_nodes (b_mixer b)) = active_nodes bld store"
    "b_errs b = concat (map (build_errs bld store) (all_vs store)) @
       concat (map (\<lambda>vs. case bld vs store of Inl err \<Rightarrow> [err] | Inr _ \<Rightarrow> []) (filter is_common (all_vs store)))"
    "map_of (b_vsStatuses b) nn = map_of (rev (map (\<lambda>vs. (vs_nn vs, build_status bld store vs)) (all_vs store))) nn"
    "b_mixer b = fold (mix_on bld store (known_nodes (b_mixer b))) (filter is_common (all_vs store))
       (fold (\<lambda>vs. mix_on bld store (own_nodes vs) vs) (all_vs store) NewMixer)"
proof -
  from assms obtain b1 where b1: "for_each (process_vs ctx idx bld store) (all_vs store) (new_build\<lparr>b_polls := k\<rparr>) = Inr b1"
    and b: "for_each (process_common ctx idx bld store) (b_common b1) b1 = Inr b"
    by (auto simp: collect_def exits)
  note e1 = process_all_effect [OF b1] and e2 = process_commons_effect [OF b]
  have com: "b_common b1 = filter is_common (all_vs store)" using e1(3) by simp
  have nodes: "known_nodes (b_mixer b) = known_nodes (b_mixer b1)" by (rule e2(5))
  have m1: "b_mixer b1 = fold (\<lambda>vs. mix_on bld store (own_nodes vs) vs) (all_vs store) NewMixer"
    using e1(1) by (simp add: effect_def)
  have eff: "effect idx (all_claims bld store (known_nodes (b_mixer b)))
      (fold (mix_on bld store (known_nodes (b_mixer b))) (filter is_common (all_vs store)) \<circ>
       fold (\<lambda>vs. mix_on bld store (own_nodes vs) vs) (all_vs store)) (new_build\<lparr>b_polls := k\<rparr>) b"
    unfolding all_claims_def nodes by (rule effect_comp [OF e1(1) e2(1) [unfolded com]])
  then show "doms b = map (\<lambda>(n, d). nodeIDDomain n d) (all_claims bld store (known_nodes (b_mixer b)))"
    "indexed b = (if idx then set (all_claims bld store (known_nodes (b_mixer b))) else {})"
    "b_mixer b = fold (mix_on bld store (known_nodes (b_mixer b))) (filter is_common (all_vs store))
       (fold (\<lambda>vs. mix_on bld store (own_nodes vs) vs) (all_vs store) NewMixer)"
    unfolding effect_def by simp_all
  from eff have "distinct (doms (new_build\<lparr>b_polls := k\<rparr>)) \<longrightarrow> distinct (doms b)"
    unfolding effect_def by (elim conjE)
  then show "distinct (doms b)" by simp
  show "set (known_nodes (b_mixer b)) = active_nodes bld store"
    unfolding nodes m1 known_nodes_all by (auto simp: active_nodes_def)
  show "b_errs b = concat (map (build_errs bld store) (all_vs store)) @
       concat (map (\<lambda>vs. case bld vs store of Inl err \<Rightarrow> [err] | Inr _ \<Rightarrow> []) (filter is_common (all_vs store)))"
    using e1(2) e2(4) com by simp
  show "map_of (b_vsStatuses b) nn = map_of (rev (map (\<lambda>vs. (vs_nn vs, build_status bld store vs)) (all_vs store))) nn"
  proof (cases "nn \<in> vs_nn ` set (all_vs store)")
    case False
    then have "map_of (rev (map (\<lambda>vs. (vs_nn vs, build_status bld store vs)) (all_vs store))) nn = None"
      by (simp add: map_of_eq_None_iff image_image)
    with False show ?thesis unfolding e2(2) e1(4) by simp
  qed (simp only: e2(2) e1(4) if_True)
qed

lemma all_vs_props:
  assumes "store_inv lib x509 store"
  shows "distinct (map vs_nn (all_vs store))"
    "vs \<in> set (all_vs store) \<longleftrightarrow> GetVirtualService store (vs_nn vs) = Some vs"
proof -
  let ?m = "MapVirtualServices store"
  have wf: "gm_wf (virtualServices store)" and ky: "keyed vs_meta (map_of (virtualServices store))"
    using assms by (auto simp: inv_defs index_exact_def)
  have m: "map_of ?m = map_of (virtualServices store)" "gm_wf ?m"
    using gm_copy_empty [OF wf] by (simp_all add: MapVirtualServices_def gomap_intros)
  have k: "vs_nn v = nn" if "(nn, v) \<in> set ?m" for nn v
    using that ky m by (auto simp: gm_mem_iff keyed_def)
  have "map vs_nn (all_vs store) = map fst ?m" using k by (simp add: comp_def)
  then show "distinct (map vs_nn (all_vs store))" using m(2) by (simp only: gm_wf_def)
  have "vs \<in> set (all_vs store) \<longleftrightarrow> (\<exists>nn. (nn, vs) \<in> set ?m)" by force
  also have "\<dots> \<longleftrightarrow> (vs_nn vs, vs) \<in> set ?m" using k by metis
  finally show "vs \<in> set (all_vs store) \<longleftrightarrow> GetVirtualService store (vs_nn vs) = Some vs"
    using m by (simp add: gm_mem_iff GetVirtualService_def)
qed

lemma stored_vs:
  assumes "store_inv lib x509 store" "GetVirtualService store nn = Some vs"
  shows "vs \<in> set (all_vs store)" "vs_nn vs = nn"
proof -
  show "vs_nn vs = nn"
    using assms by (auto simp: inv_defs index_exact_def keyed_def GetVirtualService_def)
  with assms(2) show "vs \<in> set (all_vs store)" unfolding all_vs_props(2) [OF assms(1)] by (simp only:)
qed

lemma mset_split_filter:
  "(\<And>x. P x \<Longrightarrow> g x = []) \<Longrightarrow>
     mset (concat (map g xs) @ concat (map h (filter P xs))) = mset (concat (map (\<lambda>x. if P x then h x else g x) xs))"
  by (induction xs) auto

lemma distinct_concat_disjoint:
  "distinct (concat (map g xs)) \<Longrightarrow> x \<in> set xs \<Longrightarrow> y \<in> set xs \<Longrightarrow> x \<noteq> y \<Longrightarrow> set (g x) \<inter> set (g y) = {}"
proof (induction xs)
  case (Cons a xs)
  have rest: "set (g a) \<inter> set (g z) = {}" if "z \<in> set xs" for z
    using Cons.prems(1) that by fastforce
  with Cons show ?case by auto
qed simp

lemma distinct_concat_elem: "distinct (concat (map g xs)) \<Longrightarrow> x \<in> set xs \<Longrightarrow> distinct (g x)"
  by (induction xs) auto

lemma claims_distinct: "distinct (claims res ns) \<Longrightarrow> n \<in> set ns \<Longrightarrow> distinct (r_Domains res)"
  by (induction ns) (auto simp: claims_def distinct_map)

lemma claims_on_own_common: "is_common vs \<Longrightarrow> claims_on bld store (own_nodes vs) vs = []"
  by (auto simp: claims_on_def own_nodes_def is_common_def claims_def split: sum.split)

lemma collect_unique:
  assumes "collect ctx idx bld store (new_build\<lparr>b_polls := k\<rparr>) = Inr b"
    and "vs \<in> set (all_vs store)" "bld vs store = Inr res" "n \<in> served_on bld store vs"
  shows "distinct (r_Domains res)"
    and "vs' \<in> set (all_vs store) \<Longrightarrow> vs' \<noteq> vs \<Longrightarrow> bld vs' store = Inr res' \<Longrightarrow>
      n \<in> served_on bld store vs' \<Longrightarrow> set (r_Domains res) \<inter> set (r_Domains res') = {}"
proof -
  note e = collect_effect [OF assms(1)]
  let ?ns = "known_nodes (b_mixer b)"
  define cl where "cl = (\<lambda>vs. if is_common vs then claims_on bld store ?ns vs else claims_on bld store (own_nodes vs) vs)"
  have "distinct (all_claims bld store ?ns)" using e(1,2) by (simp add: distinct_map)
  moreover have "mset (all_claims bld store ?ns) = mset (concat (map cl (all_vs store)))"
    unfolding all_claims_def cl_def by (rule mset_split_filter) (rule claims_on_own_common)
  ultimately have d: "distinct (concat (map cl (all_vs store)))" by (metis mset_eq_imp_distinct_iff)
  have cl: "cl v = claims r (if is_common v then ?ns else own_nodes v)" if "bld v store = Inr r" for v r
    using that by (simp add: cl_def claims_on_def)
  have srv: "set (if is_common v then ?ns else own_nodes v) = served_on bld store v" for v
    using e(4) by (simp add: served_on_def)
  show "distinct (r_Domains res)"
    using claims_distinct [of res _ n] distinct_concat_elem [OF d assms(2)] cl [OF assms(3)] srv assms(4) by metis
  assume *: "vs' \<in> set (all_vs store)" "vs' \<noteq> vs" "bld vs' store = Inr res'" "n \<in> served_on bld store vs'"
  have "set (cl vs) \<inter> set (cl vs') = {}"
    by (rule distinct_concat_disjoint [OF d assms(2) *(1)]) (use *(2) in simp)
  then show "set (r_Domains res) \<inter> set (r_Domains res') = {}"
    unfolding cl [OF assms(3)] cl [OF *(3)] set_claims srv using assms(4) *(4) by blast
qed

section \<open>From the plan to the commit\<close>

lemma stage_node_frame:
  assumes "stage_node ctx cp sc x p = Inr p'"
  shows "doms (p_build p') = doms (p_build p) \<and> indexed (p_build p') = indexed (p_build p) \<and>
    b_nodeDomainsIndex (p_build p') = b_nodeDomainsIndex (p_build p) \<and>
    b_mixer (p_build p') = b_mixer (p_build p) \<and> b_vsStatuses (p_build p') = b_vsStatuses (p_build p) \<and>
    b_usedSecrets (p_build p') = b_usedSecrets (p_build p) \<and> prefix (b_errs (p_build p)) (b_errs (p_build p'))"
proof -
  obtain n rm where x: "x = (n, rm)" by (cases x)
  show ?thesis
    using assms
    by (auto simp: stage_node_def x exits poll_Inr Let_def plan_err_def add_err_def doms_def indexed_def
        split: sum.splits prod.splits if_splits option.splits)
qed

lemma stage_frame:
  assumes "for_each (stage_node ctx cp sc) xs p = Inr p'"
  shows "doms (p_build p') = doms (p_build p) \<and> indexed (p_build p') = indexed (p_build p) \<and>
    b_nodeDomainsIndex (p_build p') = b_nodeDomainsIndex (p_build p) \<and>
    b_mixer (p_build p') = b_mixer (p_build p) \<and> b_vsStatuses (p_build p') = b_vsStatuses (p_build p) \<and>
    b_usedSecrets (p_build p') = b_usedSecrets (p_build p) \<and> prefix (b_errs (p_build p)) (b_errs (p_build p'))"
  using assms
proof (induction xs arbitrary: p)
  case (Cons x xs)
  then obtain p1 where p1: "stage_node ctx cp sc x p = Inr p1" "for_each (stage_node ctx cp sc) xs p1 = Inr p'"
    by (auto split: sum.splits)
  from Cons.IH [OF p1(2)] stage_node_frame [OF p1(1)] show ?case by (auto intro: prefix_order.trans)
qed simp

lemma multierr_None [simp]: "multierr_Combine es = None \<longleftrightarrow> es = []"
  by (auto simp: multierr_Combine_def split: list.split)

lemma make_plan_Inr:
  assumes "make_plan ctx idx cp lib bld sc store = Inr p"
  obtains b tmp p1 where
    "collect ctx idx bld store (new_build\<lparr>b_polls := 1\<rparr>) = Inr b" "b_errs b = []"
    "Mix lib (b_mixer b) store = Inr tmp"
    "for_each (stage_node ctx cp sc) tmp
       \<lparr>p_build = b\<lparr>b_polls := Suc (b_polls b)\<rparr>, p_staged = [], p_nodeIDsForCleanup = GetNodeIDsAsMap sc\<rparr> = Inr p1"
    "b_errs (p_build p1) = []"
    "p_staged p = p_staged p1" "p_nodeIDsForCleanup p = p_nodeIDsForCleanup p1"
    "b_nodeDomainsIndex (p_build p) = b_nodeDomainsIndex b"
    "b_vsStatuses (p_build p) = b_vsStatuses b" "b_usedSecrets (p_build p) = b_usedSecrets b"
proof -
  from assms obtain b where b: "collect ctx idx bld store (new_build\<lparr>b_polls := 1\<rparr>) = Inr b"
    and rest: "and_then (poll ctx b) (\<lambda>b.
            case Mix lib (b_mixer b) store of
              Inl err \<Rightarrow> Inl (the (multierr_Combine (b_errs b @ [err])), Some (b_usedSecrets b), b_vsStatuses b)
            | Inr tmp \<Rightarrow>
                and_then (for_each (stage_node ctx cp sc) tmp
                  \<lparr>p_build = b, p_staged = [], p_nodeIDsForCleanup = GetNodeIDsAsMap sc\<rparr>) (\<lambda>p.
                case multierr_Combine (b_errs (p_build p)) of
                  Some err \<Rightarrow> Inl (err, Some (b_usedSecrets (p_build p)), b_vsStatuses (p_build p))
                | None \<Rightarrow> and_then (poll ctx (p_build p)) (\<lambda>b. Inr (p\<lparr>p_build := b\<rparr>)))) = Inr p"
    by (auto simp: make_plan_def exits split: option.splits)
  let ?b = "b\<lparr>b_polls := Suc (b_polls b)\<rparr>"
  from rest obtain tmp where tmp: "Mix lib (b_mixer b) store = Inr tmp"
    and st: "and_then (for_each (stage_node ctx cp sc) tmp
                  \<lparr>p_build = ?b, p_staged = [], p_nodeIDsForCleanup = GetNodeIDsAsMap sc\<rparr>) (\<lambda>p.
                case multierr_Combine (b_errs (p_build p)) of
                  Some err \<Rightarrow> Inl (err, Some (b_usedSecrets (p_build p)), b_vsStatuses (p_build p))
                | None \<Rightarrow> and_then (poll ctx (p_build p)) (\<lambda>b. Inr (p\<lparr>p_build := b\<rparr>))) = Inr p"
    by (auto simp: and_then_Inr poll_Inr split: sum.splits)
  from st obtain p1 where p1: "for_each (stage_node ctx cp sc) tmp
        \<lparr>p_build = ?b, p_staged = [], p_nodeIDsForCleanup = GetNodeIDsAsMap sc\<rparr> = Inr p1"
      "b_errs (p_build p1) = []" and p: "p = p1\<lparr>p_build := (p_build p1)\<lparr>b_polls := Suc (b_polls (p_build p1))\<rparr>\<rparr>"
    by (auto simp: and_then_Inr poll_Inr split: option.splits)
  from stage_frame [OF p1(1)] p1(2) have "b_errs b = []" "b_nodeDomainsIndex (p_build p) = b_nodeDomainsIndex b"
    "b_vsStatuses (p_build p) = b_vsStatuses b" "b_usedSecrets (p_build p) = b_usedSecrets b"
    by (auto simp: p)
  with b tmp p1 p show ?thesis by (intro that) simp_all
qed

lemma buildSnapshots_ok:
  assumes "bt_err (buildSnapshots ctx idx cp lib bld sc store) = None"
  obtains p c where "make_plan ctx idx cp lib bld sc store = Inr p"
    "commit cp (p_staged p) [] sc = ([], c)"
    "commit cp (map (\<lambda>(n, _). (n, empty_snapshot)) (p_nodeIDsForCleanup p)) [] c =
       ([], bt_cache (buildSnapshots ctx idx cp lib bld sc store))"
    "bt_store (buildSnapshots ctx idx cp lib bld sc store) =
       (if idx then ReplaceNodeDomainsIndex store (complete_index p) else store)"
    "bt_vsStatuses (buildSnapshots ctx idx cp lib bld sc store) = b_vsStatuses (p_build p)"
    "bt_usedSecrets (buildSnapshots ctx idx cp lib bld sc store) = Some (b_usedSecrets (p_build p))"
proof -
  have errs: "prefix es (fst (commit cp xs es c))" for xs es and c :: "'a SnapshotCache"
    by (induction cp xs es c rule: commit.induct) (auto split: prod.split option.split dest: append_prefixD)
  obtain p where p: "make_plan ctx idx cp lib bld sc store = Inr p"
    using assms by (auto simp: buildSnapshots_def split: sum.splits)
  obtain es c where c: "commit cp (p_staged p) [] sc = (es, c)" by fastforce
  obtain es' c' where c': "commit cp (map (\<lambda>(n, _). (n, empty_snapshot)) (p_nodeIDsForCleanup p)) es c = (es', c')"
    by fastforce
  have "es' = []" using assms by (simp add: buildSnapshots_def p c c' Let_def)
  with errs [of es _ c] c' have "es = []" by (metis fst_conv prefix_Nil)
  show ?thesis
    using that [OF p] c c' \<open>es = []\<close> \<open>es' = []\<close> by (simp add: buildSnapshots_def p Let_def)
qed

section \<open>Properties of a build\<close>

text \<open>
  C15: after a build without error no domain is served twice on a node: neither by one virtual
  service twice nor by two virtual services. A virtual service for all nodes counts on every
  node that some other one names.
\<close>

theorem domains_unique_per_node:
  assumes "store_inv lib x509 store"
    and "bt_err (buildSnapshots ctx idx cp lib bld sc store) = None"
    and "GetVirtualService store nn = Some vs" "bld vs store = Inr res" "n \<in> served_on bld store vs"
  shows "distinct (r_Domains res) \<and>
    (\<forall>nn' vs' res'. nn' \<noteq> nn \<and> GetVirtualService store nn' = Some vs' \<and> bld vs' store = Inr res' \<and>
       n \<in> served_on bld store vs' \<longrightarrow> set (r_Domains res) \<inter> set (r_Domains res') = {})"
proof -
  from assms(2) obtain p where "make_plan ctx idx cp lib bld sc store = Inr p" by (rule buildSnapshots_ok)
  then obtain b where b: "collect ctx idx bld store (new_build\<lparr>b_polls := 1\<rparr>) = Inr b" by (rule make_plan_Inr)
  note in_all = stored_vs [OF assms(1)]
  note vs = in_all [OF assms(3)]
  note u = collect_unique [OF b vs(1) assms(4,5)]
  show ?thesis
  proof (intro conjI allI impI)
    show "distinct (r_Domains res)" by (rule u(1))
    fix nn' vs' res'
    assume *: "nn' \<noteq> nn \<and> GetVirtualService store nn' = Some vs' \<and> bld vs' store = Inr res' \<and>
       n \<in> served_on bld store vs'"
    then have "vs' \<in> set (all_vs store)" "vs_nn vs' = nn'" by (auto dest: in_all simp del: set_map)
    then show "set (r_Domains res) \<inter> set (r_Domains res') = {}"
      using u(2) [of vs' res'] * vs(2) by auto
  qed
qed

lemma collect_failed:
  assumes "collect ctx idx bld store (new_build\<lparr>b_polls := k\<rparr>) = Inr b" "vs \<in> set (all_vs store)"
    and "\<not> is_ok (bld vs store) \<or> GetNodeIDs vs = []"
  shows "b_errs b \<noteq> []"
proof (cases "GetNodeIDs vs \<noteq> [] \<and> is_common vs")
  case True
  with assms(3) obtain err where "bld vs store = Inl err" by (cases "bld vs store") auto
  with True assms(2) show ?thesis unfolding collect_effect(5) [OF assms(1)] by force
next
  case False
  with assms(3) have "build_errs bld store vs \<noteq> []"
    by (cases "bld vs store") (auto simp: build_errs_def)
  with assms(2) show ?thesis unfolding collect_effect(5) [OF assms(1)] by force
qed

lemma collect_no_errs:
  assumes "collect ctx idx bld store (new_build\<lparr>b_polls := k\<rparr>) = Inr b" "b_errs b = []"
    and "GetVirtualService store nn = Some vs" "store_inv lib x509 store"
  shows "GetNodeIDs vs \<noteq> [] \<and> is_ok (bld vs store)"
  using collect_failed [OF assms(1) stored_vs(1) [OF assms(4,3)]] assms(2) by blast

text \<open>When all virtual services were looked at, each has the status it earned.\<close>

lemma statuses_exact:
  assumes "store_inv lib x509 store"
    and "collect ctx idx bld store (new_build\<lparr>b_polls := 1\<rparr>) = Inr b"
    and "GetVirtualService store nn = Some vs"
  shows "map_of (b_vsStatuses b) nn = Some (build_status bld store vs) \<and>
    (\<not> is_ok (bld vs store) \<or> GetNodeIDs vs = [] \<longrightarrow>
       b_errs b \<noteq> [] \<and> (Invalid (build_status bld store vs) \<longleftrightarrow> \<not> is_common vs))"
proof -
  note vs = stored_vs(1) [OF assms(1,3)] and nn = stored_vs(2) [OF assms(1,3)]
  note e = collect_effect [OF assms(2)]
  have d: "distinct (map fst (rev (map (\<lambda>vs. (vs_nn vs, build_status bld store vs)) (all_vs store))))"
    using all_vs_props(1) [OF assms(1)] by (simp add: rev_map [symmetric] comp_def)
  have "map_of (b_vsStatuses b) nn = Some (build_status bld store vs)"
    unfolding e(6) by (rule map_of_is_SomeI [OF d]) (use vs nn in force)
  moreover have "b_errs b \<noteq> []" if "\<not> is_ok (bld vs store) \<or> GetNodeIDs vs = []"
    by (rule collect_failed [OF assms(2) vs that])
  moreover have "Invalid (build_status bld store vs) \<longleftrightarrow> \<not> is_common vs"
    if "\<not> is_ok (bld vs store) \<or> GetNodeIDs vs = []"
    using that by (cases "bld vs store") (auto simp: build_status_def is_common_def isCommonVirtualService_def)
  ultimately show ?thesis by blast
qed

end
