(* ===== verification/BuildCommit.thy ===== *)
theory BuildCommit
  imports BuildSpec
begin

text \<open>
  What a build leaves in the snapshot cache: well-typed snapshots that hold what was mixed, nothing
  changed when it fails before the commit, nothing changed when nothing is new.
\<close>

section \<open>Shape of the mixed resources\<close>

definition rm_ok :: "resmap \<Rightarrow> bool" where
  "rm_ok rm \<longleftrightarrow> gm_wf rm \<and> (\<forall>t rs. map_of rm t = Some rs \<longrightarrow> list_all (typed_as t) rs)"

definition resmaps_ok :: "(string, resmap) gomap \<Rightarrow> bool" where
  "resmaps_ok r \<longleftrightarrow> gm_wf r \<and> (\<forall>n rm. map_of r n = Some rm \<longrightarrow> rm_ok rm)"

named_theorems shape \<open>shape of resource maps\<close>

lemma rm_ok_Nil [shape]: "rm_ok []"
  and rm_ok_put [shape]: "rm_ok rm \<Longrightarrow> list_all (typed_as t) rs \<Longrightarrow> rm_ok (gm_put t rs rm)"
  and rm_ok_get [shape]: "rm_ok rm \<Longrightarrow> list_all (typed_as t) (gm_get [] rm t)"
  and resmaps_ok_Nil [shape]: "resmaps_ok []"
  and resmaps_ok_put [shape]: "resmaps_ok r \<Longrightarrow> rm_ok rm \<Longrightarrow> resmaps_ok (gm_put n rm r)"
  and resmaps_ok_get [shape]: "resmaps_ok r \<Longrightarrow> rm_ok (gm_get [] r n)"
  by (auto simp: rm_ok_def resmaps_ok_def gm_get_def split: option.split)

lemma rm_ok_single [shape]: "list_all (typed_as t) rs \<Longrightarrow> rm_ok [(t, rs)]"
  by (simp add: rm_ok_def gm_wf_def)

lemma mix_listener_ok:
  "mix_listener lib l nn n fcs r0 = Inr r \<Longrightarrow> resmaps_ok r0 \<Longrightarrow> resmaps_ok r"
  by (auto simp: mix_listener_def Let_def resmaps_ok_def [of r0] intro!: shape
      split: option.splits sum.splits dest: rm_ok_get [of _ ListenerType])

lemma mix_flat_resmaps: "mix_flat lib st xs r0 = Inr r \<Longrightarrow> resmaps_ok r0 \<Longrightarrow> resmaps_ok r"
  by (induction lib st xs r0 rule: mix_flat.induct) (auto split: sum.splits dest: mix_listener_ok)

lemma mix_data_ok:
  "resmaps_ok r0 \<Longrightarrow> list_all (\<lambda>(n, rm). rm_ok rm) data \<Longrightarrow> resmaps_ok (mix_data data r0)"
proof (induction data arbitrary: r0)
  case (Cons p data)
  obtain n rm where p: "p = (n, rm)" by (cases p)
  have "mix_data (p # data) r0 = mix_data data (gm_put n (gm_put RouteType (gm_get [] rm RouteType)
      (gm_put ClusterType (gm_get [] rm ClusterType) (gm_put SecretType (gm_get [] rm SecretType) (gm_get [] r0 n)))) r0)"
    by (simp add: mix_data_def p Let_def)
  with Cons show ?case by (simp add: p shape)
qed (simp add: mix_data_def)

lemma typed_sortResources: "list_all (typed_as t) rs \<Longrightarrow> list_all (typed_as t) (sortResources rs)"
  by (simp add: sortResources_eq list_all_iff)

lemma sort_all_ok: "resmaps_ok r \<Longrightarrow> resmaps_ok (map (\<lambda>(n, rm). (n, sort_node rm)) r)"
  unfolding resmaps_ok_def map_of_map_snd
  by (auto simp: gm_wf_def comp_def case_prod_beta rm_ok_def sort_node_def map_of_map_snd typed_sortResources)

definition mixer_ok :: "Mixer \<Rightarrow> bool" where
  "mixer_ok m \<longleftrightarrow> resmaps_ok (mx_data m)"

lemma Mix_ok: "mixer_ok m \<Longrightarrow> Mix lib m st = Inr r \<Longrightarrow> resmaps_ok r"
proof -
  assume m: "mixer_ok m" and "Mix lib m st = Inr r"
  then obtain r1 where r1: "mix_flat lib st (flat (mx_listeners m)) [] = Inr r1"
    and r: "r = map (\<lambda>(n, r). (n, sort_node r)) (mix_data (mx_data m) r1)"
    by (auto simp: Mix_def mix_listeners_flat split: sum.splits)
  have "list_all (\<lambda>(n, rm). rm_ok rm) (mx_data m)"
    using m by (auto simp: mixer_ok_def resmaps_ok_def list_all_iff gm_mem_iff)
  then show ?thesis unfolding r by (intro sort_all_ok mix_data_ok mix_flat_resmaps [OF r1] shape)
qed

section \<open>The mixer of a build\<close>

lemma mixer_ok_New: "mixer_ok NewMixer"
  by (simp add: mixer_ok_def NewMixer_def shape)

lemma mixer_ok_Add: "mixer_ok m \<Longrightarrow> typed_as t r \<Longrightarrow> mixer_ok (Mixer_Add m n t r)"
  by (auto simp: mixer_ok_def Mixer_Add_def resmaps_ok_def [of "mx_data m"] intro!: shape
      split: option.split dest: rm_ok_get [of _ t])

lemma mixer_ok_AddListenerParams: "mixer_ok m \<Longrightarrow> mixer_ok (AddListenerParams m l fcs n)"
  by (simp add: mixer_ok_def AddListenerParams_def Let_def)

lemma mixer_ok_Adds:
  "mixer_ok m \<Longrightarrow> (\<And>x. typed_as t (f x)) \<Longrightarrow> mixer_ok (fold (\<lambda>x m. Mixer_Add m n t (f x)) xs m)"
  by (induction xs arbitrary: m) (auto simp: mixer_ok_Add)

lemma mixer_ok_add_resources: "mixer_ok m \<Longrightarrow> mixer_ok (add_resources res n m)"
  unfolding add_resources_def Let_def
  by (intro mixer_ok_AddListenerParams mixer_ok_Adds) (auto simp: mixer_ok_Add split: option.split)

lemma mixer_ok_mix_on: "mixer_ok m \<Longrightarrow> mixer_ok (mix_on bld store ns vs m)"
proof -
  have "mixer_ok m \<Longrightarrow> mixer_ok (fold (add_resources res) ns m)" for res m
    by (induction ns arbitrary: m) (auto simp: mixer_ok_add_resources)
  then show "mixer_ok m \<Longrightarrow> ?thesis" by (auto simp: mix_on_def split: sum.split)
qed

text \<open>The mixer that a build ends up with: first what names its nodes, then what goes everywhere.\<close>

definition own_mixer :: "builder \<Rightarrow> OptimizedStore \<Rightarrow> Mixer" where
  "own_mixer bld store = fold (\<lambda>vs. mix_on bld store (own_nodes vs) vs) (all_vs store) NewMixer"

definition all_mixer :: "builder \<Rightarrow> OptimizedStore \<Rightarrow> Mixer" where
  "all_mixer bld store =
     fold (mix_on bld store (known_nodes (own_mixer bld store))) (filter is_common (all_vs store)) (own_mixer bld store)"

lemma fold_mixer_ok: "(\<And>x m. mixer_ok m \<Longrightarrow> mixer_ok (f x m)) \<Longrightarrow> mixer_ok m \<Longrightarrow> mixer_ok (fold f xs m)"
  by (induction xs arbitrary: m) auto

lemma all_mixer_ok: "mixer_ok (all_mixer bld store)"
  unfolding all_mixer_def own_mixer_def by (intro fold_mixer_ok mixer_ok_mix_on mixer_ok_New)

lemma collect_known:
  assumes "collect ctx idx bld store (new_build\<lparr>b_polls := k\<rparr>) = Inr b"
  shows "known_nodes (b_mixer b) = known_nodes (own_mixer bld store)"
proof -
  obtain b1 where b1: "for_each (process_vs ctx idx bld store) (all_vs store) (new_build\<lparr>b_polls := k\<rparr>) = Inr b1"
    and b: "for_each (process_common ctx idx bld store) (b_common b1) b1 = Inr b"
    using assms by (auto simp: collect_def exits)
  have "b_mixer b1 = own_mixer bld store"
    using process_all_effect(1) [OF b1] by (simp add: effect_def own_mixer_def)
  with process_commons_effect(5) [OF b] show ?thesis by simp
qed

lemma collect_mixer:
  assumes "collect ctx idx bld store (new_build\<lparr>b_polls := k\<rparr>) = Inr b"
  shows "b_mixer b = all_mixer bld store"
proof -
  have m: "b_mixer b = fold (mix_on bld store (known_nodes (b_mixer b))) (filter is_common (all_vs store)) (own_mixer bld store)"
    using collect_effect(7) [OF assms] by (simp only: own_mixer_def)
  show ?thesis using m unfolding collect_known [OF assms] all_mixer_def .
qed

section \<open>Staging\<close>

lemma stage_node_ok:
  assumes "stage_node ctx cp sc (n, rm) p = Inr p'" "b_errs (p_build p') = b_errs (p_build p)"
  obtains s ch where "node_snapshot cp sc n rm = Inr (s, ch)" "ch \<Longrightarrow> cp_Consistent cp s = None"
    "p_staged p' = (if ch then gm_put n s (p_staged p) else p_staged p)"
    "p_nodeIDsForCleanup p' = gm_del n (p_nodeIDsForCleanup p)"
  using assms
  by (auto simp: stage_node_def exits poll_Inr Let_def plan_err_def add_err_def
      split: sum.splits option.splits if_splits)

text \<open>What staging decides for a node.\<close>

definition staged_for :: "'c cplib \<Rightarrow> 'c SnapshotCache \<Rightarrow> string \<Rightarrow> resmap \<Rightarrow> Snapshot option" where
  "staged_for cp sc n rm =
     (case node_snapshot cp sc n rm of Inl _ \<Rightarrow> None | Inr (s, ch) \<Rightarrow> if ch then Some s else None)"

lemma stage_all:
  assumes "for_each (stage_node ctx cp sc) tmp p = Inr p'" "b_errs (p_build p') = b_errs (p_build p)" "gm_wf tmp"
  shows "map_of (p_staged p') n =
      (case map_of tmp n of None \<Rightarrow> map_of (p_staged p) n
       | Some rm \<Rightarrow> (case staged_for cp sc n rm of None \<Rightarrow> map_of (p_staged p) n | Some s \<Rightarrow> Some s)) \<and>
    (gm_has (p_nodeIDsForCleanup p') n \<longleftrightarrow> gm_has (p_nodeIDsForCleanup p) n \<and> map_of tmp n = None) \<and>
    (gm_wf (p_staged p) \<longrightarrow> gm_wf (p_staged p')) \<and>
    (gm_wf (p_nodeIDsForCleanup p) \<longrightarrow> gm_wf (p_nodeIDsForCleanup p')) \<and>
    (\<forall>rm. map_of tmp n = Some rm \<longrightarrow> is_ok (node_snapshot cp sc n rm))"
  using assms
proof (induction tmp arbitrary: p)
  case (Cons x tmp)
  obtain m rm where x: "x = (m, rm)" by (cases x)
  have wf: "gm_wf tmp" and m: "map_of tmp m = None"
    using Cons.prems(3) by (auto simp: x gm_wf_def map_of_eq_None_iff)
  from Cons.prems(1) obtain p1 where p1: "stage_node ctx cp sc (m, rm) p = Inr p1"
    and rest: "for_each (stage_node ctx cp sc) tmp p1 = Inr p'" by (auto simp: x split: sum.splits)
  have "prefix (b_errs (p_build p)) (b_errs (p_build p1))" "prefix (b_errs (p_build p1)) (b_errs (p_build p'))"
    using stage_node_frame [OF p1] stage_frame [OF rest] by auto
  then have errs: "b_errs (p_build p1) = b_errs (p_build p)" "b_errs (p_build p') = b_errs (p_build p1)"
    using Cons.prems(2) by (metis prefix_order.antisym)+
  from p1 errs(1) obtain s ch where s: "node_snapshot cp sc m rm = Inr (s, ch)"
    and st: "p_staged p1 = (if ch then gm_put m s (p_staged p) else p_staged p)"
    and cl: "p_nodeIDsForCleanup p1 = gm_del m (p_nodeIDsForCleanup p)" by (rule stage_node_ok)
  from Cons.IH [OF rest errs(2) wf] show ?case
    by (cases "n = m") (auto simp: x m s st cl staged_for_def gm_has_def split: option.split)
qed simp

section \<open>Committing\<close>

lemma commit_other:
  "cplib_ok cp \<Longrightarrow> n \<notin> fst ` set xs \<Longrightarrow> GetSnapshot cp (snd (commit cp xs es c)) n = GetSnapshot cp c n"
proof (induction cp xs es c rule: commit.induct)
  case (2 cp m s rest errs c)
  have "GetSnapshot cp (snd (SetSnapshot cp c m s)) n = GetSnapshot cp c n"
    using 2(4) by (intro SetSnapshot_other [OF 2(3)]) auto
  with 2 show ?case by (auto split: prod.split option.split)
qed simp

lemma commit_errs_mono: "prefix es (fst (commit cp xs es c))"
  by (induction cp xs es c rule: commit.induct) (auto split: prod.split option.split dest: append_prefixD)

lemma commit_ok:
  assumes "cplib_ok cp" "commit cp xs es c = (es, c')" "distinct (map fst xs)" "(n, s) \<in> set xs"
  shows "GetSnapshot cp c' n = Inr s"
  using assms(2-4)
proof (induction xs arbitrary: c)
  case (Cons x xs)
  obtain m t where x: "x = (m, t)" by (cases x)
  obtain e c1 where set1: "SetSnapshot cp c m t = (e, c1)" by fastforce
  have e: "e = None"
  proof (rule ccontr)
    assume "e \<noteq> None"
    then obtain err where "e = Some err" by auto
    with Cons.prems(1) set1 have "fst (commit cp xs (es @ [err]) c1) = es" by (simp add: x)
    then have "prefix (es @ [err]) es" using commit_errs_mono [of "es @ [err]" cp xs c1] by simp
    then show False by (simp add: prefix_def)
  qed
  with Cons.prems(1) set1 have rest: "commit cp xs es c1 = (es, c')" by (simp add: x)
  show ?case
  proof (cases "(n, s) = (m, t)")
    case True
    then have "n \<notin> fst ` set xs" using Cons.prems(2) by (simp add: x)
    then have "GetSnapshot cp c' n = GetSnapshot cp c1 n"
      using commit_other [OF assms(1), of n xs es c1] rest by simp
    with True SetSnapshot_stored [OF assms(1)] set1 e show ?thesis by simp
  next
    case False
    with Cons.prems show ?thesis by (intro Cons.IH [OF rest]) (auto simp: x)
  qed
qed simp

lemma commit_nodeIDs: "gm_has (sc_nodeIDs (snd (commit cp xs es c))) n \<longleftrightarrow> n \<in> fst ` set xs \<or> gm_has (sc_nodeIDs c) n"
proof (induction cp xs es c rule: commit.induct)
  case (2 cp m s rest errs c)
  obtain e c1 where set1: "SetSnapshot cp c m s = (e, c1)" by fastforce
  then have "sc_nodeIDs c1 = gm_put m () (sc_nodeIDs c)" using SetSnapshot_nodeIDs [of cp c m s] by simp
  with 2 [OF set1 [symmetric]] set1 show ?case by (auto simp: gm_has_def split: option.split)
qed simp

section \<open>The cache after a build\<close>

definition sc_wf :: "'c SnapshotCache \<Rightarrow> bool" where
  "sc_wf sc \<longleftrightarrow> gm_wf (sc_nodeIDs sc)"

text \<open>Snapshots in the cache hold resources of the right type under their own names.\<close>

definition cache_ok :: "'c cplib \<Rightarrow> 'c SnapshotCache \<Rightarrow> bool" where
  "cache_ok cp sc \<longleftrightarrow> (\<forall>n s. GetSnapshot cp sc n = Inr s \<longrightarrow> snap_typed s \<and> snap_named s)"

lemma nodeIDs_copy: "sc_wf sc \<Longrightarrow> gm_has (GetNodeIDsAsMap sc) n \<longleftrightarrow> gm_has (sc_nodeIDs sc) n"
  "gm_wf (GetNodeIDsAsMap sc)"
  by (simp_all add: sc_wf_def GetNodeIDsAsMap_def gm_has_def gm_copy_empty gomap_intros)

lemma build_result:
  assumes "cplib_ok cp" "sc_wf sc" "bt_err (buildSnapshots ctx idx cp lib bld sc store) = None"
  obtains tmp where "Mix lib (all_mixer bld store) store = Inr tmp" "resmaps_ok tmp"
    "\<And>n rm. map_of tmp n = Some rm \<Longrightarrow> is_ok (node_snapshot cp sc n rm)"
    "\<And>n. GetSnapshot cp (bt_cache (buildSnapshots ctx idx cp lib bld sc store)) n =
       (case map_of tmp n of
          Some rm \<Rightarrow> (case staged_for cp sc n rm of Some s \<Rightarrow> Inr s | None \<Rightarrow> GetSnapshot cp sc n)
        | None \<Rightarrow> if gm_has (sc_nodeIDs sc) n then Inr empty_snapshot else GetSnapshot cp sc n)"
    "\<And>n. gm_has (sc_nodeIDs (bt_cache (buildSnapshots ctx idx cp lib bld sc store))) n \<longleftrightarrow>
       gm_has (sc_nodeIDs sc) n \<or> (\<exists>rm. map_of tmp n = Some rm \<and> staged_for cp sc n rm \<noteq> None)"
proof -
  let ?r = "buildSnapshots ctx idx cp lib bld sc store"
  from assms(3) obtain p c where p: "make_plan ctx idx cp lib bld sc store = Inr p"
    and c: "commit cp (p_staged p) [] sc = ([], c)"
    and c': "commit cp (map (\<lambda>(n, _). (n, empty_snapshot)) (p_nodeIDsForCleanup p)) [] c = ([], bt_cache ?r)"
    by (rule buildSnapshots_ok)
  from p obtain b tmp p1 where b: "collect ctx idx bld store (new_build\<lparr>b_polls := 1\<rparr>) = Inr b" "b_errs b = []"
    and tmp: "Mix lib (b_mixer b) store = Inr tmp"
    and st: "for_each (stage_node ctx cp sc) tmp \<lparr>p_build = b\<lparr>b_polls := Suc (b_polls b)\<rparr>, p_staged = [],
        p_nodeIDsForCleanup = GetNodeIDsAsMap sc\<rparr> = Inr p1" "b_errs (p_build p1) = []"
    and p1: "p_staged p = p_staged p1" "p_nodeIDsForCleanup p = p_nodeIDsForCleanup p1" by (rule make_plan_Inr)
  have ok: "resmaps_ok tmp" using Mix_ok all_mixer_ok tmp collect_mixer [OF b(1)] by metis
  then have wf: "gm_wf tmp" by (simp add: resmaps_ok_def)
  have s: "map_of (p_staged p) n = Option.bind (map_of tmp n) (staged_for cp sc n)"
    and cl: "gm_has (p_nodeIDsForCleanup p) n \<longleftrightarrow> gm_has (sc_nodeIDs sc) n \<and> map_of tmp n = None"
    and k: "\<And>rm. map_of tmp n = Some rm \<Longrightarrow> is_ok (node_snapshot cp sc n rm)"
    and wfs: "gm_wf (p_staged p)" "gm_wf (p_nodeIDsForCleanup p)" for n
    using stage_all [OF st(1) _ wf, of n] st(2) b(2) nodeIDs_copy(1) [OF assms(2)] nodeIDs_copy(2) [of sc]
    by (auto simp: p1 split: option.splits)
  let ?cl = "map (\<lambda>(n, _). (n, empty_snapshot)) (p_nodeIDsForCleanup p)"
  have keys: "map fst ?cl = map fst (p_nodeIDsForCleanup p)" by (simp add: comp_def case_prod_beta)
  have kset: "n \<in> fst ` set ?cl \<longleftrightarrow> gm_has (p_nodeIDsForCleanup p) n" for n
    by (simp add: gm_has_iff image_image case_prod_beta)
  have get: "GetSnapshot cp (bt_cache ?r) n =
      (if gm_has (p_nodeIDsForCleanup p) n then Inr empty_snapshot
       else case map_of (p_staged p) n of Some s \<Rightarrow> Inr s | None \<Rightarrow> GetSnapshot cp sc n)" for n
  proof (cases "gm_has (p_nodeIDsForCleanup p) n")
    case True
    then have "(n, empty_snapshot) \<in> set ?cl" by (force simp: gm_has_iff)
    moreover have "distinct (map fst ?cl)" unfolding keys using wfs(2) by (simp only: gm_wf_def)
    ultimately have "GetSnapshot cp (bt_cache ?r) n = Inr empty_snapshot" by (intro commit_ok [OF assms(1) c'])
    with True show ?thesis by simp
  next
    case False
    then have "n \<notin> fst ` set ?cl" unfolding kset .
    then have 1: "GetSnapshot cp (bt_cache ?r) n = GetSnapshot cp c n"
      using commit_other [OF assms(1), of n ?cl "[]" c] c' by simp
    show ?thesis
    proof (cases "map_of (p_staged p) n")
      case None
      then have "n \<notin> fst ` set (p_staged p)" by (simp add: map_of_eq_None_iff)
      then have "GetSnapshot cp c n = GetSnapshot cp sc n"
        using commit_other [OF assms(1), of n "p_staged p" "[]" sc] c by simp
      with 1 None False show ?thesis by simp
    next
      case (Some s)
      with wfs(1) have "GetSnapshot cp c n = Inr s"
        by (intro commit_ok [OF assms(1) c]) (simp_all only: gm_wf_def map_of_SomeD)
      with 1 Some False show ?thesis by simp
    qed
  qed
  have ids: "gm_has (sc_nodeIDs (bt_cache ?r)) n \<longleftrightarrow> gm_has (p_nodeIDsForCleanup p) n \<or>
      map_of (p_staged p) n \<noteq> None \<or> gm_has (sc_nodeIDs sc) n" for n
    using commit_nodeIDs [of cp ?cl "[]" c n] commit_nodeIDs [of cp "p_staged p" "[]" sc n]
    unfolding c c' kset snd_conv by (simp add: map_of_eq_None_iff)
  show ?thesis
  proof (rule that)
    show "Mix lib (all_mixer bld store) store = Inr tmp" using tmp collect_mixer [OF b(1)] by simp
    show "resmaps_ok tmp" by (rule ok)
    show "is_ok (node_snapshot cp sc n rm)" if "map_of tmp n = Some rm" for n rm using k that by blast
    show "GetSnapshot cp (bt_cache ?r) n = (case map_of tmp n of
          Some rm \<Rightarrow> (case staged_for cp sc n rm of Some s \<Rightarrow> Inr s | None \<Rightarrow> GetSnapshot cp sc n)
        | None \<Rightarrow> if gm_has (sc_nodeIDs sc) n then Inr empty_snapshot else GetSnapshot cp sc n)" for n
      unfolding get s cl by (simp split: option.split)
    show "gm_has (sc_nodeIDs (bt_cache ?r)) n \<longleftrightarrow>
       gm_has (sc_nodeIDs sc) n \<or> (\<exists>rm. map_of tmp n = Some rm \<and> staged_for cp sc n rm \<noteq> None)" for n
      unfolding ids s cl by (cases "map_of tmp n") auto
  qed
qed

text \<open>A snapshot made of resource lists, with some version for each type.\<close>

definition groups :: "'c cplib \<Rightarrow> (rtype \<Rightarrow> string) \<Rightarrow> resmap \<Rightarrow> Snapshot" where
  "groups cp ver rm = (\<lambda>t. case map_of rm t of None \<Rightarrow> zero_group | Some rs \<Rightarrow> cp_NewResources cp (ver t) rs)"

lemma groups_ok:
  assumes "cplib_ok cp" "rm_ok rm"
  shows "snap_typed (groups cp ver rm)" "snap_named (groups cp ver rm)"
proof -
  have items: "GetResources (groups cp ver rm) t =
      (case map_of rm t of None \<Rightarrow> [] | Some rs \<Rightarrow> rg_Items (cp_NewResources cp (ver t) rs))" for t
    by (simp add: GetResources_def groups_def zero_group_def split: option.split)
  have "typed_as t r" if "map_of rm t = Some rs" "(n, r) \<in> set (rg_Items (cp_NewResources cp v rs))" for t rs n r v
  proof -
    have "by_name rs n = Some r" using that(2) cplib_ok_simps(7,8) [OF assms(1), of v rs] by (simp add: gm_mem_iff)
    then have "r \<in> set rs" by (auto dest: by_name_Some)
    with assms(2) that(1) show ?thesis by (auto simp: rm_ok_def list_all_iff)
  qed
  note typed = this
  show "snap_typed (groups cp ver rm)"
    unfolding snap_typed_def
  proof (clarify)
    fix t n r assume "(n, r) \<in> set (GetResources (groups cp ver rm) t)"
    then show "typed_as t r" unfolding items by (cases "map_of rm t") (simp, metis option.simps(5) typed)
  qed
  show "snap_named (groups cp ver rm)"
    by (auto simp: snap_named_def items named_items_new [OF assms(1)] split: option.split)
       (simp add: named_items_def)
qed

lemma groups_items:
  assumes "cplib_ok cp" "map_of rm t = Some rs" "distinct (map resource_name rs)"
  shows "snd ` set (GetResources (groups cp ver rm) t) = set rs"
  using new_items_set [OF assms(1,3)] by (simp add: GetResources_def groups_def assms(2))

lemma node_snapshot_cases:
  assumes "cplib_ok cp" "gm_wf rm"
  obtains ver ch where "node_snapshot cp sc n rm = Inr (groups cp ver rm, ch)"
    "\<not> ch \<Longrightarrow> \<exists>prev. GetSnapshot cp sc n = Inr prev \<and> \<not> group_changed prev rm"
proof (cases "GetSnapshot cp sc n")
  case (Inl e)
  have "node_snapshot cp sc n rm = Inr (groups cp (\<lambda>_. ''1'') rm, True)"
    using Inl cplib_ok_simps(9) [OF assms(1)] by (simp add: node_snapshot_def groups_def cong: option.case_cong)
  then show ?thesis by (rule that) simp
next
  case (Inr prev)
  let ?ver = "\<lambda>t. if checkResourcesChanged (GetResources prev t) (the (map_of rm t))
       then next_version (base_version prev t) else base_version prev t"
  have "node_snapshot cp sc n rm = Inr (groups cp ?ver rm, group_changed prev rm)"
    using Inr by (auto simp: node_snapshot_def updateSnapshot_eq [OF assms] groups_def updated_group_def fun_eq_iff
        split: option.split)
  then show ?thesis by (rule that) (use Inr in auto)
qed

text \<open>What the cache must answer for a node so that the node is served the resources \<open>rm\<close>.\<close>

definition serves :: "Snapshot \<Rightarrow> resmap \<Rightarrow> bool" where
  "serves s rm \<longleftrightarrow> (\<forall>t rs. map_of rm t = Some rs \<longrightarrow> snd ` set (GetResources s t) = set rs)"

lemma group_changed_serves:
  "gm_wf rm \<Longrightarrow> resmap_names_ok rm \<Longrightarrow> snap_named prev \<Longrightarrow> \<not> group_changed prev rm \<longleftrightarrow> serves prev rm"
  by (auto simp: group_changed_iff serves_def)

lemma groups_serves:
  "cplib_ok cp \<Longrightarrow> gm_wf rm \<Longrightarrow> resmap_names_ok rm \<Longrightarrow> serves (groups cp ver rm) rm"
  unfolding serves_def resmap_names_ok_def
  by (intro allI impI, rule groups_items, assumption+) (auto dest: map_of_SomeD)

section \<open>What is served\<close>

lemma build_serves:
  assumes "cplib_ok cp" "sc_wf sc" "cache_ok cp sc"
    and "bt_err (buildSnapshots ctx idx cp lib bld sc store) = None"
    and "\<forall>tmp n rm. Mix lib (all_mixer bld store) store = Inr tmp \<and> map_of tmp n = Some rm \<longrightarrow> resmap_names_ok rm"
    and "Mix lib (all_mixer bld store) store = Inr tmp" "map_of tmp n = Some rm"
  shows "\<exists>s. GetSnapshot cp (bt_cache (buildSnapshots ctx idx cp lib bld sc store)) n = Inr s \<and> serves s rm"
proof -
  let ?r = "buildSnapshots ctx idx cp lib bld sc store"
  from assms(1,2,4) obtain tmp' where tmp: "Mix lib (all_mixer bld store) store = Inr tmp'" "resmaps_ok tmp'"
    and get: "\<And>n. GetSnapshot cp (bt_cache ?r) n = (case map_of tmp' n of
          Some rm \<Rightarrow> (case staged_for cp sc n rm of Some s \<Rightarrow> Inr s | None \<Rightarrow> GetSnapshot cp sc n)
        | None \<Rightarrow> if gm_has (sc_nodeIDs sc) n then Inr empty_snapshot else GetSnapshot cp sc n)"
    by (rule build_result) (rule that)
  have eq: "tmp' = tmp" using tmp(1) assms(6) by simp
  note rm = assms(7)
  have wf: "gm_wf rm" and names: "resmap_names_ok rm"
    using tmp rm assms(5) by (auto simp: resmaps_ok_def rm_ok_def eq)
  from assms(1) wf obtain ver ch where s: "node_snapshot cp sc n rm = Inr (groups cp ver rm, ch)"
    and ch: "\<not> ch \<Longrightarrow> \<exists>prev. GetSnapshot cp sc n = Inr prev \<and> \<not> group_changed prev rm"
    by (rule node_snapshot_cases [where sc = sc and n = n]) (rule that)
  show ?thesis
  proof (cases ch)
    case True
    then show ?thesis using get [of n] groups_serves [OF assms(1) wf names] by (simp add: rm staged_for_def s eq)
  next
    case False
    with ch obtain prev where prev: "GetSnapshot cp sc n = Inr prev" "\<not> group_changed prev rm" by blast
    have "snap_named prev" using assms(3) prev(1) by (simp add: cache_ok_def)
    with prev have "serves prev rm" using group_changed_serves [OF wf names] by simp
    then show ?thesis using False get [of n] prev by (simp add: rm staged_for_def s eq)
  qed
qed

lemma sc_wf_build:
  assumes "sc_wf sc"
  shows "sc_wf (bt_cache (buildSnapshots ctx idx cp lib bld sc store))"
proof -
  have "sc_wf c \<Longrightarrow> sc_wf (snd (commit cp xs es c))" for xs es c
  proof (induction cp xs es c rule: commit.induct)
    case (2 cp n s rest errs c)
    obtain e c1 where set1: "SetSnapshot cp c n s = (e, c1)" by fastforce
    then have "sc_nodeIDs c1 = gm_put n () (sc_nodeIDs c)" using SetSnapshot_nodeIDs [of cp c n s] by simp
    with 2(3) have "sc_wf c1" by (simp add: sc_wf_def)
    with 2(1,2) set1 show ?case by (auto split: option.split)
  qed simp
  note commit_wf = this
  show ?thesis
  proof (cases "make_plan ctx idx cp lib bld sc store")
    case (Inl x)
    then show ?thesis using assms by (cases x) (simp add: buildSnapshots_def)
  next
    case (Inr p)
    then show ?thesis
      using commit_wf [OF commit_wf [OF assms]] by (simp add: buildSnapshots_def Let_def case_prod_beta)
  qed
qed


lemma cache_ok_SetSnapshot:
  assumes "cplib_ok cp" "cache_ok cp c" "snap_typed s" "snap_named s"
  shows "cache_ok cp (snd (SetSnapshot cp c n s))"
  unfolding cache_ok_def
proof (intro allI impI)
  fix m t assume t: "GetSnapshot cp (snd (SetSnapshot cp c n s)) m = Inr t"
  show "snap_typed t \<and> snap_named t"
  proof (cases "m = n")
    case True
    have "GetSnapshot cp (snd (SetSnapshot cp c n s)) n \<in> {Inr s, GetSnapshot cp c n}"
      using cplib_ok_simps(10) [OF assms(1), of "sc_cache c" n s]
      by (cases "cp_SetSnapshot cp (sc_cache c) n s")
         (auto simp: SetSnapshot_def GetSnapshot_def Let_def split: option.split)
    with t True assms(2-4) show ?thesis by (auto simp: cache_ok_def)
  next
    case False
    with t assms(2) show ?thesis by (simp add: SetSnapshot_other [OF assms(1)] cache_ok_def)
  qed
qed

lemma cache_ok_commit:
  "cplib_ok cp \<Longrightarrow> cache_ok cp c \<Longrightarrow> \<forall>(n, s) \<in> set xs. snap_typed s \<and> snap_named s \<Longrightarrow>
     cache_ok cp (snd (commit cp xs es c))"
proof (induction cp xs es c rule: commit.induct)
  case (2 cp n s rest errs c)
  obtain e c1 where set1: "SetSnapshot cp c n s = (e, c1)" by fastforce
  from cache_ok_SetSnapshot [OF 2(3,4), of s n] 2(5) set1 have "cache_ok cp c1" by simp
  with 2 set1 show ?case by (auto split: option.split)
qed simp

lemma plan_staged_from:
  assumes "cplib_ok cp" "make_plan ctx idx cp lib bld sc store = Inr p" "(n, s) \<in> set (p_staged p)"
  shows "\<exists>tmp rm ver. Mix lib (all_mixer bld store) store = Inr tmp \<and> map_of tmp n = Some rm \<and>
    s = groups cp ver rm \<and> rm_ok rm \<and> staged_for cp sc n rm = Some s"
proof -
  from assms(2) obtain b tmp p1 where b: "collect ctx idx bld store (new_build\<lparr>b_polls := 1\<rparr>) = Inr b" "b_errs b = []"
    and tmp: "Mix lib (b_mixer b) store = Inr tmp"
    and st: "for_each (stage_node ctx cp sc) tmp \<lparr>p_build = b\<lparr>b_polls := Suc (b_polls b)\<rparr>, p_staged = [],
        p_nodeIDsForCleanup = GetNodeIDsAsMap sc\<rparr> = Inr p1" "b_errs (p_build p1) = []"
    and p1: "p_staged p = p_staged p1" by (rule make_plan_Inr)
  have ok: "resmaps_ok tmp" using Mix_ok all_mixer_ok tmp collect_mixer [OF b(1)] by metis
  have "map_of (p_staged p) n = Option.bind (map_of tmp n) (staged_for cp sc n)" "gm_wf (p_staged p)"
    using stage_all [OF st(1), of n] st(2) b(2) ok by (auto simp: p1 resmaps_ok_def split: option.splits)
  with assms(3) obtain rm where rm: "map_of tmp n = Some rm" "staged_for cp sc n rm = Some s"
    by (auto simp: gm_mem_iff bind_eq_Some_conv)
  then have rmo: "rm_ok rm" using ok by (auto simp: resmaps_ok_def)
  then have "gm_wf rm" by (simp add: rm_ok_def)
  with assms(1) obtain ver ch where "node_snapshot cp sc n rm = Inr (groups cp ver rm, ch)"
    by (rule node_snapshot_cases [where sc = sc and n = n]) (rule that)
  with rm(2) have "s = groups cp ver rm" by (auto simp: staged_for_def split: if_splits)
  with rm rmo tmp collect_mixer [OF b(1)] show ?thesis by auto
qed

lemma plan_staged_ok:
  assumes "cplib_ok cp" "make_plan ctx idx cp lib bld sc store = Inr p" "(n, s) \<in> set (p_staged p)"
  shows "snap_typed s \<and> snap_named s"
  using plan_staged_from [OF assms] groups_ok [OF assms(1)] by blast

lemma cache_ok_build:
  assumes "cplib_ok cp" "cache_ok cp sc"
  shows "cache_ok cp (bt_cache (buildSnapshots ctx idx cp lib bld sc store))"
proof (cases "make_plan ctx idx cp lib bld sc store")
  case (Inl x)
  then show ?thesis using assms(2) by (cases x) (simp add: buildSnapshots_def)
next
  case (Inr p)
  obtain es c where c: "commit cp (p_staged p) [] sc = (es, c)" by fastforce
  have "cache_ok cp c"
    using cache_ok_commit [OF assms, of "p_staged p" "[]"] plan_staged_ok [OF assms(1) Inr] c by force
  moreover have "snap_named empty_snapshot"
    by (simp add: snap_named_def empty_snapshot_def GetResources_def zero_group_def named_items_def)
  ultimately have "cache_ok cp (snd (commit cp (map (\<lambda>(n, _). (n, empty_snapshot)) (p_nodeIDsForCleanup p)) es c))"
    by (intro cache_ok_commit [OF assms(1)]) auto
  then show ?thesis by (simp add: buildSnapshots_def Inr c Let_def case_prod_beta)
qed

text \<open>
  C17: whatever the outcome of a build, the snapshots of the cache stay well typed, so the
  getters of the cache never fail a type assertion: they report only that a node has no snapshot.
\<close>

theorem snapshots_typed:
  assumes "cplib_ok cp" "cache_ok cp sc"
  shows "let c = bt_cache (buildSnapshots ctx idx cp lib bld sc store) in
    cache_ok cp c \<and>
    (\<forall>n. case GetSnapshot cp c n of
       Inl e \<Rightarrow> GetListeners cp c n = Inl e \<and> GetClusters cp c n = Inl e \<and> GetRouteConfigurations cp c n = Inl e \<and>
         GetSecrets cp c n = Inl e
     | Inr s \<Rightarrow> is_ok (GetListeners cp c n) \<and> is_ok (GetClusters cp c n) \<and> is_ok (GetRouteConfigurations cp c n) \<and>
         is_ok (GetSecrets cp c n))"
proof -
  let ?c = "bt_cache (buildSnapshots ctx idx cp lib bld sc store)"
  note ok = cache_ok_build [OF assms, of ctx idx lib bld store]
  have "case GetSnapshot cp ?c n of
       Inl e \<Rightarrow> GetListeners cp ?c n = Inl e \<and> GetClusters cp ?c n = Inl e \<and> GetRouteConfigurations cp ?c n = Inl e \<and>
         GetSecrets cp ?c n = Inl e
     | Inr s \<Rightarrow> is_ok (GetListeners cp ?c n) \<and> is_ok (GetClusters cp ?c n) \<and> is_ok (GetRouteConfigurations cp ?c n) \<and>
         is_ok (GetSecrets cp ?c n)" for n
  proof (cases "GetSnapshot cp ?c n")
    case (Inr s)
    then have "snap_typed s" using ok by (simp add: cache_ok_def)
    from casts_ok [OF this] Inr show ?thesis
      by (simp add: GetListeners_def GetClusters_def GetRouteConfigurations_def GetSecrets_def)
  qed (simp add: GetListeners_def GetClusters_def GetRouteConfigurations_def GetSecrets_def)
  with ok show ?thesis by (simp add: Let_def)
qed

end
