(* ===== verification/BuildLive.thy ===== *)
theory BuildLive
  imports BuildCommit
begin

text \<open>
  When a build succeeds, when it changes nothing, and what a failure leaves behind.
\<close>

section \<open>Progress\<close>

definition uncancelled :: "ctx \<Rightarrow> bool" where
  "uncancelled ctx \<longleftrightarrow> (\<forall>k. ctx k = None)"

lemma poll_uncancelled: "uncancelled ctx \<Longrightarrow> poll ctx b = Inr (b\<lparr>b_polls := Suc (b_polls b)\<rparr>)"
  by (simp add: uncancelled_def poll_def)

lemma for_each_progress:
  assumes step: "\<And>x s. x \<in> set xs \<Longrightarrow> P s \<Longrightarrow> distinct (D s @ K x) \<Longrightarrow> \<exists>s'. f x s = Inr s' \<and> P s' \<and> D s' = D s @ K x"
    and "P s" "distinct (D s @ concat (map K xs))"
  shows "\<exists>s'. for_each f xs s = Inr s'"
  using assms
proof (induction xs arbitrary: s)
  case (Cons x xs)
  have "distinct (D s @ K x)" using Cons.prems(3) by auto
  with Cons.prems(1,2) obtain s' where s': "f x s = Inr s'" "P s'" "D s' = D s @ K x" by (meson list.set_intros(1))
  have "\<exists>t. for_each f xs s' = Inr t"
  proof (rule Cons.IH)
    show "distinct (D s' @ concat (map K xs))" using Cons.prems(3) s'(3) by simp
  qed (use Cons.prems(1) s'(2) in auto)
  with s'(1) show ?case by simp
qed simp

abbreviation nd :: "(string \<times> string) \<Rightarrow> string" where
  "nd \<equiv> \<lambda>(n, d). nodeIDDomain n d"

lemma add_domain_progress:
  assumes "uncancelled ctx" "distinct (doms b @ [nodeIDDomain n d])"
  shows "\<exists>b'. add_domain ctx idx n d b = Inr b'"
proof -
  have "\<not> gm_has (b_nodeIDDomainsSet b) (nodeIDDomain n d)"
    using assms(2) by (simp add: doms_def gm_has_iff)
  then show ?thesis by (simp add: add_domain_def poll_uncancelled [OF assms(1)] Let_def)
qed

lemma add_node_progress:
  assumes "uncancelled ctx" "distinct (doms b @ map nd (map (Pair n) (r_Domains res)))"
  shows "\<exists>b'. add_node ctx idx res n b = Inr b'"
proof -
  let ?b = "b\<lparr>b_polls := Suc (b_polls b)\<rparr>"
  have "\<exists>b'. for_each (add_domain ctx idx n) (r_Domains res) ?b = Inr b'"
  proof (rule for_each_progress [where P = "\<lambda>_. True" and D = doms and K = "\<lambda>d. [nodeIDDomain n d]"])
    show "distinct (doms ?b @ concat (map (\<lambda>d. [nodeIDDomain n d]) (r_Domains res)))"
      using assms(2) by (simp add: comp_def)
  qed (use add_domain_progress [OF assms(1)] add_domain_effect(1) in blast)+
  then show ?thesis by (auto simp: add_node_def poll_uncancelled [OF assms(1)])
qed

lemma add_nodes_progress:
  assumes "uncancelled ctx" "distinct (doms b @ map nd (claims res ns))"
  shows "\<exists>b'. for_each (add_node ctx idx res) ns b = Inr b'"
proof (rule for_each_progress [where P = "\<lambda>_. True" and D = doms and K = "\<lambda>n. map nd (map (Pair n) (r_Domains res))"])
  show "distinct (doms b @ concat (map (\<lambda>n. map nd (map (Pair n) (r_Domains res))) ns))"
    using assms(2) by (simp add: claims_def map_concat comp_def)
  fix n s assume "distinct (doms s @ map nd (map (Pair n) (r_Domains res)))"
  from add_node_progress [OF assms(1) this] obtain s' where "add_node ctx idx res n s = Inr s'" by blast
  with add_node_effect(1) [OF this] show "\<exists>s'. add_node ctx idx res n s = Inr s' \<and> True \<and>
      doms s' = doms s @ map nd (map (Pair n) (r_Domains res))"
    by (auto simp: effect_def)
qed simp

lemma process_vs_progress:
  assumes "uncancelled ctx" "distinct (doms b @ map nd (claims_on bld store (own_nodes vs) vs))"
  shows "\<exists>b'. process_vs ctx idx bld store vs b = Inr b'"
proof (cases "GetNodeIDs vs = [] \<or> is_common vs")
  case True
  then show ?thesis
    by (auto simp: process_vs_def poll_uncancelled [OF assms(1)] Let_def is_common_def)
next
  case False
  then have ns: "own_nodes vs = GetNodeIDs vs" by (auto simp: own_nodes_def is_common_def)
  show ?thesis
  proof (cases "bld vs store")
    case (Inl e)
    with False show ?thesis
      by (auto simp: process_vs_def poll_uncancelled [OF assms(1)] Let_def is_common_def)
  next
    case (Inr res)
    with assms(2) ns have d: "distinct (doms b @ map nd (claims res (GetNodeIDs vs)))"
      by (simp add: claims_on_def)
    have "\<exists>b'. for_each (add_node ctx idx res) (GetNodeIDs vs) b1 = Inr b'" if "doms b1 = doms b" for b1
      using that by (intro add_nodes_progress [OF assms(1)]) (use d in simp)
    then show ?thesis using False Inr
      by (auto simp: process_vs_def poll_uncancelled [OF assms(1)] Let_def is_common_def)
  qed
qed

lemma process_common_progress:
  assumes "uncancelled ctx" "distinct (doms b @ map nd (claims_on bld store (known_nodes (b_mixer b)) vs))"
  shows "\<exists>b'. process_common ctx idx bld store vs b = Inr b'"
proof (cases "bld vs store")
  case (Inl e)
  then show ?thesis by (auto simp: process_common_def poll_uncancelled [OF assms(1)])
next
  case (Inr res)
  have "\<exists>b'. for_each (add_node ctx idx res) (known_nodes (b_mixer b)) b1 = Inr b'" if "doms b1 = doms b" for b1
    using that by (intro add_nodes_progress [OF assms(1)]) (use assms(2) Inr in \<open>simp add: claims_on_def\<close>)
  then show ?thesis using Inr
    by (auto simp: process_common_def poll_uncancelled [OF assms(1)] known_nodes_def)
qed

lemma map_concat_map: "map f (concat (map g xs)) = concat (map (\<lambda>x. map f (g x)) xs)"
  by (induction xs) auto

lemma collect_progress:
  assumes "uncancelled ctx" "distinct (map nd (all_claims bld store (known_nodes (own_mixer bld store))))"
  shows "\<exists>b. collect ctx idx bld store (new_build\<lparr>b_polls := k\<rparr>) = Inr b"
proof -
  let ?b0 = "new_build\<lparr>b_polls := k\<rparr>" and ?ns = "known_nodes (own_mixer bld store)"
  let ?K1 = "\<lambda>vs. map nd (claims_on bld store (own_nodes vs) vs)" and ?K2 = "\<lambda>vs. map nd (claims_on bld store ?ns vs)"
  have dist: "distinct (concat (map ?K1 (all_vs store)) @ concat (map ?K2 (filter is_common (all_vs store))))"
    using assms(2) unfolding all_claims_def map_append map_concat_map .
  have "\<exists>b1. for_each (process_vs ctx idx bld store) (all_vs store) ?b0 = Inr b1"
  proof (rule for_each_progress [where P = "\<lambda>_. True" and D = doms and K = ?K1])
    show "distinct (doms ?b0 @ concat (map ?K1 (all_vs store)))"
      using dist by (simp only: distinct_append build_upds new_build_simps append_Nil)
    fix vs s assume "distinct (doms s @ ?K1 vs)"
    from process_vs_progress [OF assms(1) this] obtain s' where "process_vs ctx idx bld store vs s = Inr s'" by blast
    with process_vs_effect(1) [OF this] show "\<exists>s'. process_vs ctx idx bld store vs s = Inr s' \<and> True \<and> doms s' = doms s @ ?K1 vs"
      by (auto simp: effect_def)
  qed simp
  then obtain b1 where b1: "for_each (process_vs ctx idx bld store) (all_vs store) ?b0 = Inr b1" by blast
  note e = process_all_effect [OF b1]
  have m: "b_mixer b1 = own_mixer bld store" and com: "b_common b1 = filter is_common (all_vs store)"
    and d1: "doms b1 = concat (map ?K1 (all_vs store))"
    using e(1,3) unfolding effect_def map_concat_map by (simp_all add: own_mixer_def del: map_map)
  have "\<exists>b. for_each (process_common ctx idx bld store) (b_common b1) b1 = Inr b"
  proof (rule for_each_progress [where P = "\<lambda>b. known_nodes (b_mixer b) = ?ns" and D = doms and K = ?K2])
    show "known_nodes (b_mixer b1) = ?ns" by (simp add: m)
    show "distinct (doms b1 @ concat (map ?K2 (b_common b1)))" using dist unfolding d1 com .
    fix vs s assume s: "known_nodes (b_mixer s) = ?ns" "distinct (doms s @ ?K2 vs)"
    with process_common_progress [OF assms(1), of s bld store vs idx] obtain s'
      where s': "process_common ctx idx bld store vs s = Inr s'" by auto
    from process_common_effect(1) [OF s'] s(1) have "doms s' = doms s @ ?K2 vs" "known_nodes (b_mixer s') = ?ns"
      by (simp_all add: effect_def) (metis known_nodes_mix_on_same s(1))
    with s' show "\<exists>s'. process_common ctx idx bld store vs s = Inr s' \<and> known_nodes (b_mixer s') = ?ns \<and> doms s' = doms s @ ?K2 vs"
      by blast
  qed
  with b1 show ?thesis by (auto simp: collect_def)
qed

lemma stage_progress:
  assumes "uncancelled ctx"
    and "\<forall>(n, rm) \<in> set tmp. \<exists>s ch. node_snapshot cp sc n rm = Inr (s, ch) \<and> (ch \<longrightarrow> cp_Consistent cp s = None)"
  shows "\<exists>p'. for_each (stage_node ctx cp sc) tmp p = Inr p' \<and> b_errs (p_build p') = b_errs (p_build p)"
  using assms(2)
proof (induction tmp arbitrary: p)
  case (Cons x tmp)
  obtain n rm where x: "x = (n, rm)" by (cases x)
  from Cons.prems obtain s ch where s: "node_snapshot cp sc n rm = Inr (s, ch)" "ch \<longrightarrow> cp_Consistent cp s = None"
    by (auto simp: x)
  then have "\<exists>p1. stage_node ctx cp sc x p = Inr p1 \<and> b_errs (p_build p1) = b_errs (p_build p)"
    by (cases ch) (simp_all add: stage_node_def x poll_uncancelled [OF assms(1)] Let_def)
  then obtain p1 where p1: "stage_node ctx cp sc x p = Inr p1" "b_errs (p_build p1) = b_errs (p_build p)" by blast
  from Cons.IH [of p1] Cons.prems have "\<exists>p'. for_each (stage_node ctx cp sc) tmp p1 = Inr p' \<and> b_errs (p_build p') = b_errs (p_build p1)"
    by simp
  with p1 show ?case by auto
qed simp

lemma plan_progress:
  assumes "uncancelled ctx" "distinct (map nd (all_claims bld store (known_nodes (own_mixer bld store))))"
    and "\<forall>vs \<in> set (all_vs store). GetNodeIDs vs \<noteq> [] \<and> is_ok (bld vs store)"
    and "Mix lib (all_mixer bld store) store = Inr tmp"
    and "\<forall>(n, rm) \<in> set tmp. \<exists>s ch. node_snapshot cp sc n rm = Inr (s, ch) \<and> (ch \<longrightarrow> cp_Consistent cp s = None)"
  shows "\<exists>p. make_plan ctx idx cp lib bld sc store = Inr p"
proof -
  from collect_progress [OF assms(1,2)] obtain b where b: "collect ctx idx bld store (new_build\<lparr>b_polls := 1\<rparr>) = Inr b" by blast
  have "build_errs bld store vs = []" "(case bld vs store of Inl err \<Rightarrow> [err] | Inr _ \<Rightarrow> []) = []" if "vs \<in> set (all_vs store)" for vs
    using assms(3) that by (auto simp: build_errs_def is_ok_iff dest!: bspec)
  note ok = this
  have errs: "b_errs b = []"
    unfolding collect_effect(5) [OF b] append_is_Nil_conv concat_eq_Nil_conv set_map set_filter
    using ok unfolding set_map by blast
  let ?p = "\<lparr>p_build = b\<lparr>b_polls := Suc (b_polls b)\<rparr>, p_staged = [], p_nodeIDsForCleanup = GetNodeIDsAsMap sc\<rparr>"
  from stage_progress [OF assms(1,5), of ?p] obtain p1
    where p1: "for_each (stage_node ctx cp sc) tmp ?p = Inr p1" "b_errs (p_build p1) = []" by (auto simp: errs)
  have "ctx 0 = None" using assms(1) by (simp add: uncancelled_def)
  with b p1 assms(4) collect_mixer [OF b] show ?thesis
    by (simp add: make_plan_def poll_uncancelled [OF assms(1)] multierr_Combine_def)
qed

text \<open>The wrapped cache reports no error of its own, such as a watch that cannot be answered.\<close>

definition cp_sets :: "'c cplib \<Rightarrow> bool" where
  "cp_sets cp \<longleftrightarrow> (\<forall>c n s. fst (cp_SetSnapshot cp c n s) = None)"

lemma SetSnapshot_err: "cp_sets cp \<Longrightarrow> fst (SetSnapshot cp c n s) = None \<longleftrightarrow> validateCache s = None"
  unfolding cp_sets_def
  by (cases "cp_SetSnapshot cp (sc_cache c) n s")
     (simp add: SetSnapshot_def Let_def split: option.split, metis fst_conv)

lemma commit_no_errs:
  assumes "cp_sets cp" "\<forall>(n, s) \<in> set xs. validateCache s = None"
  shows "fst (commit cp xs es c) = es"
  using assms
proof (induction cp xs es c rule: commit.induct)
  case (2 cp n s rest errs c)
  obtain e c1 where set1: "SetSnapshot cp c n s = (e, c1)" by fastforce
  from SetSnapshot_err [OF 2(3), of c n s] 2(4) set1 have "e = None" by simp
  with 2 set1 show ?case by simp
qed simp

lemma validate_empty [simp]: "validateCache empty_snapshot = None"
  by (simp add: validateCache_None listeners_of_def empty_snapshot_def [symmetric])
     (simp add: empty_snapshot_def GetResources_def zero_group_def)

lemma cleanup_valid: "\<forall>(n, s) \<in> set (map (\<lambda>(n, _). (n, empty_snapshot)) xs). validateCache s = None"
  by auto

lemma build_progress:
  assumes "cp_sets cp" "make_plan ctx idx cp lib bld sc store = Inr p"
    and "\<forall>(n, s) \<in> set (p_staged p). validateCache s = None"
  shows "bt_err (buildSnapshots ctx idx cp lib bld sc store) = None"
proof -
  obtain es c where c: "commit cp (p_staged p) [] sc = (es, c)" by fastforce
  then have "es = []" using commit_no_errs [OF assms(1,3), of "[]" sc] by simp
  obtain es' c' where c': "commit cp (map (\<lambda>(n, _). (n, empty_snapshot)) (p_nodeIDsForCleanup p)) es c = (es', c')" by fastforce
  then have "es' = []" using commit_no_errs [OF assms(1) cleanup_valid, of "p_nodeIDsForCleanup p" es c] \<open>es = []\<close> by simp
  then show ?thesis by (simp add: buildSnapshots_def assms(2) c c' Let_def)
qed

section \<open>Success\<close>

text \<open>The staged snapshot of a node is valid when the listeners mixed for it bind different addresses.\<close>

definition addresses_ok :: "resmap \<Rightarrow> bool" where
  "addresses_ok rm \<longleftrightarrow> (\<forall>rs. map_of rm ListenerType = Some rs \<longrightarrow>
     (\<forall>l \<in> set rs. \<forall>l' \<in> set rs. \<forall>x y. l = ResL x \<and> l' = ResL y \<and> socket_address x = socket_address y \<longrightarrow> l = l'))"

lemma groups_valid:
  assumes "cplib_ok cp" "rm_ok rm" "addresses_ok rm"
  shows "validateCache (groups cp ver rm) = None"
proof -
  let ?s = "groups cp ver rm"
  have "distinct (map socket_address (listeners_of ?s))"
  proof (cases "map_of rm ListenerType")
    case None
    then show ?thesis by (simp add: listeners_of_def GetResources_def groups_def zero_group_def)
  next
    case (Some rs)
    let ?m = "GetResources ?s ListenerType"
    have m: "?m = rg_Items (cp_NewResources cp (ver ListenerType) rs)" by (simp add: GetResources_def groups_def Some)
    have wf: "gm_wf ?m" and nm: "\<And>n r. (n, r) \<in> set ?m \<Longrightarrow> n = resource_name r \<and> r \<in> set rs"
      using cplib_ok_simps(7,8) [OF assms(1), of "ver ListenerType" rs]
      unfolding m by (auto simp: gm_mem_iff dest: by_name_Some)
    have "distinct (map socket_address [l. (_, ResL l) \<leftarrow> xs])"
      if "distinct (map fst xs)" "set xs \<subseteq> set ?m" for xs
      using that
    proof (induction xs)
      case (Cons p xs)
      obtain n r where p: "p = (n, r)" by (cases p)
      have ih: "distinct (map socket_address [l. (_, ResL l) \<leftarrow> xs])" using Cons by auto
      show ?case
      proof (cases r)
        case (ResL l)
        have "socket_address l \<notin> socket_address ` set [l. (_, ResL l) \<leftarrow> xs]"
        proof
          assume "socket_address l \<in> socket_address ` set [l. (_, ResL l) \<leftarrow> xs]"
          then obtain l' where l': "l' \<in> set [l. (_, ResL l) \<leftarrow> xs]" "socket_address l = socket_address l'" by blast
          from l'(1) obtain n' where n': "(n', ResL l') \<in> set xs" by (induction xs) (auto split: prod.splits Resource.splits)
          have "ResL l \<in> set rs" "ResL l' \<in> set rs" "n = resource_name (ResL l)" "n' = resource_name (ResL l')"
            using nm [of n "ResL l"] nm [of n' "ResL l'"] n' Cons.prems(2) by (auto simp: p ResL)
          with assms(3) Some l'(2) have "ResL l = ResL l'" by (auto simp: addresses_ok_def)
          with \<open>n = _\<close> \<open>n' = _\<close> have "n = n'" by simp
          moreover have "n \<notin> fst ` set xs" using Cons.prems(1) by (simp add: p)
          ultimately show False using n' by force
        qed
        with ih show ?thesis by (simp add: p ResL)
      qed (use ih in \<open>simp_all add: p\<close>)
    qed simp
    from this [of ?m] wf show ?thesis by (simp add: listeners_of_def gm_wf_def)
  qed
  then show ?thesis using validateCache_None [OF groups_ok(1) [OF assms(1,2)]] by simp
qed


section \<open>Rebuilding an unchanged configuration\<close>


section \<open>Failure\<close>

lemma commit_get:
  assumes "cplib_ok cp" "cp_sets cp" "distinct (map fst xs)" "(n, s) \<in> set xs"
  shows "GetSnapshot cp (snd (commit cp xs es c)) n =
    (if validateCache s = None then Inr s else GetSnapshot cp c n)"
  using assms(3,4)
proof (induction xs arbitrary: es c)
  case (Cons x xs)
  obtain m t where x: "x = (m, t)" by (cases x)
  obtain e c1 where set1: "SetSnapshot cp c m t = (e, c1)" by fastforce
  have step: "snd (commit cp (x # xs) es c) = snd (commit cp xs (case e of None \<Rightarrow> es | Some err \<Rightarrow> es @ [err]) c1)"
    by (simp add: x set1 split: option.split)
  show ?case
  proof (cases "(n, s) = (m, t)")
    case True
    then have "n \<notin> fst ` set xs" using Cons.prems(1) by (simp add: x)
    then have "GetSnapshot cp (snd (commit cp (x # xs) es c)) n = GetSnapshot cp c1 n"
      unfolding step by (rule commit_other [OF assms(1)])
    moreover have "GetSnapshot cp c1 n = (if validateCache s = None then Inr s else GetSnapshot cp c n)"
      using SetSnapshot_err [OF assms(2), of c n s] SetSnapshot_stored [OF assms(1), of c n s c1] True set1
      by (auto simp: SetSnapshot_invalid GetSnapshot_def)
    ultimately show ?thesis by simp
  next
    case False
    with Cons.prems have n: "(n, s) \<in> set xs" "n \<noteq> m" "distinct (map fst xs)" by (force simp: x)+
    then have "GetSnapshot cp c1 n = GetSnapshot cp c n"
      using SetSnapshot_other [OF assms(1), of n m c t] set1 by simp
    with Cons.IH [OF n(3,1)] show ?thesis unfolding step by simp
  qed
qed simp

lemma commit_errs:
  assumes "cp_sets cp" "(n, s) \<in> set xs" "validateCache s \<noteq> None"
  shows "fst (commit cp xs es c) \<noteq> []"
  using assms(2)
proof (induction xs arbitrary: es c)
  case (Cons x xs)
  obtain m t where x: "x = (m, t)" by (cases x)
  obtain e c1 where set1: "SetSnapshot cp c m t = (e, c1)" by fastforce
  show ?case
  proof (cases e)
    case None
    then have "validateCache t = None" using SetSnapshot_err [OF assms(1), of c m t] set1 by simp
    with Cons assms(3) None set1 show ?thesis by (auto simp: x)
  next
    case (Some err)
    have "prefix (es @ [err]) (fst (commit cp xs (es @ [err]) c1))" by (rule commit_errs_mono)
    with Some set1 show ?thesis by (auto simp: x prefix_def)
  qed
qed simp

lemma staged_wf: "make_plan ctx idx cp lib bld sc store = Inr p \<Longrightarrow> gm_wf (p_staged p)"
proof -
  assume "make_plan ctx idx cp lib bld sc store = Inr p"
  then obtain b tmp p1 where b: "collect ctx idx bld store (new_build\<lparr>b_polls := 1\<rparr>) = Inr b" "b_errs b = []"
    and tmp: "Mix lib (b_mixer b) store = Inr tmp"
    and st: "for_each (stage_node ctx cp sc) tmp \<lparr>p_build = b\<lparr>b_polls := Suc (b_polls b)\<rparr>, p_staged = [],
        p_nodeIDsForCleanup = GetNodeIDsAsMap sc\<rparr> = Inr p1" "b_errs (p_build p1) = []"
    and p1: "p_staged p = p_staged p1" by (rule make_plan_Inr)
  have "resmaps_ok tmp" using Mix_ok all_mixer_ok tmp collect_mixer [OF b(1)] by metis
  then show ?thesis using stage_all [OF st(1)] st(2) b(2) by (simp add: p1 resmaps_ok_def)
qed

lemma cleanup_disjoint:
  assumes "make_plan ctx idx cp lib bld sc store = Inr p" "sc_wf sc" "map_of (p_staged p) n = Some s"
  shows "\<not> gm_has (p_nodeIDsForCleanup p) n"
proof -
  from assms(1) obtain b tmp p1 where b: "collect ctx idx bld store (new_build\<lparr>b_polls := 1\<rparr>) = Inr b" "b_errs b = []"
    and tmp: "Mix lib (b_mixer b) store = Inr tmp"
    and st: "for_each (stage_node ctx cp sc) tmp \<lparr>p_build = b\<lparr>b_polls := Suc (b_polls b)\<rparr>, p_staged = [],
        p_nodeIDsForCleanup = GetNodeIDsAsMap sc\<rparr> = Inr p1" "b_errs (p_build p1) = []"
    and p1: "p_staged p = p_staged p1" "p_nodeIDsForCleanup p = p_nodeIDsForCleanup p1" by (rule make_plan_Inr)
  have "resmaps_ok tmp" using Mix_ok all_mixer_ok tmp collect_mixer [OF b(1)] by metis
  then show ?thesis using stage_all [OF st(1), of n] st(2) b(2) assms(3)
    by (auto simp: p1 resmaps_ok_def split: option.splits)
qed


text \<open>
  C21: the commit is not atomic. When one staged snapshot is fine and another has two listeners on
  one address, the build fails, yet the first node already has its new snapshot; the second
  keeps the old one.
\<close>

theorem commit_not_atomic:
  assumes "cplib_ok cp" "cp_sets cp" "sc_wf sc" "make_plan ctx idx cp lib bld sc store = Inr p"
    and "map_of (p_staged p) n = Some s" "distinct (map socket_address (listeners_of s))"
    and "map_of (p_staged p) m = Some s'" "\<not> distinct (map socket_address (listeners_of s'))"
  shows "let r = buildSnapshots ctx idx cp lib bld sc store in
    bt_err r \<noteq> None \<and> GetSnapshot cp (bt_cache r) n = Inr s \<and> GetSnapshot cp (bt_cache r) m = GetSnapshot cp sc m"
proof -
  let ?cl = "map (\<lambda>(n, _). (n, empty_snapshot)) (p_nodeIDsForCleanup p)"
  note wf = staged_wf [OF assms(4)]
  have mem: "(n, s) \<in> set (p_staged p)" "(m, s') \<in> set (p_staged p)"
    using assms(5,7) wf by (simp_all add: gm_mem_iff)
  have val: "validateCache s = None" "validateCache s' \<noteq> None"
    using validateCache_None plan_staged_ok [OF assms(1,4)] mem assms(6,8) by blast+
  obtain es c where c: "commit cp (p_staged p) [] sc = (es, c)" by fastforce
  obtain es' c' where c': "commit cp ?cl es c = (es', c')" by fastforce
  have r: "buildSnapshots ctx idx cp lib bld sc store =
      \<lparr>bt_err = multierr_Combine es', bt_usedSecrets = Some (b_usedSecrets (p_build p)),
       bt_vsStatuses = b_vsStatuses (p_build p), bt_cache = c',
       bt_store = (if es' = [] \<and> idx then ReplaceNodeDomainsIndex store (complete_index p) else store)\<rparr>"
    by (simp add: buildSnapshots_def assms(4) c c' Let_def)
  have "es \<noteq> []" using commit_errs [OF assms(2) mem(2) val(2), of "[]" sc] c by simp
  moreover have "prefix es es'" using commit_errs_mono [of es cp ?cl c] c' by simp
  ultimately have "es' \<noteq> []" by auto
  then obtain e where "multierr_Combine es' = Some e" by (cases "multierr_Combine es'") (auto simp del: multierr_None, simp)
  have other: "GetSnapshot cp c' k = GetSnapshot cp c k" if "map_of (p_staged p) k = Some t" for k t
  proof -
    have "k \<notin> fst ` set ?cl"
      using cleanup_disjoint [OF assms(4,3) that] by (simp add: gm_has_iff image_image case_prod_beta)
    then show ?thesis using commit_other [OF assms(1), of k ?cl es c] c' by simp
  qed
  have got: "GetSnapshot cp c n = Inr s" "GetSnapshot cp c m = GetSnapshot cp sc m"
    using commit_get [OF assms(1,2) _ mem(1), of "[]" sc] commit_get [OF assms(1,2) _ mem(2), of "[]" sc] wf c val
    by (simp_all add: gm_wf_def)
  with other [OF assms(5)] other [OF assms(7)] \<open>multierr_Combine es' = Some e\<close> show ?thesis by (simp add: r)
qed

end
