(* ===== verification/LightSpec.thy ===== *)
theory LightSpec
  imports Light BuildLive StoreSpec
begin

text \<open>
  What the light validation guarantees. The store's domain index after a build holds the domains
  served on each node, so a candidate that passes collides with nothing that is served.
\<close>

section \<open>The domain index\<close>

abbreviation index_wf :: "build \<Rightarrow> bool" where
  "index_wf b \<equiv> node_domains_wf (b_nodeDomainsIndex b)"

lemma add_domain_index_wf: "add_domain ctx idx n d b = Inr b' \<Longrightarrow> index_wf b \<Longrightarrow> index_wf b'"
  by (auto simp: add_domain_def exits poll_Inr Let_def node_domains_wf_def gm_get_def
      split: if_splits option.splits)

lemma add_domains_index_wf: "for_each (add_domain ctx idx n) ds b = Inr b' \<Longrightarrow> index_wf b \<Longrightarrow> index_wf b'"
  by (erule for_each_inv) (auto intro: add_domain_index_wf)

lemma add_node_index_wf: "add_node ctx idx res n b = Inr b' \<Longrightarrow> index_wf b \<Longrightarrow> index_wf b'"
  by (auto simp: add_node_def exits poll_Inr dest!: add_domains_index_wf)

lemma add_nodes_index_wf: "for_each (add_node ctx idx res) ns b = Inr b' \<Longrightarrow> index_wf b \<Longrightarrow> index_wf b'"
  by (erule for_each_inv) (auto intro: add_node_index_wf)

lemma process_vs_index_wf: "process_vs ctx idx bld store vs b = Inr b' \<Longrightarrow> index_wf b \<Longrightarrow> index_wf b'"
  by (auto simp: process_vs_def exits poll_Inr Let_def set_status_def add_err_def use_secrets_def
      split: if_splits sum.splits dest!: add_nodes_index_wf)

lemma process_common_index_wf: "process_common ctx idx bld store vs b = Inr b' \<Longrightarrow> index_wf b \<Longrightarrow> index_wf b'"
  by (auto simp: process_common_def exits poll_Inr add_err_def use_secrets_def
      split: sum.splits dest!: add_nodes_index_wf)

lemma collect_index_wf:
  assumes "collect ctx idx bld store b = Inr b'" "index_wf b"
  shows "index_wf b'"
proof -
  from assms(1) obtain b1 where b1: "for_each (process_vs ctx idx bld store) (all_vs store) b = Inr b1"
    and b': "for_each (process_common ctx idx bld store) (b_common b1) b1 = Inr b'"
    by (auto simp: collect_def exits)
  from b1 assms(2) have "index_wf b1" by (rule for_each_inv) (rule process_vs_index_wf)
  with b' show ?thesis by (rule for_each_inv) (rule process_common_index_wf)
qed

lemma complete_fold:
  assumes "node_domains_wf m"
  shows "node_domains_wf (fold (\<lambda>n idx. if gm_has idx n then idx else gm_put n [] idx) ns m)"
    "gm_get [] (fold (\<lambda>n idx. if gm_has idx n then idx else gm_put n [] idx) ns m) k = gm_get [] m k"
    "gm_has (fold (\<lambda>n idx. if gm_has idx n then idx else gm_put n [] idx) ns m) k \<longleftrightarrow> gm_has m k \<or> k \<in> set ns"
proof -
  define F where "F = (\<lambda>(n :: string) idx. if gm_has idx n then idx else gm_put n ([] :: strset) idx)"
  have "node_domains_wf (fold F ns m) \<and> gm_get [] (fold F ns m) k = gm_get [] m k \<and>
      (gm_has (fold F ns m) k \<longleftrightarrow> gm_has m k \<or> k \<in> set ns)"
    using assms
  proof (induction ns arbitrary: m)
    case (Cons n ns)
    have "node_domains_wf (F n m)" "gm_get [] (F n m) k = gm_get [] m k"
      "gm_has (F n m) k \<longleftrightarrow> gm_has m k \<or> k = n"
      using Cons.prems by (auto simp: F_def node_domains_wf_def gm_get_def gm_has_def split: option.splits)
    with Cons.IH [of "F n m"] show ?case by auto
  qed simp
  then show "node_domains_wf (fold (\<lambda>n idx. if gm_has idx n then idx else gm_put n [] idx) ns m)"
    "gm_get [] (fold (\<lambda>n idx. if gm_has idx n then idx else gm_put n [] idx) ns m) k = gm_get [] m k"
    "gm_has (fold (\<lambda>n idx. if gm_has idx n then idx else gm_put n [] idx) ns m) k \<longleftrightarrow> gm_has m k \<or> k \<in> set ns"
    unfolding F_def by blast+
qed

lemma copy_nested_get:
  assumes "node_domains_wf m"
  shows "gm_has (gm_get [] (copy_nested m) n) d \<longleftrightarrow> gm_has (gm_get [] m n) d"
    "gm_has (copy_nested m) n \<longleftrightarrow> gm_has m n"
proof -
  have wf: "gm_wf m" "map_of m n = Some i \<Longrightarrow> gm_wf i" for i
    using assms by (auto simp: node_domains_wf_def)
  show "gm_has (gm_get [] (copy_nested m) n) d \<longleftrightarrow> gm_has (gm_get [] m n) d"
    using wf(2) by (cases "map_of m n") (simp_all add: gm_get_def copy_nested_lookup [OF wf(1)] gm_has_def gm_copy_empty)
  show "gm_has (copy_nested m) n \<longleftrightarrow> gm_has m n"
    by (simp add: gm_has_def copy_nested_lookup [OF wf(1)])
qed

text \<open>The domains that are served on a node.\<close>

definition served_domain :: "builder \<Rightarrow> OptimizedStore \<Rightarrow> string \<Rightarrow> string \<Rightarrow> bool" where
  "served_domain bld store n d \<longleftrightarrow>
     (\<exists>nn vs res. GetVirtualService store nn = Some vs \<and> bld vs store = Inr res \<and>
        n \<in> served_on bld store vs \<and> d \<in> set (r_Domains res))"

lemma ex_stored:
  assumes "store_inv lib x509 s"
  shows "(\<exists>vs \<in> set (all_vs s). P vs) \<longleftrightarrow> (\<exists>nn vs. GetVirtualService s nn = Some vs \<and> P vs)"
proof (intro iffI; elim bexE exE conjE)
  fix vs assume "vs \<in> set (all_vs s)" "P vs"
  then show "\<exists>nn vs. GetVirtualService s nn = Some vs \<and> P vs"
    unfolding all_vs_props(2) [OF assms] by (intro exI conjI)
next
  fix nn vs assume "GetVirtualService s nn = Some vs" "P vs"
  then show "\<exists>vs \<in> set (all_vs s). P vs" by (intro bexI [of _ vs] stored_vs(1) [OF assms])
qed

lemma claims_on_iff:
  "(n, d) \<in> set (claims_on bld store xs vs) \<longleftrightarrow>
     (\<exists>res. bld vs store = Inr res \<and> n \<in> set xs \<and> d \<in> set (r_Domains res))"
  by (cases "bld vs store") (simp_all add: claims_on_def set_claims)

lemma set_concat_map: "x \<in> set (concat (map f xs)) \<longleftrightarrow> (\<exists>y \<in> set xs. x \<in> set (f y))"
  by auto

lemma all_claims_served:
  assumes inv: "store_inv lib x509 store" and ns: "set ns = active_nodes bld store"
  shows "(n, d) \<in> set (all_claims bld store ns) \<longleftrightarrow> served_domain bld store n d"
proof -
  let ?on = "\<lambda>vs xs. \<exists>res. bld vs store = Inr res \<and> n \<in> xs \<and> d \<in> set (r_Domains res)"
  have own: "?on vs (set (own_nodes vs)) \<or> is_common vs \<and> ?on vs (active_nodes bld store) \<longleftrightarrow>
      ?on vs (served_on bld store vs)" for vs
    by (cases "is_common vs") (simp_all add: own_nodes_def is_common_def served_on_def)
  have "(n, d) \<in> set (all_claims bld store ns) \<longleftrightarrow>
      (\<exists>vs \<in> set (all_vs store). ?on vs (set (own_nodes vs))) \<or>
      (\<exists>vs \<in> set (filter is_common (all_vs store)). ?on vs (active_nodes bld store))"
    unfolding all_claims_def set_append Un_iff set_concat_map claims_on_iff ns ..
  also have "\<dots> \<longleftrightarrow> (\<exists>vs \<in> set (all_vs store). ?on vs (served_on bld store vs))"
    unfolding own [symmetric] set_filter by blast
  also have "\<dots> \<longleftrightarrow> served_domain bld store n d"
    unfolding served_domain_def ex_stored [OF inv] by blast
  finally show ?thesis .
qed

lemma index_after_build:
  assumes "store_inv lib x509 store" "bt_err (buildSnapshots ctx True cp lib bld sc store) = None"
  shows "gm_has (gm_get [] (nodeDomains (bt_store (buildSnapshots ctx True cp lib bld sc store))) n) d \<longleftrightarrow>
      served_domain bld store n d"
proof -
  from assms(2) obtain p where p: "make_plan ctx True cp lib bld sc store = Inr p"
    and st: "bt_store (buildSnapshots ctx True cp lib bld sc store) =
       ReplaceNodeDomainsIndex store (complete_index p)"
    by (rule buildSnapshots_ok) simp
  from p obtain b where b: "collect ctx True bld store (new_build\<lparr>b_polls := 1\<rparr>) = Inr b"
    and ix: "b_nodeDomainsIndex (p_build p) = b_nodeDomainsIndex b" by (rule make_plan_Inr)
  have wf: "index_wf b"
    by (rule collect_index_wf [OF b]) (simp add: new_build_def node_domains_wf_def)
  have "gm_has (gm_get [] (copy_nested (complete_index p)) n) d \<longleftrightarrow> (n, d) \<in> indexed b"
    unfolding complete_index_def ix copy_nested_get(1) [OF complete_fold(1) [OF wf]] complete_fold(2) [OF wf]
    by (simp add: indexed_def)
  also have "\<dots> \<longleftrightarrow> served_domain bld store n d"
    using collect_effect(3) [OF b] all_claims_served [OF assms(1) collect_effect(4) [OF b]] by simp
  finally show ?thesis unfolding st by (simp add: ReplaceNodeDomainsIndex_def)
qed

section \<open>Listener addresses\<close>

text \<open>The address of a stored listener, where it has a usable one.\<close>

definition listener_address :: "protolib \<Rightarrow> OptimizedStore \<Rightarrow> NamespacedName \<Rightarrow> string option" where
  "listener_address lib s l =
     (case map_of (MapListeners s) l of
        None \<Rightarrow> None
      | Some x \<Rightarrow>
          (case Listener_UnmarshalV3 lib x of
             Inl _ \<Rightarrow> None
           | Inr lv3 \<Rightarrow> map_option (\<lambda>_. hostPort lv3) (Option.bind (lv3_Address lv3) addr_SocketAddress)))"

text \<open>A virtual service on the node names the listener, taken to be in its own namespace.\<close>

definition vs_listener :: "VirtualService \<Rightarrow> NamespacedName option" where
  "vs_listener vs =
     (case c_Listener (vs_common vs) of
        None \<Rightarrow> None
      | Some ref \<Rightarrow> if ref_Name ref = [] then None else Some (NN (m_Namespace (vs_meta vs)) (ref_Name ref)))"

definition uses_listener :: "OptimizedStore \<Rightarrow> 'c SnapshotCache \<Rightarrow> string \<Rightarrow> NamespacedName \<Rightarrow> bool" where
  "uses_listener s sc n l \<longleftrightarrow>
     (\<exists>nn vs. GetVirtualService s nn = Some vs \<and> vs_listener vs = Some l \<and>
        n \<in> set (resolveTargetNodeIDs (GetNodeIDs vs) sc))"

lemma add_missing_set [simp]: "set (add_missing ns xs) = set xs \<union> set ns"
  by (induction ns arbitrary: xs) (auto simp: add_missing_def)

lemma add_missing_distinct: "distinct xs \<Longrightarrow> distinct (add_missing ns xs)"
  by (induction ns arbitrary: xs) (auto simp: add_missing_def)

definition map_listener :: "'c SnapshotCache \<Rightarrow> VirtualService \<Rightarrow> (NamespacedName, string list) gomap
    \<Rightarrow> (NamespacedName, string list) gomap" where
  "map_listener sc vs m =
     (if GetNodeIDs vs = [] then m
      else case vs_listener vs of
             None \<Rightarrow> m
           | Some l \<Rightarrow> gm_put l (add_missing (resolveTargetNodeIDs (GetNodeIDs vs) sc) (gm_get [] m l)) m)"

lemma mapping_fold:
  "buildListenerToNodeIDsMapping s sc = fold (map_listener sc) (all_vs s) []"
  unfolding buildListenerToNodeIDsMapping_def fold_map
  by (rule fold_cong) (auto simp: fun_eq_iff map_listener_def vs_listener_def Let_def split: option.split)

lemma no_nodes [simp]: "resolveTargetNodeIDs [] sc = []"
  by (simp add: resolveTargetNodeIDs_def isCommonVirtualService_def)

lemma map_listener_step:
  "gm_wf m \<Longrightarrow> gm_wf (map_listener sc vs m)"
  "\<forall>l. distinct (gm_get [] m l) \<Longrightarrow> distinct (gm_get [] (map_listener sc vs m) l)"
  "n \<in> set (gm_get [] (map_listener sc vs m) l) \<longleftrightarrow>
     n \<in> set (gm_get [] m l) \<or> vs_listener vs = Some l \<and> n \<in> set (resolveTargetNodeIDs (GetNodeIDs vs) sc)"
  by (auto simp: map_listener_def add_missing_distinct split: option.split)

lemma mapping_props:
  "gm_wf (buildListenerToNodeIDsMapping s sc)"
  "distinct (gm_get [] (buildListenerToNodeIDsMapping s sc) l)"
  "n \<in> set (gm_get [] (buildListenerToNodeIDsMapping s sc) l) \<longleftrightarrow>
     (\<exists>vs \<in> set (all_vs s). vs_listener vs = Some l \<and> n \<in> set (resolveTargetNodeIDs (GetNodeIDs vs) sc))"
proof -
  have "gm_wf (fold (map_listener sc) vss m) \<and> (\<forall>l. distinct (gm_get [] (fold (map_listener sc) vss m) l)) \<and>
      (n \<in> set (gm_get [] (fold (map_listener sc) vss m) l) \<longleftrightarrow> n \<in> set (gm_get [] m l) \<or>
         (\<exists>vs \<in> set vss. vs_listener vs = Some l \<and> n \<in> set (resolveTargetNodeIDs (GetNodeIDs vs) sc)))"
    if "gm_wf m" "\<forall>l. distinct (gm_get [] m l)" for vss m
    using that
  proof (induction vss arbitrary: m)
    case (Cons vs vss)
    have "gm_wf (map_listener sc vs m)" "\<forall>l. distinct (gm_get [] (map_listener sc vs m) l)"
      using Cons.prems map_listener_step by blast+
    from Cons.IH [OF this] show ?case unfolding map_listener_step(3) fold_simps set_simps by blast
  qed simp
  from this [of "[]" "all_vs s"] show "gm_wf (buildListenerToNodeIDsMapping s sc)"
    "distinct (gm_get [] (buildListenerToNodeIDsMapping s sc) l)"
    "n \<in> set (gm_get [] (buildListenerToNodeIDsMapping s sc) l) \<longleftrightarrow>
       (\<exists>vs \<in> set (all_vs s). vs_listener vs = Some l \<and> n \<in> set (resolveTargetNodeIDs (GetNodeIDs vs) sc))"
    unfolding mapping_fold by (simp_all only: gm_get_simps gm_wf_Nil distinct.simps list.set empty_iff simp_thms)
qed

definition add_group :: "NamespacedName \<Rightarrow> string list \<Rightarrow> (string, NamespacedName list) gomap
    \<Rightarrow> (string, NamespacedName list) gomap" where
  "add_group l ns = fold (\<lambda>n m. gm_put n (gm_get [] m n @ [l]) m) ns"

lemma add_group_step:
  "gm_wf m \<Longrightarrow> gm_wf (add_group l ns m)"
  "distinct ns \<Longrightarrow> gm_get [] (add_group l ns m) n = gm_get [] m n @ (if n \<in> set ns then [l] else [])"
  unfolding add_group_def by (induction ns arbitrary: m) auto

lemma group_props:
  assumes "\<forall>(l, ns) \<in> set m. distinct ns"
  shows "gm_wf (group_by_node m)"
    "gm_get [] (group_by_node m) n = map fst (filter (\<lambda>(_, ns). n \<in> set ns) m)"
proof -
  have g: "group_by_node m = fold (\<lambda>(l, ns). add_group l ns) m []"
    by (simp add: group_by_node_def add_group_def)
  have "gm_wf (fold (\<lambda>(l, ns). add_group l ns) m g) \<and>
      gm_get [] (fold (\<lambda>(l, ns). add_group l ns) m g) n = gm_get [] g n @ map fst (filter (\<lambda>(_, ns). n \<in> set ns) m)"
    if "gm_wf g" for g
    using that assms by (induction m arbitrary: g) (auto simp: add_group_step)
  from this [of "[]"] show "gm_wf (group_by_node m)"
    "gm_get [] (group_by_node m) n = map fst (filter (\<lambda>(_, ns). n \<in> set ns) m)"
    unfolding g by simp_all
qed

lemma claim_address_Inr: "claim_address n l hp m = Inr m' \<longleftrightarrow> \<not> gm_has m hp \<and> m' = gm_put hp l m"
  by (auto simp: claim_address_def gm_has_def split: option.split)

lemma thorough_Inr:
  "thorough_listener lib s n l m = Inr m' \<longleftrightarrow>
     (\<exists>hp. listener_address lib s l = Some hp \<and> \<not> gm_has m hp \<and> m' = gm_put hp l m)"
  by (auto simp: thorough_listener_def listener_address_def claim_address_Inr
      split: option.split sum.split Option.bind_split)

lemma quick_Inr:
  "thorough_listener lib s n l m = Inr m' \<Longrightarrow> quick_listener lib s n l m = Inr m'"
  by (auto simp: thorough_listener_def quick_listener_def split: option.splits sum.splits)

lemma thorough_loop:
  "is_ok (for_each (thorough_listener lib s n) ls m) \<longleftrightarrow>
     (\<forall>l \<in> set ls. \<exists>hp. listener_address lib s l = Some hp \<and> \<not> gm_has m hp) \<and> distinct (map (listener_address lib s) ls)"
proof (induction ls arbitrary: m)
  case (Cons l ls)
  let ?P = "\<lambda>m k. \<exists>hp. listener_address lib s k = Some hp \<and> \<not> gm_has m hp"
  show ?case
  proof (cases "?P m l")
    case True
    then obtain hp where hp: "listener_address lib s l = Some hp" "\<not> gm_has m hp" by blast
    then have step: "thorough_listener lib s n l m = Inr (gm_put hp l m)" by (simp add: thorough_Inr)
    have P: "?P (gm_put hp l m) k \<longleftrightarrow> ?P m k \<and> listener_address lib s k \<noteq> listener_address lib s l" for k
      using hp by (auto simp: gm_has_def)
    have "is_ok (for_each (thorough_listener lib s n) (l # ls) m) \<longleftrightarrow>
        (\<forall>k \<in> set ls. ?P m k \<and> listener_address lib s k \<noteq> listener_address lib s l) \<and> distinct (map (listener_address lib s) ls)"
      unfolding for_each.simps step sum.case Cons.IH P ..
    also have "\<dots> \<longleftrightarrow> (\<forall>k \<in> set (l # ls). ?P m k) \<and> distinct (map (listener_address lib s) (l # ls))"
      unfolding list.map distinct.simps set_simps set_map using True by (metis image_iff insert_iff)
    finally show ?thesis .
  next
    case False
    then have "\<not> is_ok (for_each (thorough_listener lib s n) (l # ls) m)"
      unfolding is_ok_iff for_each_Cons thorough_Inr by blast
    moreover have "\<not> (\<forall>k \<in> set (l # ls). ?P m k)" using False by (simp only: set_simps ball_simps) blast
    ultimately show ?thesis by (simp only: simp_thms)
  qed
qed simp

lemma loop_units: "for_each (\<lambda>(x, y) u. and_then (f x y) (\<lambda>_. Inr u)) xs () = Inr () \<longleftrightarrow> (\<forall>(x, y) \<in> set xs. is_ok (f x y))"
proof (induction xs)
  case (Cons p xs)
  show ?case by (cases p; cases "f (fst p) (snd p)") (use Cons.IH in simp_all)
qed simp

lemma quick_loop:
  "for_each (thorough_listener lib s n) ls m = Inr m' \<Longrightarrow> for_each (quick_listener lib s n) ls m = Inr m'"
  by (induction ls arbitrary: m) (auto simp: for_each_Cons simp del: for_each.simps(2) dest: quick_Inr)

lemma quick_never_decides:
  "validateListenerAddressesUniquePerNodeID lib s m = Inr () \<Longrightarrow> validateListenerAddressesPerNodeID lib s m = Inr ()"
  unfolding validateListenerAddressesUniquePerNodeID_def validateListenerAddressesPerNodeID_def loop_units
  by (fastforce simp: is_ok_iff dest: quick_loop)

lemma group_loop:
  assumes "gm_wf g"
  shows "(\<forall>(n, ls) \<in> set g. is_ok (for_each (f n) ls [])) \<longleftrightarrow> (\<forall>n. is_ok (for_each (f n) (gm_get [] g n) []))"
proof -
  have "(\<forall>(n, ls) \<in> set g. is_ok (for_each (f n) ls [])) \<longleftrightarrow> (\<forall>n ls. map_of g n = Some ls \<longrightarrow> is_ok (for_each (f n) ls []))"
    unfolding gm_mem_iff [OF assms, symmetric] by blast
  also have "\<dots> \<longleftrightarrow> (\<forall>n. is_ok (for_each (f n) (gm_get [] g n) []))"
    by (auto simp: gm_get_def split: option.split)
  finally show ?thesis .
qed

lemma mapping_entries:
  assumes "(l, ns) \<in> set (buildListenerToNodeIDsMapping s sc)"
  shows "gm_get [] (buildListenerToNodeIDsMapping s sc) l = ns"
  using assms unfolding gm_mem_iff [OF mapping_props(1)] by (simp add: gm_get_def)

lemma grouped:
  assumes "store_inv lib x509 s"
  shows "set (gm_get [] (group_by_node (buildListenerToNodeIDsMapping s sc)) n) = {l. uses_listener s sc n l}"
    "distinct (gm_get [] (group_by_node (buildListenerToNodeIDsMapping s sc)) n)"
    "gm_wf (group_by_node (buildListenerToNodeIDsMapping s sc))"
proof -
  let ?m = "buildListenerToNodeIDsMapping s sc"
  have dist: "\<forall>(l, ns) \<in> set ?m. distinct ns"
  proof (intro ballI, clarify)
    fix l ns assume "(l, ns) \<in> set ?m"
    with mapping_props(2) [of s sc l] show "distinct ns" by (simp only: mapping_entries)
  qed
  note gp = group_props [OF dist]
  show "gm_wf (group_by_node ?m)" by (rule gp(1))
  have "distinct (map fst ?m)" using mapping_props(1) by (simp add: gm_wf_def)
  then show "distinct (gm_get [] (group_by_node ?m) n)" unfolding gp(2) by (rule distinct_map_filter)
  have "l \<in> set (gm_get [] (group_by_node ?m) n) \<longleftrightarrow> n \<in> set (gm_get [] ?m l)" for l
  proof -
    have "l \<in> set (gm_get [] (group_by_node ?m) n) \<longleftrightarrow> (\<exists>ns. (l, ns) \<in> set ?m \<and> n \<in> set ns)"
      unfolding gp(2) by force
    also have "\<dots> \<longleftrightarrow> n \<in> set (gm_get [] ?m l)"
      unfolding gm_mem_iff [OF mapping_props(1)] by (cases "map_of ?m l") (simp_all add: gm_get_def)
    finally show ?thesis .
  qed
  then have "l \<in> set (gm_get [] (group_by_node ?m) n) \<longleftrightarrow> uses_listener s sc n l" for l
    unfolding mapping_props(3) ex_stored [OF assms] uses_listener_def .
  then show "set (gm_get [] (group_by_node ?m) n) = {l. uses_listener s sc n l}" by blast
qed

lemma listener_addresses_ok:
  assumes "store_inv lib x509 s"
  shows "validateListenerAddresses lib s sc idx = Inr () \<longleftrightarrow>
    (\<forall>n. (\<forall>l. uses_listener s sc n l \<longrightarrow> listener_address lib s l \<noteq> None) \<and>
         inj_on (listener_address lib s) {l. uses_listener s sc n l})"
proof -
  let ?m = "buildListenerToNodeIDsMapping s sc"
  note g = grouped [OF assms, of sc]
  have "validateListenerAddresses lib s sc idx = Inr () \<longleftrightarrow> validateListenerAddressesUniquePerNodeID lib s ?m = Inr ()"
    using quick_never_decides by (auto simp: validateListenerAddresses_def Let_def exits)
  also have "\<dots> \<longleftrightarrow> (\<forall>n. is_ok (for_each (thorough_listener lib s n) (gm_get [] (group_by_node ?m) n) []))"
    unfolding validateListenerAddressesUniquePerNodeID_def loop_units group_loop [OF g(3)] ..
  also have "\<dots> \<longleftrightarrow> (\<forall>n. (\<forall>l. uses_listener s sc n l \<longrightarrow> listener_address lib s l \<noteq> None) \<and>
         inj_on (listener_address lib s) {l. uses_listener s sc n l})"
    unfolding thorough_loop distinct_map g(1) using g(2) by (auto simp: gm_has_def)
  finally show ?thesis .
qed

text \<open>
  C22: the light check of listener addresses accepts exactly when on every node each listener that a
  virtual service names there exists, decodes and has a socket address, and no two of them share an
  address; the quick check over the index, run first when indices are on, never changes the
  verdict. The listener is looked up in the namespace of the virtual service.
\<close>

theorem light_listeners_exact:
  assumes "store_inv lib x509 s"
  shows "validateListenerAddresses lib s sc idx = Inr () \<longleftrightarrow>
    (\<forall>n. (\<forall>l. uses_listener s sc n l \<longrightarrow> listener_address lib s l \<noteq> None) \<and>
         inj_on (listener_address lib s) {l. uses_listener s sc n l})"
  by (rule listener_addresses_ok [OF assms])

text \<open>
  A virtual service whose listener lives in another namespace fails the light check of every
  candidate, although the build itself resolves the reference.
\<close>

lemma foreign_listener_rejected:
  assumes "store_inv lib x509 s" "GetVirtualService s nn = Some vs"
    and "c_Listener (vs_common vs) = Some \<lparr>ref_Name = lname, ref_Namespace = Some ns\<rparr>" "lname \<noteq> []"
    and "n \<in> set (GetNodeIDs vs)" "\<not> isCommonVirtualService (GetNodeIDs vs)"
    and "map_of (MapListeners s) (NN (m_Namespace (vs_meta vs)) lname) = None"
  shows "validateListenerAddresses lib s sc idx \<noteq> Inr ()"
proof
  let ?l = "NN (m_Namespace (vs_meta vs)) lname"
  assume "validateListenerAddresses lib s sc idx = Inr ()"
  moreover have "uses_listener s sc n ?l"
    unfolding uses_listener_def using assms(2-6)
    by (intro exI [of _ nn] exI [of _ vs]) (simp add: vs_listener_def resolveTargetNodeIDs_def)
  ultimately have "listener_address lib s ?l \<noteq> None"
    unfolding listener_addresses_ok [OF assms(1)] by blast
  with assms(7) show False by (simp add: listener_address_def)
qed

section \<open>Domains of the candidate\<close>

lemma within_ok: "is_ok (validateDomainsWithinVS ds) \<longleftrightarrow> distinct ds"
proof -
  have "is_ok (for_each (\<lambda>d seen. if gm_has seen d then Inl (err d) else Inr (gm_put d () seen)) ds m) \<longleftrightarrow>
      distinct ds \<and> (\<forall>d \<in> set ds. \<not> gm_has m d)" for err :: "string \<Rightarrow> goerr" and m
    by (induction ds arbitrary: m) (auto simp: gm_has_def)
  from this [of _ "[]"] show ?thesis unfolding validateDomainsWithinVS_def by (simp add: gm_has_def)
qed

lemma unit_loop: "for_each (\<lambda>x u. if P x then Inl (err x) else Inr u) xs () = Inr () \<longleftrightarrow> (\<forall>x \<in> set xs. \<not> P x)"
  by (induction xs) auto

lemma collisions_ok:
  "checkDomainCollisions ds ns m = Inr () \<longleftrightarrow> (\<forall>n \<in> set ns. \<forall>d \<in> set ds. \<not> gm_has (gm_get [] m n) d)"
proof (induction ns)
  case (Cons n ns)
  let ?f = "\<lambda>n. for_each (\<lambda>d u. if gm_has (gm_get [] m n) d
      then Inl (Err (''duplicate domain '' @ quoted d @ '' for node '' @ n)) else Inr u) ds"
  have "checkDomainCollisions ds (n # ns) m = Inr () \<longleftrightarrow> ?f n () = Inr () \<and> checkDomainCollisions ds ns m = Inr ()"
    unfolding checkDomainCollisions_def for_each_Cons by simp
  with Cons.IH show ?case by (simp add: unit_loop)
qed (simp add: checkDomainCollisions_def)

lemma index_for_nodes:
  assumes "node_domains_wf ndx" "GetNodeDomainsForNodes_loop ndx ns found missing = (idx, mis)"
  shows "mis = missing @ filter (\<lambda>n. \<not> gm_has ndx n) ns"
    "n \<in> set ns \<Longrightarrow> gm_has ndx n \<Longrightarrow> gm_has (gm_get [] idx n) d \<longleftrightarrow> gm_has (gm_get [] ndx n) d"
proof -
  have wf: "map_of ndx n = Some i \<Longrightarrow> gm_wf i" for n i using assms(1) by (simp add: node_domains_wf_def)
  have keep: "gm_get [] idx n = gm_get [] found n" if "GetNodeDomainsForNodes_loop ndx ns found missing = (idx, mis)" "n \<notin> set ns"
    for n ns found missing using that
    by (induction ns arbitrary: found missing) (auto split: option.splits)
  show "mis = missing @ filter (\<lambda>n. \<not> gm_has ndx n) ns"
    using assms(2) by (induction ns arbitrary: found missing) (fastforce simp: gm_has_def split: option.splits)+
  show "gm_has (gm_get [] idx n) d \<longleftrightarrow> gm_has (gm_get [] ndx n) d" if n: "n \<in> set ns" and has: "gm_has ndx n"
    using assms(2) n
  proof (induction ns arbitrary: found missing)
    case (Cons k ns)
    show ?case
    proof (cases "n \<in> set ns")
      case True
      with Cons show ?thesis by (auto split: option.splits)
    next
      case False
      then have "k = n" using Cons.prems(2) by simp
      moreover obtain i where i: "map_of ndx n = Some i" using has by (auto simp: gm_has_def)
      ultimately have "GetNodeDomainsForNodes_loop ndx ns (gm_put n (gm_copy_into i []) found) missing = (idx, mis)"
        using Cons.prems(1) by simp
      from keep [OF this False] have "gm_get [] idx n = gm_copy_into i []" by simp
      then show ?thesis using gm_copy_empty [OF wf [OF i]] by (simp add: gm_has_def gm_get_def i)
    qed
  qed simp
qed

lemma SetVirtualService_nodeDomains [simp]: "nodeDomains (SetVirtualService s vs) = nodeDomains s"
  by (simp add: SetVirtualService_def updateTemplateIndex_def removeFromTemplateIndex_def intern_meta_def intern_names_def Let_def
      split: option.split prod.split)

lemma apply_statuses_fields [simp]: "nodeDomains (apply_statuses st s) = nodeDomains s"
  unfolding apply_statuses_def
  by (induction st arbitrary: s) (auto simp: SetVirtualServiceStatus_def split: prod.split)

lemma Copy_nodeDomains [simp]: "nodeDomains (Copy s) = copy_nested (nodeDomains s)"
  by (simp add: Copy_def)

lemma rebuild_index:
  assumes "store_inv (e_lib e) (e_x509 e) (cu_store c0)" "e_idx e" "rebuildSnapshots e ctx c0 = (None, c)"
  shows "gm_has (gm_get [] (nodeDomains (cu_store c)) n) d \<longleftrightarrow> served_domain (e_bld e) (cu_store c0) n d"
    "node_domains_wf (nodeDomains (cu_store c))"
proof -
  let ?r = "buildSnapshots ctx True (e_cp e) (e_lib e) (e_bld e) (cu_snapshotCache c0) (cu_store c0)"
  have ok: "bt_err ?r = None" and c: "nodeDomains (cu_store c) = nodeDomains (bt_store ?r)"
    using assms(2,3) by (auto simp: rebuildSnapshots_def Let_def split: option.splits)
  show "gm_has (gm_get [] (nodeDomains (cu_store c)) n) d \<longleftrightarrow> served_domain (e_bld e) (cu_store c0) n d"
    unfolding c by (rule index_after_build [OF assms(1) ok])
  from ok obtain p where "bt_store ?r = (if True then ReplaceNodeDomainsIndex (cu_store c0) (complete_index p) else cu_store c0)"
    by (rule buildSnapshots_ok)
  then show "node_domains_wf (nodeDomains (cu_store c))"
    unfolding c by (simp add: ReplaceNodeDomainsIndex_def copy_nested_wf)
qed

lemma index_lookup:
  assumes "node_domains_wf (nodeDomains s)"
  shows "buildExistingDomainsMap cp ctx k c ns (SetVirtualService (Copy s) vs) True = Inr m \<Longrightarrow>
      (\<forall>n \<in> set ns. gm_has (nodeDomains s) n \<and> (\<forall>d. gm_has (gm_get [] m n) d \<longleftrightarrow> gm_has (gm_get [] (nodeDomains s) n) d))"
    "is_ok (buildExistingDomainsMap cp ctx k c ns (SetVirtualService (Copy s) vs) True) \<longleftrightarrow> (\<forall>n \<in> set ns. gm_has (nodeDomains s) n)"
proof -
  obtain ix mis where l: "GetNodeDomainsForNodes_loop (copy_nested (nodeDomains s)) ns [] [] = (ix, mis)" by fastforce
  note i = index_for_nodes [OF copy_nested_wf l]
  have b: "buildExistingDomainsMap cp ctx k c ns (SetVirtualService (Copy s) vs) True =
      (if mis \<noteq> [] then Inl ErrLightValidationInsufficientCoverage else Inr ix)"
    by (simp add: buildExistingDomainsMap_def GetNodeDomainsForNodes_def l)
  have mis: "mis = [] \<longleftrightarrow> (\<forall>n \<in> set ns. gm_has (nodeDomains s) n)"
    using i(1) by (auto simp: copy_nested_get(2) [OF assms] filter_empty_conv)
  show "is_ok (buildExistingDomainsMap cp ctx k c ns (SetVirtualService (Copy s) vs) True) \<longleftrightarrow> (\<forall>n \<in> set ns. gm_has (nodeDomains s) n)"
    unfolding b mis [symmetric] by simp
  assume "buildExistingDomainsMap cp ctx k c ns (SetVirtualService (Copy s) vs) True = Inr m"
  then have "mis = []" "m = ix" unfolding b by (simp_all split: if_splits)
  then show "\<forall>n \<in> set ns. gm_has (nodeDomains s) n \<and> (\<forall>d. gm_has (gm_get [] m n) d \<longleftrightarrow> gm_has (gm_get [] (nodeDomains s) n) d)"
    using mis i(2) by (simp add: copy_nested_get [OF assms])
qed


end
