(* ===== verification/StoreFill.thy ===== *)
theory StoreFill
  imports StoreSpec
begin

text \<open>
  The initial load of the store from the Kubernetes API, \<open>FillFromKubernetes\<close>. The ten list
  calls run concurrently; the client's answers are the fields of \<open>kubeclient\<close> and the order in
  which the calls complete is an argument.
\<close>

section \<open>The concurrent load\<close>

record resourceResult =
  rr_accessLogs :: "AccessLogConfig list"
  rr_clusters :: "Cluster list"
  rr_listeners :: "Listener list"
  rr_routes :: "Route list"
  rr_vs :: "VirtualService list"
  rr_vst :: "VirtualServiceTemplate list"
  rr_httpFilters :: "HttpFilter list"
  rr_policies :: "Policy list"
  rr_tracings :: "Tracing list"
  rr_secrets :: "Secret list"

definition empty_result :: resourceResult where
  "empty_result = \<lparr>rr_accessLogs = [], rr_clusters = [], rr_listeners = [], rr_routes = [],
     rr_vs = [], rr_vst = [], rr_httpFilters = [], rr_policies = [], rr_tracings = [],
     rr_secrets = []\<rparr>"

text \<open>What each list call returns. Secrets are listed by the label \<open>sds-cached\<close>.\<close>

record kubeclient =
  List_vs :: "VirtualService list res"
  List_listeners :: "Listener list res"
  List_clusters :: "Cluster list res"
  List_accessLogs :: "AccessLogConfig list res"
  List_routes :: "Route list res"
  List_vst :: "VirtualServiceTemplate list res"
  List_httpFilters :: "HttpFilter list res"
  List_policies :: "Policy list res"
  List_tracings :: "Tracing list res"
  List_secrets :: "Secret list res"

datatype loader =
  L_vs | L_listeners | L_clusters | L_accessLogs | L_routes | L_vst | L_httpFilters
  | L_policies | L_tracings | L_secrets

definition loaders :: "loader list" where
  "loaders = [L_vs, L_listeners, L_clusters, L_accessLogs, L_routes, L_vst, L_httpFilters,
     L_policies, L_tracings, L_secrets]"

definition loading :: "string \<Rightarrow> 'a list res \<Rightarrow> ('a list \<Rightarrow> resourceResult) \<Rightarrow> resourceResult res" where
  "loading what r upd =
     (case r of
        Inl e \<Rightarrow> Inl (Wrap (''loading '' @ what) e)
      | Inr items \<Rightarrow> Inr (upd items))"

text \<open>The goroutine of one loader: list, then write its field of the result under the mutex.\<close>

fun run_loader :: "kubeclient \<Rightarrow> loader \<Rightarrow> resourceResult \<Rightarrow> resourceResult res" where
  "run_loader cl L_vs rr = loading ''VirtualServices'' (List_vs cl) (\<lambda>x. rr\<lparr>rr_vs := x\<rparr>)"
| "run_loader cl L_listeners rr = loading ''Listeners'' (List_listeners cl) (\<lambda>x. rr\<lparr>rr_listeners := x\<rparr>)"
| "run_loader cl L_clusters rr = loading ''Clusters'' (List_clusters cl) (\<lambda>x. rr\<lparr>rr_clusters := x\<rparr>)"
| "run_loader cl L_accessLogs rr =
     loading ''AccessLogConfigs'' (List_accessLogs cl) (\<lambda>x. rr\<lparr>rr_accessLogs := x\<rparr>)"
| "run_loader cl L_routes rr = loading ''Routes'' (List_routes cl) (\<lambda>x. rr\<lparr>rr_routes := x\<rparr>)"
| "run_loader cl L_vst rr =
     loading ''VirtualServiceTemplates'' (List_vst cl) (\<lambda>x. rr\<lparr>rr_vst := x\<rparr>)"
| "run_loader cl L_httpFilters rr =
     loading ''HttpFilters'' (List_httpFilters cl) (\<lambda>x. rr\<lparr>rr_httpFilters := x\<rparr>)"
| "run_loader cl L_policies rr = loading ''Policies'' (List_policies cl) (\<lambda>x. rr\<lparr>rr_policies := x\<rparr>)"
| "run_loader cl L_tracings rr = loading ''Tracings'' (List_tracings cl) (\<lambda>x. rr\<lparr>rr_tracings := x\<rparr>)"
| "run_loader cl L_secrets rr = loading ''Secrets'' (List_secrets cl) (\<lambda>x. rr\<lparr>rr_secrets := x\<rparr>)"

text \<open>\<open>errgroup\<close>: every goroutine runs to its end, and the error that came first is kept.\<close>

fun loadResources_loop :: "kubeclient \<Rightarrow> loader list \<Rightarrow> resourceResult \<Rightarrow> goerr option
    \<Rightarrow> resourceResult \<times> goerr option" where
  "loadResources_loop cl [] result err = (result, err)"
| "loadResources_loop cl (l # rest) result err =
     (case run_loader cl l result of
        Inl e \<Rightarrow> loadResources_loop cl rest result (case err of None \<Rightarrow> Some e | Some e' \<Rightarrow> Some e')
      | Inr result' \<Rightarrow> loadResources_loop cl rest result' err)"

definition loadResourcesConcurrently :: "kubeclient \<Rightarrow> loader list \<Rightarrow> resourceResult res" where
  "loadResourcesConcurrently cl completion =
     (case loadResources_loop cl completion empty_result None of
        (_, Some err) \<Rightarrow> Inl err
      | (result, None) \<Rightarrow> Inr result)"

section \<open>Writing the lists into the store\<close>

text \<open>
  One turn of each loop. Unlike the setters these do not take an older object of the same name
  out of the indices.
\<close>

definition load_accessLog :: "AccessLogConfig \<Rightarrow> OptimizedStore \<Rightarrow> OptimizedStore" where
  "load_accessLog accessLog s =
     (let (m, uid, sp) = intern_meta (stringPool s) (alc_meta accessLog);
          accessLog = accessLog\<lparr>alc_meta := m\<rparr>;
          s = s\<lparr>stringPool := sp\<rparr>;
          s = s\<lparr>accessLogs := gm_put (meta_nn m) accessLog (accessLogs s)\<rparr>
      in s\<lparr>accessLogsByUID := gm_put uid accessLog (accessLogsByUID s)\<rparr>)"

definition load_virtualService :: "VirtualService \<Rightarrow> OptimizedStore \<Rightarrow> OptimizedStore" where
  "load_virtualService vs s =
     (let vs = VirtualService_NormalizeSpec vs;
          (m, uid, sp) = intern_meta (stringPool s) (vs_meta vs);
          vs = vs\<lparr>vs_meta := m\<rparr>;
          s = s\<lparr>stringPool := sp\<rparr>;
          s = s\<lparr>virtualServices := gm_put (meta_nn m) vs (virtualServices s)\<rparr>;
          s = s\<lparr>uidToVS := gm_put uid vs (uidToVS s)\<rparr>
      in updateTemplateIndex s vs)"

definition load_listener :: "Listener \<Rightarrow> OptimizedStore \<Rightarrow> OptimizedStore" where
  "load_listener listener s =
     (let (m, uid, sp) = intern_meta (stringPool s) (l_meta listener);
          listener = listener\<lparr>l_meta := m\<rparr>;
          s = s\<lparr>stringPool := sp\<rparr>;
          s = s\<lparr>listeners := gm_put (meta_nn m) listener (listeners s)\<rparr>
      in s\<lparr>uidToListener := gm_put uid listener (uidToListener s)\<rparr>)"

definition load_cluster :: "protolib \<Rightarrow> Cluster \<Rightarrow> OptimizedStore \<Rightarrow> OptimizedStore" where
  "load_cluster lib cluster s =
     (let (m, uid, sp) = intern_meta (stringPool s) (cl_meta cluster);
          cluster = cluster\<lparr>cl_meta := m\<rparr>;
          s = s\<lparr>stringPool := sp\<rparr>;
          s = s\<lparr>clusters := gm_put (meta_nn m) cluster (clusters s)\<rparr>;
          s = s\<lparr>uidToCluster := gm_put uid cluster (uidToCluster s)\<rparr>
      in case Cluster_UnmarshalV3 lib cluster of
           Inl _ \<Rightarrow> s
         | Inr clusterV3 \<Rightarrow> s\<lparr>specClusters := gm_put (cv3_Name clusterV3) cluster (specClusters s)\<rparr>)"

definition load_route :: "Route \<Rightarrow> OptimizedStore \<Rightarrow> OptimizedStore" where
  "load_route route s =
     (let (m, uid, sp) = intern_meta (stringPool s) (r_meta route);
          route = route\<lparr>r_meta := m\<rparr>;
          s = s\<lparr>stringPool := sp\<rparr>;
          s = s\<lparr>routes := gm_put (meta_nn m) route (routes s)\<rparr>
      in s\<lparr>routesByUID := gm_put uid route (routesByUID s)\<rparr>)"

definition load_virtualServiceTemplate :: "VirtualServiceTemplate \<Rightarrow> OptimizedStore \<Rightarrow> OptimizedStore" where
  "load_virtualServiceTemplate vst s =
     (let vst = VirtualServiceTemplate_NormalizeSpec vst;
          (m, uid, sp) = intern_meta (stringPool s) (vst_meta vst);
          vst = vst\<lparr>vst_meta := m\<rparr>;
          s = s\<lparr>stringPool := sp\<rparr>;
          s = s\<lparr>virtualServiceTemplates := gm_put (meta_nn m) vst (virtualServiceTemplates s)\<rparr>
      in s\<lparr>virtualServiceTemplatesByUID := gm_put uid vst (virtualServiceTemplatesByUID s)\<rparr>)"

definition load_httpFilter :: "HttpFilter \<Rightarrow> OptimizedStore \<Rightarrow> OptimizedStore" where
  "load_httpFilter httpFilter s =
     (let (m, uid, sp) = intern_meta (stringPool s) (hf_meta httpFilter);
          httpFilter = httpFilter\<lparr>hf_meta := m\<rparr>;
          s = s\<lparr>stringPool := sp\<rparr>;
          s = s\<lparr>httpFilters := gm_put (meta_nn m) httpFilter (httpFilters s)\<rparr>
      in s\<lparr>httpFiltersByUID := gm_put uid httpFilter (httpFiltersByUID s)\<rparr>)"

definition load_policy :: "Policy \<Rightarrow> OptimizedStore \<Rightarrow> OptimizedStore" where
  "load_policy policy s =
     (let (m, uid, sp) = intern_meta (stringPool s) (p_meta policy);
          policy = policy\<lparr>p_meta := m\<rparr>;
          s = s\<lparr>stringPool := sp\<rparr>;
          s = s\<lparr>policies := gm_put (meta_nn m) policy (policies s)\<rparr>
      in s\<lparr>policiesByUID := gm_put uid policy (policiesByUID s)\<rparr>)"

definition load_tracing :: "Tracing \<Rightarrow> OptimizedStore \<Rightarrow> OptimizedStore" where
  "load_tracing tracing s =
     (let (m, uid, sp) = intern_meta (stringPool s) (tr_meta tracing);
          tracing = tracing\<lparr>tr_meta := m\<rparr>;
          s = s\<lparr>stringPool := sp\<rparr>;
          s = s\<lparr>tracings := gm_put (meta_nn m) tracing (tracings s)\<rparr>
      in s\<lparr>tracingsByUID := gm_put uid tracing (tracingsByUID s)\<rparr>)"

definition load_secret :: "Secret \<Rightarrow> OptimizedStore \<Rightarrow> OptimizedStore" where
  "load_secret secret s =
     (let (m, sp) = intern_names (stringPool s) (s_meta secret);
          secret = secret\<lparr>s_meta := m\<rparr>;
          s = s\<lparr>stringPool := sp\<rparr>
      in s\<lparr>secrets := gm_put (meta_nn m) secret (secrets s)\<rparr>)"

definition FillFromKubernetes :: "protolib \<Rightarrow> x509lib \<Rightarrow> OptimizedStore \<Rightarrow> kubeclient option
    \<Rightarrow> loader list \<Rightarrow> OptimizedStore res" where
  "FillFromKubernetes lib x509 s cl completion =
     (case cl of
        None \<Rightarrow> Inr s
      | Some cl \<Rightarrow>
          (case loadResourcesConcurrently cl completion of
             Inl err \<Rightarrow> Inl err
           | Inr aggregated \<Rightarrow>
               (let s = fold load_accessLog (rr_accessLogs aggregated) s;
                    s = fold load_virtualService (rr_vs aggregated) s;
                    s = fold load_listener (rr_listeners aggregated) s;
                    s = fold (load_cluster lib) (rr_clusters aggregated) s;
                    s = fold load_route (rr_routes aggregated) s;
                    s = fold load_virtualServiceTemplate (rr_vst aggregated) s;
                    s = fold load_httpFilter (rr_httpFilters aggregated) s;
                    s = fold load_policy (rr_policies aggregated) s;
                    s = fold load_tracing (rr_tracings aggregated) s;
                    s = fold load_secret (rr_secrets aggregated) s
                in Inr (updateDomainSecretsMap x509 s))))"

section \<open>The load is independent of the order of completion\<close>

definition loader_ok :: "kubeclient \<Rightarrow> loader \<Rightarrow> bool" where
  "loader_ok cl l \<longleftrightarrow> is_ok (run_loader cl l empty_result)"

lemma run_loader_ok: "is_ok (run_loader cl l rr) \<longleftrightarrow> loader_ok cl l"
  by (cases l) (simp_all add: loader_ok_def loading_def split: sum.split)

lemma loop_err:
  "snd (loadResources_loop cl ls result err) = None \<longleftrightarrow> err = None \<and> (\<forall>l \<in> set ls. loader_ok cl l)"
proof (induction ls arbitrary: result err)
  case (Cons l ls)
  then show ?case
    using run_loader_ok [of cl l result]
    by (cases "run_loader cl l result") (auto split: option.split)
qed simp

text \<open>The result every order of completion gives when all calls succeed.\<close>

definition items :: "'a list res \<Rightarrow> 'a list" where
  "items r = (case r of Inl _ \<Rightarrow> [] | Inr xs \<Rightarrow> xs)"

definition result_of :: "kubeclient \<Rightarrow> resourceResult" where
  "result_of cl = \<lparr>rr_accessLogs = items (List_accessLogs cl), rr_clusters = items (List_clusters cl),
     rr_listeners = items (List_listeners cl), rr_routes = items (List_routes cl),
     rr_vs = items (List_vs cl), rr_vst = items (List_vst cl),
     rr_httpFilters = items (List_httpFilters cl), rr_policies = items (List_policies cl),
     rr_tracings = items (List_tracings cl), rr_secrets = items (List_secrets cl)\<rparr>"

fun agree :: "kubeclient \<Rightarrow> resourceResult \<Rightarrow> loader \<Rightarrow> bool" where
  "agree cl rr L_vs \<longleftrightarrow> rr_vs rr = items (List_vs cl)"
| "agree cl rr L_listeners \<longleftrightarrow> rr_listeners rr = items (List_listeners cl)"
| "agree cl rr L_clusters \<longleftrightarrow> rr_clusters rr = items (List_clusters cl)"
| "agree cl rr L_accessLogs \<longleftrightarrow> rr_accessLogs rr = items (List_accessLogs cl)"
| "agree cl rr L_routes \<longleftrightarrow> rr_routes rr = items (List_routes cl)"
| "agree cl rr L_vst \<longleftrightarrow> rr_vst rr = items (List_vst cl)"
| "agree cl rr L_httpFilters \<longleftrightarrow> rr_httpFilters rr = items (List_httpFilters cl)"
| "agree cl rr L_policies \<longleftrightarrow> rr_policies rr = items (List_policies cl)"
| "agree cl rr L_tracings \<longleftrightarrow> rr_tracings rr = items (List_tracings cl)"
| "agree cl rr L_secrets \<longleftrightarrow> rr_secrets rr = items (List_secrets cl)"

lemma run_loader_agree:
  assumes "run_loader cl l rr = Inr rr'"
  shows "agree cl rr' l" and "agree cl rr l' \<Longrightarrow> agree cl rr' l'"
  using assms by (cases l; cases l'; auto simp: loading_def items_def split: sum.splits)+

lemma loop_agree:
  assumes "\<forall>l \<in> set ls. loader_ok cl l" "l \<in> set ls \<or> agree cl rr l"
  shows "agree cl (fst (loadResources_loop cl ls rr err)) l"
  using assms
proof (induction ls arbitrary: rr err)
  case (Cons k ls)
  obtain rr' where "run_loader cl k rr = Inr rr'"
    using Cons.prems(1) run_loader_ok [of cl k rr] by (auto simp: is_ok_iff)
  with Cons.IH [of rr' err] Cons.prems run_loader_agree [OF this] show ?case by auto
qed simp

lemma loadResources_ok:
  assumes "set completion = UNIV" "\<forall>l. loader_ok cl l"
  shows "loadResourcesConcurrently cl completion = Inr (result_of cl)"
proof -
  obtain rr err where loop: "loadResources_loop cl completion empty_result None = (rr, err)"
    by (cases "loadResources_loop cl completion empty_result None")
  have "err = None" using loop_err [of cl completion empty_result None] assms loop by simp
  have ag: "agree cl rr l" for l
    using loop_agree [of completion cl l empty_result None] assms loop by simp
  have "rr = result_of cl"
    using ag [of L_vs] ag [of L_listeners] ag [of L_clusters] ag [of L_accessLogs] ag [of L_routes] ag [of L_vst] ag [of L_httpFilters] ag [of L_policies] ag [of L_tracings] ag [of L_secrets]
    by (simp add: result_of_def)
  with loop \<open>err = None\<close> show ?thesis by (simp add: loadResourcesConcurrently_def)
qed

lemma loadResources_fail:
  assumes "set completion = UNIV" "\<not> loader_ok cl l"
  shows "\<exists>e. loadResourcesConcurrently cl completion = Inl e"
proof -
  have "snd (loadResources_loop cl completion empty_result None) \<noteq> None"
    using loop_err [of cl completion empty_result None] assms by auto
  then show ?thesis
    by (auto simp: loadResourcesConcurrently_def split: prod.split)
qed

section \<open>Loading is setting, for new names\<close>

lemma normalize_meta [simp]:
  "vs_meta (VirtualService_NormalizeSpec vs) = vs_meta vs"
  "vst_meta (VirtualServiceTemplate_NormalizeSpec t) = vst_meta t"
  by (simp_all add: VirtualService_NormalizeSpec_def VirtualServiceTemplate_NormalizeSpec_def Let_def)

lemma load_accessLog_eq:
  "pool_ok s \<Longrightarrow> map_of (accessLogs s) (meta_nn (alc_meta a)) = None \<Longrightarrow>
     load_accessLog a s = SetAccessLog s a"
  by (simp add: load_accessLog_def SetAccessLog_eq intern_meta_eq Let_def)

lemma load_virtualService_eq:
  "pool_ok s \<Longrightarrow> map_of (virtualServices s) (meta_nn (vs_meta vs)) = None \<Longrightarrow>
     load_virtualService vs s = SetVirtualService s (VirtualService_NormalizeSpec vs)"
  by (simp add: load_virtualService_def SetVirtualService_eq intern_meta_eq Let_def updateTemplateIndex_eq)

lemma load_listener_eq:
  "pool_ok s \<Longrightarrow> map_of (listeners s) (meta_nn (l_meta l)) = None \<Longrightarrow>
     load_listener l s = SetListener s l"
  by (simp add: load_listener_def SetListener_eq intern_meta_eq Let_def)

lemma load_route_eq:
  "pool_ok s \<Longrightarrow> map_of (routes s) (meta_nn (r_meta r)) = None \<Longrightarrow>
     load_route r s = SetRoute s r"
  by (simp add: load_route_def SetRoute_eq intern_meta_eq Let_def)

lemma load_virtualServiceTemplate_eq:
  "pool_ok s \<Longrightarrow> map_of (virtualServiceTemplates s) (meta_nn (vst_meta t)) = None \<Longrightarrow>
     load_virtualServiceTemplate t s = SetVirtualServiceTemplate s (VirtualServiceTemplate_NormalizeSpec t)"
  by (simp add: load_virtualServiceTemplate_def SetVirtualServiceTemplate_eq intern_meta_eq Let_def)

lemma load_httpFilter_eq:
  "pool_ok s \<Longrightarrow> map_of (httpFilters s) (meta_nn (hf_meta h)) = None \<Longrightarrow>
     load_httpFilter h s = SetHTTPFilter s h"
  by (simp add: load_httpFilter_def SetHTTPFilter_eq intern_meta_eq Let_def)

lemma load_policy_eq:
  "pool_ok s \<Longrightarrow> map_of (policies s) (meta_nn (p_meta p)) = None \<Longrightarrow>
     load_policy p s = SetPolicy s p"
  by (simp add: load_policy_def SetPolicy_eq intern_meta_eq Let_def)

lemma load_tracing_eq:
  "pool_ok s \<Longrightarrow> map_of (tracings s) (meta_nn (tr_meta x)) = None \<Longrightarrow>
     load_tracing x s = SetTracing s x"
  by (simp add: load_tracing_def SetTracing_eq intern_meta_eq Let_def)

lemma load_cluster_eq:
  "pool_ok s \<Longrightarrow> map_of (clusters s) (meta_nn (cl_meta c)) = None \<Longrightarrow>
     load_cluster lib c s = SetCluster lib s c"
  by (simp add: load_cluster_def SetCluster_eq intern_meta_eq Let_def spec_key_def
      split: sum.split)

section \<open>The loops\<close>

definition names_of :: "('r \<Rightarrow> ObjectMeta) \<Rightarrow> 'r list \<Rightarrow> NamespacedName \<Rightarrow> 'r option" where
  "names_of meta rs = map_of (map (\<lambda>r. (meta_nn (meta r), r)) rs)"

text \<open>
  A loop that stores \<open>g r\<close> for every item \<open>r\<close> of a list, on a store where the kind is still
  empty. \<open>clash\<close> is what two stored objects must not have in common.
\<close>

lemma fold_load:
  fixes by_n :: "OptimizedStore \<Rightarrow> (NamespacedName, 'r) gomap"
  assumes step: "\<And>s r. Inv s \<Longrightarrow> map_of (by_n s) (meta_nn (meta r)) = None \<Longrightarrow>
      (\<And>n r'. map_of (by_n s) n = Some r' \<Longrightarrow> \<not> clash r' (g r)) \<Longrightarrow>
      Inv (load r s) \<and> map_of (by_n (load r s)) = (map_of (by_n s))(meta_nn (meta r) \<mapsto> g r)"
    and meta_g: "\<And>r. meta (g r) = meta r"
    and "Inv s" "distinct (map (\<lambda>r. meta_nn (meta r)) rs)"
    and "sorted_wrt (\<lambda>a b. \<not> clash (g a) (g b)) rs"
    and "\<And>r. r \<in> set rs \<Longrightarrow> map_of (by_n s) (meta_nn (meta r)) = None"
    and "\<And>r n r'. r \<in> set rs \<Longrightarrow> map_of (by_n s) n = Some r' \<Longrightarrow> \<not> clash r' (g r)"
  shows "Inv (fold load rs s) \<and>
    map_of (by_n (fold load rs s)) = map_of (by_n s) ++ names_of meta (map g rs)"
  using assms(3-)
proof (induction rs arbitrary: s)
  case Nil
  then show ?case by (simp add: names_of_def)
next
  case (Cons r rs)
  have 1: "Inv (load r s)"
    and 2: "map_of (by_n (load r s)) = (map_of (by_n s))(meta_nn (meta r) \<mapsto> g r)"
    using step [of s r] Cons.prems by auto
  have fresh: "meta_nn (meta r') \<noteq> meta_nn (meta r)" if "r' \<in> set rs" for r'
    using Cons.prems(2) that by (auto simp: image_iff simp del: NamespacedName.ext_inject)
  have free: "map_of (by_n (load r s)) (meta_nn (meta r')) = None" if "r' \<in> set rs" for r'
    using Cons.prems(4) [of r'] fresh [OF that] that by (simp only: 2 fun_upd_apply) simp
  have apart: "\<not> clash x (g r')" if "r' \<in> set rs" "map_of (by_n (load r s)) n = Some x" for r' n x
    using Cons.prems(3) Cons.prems(5) [of r' n x] that by (auto simp: 2 split: if_splits)
  have rest: "distinct (map (\<lambda>r. meta_nn (meta r)) rs)" "sorted_wrt (\<lambda>a b. \<not> clash (g a) (g b)) rs"
    using Cons.prems(2,3) by simp_all
  have ih: "Inv (fold load rs (load r s)) \<and>
      map_of (by_n (fold load rs (load r s))) = map_of (by_n (load r s)) ++ names_of meta (map g rs)"
    using free apart by (intro Cons.IH 1 rest) blast+
  have "meta_nn (meta r) \<notin> dom (names_of meta (map g rs))"
    using Cons.prems(2)
    by (simp add: names_of_def dom_map_of_conv_image_fst meta_g image_image)
  then have "(map_of (by_n s))(meta_nn (meta r) \<mapsto> g r) ++ names_of meta (map g rs)
      = map_of (by_n s) ++ names_of meta (map g (r # rs))"
    by (simp add: names_of_def meta_g map_add_upd_left)
  with ih show ?case unfolding 2 by (simp only: fold_simps)
qed

text \<open>What the API server guarantees of one list: names and UIDs are unique.\<close>

definition list_ok :: "('r \<Rightarrow> ObjectMeta) \<Rightarrow> 'r list \<Rightarrow> bool" where
  "list_ok meta rs \<longleftrightarrow>
     distinct (map (\<lambda>r. meta_nn (meta r)) rs) \<and> distinct (map (\<lambda>r. m_UID (meta r)) rs)"

lemma list_ok_sorted:
  "list_ok meta rs \<Longrightarrow> (\<And>r. meta (g r) = meta r) \<Longrightarrow>
     sorted_wrt (\<lambda>a b. \<not> m_UID (meta (g a)) = m_UID (meta (g b))) rs"
  unfolding list_ok_def by (induction rs) (auto simp: image_iff)

lemma uid_free_intro:
  "(\<And>n r'. map_of m n = Some r' \<Longrightarrow> \<not> m_UID (meta r') = m_UID (meta r)) \<Longrightarrow> uid_free meta m r"
  by (auto simp: key_free_def)

lemma fold_accessLog:
  assumes "store_inv lib x509 s" "accessLogs s = []" "list_ok alc_meta rs"
  shows "store_inv lib x509 (fold load_accessLog rs s) \<and>
    map_of (accessLogs (fold load_accessLog rs s)) = names_of alc_meta (rs)"
proof -
  have step: "store_inv lib x509 (load_accessLog r s) \<and>
      map_of (accessLogs (load_accessLog r s)) = (map_of (accessLogs s))(meta_nn (alc_meta r) \<mapsto> r)"
    if "store_inv lib x509 s" "map_of (accessLogs s) (meta_nn (alc_meta r)) = None"
      "\<And>n r'. map_of (accessLogs s) n = Some r' \<Longrightarrow> \<not> m_UID (alc_meta r') = m_UID (alc_meta r)" for s r
  proof -
    have ok: "pool_ok s" using that(1) by (simp add: store_inv_def)
    show ?thesis
      using inv_SetAccessLog [OF that(1) uid_free_intro] that(3) al.set_name [OF ok]
      by (simp add: load_accessLog_eq [OF ok that(2)])
  qed
  show ?thesis
    using fold_load [of "store_inv lib x509" accessLogs alc_meta "\<lambda>a b. m_UID (alc_meta a) = m_UID (alc_meta b)" "\<lambda>x. x"
        load_accessLog s rs] step assms list_ok_sorted [of alc_meta rs "\<lambda>x. x"]
    by (simp add: list_ok_def)
qed

lemma fold_virtualService:
  assumes "store_inv lib x509 s" "virtualServices s = []" "list_ok vs_meta rs"
  shows "store_inv lib x509 (fold load_virtualService rs s) \<and>
    map_of (virtualServices (fold load_virtualService rs s)) = names_of vs_meta (map VirtualService_NormalizeSpec rs)"
proof -
  have step: "store_inv lib x509 (load_virtualService r s) \<and>
      map_of (virtualServices (load_virtualService r s)) = (map_of (virtualServices s))(meta_nn (vs_meta r) \<mapsto> VirtualService_NormalizeSpec r)"
    if "store_inv lib x509 s" "map_of (virtualServices s) (meta_nn (vs_meta r)) = None"
      "\<And>n r'. map_of (virtualServices s) n = Some r' \<Longrightarrow> \<not> m_UID (vs_meta r') = m_UID (vs_meta r)" for s r
  proof -
    have ok: "pool_ok s" using that(1) by (simp add: store_inv_def)
    show ?thesis
      using inv_SetVirtualService [OF that(1) uid_free_intro] that(3) vi.set_name [OF ok]
      by (simp add: load_virtualService_eq [OF ok that(2)])
  qed
  show ?thesis
    using fold_load [of "store_inv lib x509" virtualServices vs_meta "\<lambda>a b. m_UID (vs_meta a) = m_UID (vs_meta b)" "VirtualService_NormalizeSpec"
        load_virtualService s rs] step assms list_ok_sorted [of vs_meta rs "VirtualService_NormalizeSpec"]
    by (simp add: list_ok_def)
qed

lemma fold_listener:
  assumes "store_inv lib x509 s" "listeners s = []" "list_ok l_meta rs"
  shows "store_inv lib x509 (fold load_listener rs s) \<and>
    map_of (listeners (fold load_listener rs s)) = names_of l_meta (rs)"
proof -
  have step: "store_inv lib x509 (load_listener r s) \<and>
      map_of (listeners (load_listener r s)) = (map_of (listeners s))(meta_nn (l_meta r) \<mapsto> r)"
    if "store_inv lib x509 s" "map_of (listeners s) (meta_nn (l_meta r)) = None"
      "\<And>n r'. map_of (listeners s) n = Some r' \<Longrightarrow> \<not> m_UID (l_meta r') = m_UID (l_meta r)" for s r
  proof -
    have ok: "pool_ok s" using that(1) by (simp add: store_inv_def)
    show ?thesis
      using inv_SetListener [OF that(1) uid_free_intro] that(3) li.set_name [OF ok]
      by (simp add: load_listener_eq [OF ok that(2)])
  qed
  show ?thesis
    using fold_load [of "store_inv lib x509" listeners l_meta "\<lambda>a b. m_UID (l_meta a) = m_UID (l_meta b)" "\<lambda>x. x"
        load_listener s rs] step assms list_ok_sorted [of l_meta rs "\<lambda>x. x"]
    by (simp add: list_ok_def)
qed

lemma fold_route:
  assumes "store_inv lib x509 s" "routes s = []" "list_ok r_meta rs"
  shows "store_inv lib x509 (fold load_route rs s) \<and>
    map_of (routes (fold load_route rs s)) = names_of r_meta (rs)"
proof -
  have step: "store_inv lib x509 (load_route r s) \<and>
      map_of (routes (load_route r s)) = (map_of (routes s))(meta_nn (r_meta r) \<mapsto> r)"
    if "store_inv lib x509 s" "map_of (routes s) (meta_nn (r_meta r)) = None"
      "\<And>n r'. map_of (routes s) n = Some r' \<Longrightarrow> \<not> m_UID (r_meta r') = m_UID (r_meta r)" for s r
  proof -
    have ok: "pool_ok s" using that(1) by (simp add: store_inv_def)
    show ?thesis
      using inv_SetRoute [OF that(1) uid_free_intro] that(3) ro.set_name [OF ok]
      by (simp add: load_route_eq [OF ok that(2)])
  qed
  show ?thesis
    using fold_load [of "store_inv lib x509" routes r_meta "\<lambda>a b. m_UID (r_meta a) = m_UID (r_meta b)" "\<lambda>x. x"
        load_route s rs] step assms list_ok_sorted [of r_meta rs "\<lambda>x. x"]
    by (simp add: list_ok_def)
qed

lemma fold_virtualServiceTemplate:
  assumes "store_inv lib x509 s" "virtualServiceTemplates s = []" "list_ok vst_meta rs"
  shows "store_inv lib x509 (fold load_virtualServiceTemplate rs s) \<and>
    map_of (virtualServiceTemplates (fold load_virtualServiceTemplate rs s)) = names_of vst_meta (map VirtualServiceTemplate_NormalizeSpec rs)"
proof -
  have step: "store_inv lib x509 (load_virtualServiceTemplate r s) \<and>
      map_of (virtualServiceTemplates (load_virtualServiceTemplate r s)) = (map_of (virtualServiceTemplates s))(meta_nn (vst_meta r) \<mapsto> VirtualServiceTemplate_NormalizeSpec r)"
    if "store_inv lib x509 s" "map_of (virtualServiceTemplates s) (meta_nn (vst_meta r)) = None"
      "\<And>n r'. map_of (virtualServiceTemplates s) n = Some r' \<Longrightarrow> \<not> m_UID (vst_meta r') = m_UID (vst_meta r)" for s r
  proof -
    have ok: "pool_ok s" using that(1) by (simp add: store_inv_def)
    show ?thesis
      using inv_SetVirtualServiceTemplate [OF that(1) uid_free_intro] that(3) vt.set_name [OF ok]
      by (simp add: load_virtualServiceTemplate_eq [OF ok that(2)])
  qed
  show ?thesis
    using fold_load [of "store_inv lib x509" virtualServiceTemplates vst_meta "\<lambda>a b. m_UID (vst_meta a) = m_UID (vst_meta b)" "VirtualServiceTemplate_NormalizeSpec"
        load_virtualServiceTemplate s rs] step assms list_ok_sorted [of vst_meta rs "VirtualServiceTemplate_NormalizeSpec"]
    by (simp add: list_ok_def)
qed

lemma fold_httpFilter:
  assumes "store_inv lib x509 s" "httpFilters s = []" "list_ok hf_meta rs"
  shows "store_inv lib x509 (fold load_httpFilter rs s) \<and>
    map_of (httpFilters (fold load_httpFilter rs s)) = names_of hf_meta (rs)"
proof -
  have step: "store_inv lib x509 (load_httpFilter r s) \<and>
      map_of (httpFilters (load_httpFilter r s)) = (map_of (httpFilters s))(meta_nn (hf_meta r) \<mapsto> r)"
    if "store_inv lib x509 s" "map_of (httpFilters s) (meta_nn (hf_meta r)) = None"
      "\<And>n r'. map_of (httpFilters s) n = Some r' \<Longrightarrow> \<not> m_UID (hf_meta r') = m_UID (hf_meta r)" for s r
  proof -
    have ok: "pool_ok s" using that(1) by (simp add: store_inv_def)
    show ?thesis
      using inv_SetHTTPFilter [OF that(1) uid_free_intro] that(3) hf.set_name [OF ok]
      by (simp add: load_httpFilter_eq [OF ok that(2)])
  qed
  show ?thesis
    using fold_load [of "store_inv lib x509" httpFilters hf_meta "\<lambda>a b. m_UID (hf_meta a) = m_UID (hf_meta b)" "\<lambda>x. x"
        load_httpFilter s rs] step assms list_ok_sorted [of hf_meta rs "\<lambda>x. x"]
    by (simp add: list_ok_def)
qed

lemma fold_policy:
  assumes "store_inv lib x509 s" "policies s = []" "list_ok p_meta rs"
  shows "store_inv lib x509 (fold load_policy rs s) \<and>
    map_of (policies (fold load_policy rs s)) = names_of p_meta (rs)"
proof -
  have step: "store_inv lib x509 (load_policy r s) \<and>
      map_of (policies (load_policy r s)) = (map_of (policies s))(meta_nn (p_meta r) \<mapsto> r)"
    if "store_inv lib x509 s" "map_of (policies s) (meta_nn (p_meta r)) = None"
      "\<And>n r'. map_of (policies s) n = Some r' \<Longrightarrow> \<not> m_UID (p_meta r') = m_UID (p_meta r)" for s r
  proof -
    have ok: "pool_ok s" using that(1) by (simp add: store_inv_def)
    show ?thesis
      using inv_SetPolicy [OF that(1) uid_free_intro] that(3) po.set_name [OF ok]
      by (simp add: load_policy_eq [OF ok that(2)])
  qed
  show ?thesis
    using fold_load [of "store_inv lib x509" policies p_meta "\<lambda>a b. m_UID (p_meta a) = m_UID (p_meta b)" "\<lambda>x. x"
        load_policy s rs] step assms list_ok_sorted [of p_meta rs "\<lambda>x. x"]
    by (simp add: list_ok_def)
qed

lemma fold_tracing:
  assumes "store_inv lib x509 s" "tracings s = []" "list_ok tr_meta rs"
  shows "store_inv lib x509 (fold load_tracing rs s) \<and>
    map_of (tracings (fold load_tracing rs s)) = names_of tr_meta (rs)"
proof -
  have step: "store_inv lib x509 (load_tracing r s) \<and>
      map_of (tracings (load_tracing r s)) = (map_of (tracings s))(meta_nn (tr_meta r) \<mapsto> r)"
    if "store_inv lib x509 s" "map_of (tracings s) (meta_nn (tr_meta r)) = None"
      "\<And>n r'. map_of (tracings s) n = Some r' \<Longrightarrow> \<not> m_UID (tr_meta r') = m_UID (tr_meta r)" for s r
  proof -
    have ok: "pool_ok s" using that(1) by (simp add: store_inv_def)
    show ?thesis
      using inv_SetTracing [OF that(1) uid_free_intro] that(3) tr.set_name [OF ok]
      by (simp add: load_tracing_eq [OF ok that(2)])
  qed
  show ?thesis
    using fold_load [of "store_inv lib x509" tracings tr_meta "\<lambda>a b. m_UID (tr_meta a) = m_UID (tr_meta b)" "\<lambda>x. x"
        load_tracing s rs] step assms list_ok_sorted [of tr_meta rs "\<lambda>x. x"]
    by (simp add: list_ok_def)
qed

text \<open>Clusters must differ in their Envoy names as well.\<close>

definition cluster_clash :: "protolib \<Rightarrow> Cluster \<Rightarrow> Cluster \<Rightarrow> bool" where
  "cluster_clash lib a b \<longleftrightarrow> cl_uid a = cl_uid b \<or> (spec_key lib a \<noteq> None \<and> spec_key lib a = spec_key lib b)"

lemma fold_cluster:
  assumes "store_inv lib x509 s" "clusters s = []"
    "distinct (map (\<lambda>c. meta_nn (cl_meta c)) rs)" "sorted_wrt (\<lambda>a b. \<not> cluster_clash lib a b) rs"
  shows "store_inv lib x509 (fold (load_cluster lib) rs s) \<and>
    map_of (clusters (fold (load_cluster lib) rs s)) = names_of cl_meta rs"
proof -
  have step: "store_inv lib x509 (load_cluster lib r s) \<and>
      map_of (clusters (load_cluster lib r s)) = (map_of (clusters s))(meta_nn (cl_meta r) \<mapsto> r)"
    if "store_inv lib x509 s" "map_of (clusters s) (meta_nn (cl_meta r)) = None"
      "\<And>n r'. map_of (clusters s) n = Some r' \<Longrightarrow> \<not> cluster_clash lib r' r" for s r
  proof -
    have ok: "pool_ok s" using that(1) by (simp add: store_inv_def)
    have "uid_free cl_meta (clusters s) r"
      using that(3) by (auto simp: key_free_def cluster_clash_def)
    moreover have "key_free cl_meta (spec_key lib) (map_of (clusters s)) r"
      using that(3) unfolding key_free_def cluster_clash_def by blast
    ultimately have "store_inv lib x509 (SetCluster lib s r)" by (rule inv_SetCluster [OF that(1)])
    with cu.set_name [OF ok] show ?thesis
      by (simp add: load_cluster_eq [OF ok that(2)])
  qed
  show ?thesis
    using fold_load [of "store_inv lib x509" clusters cl_meta "cluster_clash lib" "\<lambda>x. x"
        "load_cluster lib" s rs] step assms
    by simp
qed

text \<open>Secrets: the loop writes the map only, and the rebuild of the index follows it.\<close>

definition inv_but_secrets :: "protolib \<Rightarrow> OptimizedStore \<Rightarrow> bool" where
  "inv_but_secrets lib s \<longleftrightarrow>
     pool_ok s \<and> store_wf s \<and> uid_indices_ok s \<and> templates_ok s \<and> cs.exact lib s \<and>
     keyed s_meta (map_of (secrets s)) \<and> node_domains_wf (nodeDomains s) \<and>
     status_wf (vsStatusStorage s)"

lemma load_secret_step:
  assumes "inv_but_secrets lib s"
  shows "inv_but_secrets lib (load_secret sec s) \<and>
    map_of (secrets (load_secret sec s)) = (map_of (secrets s))(s_nn sec \<mapsto> sec)"
proof -
  have ok: "pool_ok s" using assms by (simp add: inv_but_secrets_def)
  obtain sp where sp: "intern_names (stringPool s) (s_meta sec) = (s_meta sec, sp)" "pool_inv sp"
    using intern_names_eq [OF ok, of "s_meta sec"] by (metis prod.collapse snd_conv)
  have eq: "load_secret sec s = s\<lparr>stringPool := sp, secrets := gm_put (s_nn sec) sec (secrets s)\<rparr>"
    by (simp add: load_secret_def sp Let_def)
  have "keyed s_meta ((map_of (secrets s))(s_nn sec \<mapsto> sec))"
    using assms by (auto simp: inv_but_secrets_def keyed_def)
  with assms sp show ?thesis
    unfolding inv_but_secrets_def store_wf_def uid_indices_ok_def exact_defs by (simp add: eq)
qed

lemma fold_secret:
  assumes "inv_but_secrets lib s" "secrets s = []" "distinct (map s_nn rs)"
  shows "inv_but_secrets lib (fold load_secret rs s) \<and>
    map_of (secrets (fold load_secret rs s)) = names_of s_meta rs"
  using fold_load [of "inv_but_secrets lib" secrets s_meta "\<lambda>_ _. False" "\<lambda>x. x" load_secret s rs]
    load_secret_step assms by (simp add: sorted_wrt_true)

lemma inv_after_rebuild:
  assumes "inv_but_secrets lib s"
  shows "store_inv lib x509 (updateDomainSecretsMap x509 s)"
proof -
  have "secrets_exact x509 (updateDomainSecretsMap x509 s)"
    using assms by (intro updateDomainSecretsMap_exact) (simp_all add: inv_but_secrets_def store_wf_def)
  then show ?thesis
    using assms unfolding store_inv_def inv_but_secrets_def store_wf_def uid_indices_ok_def exact_defs
    by (simp add: updateDomainSecretsMap_eq)
qed

lemma inv_but_secretsI: "store_inv lib x509 s \<Longrightarrow> inv_but_secrets lib s"
  by (simp add: store_inv_def inv_but_secrets_def secrets_exact_def)

section \<open>The whole load\<close>

text \<open>A loop leaves the maps of the other kinds alone.\<close>

lemma fold_frame: "(\<And>r s. f (load r s) = f s) \<Longrightarrow> f (fold load rs s) = f s"
  by (induction rs arbitrary: s) simp_all

lemma frame_load_accessLog [simp]:
  "virtualServices (fold load_accessLog rs s) = virtualServices s"
  "listeners (fold load_accessLog rs s) = listeners s"
  "clusters (fold load_accessLog rs s) = clusters s"
  "routes (fold load_accessLog rs s) = routes s"
  "virtualServiceTemplates (fold load_accessLog rs s) = virtualServiceTemplates s"
  "httpFilters (fold load_accessLog rs s) = httpFilters s"
  "policies (fold load_accessLog rs s) = policies s"
  "tracings (fold load_accessLog rs s) = tracings s"
  "secrets (fold load_accessLog rs s) = secrets s"
  by (rule fold_frame, simp add: load_accessLog_def Let_def split: prod.split)+

lemma frame_load_virtualService [simp]:
  "accessLogs (fold load_virtualService rs s) = accessLogs s"
  "listeners (fold load_virtualService rs s) = listeners s"
  "clusters (fold load_virtualService rs s) = clusters s"
  "routes (fold load_virtualService rs s) = routes s"
  "virtualServiceTemplates (fold load_virtualService rs s) = virtualServiceTemplates s"
  "httpFilters (fold load_virtualService rs s) = httpFilters s"
  "policies (fold load_virtualService rs s) = policies s"
  "tracings (fold load_virtualService rs s) = tracings s"
  "secrets (fold load_virtualService rs s) = secrets s"
  by (rule fold_frame, simp add: load_virtualService_def Let_def updateTemplateIndex_eq split: prod.split)+

lemma frame_load_listener [simp]:
  "accessLogs (fold load_listener rs s) = accessLogs s"
  "virtualServices (fold load_listener rs s) = virtualServices s"
  "clusters (fold load_listener rs s) = clusters s"
  "routes (fold load_listener rs s) = routes s"
  "virtualServiceTemplates (fold load_listener rs s) = virtualServiceTemplates s"
  "httpFilters (fold load_listener rs s) = httpFilters s"
  "policies (fold load_listener rs s) = policies s"
  "tracings (fold load_listener rs s) = tracings s"
  "secrets (fold load_listener rs s) = secrets s"
  by (rule fold_frame, simp add: load_listener_def Let_def split: prod.split)+

lemma frame_load_cluster [simp]:
  "accessLogs (fold (load_cluster lib) rs s) = accessLogs s"
  "virtualServices (fold (load_cluster lib) rs s) = virtualServices s"
  "listeners (fold (load_cluster lib) rs s) = listeners s"
  "routes (fold (load_cluster lib) rs s) = routes s"
  "virtualServiceTemplates (fold (load_cluster lib) rs s) = virtualServiceTemplates s"
  "httpFilters (fold (load_cluster lib) rs s) = httpFilters s"
  "policies (fold (load_cluster lib) rs s) = policies s"
  "tracings (fold (load_cluster lib) rs s) = tracings s"
  "secrets (fold (load_cluster lib) rs s) = secrets s"
  by (rule fold_frame, simp add: load_cluster_def Let_def split: prod.split sum.split)+

lemma frame_load_route [simp]:
  "accessLogs (fold load_route rs s) = accessLogs s"
  "virtualServices (fold load_route rs s) = virtualServices s"
  "listeners (fold load_route rs s) = listeners s"
  "clusters (fold load_route rs s) = clusters s"
  "virtualServiceTemplates (fold load_route rs s) = virtualServiceTemplates s"
  "httpFilters (fold load_route rs s) = httpFilters s"
  "policies (fold load_route rs s) = policies s"
  "tracings (fold load_route rs s) = tracings s"
  "secrets (fold load_route rs s) = secrets s"
  by (rule fold_frame, simp add: load_route_def Let_def split: prod.split)+

lemma frame_load_virtualServiceTemplate [simp]:
  "accessLogs (fold load_virtualServiceTemplate rs s) = accessLogs s"
  "virtualServices (fold load_virtualServiceTemplate rs s) = virtualServices s"
  "listeners (fold load_virtualServiceTemplate rs s) = listeners s"
  "clusters (fold load_virtualServiceTemplate rs s) = clusters s"
  "routes (fold load_virtualServiceTemplate rs s) = routes s"
  "httpFilters (fold load_virtualServiceTemplate rs s) = httpFilters s"
  "policies (fold load_virtualServiceTemplate rs s) = policies s"
  "tracings (fold load_virtualServiceTemplate rs s) = tracings s"
  "secrets (fold load_virtualServiceTemplate rs s) = secrets s"
  by (rule fold_frame, simp add: load_virtualServiceTemplate_def Let_def split: prod.split)+

lemma frame_load_httpFilter [simp]:
  "accessLogs (fold load_httpFilter rs s) = accessLogs s"
  "virtualServices (fold load_httpFilter rs s) = virtualServices s"
  "listeners (fold load_httpFilter rs s) = listeners s"
  "clusters (fold load_httpFilter rs s) = clusters s"
  "routes (fold load_httpFilter rs s) = routes s"
  "virtualServiceTemplates (fold load_httpFilter rs s) = virtualServiceTemplates s"
  "policies (fold load_httpFilter rs s) = policies s"
  "tracings (fold load_httpFilter rs s) = tracings s"
  "secrets (fold load_httpFilter rs s) = secrets s"
  by (rule fold_frame, simp add: load_httpFilter_def Let_def split: prod.split)+

lemma frame_load_policy [simp]:
  "accessLogs (fold load_policy rs s) = accessLogs s"
  "virtualServices (fold load_policy rs s) = virtualServices s"
  "listeners (fold load_policy rs s) = listeners s"
  "clusters (fold load_policy rs s) = clusters s"
  "routes (fold load_policy rs s) = routes s"
  "virtualServiceTemplates (fold load_policy rs s) = virtualServiceTemplates s"
  "httpFilters (fold load_policy rs s) = httpFilters s"
  "tracings (fold load_policy rs s) = tracings s"
  "secrets (fold load_policy rs s) = secrets s"
  by (rule fold_frame, simp add: load_policy_def Let_def split: prod.split)+

lemma frame_load_tracing [simp]:
  "accessLogs (fold load_tracing rs s) = accessLogs s"
  "virtualServices (fold load_tracing rs s) = virtualServices s"
  "listeners (fold load_tracing rs s) = listeners s"
  "clusters (fold load_tracing rs s) = clusters s"
  "routes (fold load_tracing rs s) = routes s"
  "virtualServiceTemplates (fold load_tracing rs s) = virtualServiceTemplates s"
  "httpFilters (fold load_tracing rs s) = httpFilters s"
  "policies (fold load_tracing rs s) = policies s"
  "secrets (fold load_tracing rs s) = secrets s"
  by (rule fold_frame, simp add: load_tracing_def Let_def split: prod.split)+

lemma frame_load_secret [simp]:
  "accessLogs (fold load_secret rs s) = accessLogs s"
  "virtualServices (fold load_secret rs s) = virtualServices s"
  "listeners (fold load_secret rs s) = listeners s"
  "clusters (fold load_secret rs s) = clusters s"
  "routes (fold load_secret rs s) = routes s"
  "virtualServiceTemplates (fold load_secret rs s) = virtualServiceTemplates s"
  "httpFilters (fold load_secret rs s) = httpFilters s"
  "policies (fold load_secret rs s) = policies s"
  "tracings (fold load_secret rs s) = tracings s"
  by (rule fold_frame, simp add: load_secret_def Let_def split: prod.split)+

text \<open>What is asked of the API server's answers, taken together.\<close>

definition snapshot_ok :: "protolib \<Rightarrow> resourceResult \<Rightarrow> bool" where
  "snapshot_ok lib rr \<longleftrightarrow>
     list_ok alc_meta (rr_accessLogs rr) \<and> list_ok vs_meta (rr_vs rr) \<and> list_ok l_meta (rr_listeners rr) \<and>
     list_ok r_meta (rr_routes rr) \<and> list_ok vst_meta (rr_vst rr) \<and> list_ok hf_meta (rr_httpFilters rr) \<and>
     list_ok p_meta (rr_policies rr) \<and> list_ok tr_meta (rr_tracings rr) \<and>
     distinct (map s_nn (rr_secrets rr)) \<and> distinct (map (\<lambda>c. meta_nn (cl_meta c)) (rr_clusters rr)) \<and>
     sorted_wrt (\<lambda>a b. \<not> cluster_clash lib a b) (rr_clusters rr)"

definition loaded :: "resourceResult \<Rightarrow> OptimizedStore \<Rightarrow> bool" where
  "loaded rr s \<longleftrightarrow>
     map_of (accessLogs s) = names_of alc_meta (rr_accessLogs rr) \<and>
     map_of (virtualServices s) = names_of vs_meta (map VirtualService_NormalizeSpec (rr_vs rr)) \<and>
     map_of (listeners s) = names_of l_meta (rr_listeners rr) \<and>
     map_of (clusters s) = names_of cl_meta (rr_clusters rr) \<and>
     map_of (routes s) = names_of r_meta (rr_routes rr) \<and>
     map_of (virtualServiceTemplates s)
       = names_of vst_meta (map VirtualServiceTemplate_NormalizeSpec (rr_vst rr)) \<and>
     map_of (httpFilters s) = names_of hf_meta (rr_httpFilters rr) \<and>
     map_of (policies s) = names_of p_meta (rr_policies rr) \<and>
     map_of (tracings s) = names_of tr_meta (rr_tracings rr) \<and>
     map_of (secrets s) = names_of s_meta (rr_secrets rr)"

lemma New_empty [simp]:
  "accessLogs NewOptimizedStore = []"
  "virtualServices NewOptimizedStore = []"
  "listeners NewOptimizedStore = []"
  "clusters NewOptimizedStore = []"
  "routes NewOptimizedStore = []"
  "virtualServiceTemplates NewOptimizedStore = []"
  "httpFilters NewOptimizedStore = []"
  "policies NewOptimizedStore = []"
  "tracings NewOptimizedStore = []"
  "secrets NewOptimizedStore = []"
  by (simp_all add: NewOptimizedStore_def)

lemma updateDomainSecretsMap_frame [simp]:
  "accessLogs (updateDomainSecretsMap x509 s) = accessLogs s"
  "virtualServices (updateDomainSecretsMap x509 s) = virtualServices s"
  "listeners (updateDomainSecretsMap x509 s) = listeners s"
  "clusters (updateDomainSecretsMap x509 s) = clusters s"
  "routes (updateDomainSecretsMap x509 s) = routes s"
  "virtualServiceTemplates (updateDomainSecretsMap x509 s) = virtualServiceTemplates s"
  "httpFilters (updateDomainSecretsMap x509 s) = httpFilters s"
  "policies (updateDomainSecretsMap x509 s) = policies s"
  "tracings (updateDomainSecretsMap x509 s) = tracings s"
  "secrets (updateDomainSecretsMap x509 s) = secrets s"
  by (simp_all add: updateDomainSecretsMap_eq)

lemma fill_steps:
  assumes "snapshot_ok lib rr"
  defines "s1 \<equiv> fold load_accessLog (rr_accessLogs rr) NewOptimizedStore"
  defines "s2 \<equiv> fold load_virtualService (rr_vs rr) s1"
  defines "s3 \<equiv> fold load_listener (rr_listeners rr) s2"
  defines "s4 \<equiv> fold (load_cluster lib) (rr_clusters rr) s3"
  defines "s5 \<equiv> fold load_route (rr_routes rr) s4"
  defines "s6 \<equiv> fold load_virtualServiceTemplate (rr_vst rr) s5"
  defines "s7 \<equiv> fold load_httpFilter (rr_httpFilters rr) s6"
  defines "s8 \<equiv> fold load_policy (rr_policies rr) s7"
  defines "s9 \<equiv> fold load_tracing (rr_tracings rr) s8"
  defines "s10 \<equiv> fold load_secret (rr_secrets rr) s9"
  shows "store_inv lib x509 (updateDomainSecretsMap x509 s10) \<and>
    loaded rr (updateDomainSecretsMap x509 s10)"
proof -
  note ok = assms(1) [unfolded snapshot_ok_def]
  have 1: "store_inv lib x509 s1" "map_of (accessLogs s1) = names_of alc_meta (rr_accessLogs rr)"
    using fold_accessLog [OF store_inv_New] ok by (simp_all add: s1_def)
  have 2: "store_inv lib x509 s2"
    "map_of (virtualServices s2) = names_of vs_meta (map VirtualService_NormalizeSpec (rr_vs rr))"
    using fold_virtualService [OF 1(1)] ok by (simp_all add: s2_def s1_def)
  have 3: "store_inv lib x509 s3" "map_of (listeners s3) = names_of l_meta (rr_listeners rr)"
    using fold_listener [OF 2(1)] ok by (simp_all add: s3_def s2_def s1_def)
  have 4: "store_inv lib x509 s4" "map_of (clusters s4) = names_of cl_meta (rr_clusters rr)"
    using fold_cluster [OF 3(1)] ok by (simp_all add: s4_def s3_def s2_def s1_def)
  have 5: "store_inv lib x509 s5" "map_of (routes s5) = names_of r_meta (rr_routes rr)"
    using fold_route [OF 4(1)] ok by (simp_all add: s5_def s4_def s3_def s2_def s1_def)
  have 6: "store_inv lib x509 s6"
    "map_of (virtualServiceTemplates s6)
      = names_of vst_meta (map VirtualServiceTemplate_NormalizeSpec (rr_vst rr))"
    using fold_virtualServiceTemplate [OF 5(1)] ok
    by (simp_all add: s6_def s5_def s4_def s3_def s2_def s1_def)
  have 7: "store_inv lib x509 s7" "map_of (httpFilters s7) = names_of hf_meta (rr_httpFilters rr)"
    using fold_httpFilter [OF 6(1)] ok by (simp_all add: s7_def s6_def s5_def s4_def s3_def s2_def s1_def)
  have 8: "store_inv lib x509 s8" "map_of (policies s8) = names_of p_meta (rr_policies rr)"
    using fold_policy [OF 7(1)] ok by (simp_all add: s8_def s7_def s6_def s5_def s4_def s3_def s2_def s1_def)
  have 9: "store_inv lib x509 s9" "map_of (tracings s9) = names_of tr_meta (rr_tracings rr)"
    using fold_tracing [OF 8(1)] ok
    by (simp_all add: s9_def s8_def s7_def s6_def s5_def s4_def s3_def s2_def s1_def)
  have 10: "inv_but_secrets lib s10" "map_of (secrets s10) = names_of s_meta (rr_secrets rr)"
    using fold_secret [OF inv_but_secretsI [OF 9(1)]] ok
    by (simp_all add: s10_def s9_def s8_def s7_def s6_def s5_def s4_def s3_def s2_def s1_def)
  have "store_inv lib x509 (updateDomainSecretsMap x509 s10)" by (rule inv_after_rebuild [OF 10(1)])
  moreover have "loaded rr (updateDomainSecretsMap x509 s10)"
    using 1(2) 2(2) 3(2) 4(2) 5(2) 6(2) 7(2) 8(2) 9(2) 10(2)
    by (simp add: loaded_def s10_def s9_def s8_def s7_def s6_def s5_def s4_def s3_def s2_def)
  ultimately show ?thesis by blast
qed

lemma fill_ok:
  assumes "set completion = UNIV" "\<forall>l. loader_ok cl l" "snapshot_ok lib (result_of cl)"
  shows "\<exists>s. FillFromKubernetes lib x509 NewOptimizedStore (Some cl) completion = Inr s
    \<and> loaded (result_of cl) s \<and> store_inv lib x509 s"
  using loadResources_ok [OF assms(1,2)] fill_steps [OF assms(3), of x509]
  by (simp add: FillFromKubernetes_def Let_def)

text \<open>
  C7: the initial load. Whatever the order in which the concurrent list calls complete, the
  load of a fresh store returns an error when one of the calls fails, and otherwise a store
  that holds exactly the listed objects (virtual services and templates in normalised form)
  with every index exact, provided names and UIDs are unique within each list and no two
  clusters hold Envoy clusters of one name.
\<close>

theorem FillFromKubernetes_complete:
  assumes "set completion = UNIV"
  shows "((\<exists>l. \<not> loader_ok cl l) \<longrightarrow>
      (\<exists>e. FillFromKubernetes lib x509 s (Some cl) completion = Inl e))
    \<and> ((\<forall>l. loader_ok cl l) \<and> snapshot_ok lib (result_of cl) \<longrightarrow>
      (\<exists>s. FillFromKubernetes lib x509 NewOptimizedStore (Some cl) completion = Inr s
        \<and> loaded (result_of cl) s \<and> store_inv lib x509 s))"
proof (intro conjI impI; (elim conjE)?)
  show "\<exists>e. FillFromKubernetes lib x509 s (Some cl) completion = Inl e" if "\<exists>l. \<not> loader_ok cl l"
    using that loadResources_fail [OF assms] by (fastforce simp: FillFromKubernetes_def)
  show "\<exists>s. FillFromKubernetes lib x509 NewOptimizedStore (Some cl) completion = Inr s
      \<and> loaded (result_of cl) s \<and> store_inv lib x509 s"
    if "\<forall>l. loader_ok cl l" "snapshot_ok lib (result_of cl)"
    by (rule fill_ok [OF assms that])
qed

definition toy_client :: kubeclient where
  "toy_client = \<lparr>List_vs = Inr [vs_a], List_listeners = Inr [], List_clusters = Inr [cluster_x],
     List_accessLogs = Inr [], List_routes = Inr [], List_vst = Inr [], List_httpFilters = Inr [],
     List_policies = Inr [], List_tracings = Inr [], List_secrets = Inr [wild_secret]\<rparr>"

lemma all_loaders: "set loaders = UNIV"
proof -
  have "l \<in> set loaders" for l by (cases l) (simp_all add: loaders_def)
  then show ?thesis by blast
qed

theorem FillFromKubernetes_complete_witness:
  "\<exists>s. FillFromKubernetes toy_lib toy_x509 NewOptimizedStore (Some toy_client) (rev loaders) = Inr s
     \<and> GetCluster s (NN ''prod'' ''x'') = Some cluster_x \<and> store_inv toy_lib toy_x509 s"
proof -
  have ok: "loader_ok toy_client l" for l
    by (cases l) (simp_all add: loader_ok_def loading_def toy_client_def)
  have snap: "snapshot_ok toy_lib (result_of toy_client)"
    by (simp add: snapshot_ok_def result_of_def toy_client_def items_def list_ok_def)
  have "set (rev loaders) = UNIV" by (simp add: all_loaders)
  from FillFromKubernetes_complete [OF this, of toy_client toy_lib toy_x509] ok snap
  obtain s where s: "FillFromKubernetes toy_lib toy_x509 NewOptimizedStore (Some toy_client) (rev loaders) = Inr s"
    "loaded (result_of toy_client) s" "store_inv toy_lib toy_x509 s" by blast
  from s(2) have "GetCluster s (NN ''prod'' ''x'') = Some cluster_x"
    by (simp add: loaded_def GetCluster_def result_of_def toy_client_def items_def names_of_def)
       (simp add: cluster_x_def)
  with s show ?thesis by blast
qed

end
