(* ===== verification/UpdaterSpec.thy ===== *)
theory UpdaterSpec
  imports LightSpec StoreFill
begin

text \<open>
  The state of the updater over time. Each kind of resource offers the updater the same interface,
  a look-up, a write and a removal that keep the store in order; what applying and deleting do to
  the state is proved once from it. The invariant says that store and cache are well formed and
  that stored virtual services and templates are normalised, as the comment on \<open>CacheUpdater\<close> asks.
\<close>

section \<open>What a rebuild leaves alone\<close>

definition normal :: "OptimizedStore \<Rightarrow> bool" where
  "normal s \<longleftrightarrow>
     (\<forall>nn vs. GetVirtualService s nn = Some vs \<longrightarrow> VirtualService_NormalizeSpec vs = vs) \<and>
     (\<forall>nn t. GetVirtualServiceTemplate s nn = Some t \<longrightarrow> VirtualServiceTemplate_NormalizeSpec t = t)"

definition good :: "protolib \<Rightarrow> x509lib \<Rightarrow> OptimizedStore \<Rightarrow> bool" where
  "good lib x509 s \<longleftrightarrow> store_inv lib x509 s \<and> normal s"

definition updater_ok :: "'c env \<Rightarrow> 'c CacheUpdater \<Rightarrow> bool" where
  "updater_ok e c \<longleftrightarrow> good (e_lib e) (e_x509 e) (cu_store c) \<and> sc_wf (cu_snapshotCache c) \<and> cache_ok (e_cp e) (cu_snapshotCache c)"

lemma apply_statuses_eq: "\<exists>st. apply_statuses sts s = s\<lparr>vsStatusStorage := st\<rparr>"
proof -
  have "\<exists>st. fold (\<lambda>(nn, status) store. SetVirtualServiceStatus store nn (Invalid status) (Message status)) sts s = s\<lparr>vsStatusStorage := st\<rparr>"
  proof (induction sts arbitrary: s)
    case Nil
    show ?case by (intro exI [of _ "vsStatusStorage s"]) simp
  next
    case (Cons p sts)
    obtain nn st where p: "p = (nn, st)" by (cases p)
    from Cons.IH [of "SetVirtualServiceStatus s nn (Invalid st) (Message st)"] show ?case
      by (auto simp: p SetVirtualServiceStatus_def)
  qed
  then show ?thesis by (simp add: apply_statuses_def)
qed

lemma apply_statuses_inv: "store_inv lib x509 s \<Longrightarrow> store_inv lib x509 (apply_statuses sts s)"
  unfolding apply_statuses_def by (induction sts arbitrary: s) (auto intro: inv_statuses)

lemma built_store:
  "bt_store (buildSnapshots ctx idx cp lib bld sc s) = s \<or>
   (\<exists>i. bt_store (buildSnapshots ctx idx cp lib bld sc s) = ReplaceNodeDomainsIndex s i)"
  by (auto simp: buildSnapshots_def Let_def split: sum.split prod.split)

lemma rebuild_store:
  obtains i st where "cu_store (snd (rebuildSnapshots e ctx c)) = (cu_store c)\<lparr>nodeDomains := i, vsStatusStorage := st\<rparr>"
proof -
  let ?r = "buildSnapshots ctx (e_idx e) (e_cp e) (e_lib e) (e_bld e) (cu_snapshotCache c) (cu_store c)"
  have c: "cu_store (snd (rebuildSnapshots e ctx c)) = apply_statuses (bt_vsStatuses ?r) (bt_store ?r)"
    by (simp add: rebuildSnapshots_def Let_def split: option.split)
  obtain st where st: "apply_statuses (bt_vsStatuses ?r) (bt_store ?r) = (bt_store ?r)\<lparr>vsStatusStorage := st\<rparr>"
    using apply_statuses_eq by blast
  have "\<exists>i. bt_store ?r = (cu_store c)\<lparr>nodeDomains := i\<rparr>"
    using built_store [of ctx "e_idx e" "e_cp e" "e_lib e" "e_bld e" "cu_snapshotCache c" "cu_store c"]
  proof
    assume "bt_store ?r = cu_store c"
    then show ?thesis by (intro exI [of _ "nodeDomains (cu_store c)"]) simp
  qed (auto simp: ReplaceNodeDomainsIndex_def)
  with c st that show ?thesis by auto
qed

lemma rebuild_inv:
  assumes "store_inv (e_lib e) (e_x509 e) (cu_store c)"
  shows "store_inv (e_lib e) (e_x509 e) (cu_store (snd (rebuildSnapshots e ctx c)))"
proof -
  let ?r = "buildSnapshots ctx (e_idx e) (e_cp e) (e_lib e) (e_bld e) (cu_snapshotCache c) (cu_store c)"
  have c: "cu_store (snd (rebuildSnapshots e ctx c)) = apply_statuses (bt_vsStatuses ?r) (bt_store ?r)"
    by (simp add: rebuildSnapshots_def Let_def split: option.split)
  show ?thesis unfolding c
    using built_store [of ctx "e_idx e" "e_cp e" "e_lib e" "e_bld e" "cu_snapshotCache c" "cu_store c"] assms
    by (auto intro!: apply_statuses_inv inv_ReplaceNodeDomainsIndex)
qed

lemma rebuild_cache:
  "cu_snapshotCache (snd (rebuildSnapshots e ctx c)) =
     bt_cache (buildSnapshots ctx (e_idx e) (e_cp e) (e_lib e) (e_bld e) (cu_snapshotCache c) (cu_store c))"
  by (simp add: rebuildSnapshots_def Let_def split: option.split)

lemma rebuild_ok:
  assumes "cplib_ok (e_cp e)" "updater_ok e c"
  shows "updater_ok e (snd (rebuildSnapshots e ctx c))"
proof -
  obtain i st where s: "cu_store (snd (rebuildSnapshots e ctx c)) = (cu_store c)\<lparr>nodeDomains := i, vsStatusStorage := st\<rparr>"
    by (rule rebuild_store)
  have "normal (cu_store (snd (rebuildSnapshots e ctx c)))"
    unfolding s using assms(2) by (simp add: updater_ok_def good_def normal_def GetVirtualService_def GetVirtualServiceTemplate_def)
  then show ?thesis
    using assms rebuild_inv [of e c ctx] sc_wf_build cache_ok_build unfolding updater_ok_def good_def rebuild_cache by blast
qed

lemma with_store_ok:
  "cplib_ok (e_cp e) \<Longrightarrow> updater_ok e c \<Longrightarrow> good (e_lib e) (e_x509 e) s \<Longrightarrow> updater_ok e (with_store e ctx c s)"
  unfolding with_store_def by (rule rebuild_ok) (simp_all add: updater_ok_def)

section \<open>The interface of a kind of resource\<close>

text \<open>The common shape of the \<open>Apply\<close> and \<open>Delete\<close> methods.\<close>

definition apply_kind :: "'c env \<Rightarrow> ctx \<Rightarrow> 'r option \<Rightarrow> ('r \<Rightarrow> bool) \<Rightarrow> OptimizedStore \<Rightarrow> 'c CacheUpdater \<Rightarrow> 'c CacheUpdater" where
  "apply_kind e ctx prev same s c =
     (case prev of
        None \<Rightarrow> with_store e ctx c s
      | Some p \<Rightarrow> if same p then c else with_store e ctx c s)"

definition delete_kind :: "'c env \<Rightarrow> ctx \<Rightarrow> bool \<Rightarrow> OptimizedStore \<Rightarrow> 'c CacheUpdater \<Rightarrow> 'c CacheUpdater" where
  "delete_kind e ctx existing s c = (if \<not> existing then c else with_store e ctx c s)"

locale resource_kind =
  fixes get :: "OptimizedStore \<Rightarrow> NamespacedName \<Rightarrow> 'r option"
    and put :: "OptimizedStore \<Rightarrow> 'r \<Rightarrow> OptimizedStore"
    and del :: "OptimizedStore \<Rightarrow> NamespacedName \<Rightarrow> OptimizedStore"
    and nn_of :: "'r \<Rightarrow> NamespacedName"
    and admissible :: "OptimizedStore \<Rightarrow> 'r \<Rightarrow> bool"
    and ok :: "OptimizedStore \<Rightarrow> bool"
  assumes ok_put: "ok s \<Longrightarrow> admissible s r \<Longrightarrow> ok (put s r)"
    and ok_del: "ok s \<Longrightarrow> ok (del s nn)"
    and get_put: "ok s \<Longrightarrow> get (put s r) nn = (if nn = nn_of r then Some r else get s nn)"
    and get_del: "ok s \<Longrightarrow> get (del s nn) nn' = (if nn' = nn then None else get s nn')"
    and get_frame: "get (s\<lparr>nodeDomains := i, vsStatusStorage := st\<rparr>) nn = get s nn"
begin

lemma with_store_get: "get (cu_store (with_store e ctx c s)) nn = get s nn"
proof -
  obtain i st where "cu_store (snd (rebuildSnapshots e ctx (c\<lparr>cu_store := s\<rparr>))) = s\<lparr>nodeDomains := i, vsStatusStorage := st\<rparr>"
    by (rule rebuild_store [of e ctx "c\<lparr>cu_store := s\<rparr>"]) simp
  then show ?thesis by (simp add: with_store_def get_frame)
qed

lemma apply_ok:
  assumes "cplib_ok (e_cp e)" "updater_ok e c" "ok = good (e_lib e) (e_x509 e)" "admissible (cu_store c) r"
  shows "updater_ok e (apply_kind e ctx (get (cu_store c) (nn_of r)) same (put (cu_store c) r) c)"
proof -
  have "good (e_lib e) (e_x509 e) (put (cu_store c) r)"
    using ok_put assms(2-4) by (simp add: updater_ok_def)
  with assms(1,2) show ?thesis by (auto simp: apply_kind_def with_store_ok split: option.split)
qed

lemma apply_effect:
  assumes "ok (cu_store c)"
  shows "get (cu_store (apply_kind e ctx (get (cu_store c) (nn_of r)) same (put (cu_store c) r) c)) nn =
    (if nn = nn_of r then
       (case get (cu_store c) nn of Some p \<Rightarrow> if same p then Some p else Some r | None \<Rightarrow> Some r)
     else get (cu_store c) nn)"
  using assms by (auto simp: apply_kind_def with_store_get get_put split: option.split)

lemma delete_ok:
  assumes "cplib_ok (e_cp e)" "updater_ok e c" "ok = good (e_lib e) (e_x509 e)"
  shows "updater_ok e (delete_kind e ctx existing (del (cu_store c) nn) c)"
proof -
  have "good (e_lib e) (e_x509 e) (del (cu_store c) nn)" using ok_del assms(2,3) by (simp add: updater_ok_def)
  with assms(1,2) show ?thesis by (simp add: delete_kind_def with_store_ok)
qed

lemma delete_effect:
  assumes "ok (cu_store c)" "existing \<longleftrightarrow> get (cu_store c) nn \<noteq> None"
  shows "get (cu_store (delete_kind e ctx existing (del (cu_store c) nn) c)) nn' = (if nn' = nn then None else get (cu_store c) nn')"
  using assms by (auto simp: delete_kind_def with_store_get get_del)

end

text \<open>The store operations of every kind keep the stored virtual services and templates of the others.\<close>

lemma good_pool: "good lib x509 s \<Longrightarrow> pool_inv (stringPool s)"
  by (simp add: good_def store_inv_def)

lemma good_frame:
  "good lib x509 s \<Longrightarrow> store_inv lib x509 s' \<Longrightarrow> virtualServices s' = virtualServices s \<Longrightarrow>
     virtualServiceTemplates s' = virtualServiceTemplates s \<Longrightarrow> good lib x509 s'"
  by (simp add: good_def normal_def GetVirtualService_def GetVirtualServiceTemplate_def)

lemma good_inv: "good lib x509 s \<Longrightarrow> store_inv lib x509 s"
  by (simp add: good_def)

interpretation lk: resource_kind GetListener SetListener DeleteListener "\<lambda>r. meta_nn (l_meta r)" "\<lambda>s r. uid_free l_meta (listeners s) r" "good lib x509"
  for lib x509
proof
  show "good lib x509 s \<Longrightarrow> uid_free l_meta (listeners s) r \<Longrightarrow> good lib x509 (SetListener s r)" for s r
    by (rule good_frame [of lib x509 s]) (assumption, blast intro: inv_SetListener good_inv, simp_all add: SetListener_eq good_pool)
  show "good lib x509 s \<Longrightarrow> good lib x509 (DeleteListener s nn)" for s nn
    by (rule good_frame [of lib x509 s]) (assumption, blast intro: inv_DeleteListener good_inv, simp_all add: DeleteListener_def split: option.split)
qed (auto simp: good_pool GetListener_def SetListener_eq DeleteListener_def split: option.split)

interpretation rk: resource_kind GetRoute SetRoute DeleteRoute "\<lambda>r. meta_nn (r_meta r)" "\<lambda>s r. uid_free r_meta (routes s) r" "good lib x509"
  for lib x509
proof
  show "good lib x509 s \<Longrightarrow> uid_free r_meta (routes s) r \<Longrightarrow> good lib x509 (SetRoute s r)" for s r
    by (rule good_frame [of lib x509 s]) (assumption, blast intro: inv_SetRoute good_inv, simp_all add: SetRoute_eq good_pool)
  show "good lib x509 s \<Longrightarrow> good lib x509 (DeleteRoute s nn)" for s nn
    by (rule good_frame [of lib x509 s]) (assumption, blast intro: inv_DeleteRoute good_inv, simp_all add: DeleteRoute_def split: option.split)
qed (auto simp: good_pool GetRoute_def SetRoute_eq DeleteRoute_def split: option.split)

interpretation hk: resource_kind GetHTTPFilter SetHTTPFilter DeleteHTTPFilter "\<lambda>r. meta_nn (hf_meta r)" "\<lambda>s r. uid_free hf_meta (httpFilters s) r" "good lib x509"
  for lib x509
proof
  show "good lib x509 s \<Longrightarrow> uid_free hf_meta (httpFilters s) r \<Longrightarrow> good lib x509 (SetHTTPFilter s r)" for s r
    by (rule good_frame [of lib x509 s]) (assumption, blast intro: inv_SetHTTPFilter good_inv, simp_all add: SetHTTPFilter_eq good_pool)
  show "good lib x509 s \<Longrightarrow> good lib x509 (DeleteHTTPFilter s nn)" for s nn
    by (rule good_frame [of lib x509 s]) (assumption, blast intro: inv_DeleteHTTPFilter good_inv, simp_all add: DeleteHTTPFilter_def split: option.split)
qed (auto simp: good_pool GetHTTPFilter_def SetHTTPFilter_eq DeleteHTTPFilter_def split: option.split)

interpretation ak: resource_kind GetAccessLog SetAccessLog DeleteAccessLog "\<lambda>r. meta_nn (alc_meta r)" "\<lambda>s r. uid_free alc_meta (accessLogs s) r" "good lib x509"
  for lib x509
proof
  show "good lib x509 s \<Longrightarrow> uid_free alc_meta (accessLogs s) r \<Longrightarrow> good lib x509 (SetAccessLog s r)" for s r
    by (rule good_frame [of lib x509 s]) (assumption, blast intro: inv_SetAccessLog good_inv, simp_all add: SetAccessLog_eq good_pool)
  show "good lib x509 s \<Longrightarrow> good lib x509 (DeleteAccessLog s nn)" for s nn
    by (rule good_frame [of lib x509 s]) (assumption, blast intro: inv_DeleteAccessLog good_inv, simp_all add: DeleteAccessLog_def split: option.split)
qed (auto simp: good_pool GetAccessLog_def SetAccessLog_eq DeleteAccessLog_def split: option.split)

interpretation pk: resource_kind GetPolicy SetPolicy DeletePolicy "\<lambda>r. meta_nn (p_meta r)" "\<lambda>s r. uid_free p_meta (policies s) r" "good lib x509"
  for lib x509
proof
  show "good lib x509 s \<Longrightarrow> uid_free p_meta (policies s) r \<Longrightarrow> good lib x509 (SetPolicy s r)" for s r
    by (rule good_frame [of lib x509 s]) (assumption, blast intro: inv_SetPolicy good_inv, simp_all add: SetPolicy_eq good_pool)
  show "good lib x509 s \<Longrightarrow> good lib x509 (DeletePolicy s nn)" for s nn
    by (rule good_frame [of lib x509 s]) (assumption, blast intro: inv_DeletePolicy good_inv, simp_all add: DeletePolicy_def split: option.split)
qed (auto simp: good_pool GetPolicy_def SetPolicy_eq DeletePolicy_def split: option.split)

interpretation tk: resource_kind GetTracing SetTracing DeleteTracing "\<lambda>r. meta_nn (tr_meta r)" "\<lambda>s r. uid_free tr_meta (tracings s) r" "good lib x509"
  for lib x509
proof
  show "good lib x509 s \<Longrightarrow> uid_free tr_meta (tracings s) r \<Longrightarrow> good lib x509 (SetTracing s r)" for s r
    by (rule good_frame [of lib x509 s]) (assumption, blast intro: inv_SetTracing good_inv, simp_all add: SetTracing_eq good_pool)
  show "good lib x509 s \<Longrightarrow> good lib x509 (DeleteTracing s nn)" for s nn
    by (rule good_frame [of lib x509 s]) (assumption, blast intro: inv_DeleteTracing good_inv, simp_all add: DeleteTracing_def split: option.split)
qed (auto simp: good_pool GetTracing_def SetTracing_eq DeleteTracing_def split: option.split)

interpretation ck: resource_kind GetCluster "SetCluster lib" "DeleteCluster lib" "\<lambda>r. meta_nn (cl_meta r)"
  "\<lambda>s r. uid_free cl_meta (clusters s) r \<and> key_free cl_meta (spec_key lib) (map_of (clusters s)) r" "good lib x509"
  for lib x509
proof
  show "good lib x509 s \<Longrightarrow> uid_free cl_meta (clusters s) r \<and> key_free cl_meta (spec_key lib) (map_of (clusters s)) r \<Longrightarrow>
      good lib x509 (SetCluster lib s r)" for s r
    by (rule good_frame [of lib x509 s]) (assumption, blast intro: inv_SetCluster good_inv, simp_all add: SetCluster_eq good_pool)
  show "good lib x509 s \<Longrightarrow> good lib x509 (DeleteCluster lib s nn)" for s nn
    by (rule good_frame [of lib x509 s]) (assumption, blast intro: inv_DeleteCluster good_inv, simp_all add: DeleteCluster_eq split: option.split)
qed (auto simp: good_pool GetCluster_def SetCluster_eq DeleteCluster_eq split: option.split)

interpretation sk: resource_kind GetSecret "SetSecret x509" DeleteSecret "\<lambda>r. meta_nn (s_meta r)" "\<lambda>s r. True" "good lib x509"
  for lib x509
proof
  show "good lib x509 s \<Longrightarrow> True \<Longrightarrow> good lib x509 (SetSecret x509 s r)" for s r
    by (rule good_frame [of lib x509 s]) (assumption, blast intro: inv_SetSecret good_inv, simp_all add: SetSecret_eq good_pool)
  show "good lib x509 s \<Longrightarrow> good lib x509 (DeleteSecret s nn)" for s nn
    by (rule good_frame [of lib x509 s]) (assumption, blast intro: inv_DeleteSecret good_inv, simp_all add: DeleteSecret_eq split: option.split)
qed (auto simp: good_pool GetSecret_def SetSecret_eq DeleteSecret_eq split: option.split)

interpretation vk: resource_kind GetVirtualService SetVirtualService DeleteVirtualService vs_nn
  "\<lambda>s r. uid_free vs_meta (virtualServices s) r \<and> VirtualService_NormalizeSpec r = r" "good lib x509"
  for lib x509
proof
  show "good lib x509 s \<Longrightarrow> uid_free vs_meta (virtualServices s) r \<and> VirtualService_NormalizeSpec r = r \<Longrightarrow>
      good lib x509 (SetVirtualService s r)" for s r
    by (simp add: good_def inv_SetVirtualService normal_def)
       (auto simp: GetVirtualService_def GetVirtualServiceTemplate_def SetVirtualService_eq store_inv_def split: if_splits)
  show "good lib x509 s \<Longrightarrow> good lib x509 (DeleteVirtualService s nn)" for s nn
    by (simp add: good_def inv_DeleteVirtualService normal_def)
       (auto simp: GetVirtualService_def GetVirtualServiceTemplate_def DeleteVirtualService_eq split: option.splits if_splits)
qed (auto simp: good_pool GetVirtualService_def SetVirtualService_eq DeleteVirtualService_eq split: option.split)

interpretation mk: resource_kind GetVirtualServiceTemplate SetVirtualServiceTemplate DeleteVirtualServiceTemplate
  "\<lambda>r. meta_nn (vst_meta r)"
  "\<lambda>s r. uid_free vst_meta (virtualServiceTemplates s) r \<and> VirtualServiceTemplate_NormalizeSpec r = r" "good lib x509"
  for lib x509
proof
  show "good lib x509 s \<Longrightarrow> uid_free vst_meta (virtualServiceTemplates s) r \<and> VirtualServiceTemplate_NormalizeSpec r = r \<Longrightarrow>
      good lib x509 (SetVirtualServiceTemplate s r)" for s r
    by (simp add: good_def inv_SetVirtualServiceTemplate normal_def)
       (auto simp: GetVirtualService_def GetVirtualServiceTemplate_def SetVirtualServiceTemplate_eq store_inv_def split: if_splits)
  show "good lib x509 s \<Longrightarrow> good lib x509 (DeleteVirtualServiceTemplate s nn)" for s nn
    by (simp add: good_def inv_DeleteVirtualServiceTemplate normal_def)
       (auto simp: GetVirtualService_def GetVirtualServiceTemplate_def DeleteVirtualServiceTemplate_def split: option.splits if_splits)
qed (auto simp: good_pool GetVirtualServiceTemplate_def SetVirtualServiceTemplate_eq DeleteVirtualServiceTemplate_def split: option.split)

section \<open>Runs of the updater\<close>

text \<open>The methods in the common shape.\<close>

lemma methods:
  "ApplyListener e ctx l c = apply_kind e ctx (GetListener (cu_store c) (meta_nn (l_meta l)))
     (\<lambda>p. Listener_IsEqual (Some p) (Some l)) (SetListener (cu_store c) l) c"
  "ApplyRoute e ctx r c = apply_kind e ctx (GetRoute (cu_store c) (meta_nn (r_meta r)))
     (\<lambda>p. Route_IsEqual (Some p) (Some r)) (SetRoute (cu_store c) r) c"
  "ApplyHTTPFilter e ctx h c = apply_kind e ctx (GetHTTPFilter (cu_store c) (meta_nn (hf_meta h)))
     (\<lambda>p. HttpFilter_IsEqual (e_sl e) (Some p) (Some h)) (SetHTTPFilter (cu_store c) h) c"
  "ApplyAccessLogConfig e ctx a c = apply_kind e ctx (GetAccessLog (cu_store c) (meta_nn (alc_meta a)))
     (\<lambda>p. AccessLogConfig_IsEqual (Some p) (Some a)) (SetAccessLog (cu_store c) a) c"
  "ApplyPolicy e ctx p c = apply_kind e ctx (GetPolicy (cu_store c) (meta_nn (p_meta p)))
     (\<lambda>q. Policy_IsEqual (Some q) (Some p)) (SetPolicy (cu_store c) p) c"
  "ApplyTracing e ctx t c = apply_kind e ctx (GetTracing (cu_store c) (meta_nn (tr_meta t)))
     (\<lambda>p. Tracing_IsEqual (Some p) (Some t)) (SetTracing (cu_store c) t) c"
  "ApplyCluster e ctx k c = apply_kind e ctx (GetCluster (cu_store c) (meta_nn (cl_meta k)))
     (\<lambda>p. Cluster_IsEqual (Some p) (Some k)) (SetCluster (e_lib e) (cu_store c) k) c"
  "ApplySecret e ctx x c = apply_kind e ctx (GetSecret (cu_store c) (meta_nn (s_meta x)))
     (\<lambda>p. secretsEqual p x) (SetSecret (e_x509 e) (cu_store c) x) c"
  "ApplyVirtualService e ctx vs c = apply_kind e ctx
     (GetVirtualService (cu_store c) (vs_nn (VirtualService_NormalizeSpec vs)))
     (\<lambda>p. VirtualService_IsEqual (e_sl e) (Some p) (Some (VirtualService_NormalizeSpec vs)))
     (SetVirtualService (cu_store c) (VirtualService_NormalizeSpec vs)) c"
  "snd (ApplyVirtualServiceTemplate e ctx vst c) = apply_kind e ctx
     (GetVirtualServiceTemplate (cu_store c) (meta_nn (vst_meta (VirtualServiceTemplate_NormalizeSpec vst))))
     (\<lambda>p. VirtualServiceTemplate_IsEqual (e_sl e) (Some p) (Some (VirtualServiceTemplate_NormalizeSpec vst)))
     (SetVirtualServiceTemplate (cu_store c) (VirtualServiceTemplate_NormalizeSpec vst)) c"
  "Updater_DeleteListener e ctx nn c = delete_kind e ctx (IsExistingListener (cu_store c) nn) (DeleteListener (cu_store c) nn) c"
  "Updater_DeleteRoute e ctx nn c = delete_kind e ctx (IsExistingRoute (cu_store c) nn) (DeleteRoute (cu_store c) nn) c"
  "Updater_DeleteHTTPFilter e ctx nn c = delete_kind e ctx (IsExistingHTTPFilter (cu_store c) nn) (DeleteHTTPFilter (cu_store c) nn) c"
  "Updater_DeleteAccessLogConfig e ctx nn c = delete_kind e ctx (IsExistingAccessLog (cu_store c) nn) (DeleteAccessLog (cu_store c) nn) c"
  "Updater_DeletePolicy e ctx nn c = delete_kind e ctx (IsExistingPolicy (cu_store c) nn) (DeletePolicy (cu_store c) nn) c"
  "Updater_DeleteTracing e ctx nn c = delete_kind e ctx (IsExistingTracing (cu_store c) nn) (DeleteTracing (cu_store c) nn) c"
  "Updater_DeleteCluster e ctx nn c = delete_kind e ctx (IsExistingCluster (cu_store c) nn) (DeleteCluster (e_lib e) (cu_store c) nn) c"
  "Updater_DeleteSecret e ctx nn c = delete_kind e ctx (IsExistingSecret (cu_store c) nn) (DeleteSecret (cu_store c) nn) c"
  "snd (Updater_DeleteVirtualService e ctx nn c) =
     delete_kind e ctx (IsExistingVirtualService (cu_store c) nn) (DeleteVirtualService (cu_store c) nn) c"
  "snd (Updater_DeleteVirtualServiceTemplate e ctx nn c) =
     delete_kind e ctx (IsExistingVirtualServiceTemplate (cu_store c) nn) (DeleteVirtualServiceTemplate (cu_store c) nn) c"
  by (simp_all add: apply_kind_def delete_kind_def with_store_def Let_def
      ApplyListener_def ApplyRoute_def ApplyHTTPFilter_def ApplyAccessLogConfig_def ApplyPolicy_def ApplyTracing_def
      ApplyCluster_def ApplySecret_def ApplyVirtualService_def ApplyVirtualServiceTemplate_def
      Updater_DeleteListener_def Updater_DeleteRoute_def Updater_DeleteHTTPFilter_def Updater_DeleteAccessLogConfig_def
      Updater_DeletePolicy_def Updater_DeleteTracing_def Updater_DeleteCluster_def Updater_DeleteSecret_def
      Updater_DeleteVirtualService_def Updater_DeleteVirtualServiceTemplate_def split: option.split)

text \<open>
  One call of a method that changes the updater. The UIDs of live objects are unique, and no two
  clusters hold Envoy clusters of one name.
\<close>

inductive updater_step :: "'c env \<Rightarrow> 'c CacheUpdater \<Rightarrow> 'c CacheUpdater \<Rightarrow> bool" for e :: "'c env" where
  step_rebuild: "updater_step e c (snd (RebuildSnapshots e ctx c))"
| step_vs: "uid_free vs_meta (virtualServices (cu_store c)) (VirtualService_NormalizeSpec vs) \<Longrightarrow> updater_step e c (ApplyVirtualService e ctx vs c)"
| step_vst: "uid_free vst_meta (virtualServiceTemplates (cu_store c)) (VirtualServiceTemplate_NormalizeSpec t) \<Longrightarrow>
    updater_step e c (snd (ApplyVirtualServiceTemplate e ctx t c))"
| step_listener: "uid_free l_meta (listeners (cu_store c)) l \<Longrightarrow> updater_step e c (ApplyListener e ctx l c)"
| step_route: "uid_free r_meta (routes (cu_store c)) r \<Longrightarrow> updater_step e c (ApplyRoute e ctx r c)"
| step_filter: "uid_free hf_meta (httpFilters (cu_store c)) h \<Longrightarrow> updater_step e c (ApplyHTTPFilter e ctx h c)"
| step_log: "uid_free alc_meta (accessLogs (cu_store c)) a \<Longrightarrow> updater_step e c (ApplyAccessLogConfig e ctx a c)"
| step_policy: "uid_free p_meta (policies (cu_store c)) p \<Longrightarrow> updater_step e c (ApplyPolicy e ctx p c)"
| step_tracing: "uid_free tr_meta (tracings (cu_store c)) t \<Longrightarrow> updater_step e c (ApplyTracing e ctx t c)"
| step_cluster: "uid_free cl_meta (clusters (cu_store c)) k \<Longrightarrow>
    key_free cl_meta (spec_key (e_lib e)) (map_of (clusters (cu_store c))) k \<Longrightarrow> updater_step e c (ApplyCluster e ctx k c)"
| step_secret: "updater_step e c (ApplySecret e ctx x c)"
| del_vs: "updater_step e c (snd (Updater_DeleteVirtualService e ctx nn c))"
| del_vst: "updater_step e c (snd (Updater_DeleteVirtualServiceTemplate e ctx nn c))"
| del_listener: "updater_step e c (Updater_DeleteListener e ctx nn c)"
| del_route: "updater_step e c (Updater_DeleteRoute e ctx nn c)"
| del_filter: "updater_step e c (Updater_DeleteHTTPFilter e ctx nn c)"
| del_log: "updater_step e c (Updater_DeleteAccessLogConfig e ctx nn c)"
| del_policy: "updater_step e c (Updater_DeletePolicy e ctx nn c)"
| del_tracing: "updater_step e c (Updater_DeleteTracing e ctx nn c)"
| del_cluster: "updater_step e c (Updater_DeleteCluster e ctx nn c)"
| del_secret: "updater_step e c (Updater_DeleteSecret e ctx nn c)"

lemma updater_step_ok:
  assumes "updater_step e c c'" "cplib_ok (e_cp e)" "updater_ok e c"
  shows "updater_ok e c'"
  using assms
proof (induction rule: updater_step.induct)
  case (step_rebuild c ctx)
  then show ?case by (simp add: RebuildSnapshots_def rebuild_ok)
qed (simp_all only: methods,
  (rule vk.apply_ok mk.apply_ok lk.apply_ok rk.apply_ok hk.apply_ok ak.apply_ok pk.apply_ok tk.apply_ok ck.apply_ok sk.apply_ok
     vk.delete_ok mk.delete_ok lk.delete_ok rk.delete_ok hk.delete_ok ak.delete_ok pk.delete_ok tk.delete_ok ck.delete_ok sk.delete_ok;
   (assumption | rule refl | simp add: VirtualService_NormalizeSpec_idem VirtualServiceTemplate_NormalizeSpec_idem))+)

text \<open>A run starts with the initial load, as in \<open>main\<close>.\<close>

inductive updater_reachable :: "'c env \<Rightarrow> 'c CacheUpdater \<Rightarrow> bool" for e :: "'c env" where
  boot: "set completion = UNIV \<Longrightarrow> \<forall>l. loader_ok cl l \<Longrightarrow> snapshot_ok (e_lib e) (result_of cl) \<Longrightarrow>
    FillFromKubernetes (e_lib e) (e_x509 e) NewOptimizedStore (Some cl) completion = Inr s \<Longrightarrow>
    updater_reachable e (NewCacheUpdater (NewSnapshotCache (e_cp e)) s)"
| run: "updater_reachable e c \<Longrightarrow> updater_step e c c' \<Longrightarrow> updater_reachable e c'"

lemma names_of_in: "names_of meta rs nn = Some r \<Longrightarrow> r \<in> set rs"
  by (auto simp: names_of_def dest!: map_of_SomeD)

lemma loaded_normal: "loaded rr s \<Longrightarrow> normal s"
  by (auto simp: loaded_def normal_def GetVirtualService_def GetVirtualServiceTemplate_def
      VirtualService_NormalizeSpec_idem VirtualServiceTemplate_NormalizeSpec_idem dest!: names_of_in)

lemma reachable_ok:
  assumes "updater_reachable e c" "cplib_ok (e_cp e)"
  shows "updater_ok e c"
  using assms
proof (induction rule: updater_reachable.induct)
  case (boot completion cl s)
  from fill_ok [OF boot(1-3), of "e_x509 e"] boot(4) have "loaded (result_of cl) s" "store_inv (e_lib e) (e_x509 e) s" by auto
  moreover have "GetSnapshot (e_cp e) (NewSnapshotCache (e_cp e)) n \<noteq> Inr x" for n x
    using boot.prems by (auto simp: cplib_ok_def GetSnapshot_def NewSnapshotCache_def is_ok_iff)
  ultimately show ?case
    by (simp add: updater_ok_def good_def loaded_normal NewCacheUpdater_def sc_wf_def cache_ok_def)
       (simp add: NewSnapshotCache_def)
next
  case (run c c')
  then show ?case by (blast intro: updater_step_ok)
qed

text \<open>
  In every state the updater can reach from the initial load, by any sequence of applied and
  deleted resources and rebuilds under any cancellations, the store and all its indices are exact,
  every stored virtual service and template is normalised, and the snapshots are well typed.
\<close>

lemma updater_invariant:
  assumes "updater_reachable e c" "cplib_ok (e_cp e)"
  shows "store_inv (e_lib e) (e_x509 e) (cu_store c) \<and>
    (\<forall>nn vs. GetVirtualService (cu_store c) nn = Some vs \<longrightarrow> VirtualService_NormalizeSpec vs = vs) \<and>
    (\<forall>nn t. GetVirtualServiceTemplate (cu_store c) nn = Some t \<longrightarrow> VirtualServiceTemplate_NormalizeSpec t = t) \<and>
    sc_wf (cu_snapshotCache c) \<and> cache_ok (e_cp e) (cu_snapshotCache c)"
  using reachable_ok [OF assms] by (simp add: updater_ok_def good_def normal_def)

section \<open>Statuses after a rebuild\<close>

lemma process_vs_statuses_wf:
  assumes "process_vs ctx idx bld store vs b = Inr b'" "gm_wf (b_vsStatuses b)"
  shows "gm_wf (b_vsStatuses b')"
  using assms
  by (auto simp: process_vs_def exits poll_Inr Let_def set_status_def add_err_def use_secrets_def frame_def
      split: if_splits sum.splits dest!: add_nodes_effect)

lemma collect_statuses_wf:
  assumes "collect ctx idx bld store (new_build\<lparr>b_polls := k\<rparr>) = Inr b"
  shows "gm_wf (b_vsStatuses b)"
proof -
  from assms obtain b1 where b1: "for_each (process_vs ctx idx bld store) (all_vs store) (new_build\<lparr>b_polls := k\<rparr>) = Inr b1"
    and b: "for_each (process_common ctx idx bld store) (b_common b1) b1 = Inr b"
    by (auto simp: collect_def exits)
  from b1 have "gm_wf (b_vsStatuses b1)"
    by (rule for_each_inv [where P = "\<lambda>b. gm_wf (b_vsStatuses b)"]) (simp_all add: process_vs_statuses_wf)
  then show ?thesis by (simp only: process_commons_effect(2) [OF b])
qed

text \<open>Once every virtual service was looked at, the statuses are handed back whatever happens next.\<close>

lemma stage_node_Inl:
  assumes "stage_node ctx cp sc x q = Inl r"
  shows "poll ctx (p_build q) = Inl r"
proof (cases "poll ctx (p_build q)")
  case (Inr b)
  obtain n rm where x: "x = (n, rm)" by (cases x)
  show ?thesis
  proof (cases "node_snapshot cp sc n rm")
    case (Inr sh)
    obtain s h where sh: "sh = (s, h)" by (cases sh)
    show ?thesis
      by (cases "if h then cp_Consistent cp s else None")
         (use assms \<open>poll _ _ = _\<close> Inr in \<open>simp_all add: stage_node_def x sh Let_def\<close>)
  qed (use assms Inr in \<open>simp add: stage_node_def x Let_def\<close>)
qed (use assms in \<open>simp add: stage_node_def split: prod.splits\<close>)

lemma multierr_Nil: "multierr_Combine [] = None"
  by (simp add: multierr_Combine_def)

lemma poll_exit: "poll ctx b = Inl (err, us, sts) \<Longrightarrow> sts = b_vsStatuses b"
  by (auto simp: poll_def split: option.splits)

lemma stage_exit:
  assumes "for_each (stage_node ctx cp sc) xs p = Inl (err, us, sts)"
  shows "sts = b_vsStatuses (p_build p)"
proof -
  have "(\<lambda>(_, _, sts). sts = b_vsStatuses (p_build p)) (err, us, sts)"
    using assms
  proof (rule for_each_exit [where P = "\<lambda>q. b_vsStatuses (p_build q) = b_vsStatuses (p_build p)"])
    show "b_vsStatuses (p_build q') = b_vsStatuses (p_build p)"
      if "b_vsStatuses (p_build q) = b_vsStatuses (p_build p)" "stage_node ctx cp sc x q = Inr q'" for x q q'
      using stage_node_frame [OF that(2)] that(1) by simp
    show "(\<lambda>(_, _, sts). sts = b_vsStatuses (p_build p)) (err, us, sts)"
      if "b_vsStatuses (p_build q) = b_vsStatuses (p_build p)" "stage_node ctx cp sc x q = Inl (err, us, sts)" for x q
      using poll_exit [OF stage_node_Inl [OF that(2)]] that(1) by simp
  qed simp
  then show ?thesis by simp
qed

lemma built_statuses:
  assumes "ctx 0 = None" "collect ctx idx bld store (new_build\<lparr>b_polls := 1\<rparr>) = Inr b"
  shows "bt_vsStatuses (buildSnapshots ctx idx cp lib bld sc store) = b_vsStatuses b"
proof (cases "make_plan ctx idx cp lib bld sc store")
  case (Inl x)
  obtain err us sts where x: "x = (err, us, sts)" by (cases x)
  note plan = Inl [unfolded x make_plan_def assms option.case and_then_simps]
  have "sts = b_vsStatuses b"
  proof (cases "poll ctx b")
    case (Inl y)
    with plan show ?thesis by (simp add: poll_exit)
  next
    case (Inr b2)
    then have b2: "b_vsStatuses b2 = b_vsStatuses b" by (auto simp: poll_Inr)
    show ?thesis
    proof (cases "Mix lib (b_mixer b2) store")
      case (Inl e)
      with plan Inr b2 show ?thesis by simp
    next
      case mix: (Inr tmp)
      let ?p = "\<lparr>p_build = b2, p_staged = [], p_nodeIDsForCleanup = GetNodeIDsAsMap sc\<rparr>"
      show ?thesis
      proof (cases "for_each (stage_node ctx cp sc) tmp ?p")
        case (Inl y)
        with plan Inr mix have "for_each (stage_node ctx cp sc) tmp ?p = Inl (err, us, sts)" by simp
        from stage_exit [OF this] b2 show ?thesis by simp
      next
        case st: (Inr p1)
        with stage_frame [OF st] b2 have p1: "b_vsStatuses (p_build p1) = b_vsStatuses b" by simp
        show ?thesis
          by (cases "multierr_Combine (b_errs (p_build p1))")
             (use plan Inr mix st p1 in \<open>auto simp: and_then_Inl multierr_Nil dest: poll_exit\<close>)
      qed
    qed
  qed
  with Inl show ?thesis by (simp add: buildSnapshots_def x)
next
  case (Inr p)
  then obtain b' where "collect ctx idx bld store (new_build\<lparr>b_polls := 1\<rparr>) = Inr b'" "b_vsStatuses (p_build p) = b_vsStatuses b'"
    by (rule make_plan_Inr)
  with assms(2) Inr show ?thesis by (simp add: buildSnapshots_def Let_def case_prod_beta)
qed

lemma apply_statuses_get:
  "gm_wf sts \<Longrightarrow> GetStatus (vsStatusStorage (apply_statuses sts s)) nn =
     (case map_of sts nn of Some st \<Rightarrow> st | None \<Rightarrow> GetStatus (vsStatusStorage s) nn)"
  unfolding apply_statuses_def
proof (induction sts arbitrary: s)
  case (Cons p sts)
  obtain k st where p: "p = (k, st)" by (cases p)
  have wf: "gm_wf sts" "map_of sts k = None" using Cons.prems by (auto simp: p gm_wf_def map_of_eq_None_iff)
  from Cons.IH [OF wf(1), of "SetVirtualServiceStatus s k (Invalid st) (Message st)"] wf(2) show ?case
    by (auto simp: p SetVirtualServiceStatus_def GetStatus_SetStatus split: option.split)
qed simp

text \<open>
  C24: after a rebuild in which every virtual service was looked at, successful or not, each one is
  reported with the status it earned: invalid with the root cause when it names no node or fails to
  build, valid otherwise, nothing else of it changed. A virtual service for all nodes is reported
  valid even when it fails to build, although the rebuild then returns an error.
\<close>

theorem statuses_reported:
  assumes "updater_reachable e c" "cplib_ok (e_cp e)" "ctx 0 = None"
    and "collect ctx (e_idx e) (e_bld e) (cu_store c) (new_build\<lparr>b_polls := 1\<rparr>) = Inr b"
    and "GetVirtualService (cu_store c) nn = Some vs"
  shows "let st = build_status (e_bld e) (cu_store c) vs;
             (err, c') = rebuildSnapshots e ctx c
         in Updater_GetVirtualServiceWithStatus c' nn =
              Some (vs\<lparr>vs_Status := (vs_Status vs)\<lparr>st_Invalid := Invalid st, st_Message := Message st\<rparr>\<rparr>) \<and>
            (\<not> is_ok (e_bld e vs (cu_store c)) \<or> GetNodeIDs vs = [] \<longrightarrow>
               err \<noteq> None \<and> (Invalid st \<longleftrightarrow> \<not> is_common vs))"
proof -
  let ?r = "buildSnapshots ctx (e_idx e) (e_cp e) (e_lib e) (e_bld e) (cu_snapshotCache c) (cu_store c)"
  let ?st = "build_status (e_bld e) (cu_store c) vs"
  obtain err c' where rb: "rebuildSnapshots e ctx c = (err, c')" by fastforce
  have inv: "store_inv (e_lib e) (e_x509 e) (cu_store c)" using reachable_ok [OF assms(1,2)] by (simp add: updater_ok_def good_def)
  note se = statuses_exact [OF inv assms(4,5)]
  have sts: "bt_vsStatuses ?r = b_vsStatuses b" by (rule built_statuses [OF assms(3,4)])
  have c': "cu_store c' = apply_statuses (b_vsStatuses b) (bt_store ?r)" and err: "err = bt_err ?r"
    using rb sts by (auto simp: rebuildSnapshots_def Let_def split: option.splits)
  have st: "GetStatus (vsStatusStorage (cu_store c')) nn = ?st"
    using apply_statuses_get [OF collect_statuses_wf [OF assms(4)]] se unfolding c' by simp
  obtain i s' where "cu_store c' = (cu_store c)\<lparr>nodeDomains := i, vsStatusStorage := s'\<rparr>"
    by (rule rebuild_store [of e ctx c]) (simp add: rb)
  then have "map_of (virtualServices (cu_store c')) nn = Some vs" using assms(5) by (simp add: GetVirtualService_def)
  then have read: "Updater_GetVirtualServiceWithStatus c' nn =
      Some (vs\<lparr>vs_Status := (vs_Status vs)\<lparr>st_Invalid := Invalid ?st, st_Message := Message ?st\<rparr>\<rparr>)"
    using st stored_vs(2) [OF inv assms(5)]
    by (simp add: Updater_GetVirtualServiceWithStatus_def GetVirtualServiceWithStatus_def ApplyStatusToVS_def Let_def)
  have "err \<noteq> None" if "\<not> is_ok (e_bld e vs (cu_store c)) \<or> GetNodeIDs vs = []"
  proof
    assume "err = None"
    then have "bt_err ?r = None" using err by simp
    then obtain p where "make_plan ctx (e_idx e) (e_cp e) (e_lib e) (e_bld e) (cu_snapshotCache c) (cu_store c) = Inr p"
      by (rule buildSnapshots_ok)
    then obtain b' where "collect ctx (e_idx e) (e_bld e) (cu_store c) (new_build\<lparr>b_polls := 1\<rparr>) = Inr b'" "b_errs b' = []"
      by (rule make_plan_Inr)
    with assms(4) have "b_errs b = []" by simp
    with se that show False by blast
  qed
  with read se show ?thesis unfolding Let_def rb prod.case by blast
qed

end
