(* ===== verification/ResBuilder.thy ===== *)
theory ResBuilder
  imports Clusters Build
begin

text \<open>
  Building the resources of one virtual service: \<^verbatim>\<open>internal/xds/resbuilder/main_builder\<close> and the
  entry point \<open>BuildResources\<close> of \<^verbatim>\<open>internal/xds/resbuilder/builder.go\<close>. The caches of filters and
  clusters live as long as the process and are the state \<open>caches\<close>; the cache of whole results
  belongs to one builder. A status message left by a deprecated field is written to the
  virtual service the caller handed in, which is returned beside the result. A panic is an
  error here: the entry point turns the one into the other.
\<close>

section \<open>Parameters and state\<close>

record reslib =
  x_proto :: protolib
  x_filter :: filterlib
  x_chain :: chainlib
  x_cluster :: clusterlib
  x_spec :: speclib
  x_marshal_spec :: "VirtualService \<Rightarrow> bytes res"

text \<open>The instants at which one call reads the clock: each cache is read and written at most once.\<close>

record times =
  t_main :: "int \<times> int"
  t_filters :: "int \<times> int"
  t_tls :: clock
  t_oauth2 :: "int \<times> int"
  t_tracing :: "int \<times> int"
  t_tracingRef :: "int \<times> int"

record caches =
  k_filters :: filter_state
  k_clusters :: ClusterLRUCache

section \<open>The cache of whole results\<close>

record cacheEntry =
  ce_key :: string
  ce_resource :: Resources
  ce_createdAt :: int

text \<open>As in the other caches, list elements have identities the map points to.\<close>

record resourcesCache =
  rc_maxSize :: int
  rc_ttl :: int
  rc_ll :: "(nat \<times> cacheEntry) list"
  rc_elements :: "(string, nat) gomap"
  rc_next :: nat

definition newResourcesCache :: resourcesCache where
  "newResourcesCache = \<lparr>rc_maxSize = 100, rc_ttl = 5 * 60 * 1000000000, rc_ll = [], rc_elements = [], rc_next = 0\<rparr>"

definition resourcesCache_get :: "resourcesCache \<Rightarrow> string \<Rightarrow> int \<Rightarrow> Resources option \<times> resourcesCache" where
  "resourcesCache_get c key now =
     (case map_of (rc_elements c) key of
        None \<Rightarrow> (None, c)
      | Some element \<Rightarrow>
          (case map_of (rc_ll c) element of
             None \<Rightarrow> (None, c)
           | Some entry \<Rightarrow>
               if now - ce_createdAt entry > rc_ttl c
               then (None, c\<lparr>rc_ll := filter (\<lambda>p. fst p \<noteq> element) (rc_ll c), rc_elements := gm_del key (rc_elements c)\<rparr>)
               else (Some (ce_resource entry),
                 c\<lparr>rc_ll := (element, entry) # filter (\<lambda>p. fst p \<noteq> element) (rc_ll c)\<rparr>)))"

definition resourcesCache_set :: "resourcesCache \<Rightarrow> string \<Rightarrow> Resources \<Rightarrow> int \<Rightarrow> resourcesCache" where
  "resourcesCache_set c key resource now =
     (case map_of (rc_elements c) key of
        Some element \<Rightarrow>
          c\<lparr>rc_ll := (element, \<lparr>ce_key = key, ce_resource = resource, ce_createdAt = now\<rparr>)
              # filter (\<lambda>p. fst p \<noteq> element) (rc_ll c)\<rparr>
      | None \<Rightarrow>
          (let c = (if int (length (rc_ll c)) \<ge> rc_maxSize c \<and> rc_ll c \<noteq> []
                 then c\<lparr>rc_ll := butlast (rc_ll c), rc_elements := gm_del (ce_key (snd (last (rc_ll c)))) (rc_elements c)\<rparr>
                 else c)
           in c\<lparr>rc_ll := (rc_next c, \<lparr>ce_key = key, ce_resource = resource, ce_createdAt = now\<rparr>) # rc_ll c,
                rc_elements := gm_put key (rc_next c) (rc_elements c), rc_next := rc_next c + 1\<rparr>))"

definition generateCacheKey :: "reslib \<Rightarrow> VirtualService \<Rightarrow> string" where
  "generateCacheKey xl vs =
     sha256_hex (x_filter xl) (m_Name (vs_meta vs) @ m_Namespace (vs_meta vs) @ Itoa (m_Generation (vs_meta vs))
       @ (case x_marshal_spec xl vs of Inl _ \<Rightarrow> [] | Inr d \<Rightarrow> d))"

section \<open>Parts\<close>

definition applyVirtualServiceTemplate :: "reslib \<Rightarrow> OptimizedStore \<Rightarrow> VirtualService \<Rightarrow> VirtualService res" where
  "applyVirtualServiceTemplate xl store vs =
     (case vs_Template vs of
        None \<Rightarrow> Inr vs
      | Some ref \<Rightarrow>
          (let templateNamespace = GetNamespace (ref_Namespace ref) (m_Namespace (vs_meta vs));
               templateName = ref_Name ref
           in case GetVirtualServiceTemplate store (NN templateNamespace templateName) of
                None \<Rightarrow> Inl (Err (''virtual service template '' @ templateNamespace @ ''/'' @ templateName @ '' not found''))
              | Some vst \<Rightarrow>
                  wrap_err ''failed to fill from template'' (FillFromTemplate (x_spec xl) vs vst (vs_TemplateOptions vs))))"

definition buildListener :: "reslib \<Rightarrow> OptimizedStore \<Rightarrow> NamespacedName \<Rightarrow> ListenerV3 res" where
  "buildListener xl store listenerNN =
     (case GetListener store listenerNN of
        None \<Rightarrow> Inl (Err (''listener '' @ NamespacedName_String listenerNN @ '' not found''))
      | Some listener \<Rightarrow>
          and_then (wrap_err (''failed to unmarshal listener '' @ NamespacedName_String listenerNN)
              (Listener_UnmarshalV3 (x_proto xl) listener)) (\<lambda>xdsListener.
          Inr (xdsListener\<lparr>lv3_Name := NamespacedName_String listenerNN\<rparr>)))"

definition buildResourcesFromExistingFilterChains :: "reslib \<Rightarrow> OptimizedStore \<Rightarrow> VirtualService \<Rightarrow> ListenerV3
    \<Rightarrow> NamespacedName \<Rightarrow> Resources res" where
  "buildResourcesFromExistingFilterChains xl store vs xdsListener listenerNN =
     (case CheckFilterChainsConflicts vs of
        Some e \<Rightarrow> Inl (Wrap ''filter chain conflicts'' e)
      | None \<Rightarrow>
          and_then (wrap_err ''failed to extract clusters from filter chains''
              (ExtractClustersFromFilterChains (x_proto xl) (x_cluster xl) store (lv3_FilterChains xdsListener))) (\<lambda>cls.
          Inr \<lparr>r_Listener = listenerNN, r_FilterChain = lv3_FilterChains xdsListener, r_RouteConfig = None,
               r_Clusters = cls, r_Secrets = [], r_UsedSecrets = [], r_Domains = []\<rparr>))"

definition buildSecret :: "OptimizedStore \<Rightarrow> NamespacedName \<Rightarrow> SecretV3 res" where
  "buildSecret store secretName =
     (case GetSecret store secretName of
        None \<Rightarrow> Inl (Err (''Kubernetes secret '' @ NamespacedName_String secretName @ '' not found''))
      | Some k8sSecret \<Rightarrow>
          (let certData = gm_get [] (nilmap (s_Data k8sSecret)) ''tls.crt'';
               keyData = gm_get [] (nilmap (s_Data k8sSecret)) ''tls.key''
           in if length certData = 0
              then Inl (Err (''certificate data not found in secret '' @ NamespacedName_String secretName))
              else if length keyData = 0
              then Inl (Err (''private key data not found in secret '' @ NamespacedName_String secretName))
              else Inr \<lparr>sv3_Name = NamespacedName_String secretName, sv3_CertificateChain = certData,
                        sv3_PrivateKey = keyData\<rparr>))"

definition build_secrets :: "OptimizedStore \<Rightarrow> VirtualService \<Rightarrow> bool \<Rightarrow> (NamespacedName, string list) gomap
    \<Rightarrow> (SecretV3 list \<times> NamespacedName list) res" where
  "build_secrets store vs listenerIsTLS secretNameToDomains =
     (if listenerIsTLS \<and> c_TlsConfig (vs_common vs) \<noteq> None \<and> length secretNameToDomains > 0 then
        and_then (map_res (\<lambda>(secretName, _).
            wrap_err (''failed to build secret '' @ NamespacedName_String secretName) (buildSecret store secretName))
          secretNameToDomains) (\<lambda>secs.
        Inr (secs, map fst secretNameToDomains))
      else Inr ([], []))"

section \<open>The clusters of a virtual service\<close>

definition extract_clusters :: "reslib \<Rightarrow> times \<Rightarrow> OptimizedStore \<Rightarrow> VirtualService \<Rightarrow> HttpFilterV3 list
    \<Rightarrow> VirtualHost \<Rightarrow> ClusterLRUCache \<Rightarrow> ClusterV3 list res \<times> ClusterLRUCache" where
  "extract_clusters xl tm store vs hfs virtualHost c =
     (case wrap_err ''failed to extract clusters from virtual host''
         (FromVirtualHostRoutes (x_proto xl) store virtualHost) of
        Inl e \<Rightarrow> (Inl e, c)
      | Inr virtualHostClusters \<Rightarrow>
     (case FromOAuth2HTTPFilters (x_proto xl) (x_cluster xl) store (fst (t_oauth2 tm)) (snd (t_oauth2 tm)) hfs c of
        (Inl e, c) \<Rightarrow> (Inl (Wrap ''failed to extract clusters from HTTP filters'' e), c)
      | (Inr httpFilterClusters, c) \<Rightarrow>
     (case FromTracingRaw (x_proto xl) (x_cluster xl) store (fst (t_tracing tm)) (snd (t_tracing tm))
         (c_Tracing (vs_common vs)) c of
        (Inl e, c) \<Rightarrow> (Inl (Wrap ''failed to extract clusters from inline tracing'' e), c)
      | (Inr tracingClusters, c) \<Rightarrow>
     (case FromTracingRef (x_proto xl) (x_cluster xl) store (fst (t_tracingRef tm)) (snd (t_tracingRef tm)) vs c of
        (Inl e, c) \<Rightarrow> (Inl (Wrap ''failed to extract clusters from tracing ref'' e), c)
      | (Inr tracingRefClusters, c) \<Rightarrow>
          (Inr (virtualHostClusters @ httpFilterClusters @ tracingClusters @ tracingRefClusters), c)))))"

section \<open>A virtual service\<close>

definition buildResourcesFromVirtualService :: "reslib \<Rightarrow> times \<Rightarrow> OptimizedStore \<Rightarrow> VirtualService \<Rightarrow> ListenerV3
    \<Rightarrow> NamespacedName \<Rightarrow> NamespacedName \<Rightarrow> caches \<Rightarrow> Resources res \<times> VirtualService \<times> caches" where
  "buildResourcesFromVirtualService xl tm store vs xdsListener listenerNN nn st =
     (case BuildHTTPFilters (x_filter xl) store (fst (t_filters tm)) (snd (t_filters tm)) vs (k_filters st) of
        (Inl e, fs) \<Rightarrow> (Inl (Wrap ''failed to build HTTP filters'' e), vs, st\<lparr>k_filters := fs\<rparr>)
      | (Inr httpFs, fs) \<Rightarrow>
          (let st = st\<lparr>k_filters := fs\<rparr>
           in case BuildRouteConfiguration (x_proto xl) store vs (Some xdsListener) nn of
             Inl e \<Rightarrow> (Inl (Wrap ''failed to build route configuration'' e), vs, st)
           | Inr (virtualHost, routeConfig) \<Rightarrow>
          (let listenerIsTLS = IsTLSListener (Some xdsListener)
           in case BuildFilterChainParams (x_chain xl) store (t_tls tm) vs nn httpFs listenerIsTLS virtualHost of
             (Inl e, vs) \<Rightarrow> (Inl (Wrap ''failed to build filter chain parameters'' e), vs, st)
           | (Inr params, vs) \<Rightarrow>
          (case BuildFilterChains (x_chain xl) params of
             Inl e \<Rightarrow> (Inl (Wrap ''failed to build filter chains'' e), vs, st)
           | Inr filterChains \<Rightarrow>
          (case extract_clusters xl tm store vs httpFs virtualHost (k_clusters st) of
             (Inl e, c) \<Rightarrow> (Inl e, vs, st\<lparr>k_clusters := c\<rparr>)
           | (Inr cls, c) \<Rightarrow>
               (and_then (build_secrets store vs listenerIsTLS (SecretNameToDomains params)) (\<lambda>(secs, used).
                Inr \<lparr>r_Listener = listenerNN, r_FilterChain = filterChains, r_RouteConfig = Some routeConfig,
                     r_Clusters = cls, r_Secrets = secs, r_UsedSecrets = used,
                     r_Domains = vh_Domains virtualHost\<rparr>), vs, st\<lparr>k_clusters := c\<rparr>))))))"

text \<open>
  Without a template the builder works on the caller's own virtual service, with one on a copy
  of it whose status is written back at the end.
\<close>

definition MainBuilder_BuildResources :: "reslib \<Rightarrow> times \<Rightarrow> OptimizedStore \<Rightarrow> VirtualService \<Rightarrow> resourcesCache
    \<Rightarrow> caches \<Rightarrow> Resources res \<times> VirtualService \<times> resourcesCache \<times> caches" where
  "MainBuilder_BuildResources xl tm store vs rc st =
     (let cacheKey = generateCacheKey xl vs
      in case resourcesCache_get rc cacheKey (fst (t_main tm)) of
        (Some cachedResources, rc) \<Rightarrow> (Inr cachedResources, vs, rc, st)
      | (None, rc) \<Rightarrow>
          (let nn = meta_nn (vs_meta vs); vsPtr = vs
           in case wrap_err ''failed to apply template'' (applyVirtualServiceTemplate xl store vs) of
             Inl e \<Rightarrow> (Inl e, vsPtr, rc, st)
           | Inr vs \<Rightarrow>
          (case wrap_err ''failed to get listener namespaced name'' (GetListenerNamespacedName vs) of
             Inl e \<Rightarrow> (Inl e, vsPtr, rc, st)
           | Inr listenerNN \<Rightarrow>
          (case wrap_err ''failed to build listener'' (buildListener xl store listenerNN) of
             Inl e \<Rightarrow> (Inl e, vsPtr, rc, st)
           | Inr xdsListener \<Rightarrow>
               if length (lv3_FilterChains xdsListener) > 0
               then (buildResourcesFromExistingFilterChains xl store vs xdsListener listenerNN, vsPtr, rc, st)
               else (case buildResourcesFromVirtualService xl tm store vs xdsListener listenerNN nn st of
                   (Inl e, vs, st) \<Rightarrow>
                     (Inl (Wrap ''failed to build resources from virtual service'' e),
                      (if vs_Template vsPtr = None then vs else vsPtr), rc, st)
                 | (Inr resources, vs, st) \<Rightarrow>
                     (let vsPtr = (if vs_Template vsPtr = None then vs else vsPtr);
                          vsPtr = (if st_Message (vs_Status vs) \<noteq> []
                            then UpdateStatus vsPtr (st_Invalid (vs_Status vs)) (st_Message (vs_Status vs)) else vsPtr)
                      in (Inr resources, vsPtr, resourcesCache_set rc cacheKey resources (snd (t_main tm)), st)))))))"

text \<open>The entry point creates a builder, with an empty cache of results, for every call.\<close>

definition BuildResources :: "reslib \<Rightarrow> times \<Rightarrow> VirtualService \<Rightarrow> OptimizedStore \<Rightarrow> caches
    \<Rightarrow> Resources res \<times> VirtualService \<times> caches" where
  "BuildResources xl tm vs store st =
     (case MainBuilder_BuildResources xl tm store vs newResourcesCache st of
        (r, vs, _, st) \<Rightarrow>
          (and_then (wrap_err ''BuildResources failed'' r) (\<lambda>res.
           if Name (r_Listener res) = [] then Inl (Err ''invalid result: Listener name is empty'')
           else if length (r_FilterChain res) = 0 then Inl (Err ''invalid result: FilterChain is empty'')
           else Inr res), vs, st))"

text \<open>The builder the snapshots of the updater are built with, at one state of the caches.\<close>

definition builder_at :: "reslib \<Rightarrow> times \<Rightarrow> caches \<Rightarrow> builder" where
  "builder_at xl tm st vs store = fst (BuildResources xl tm vs store st)"

section \<open>The parts of a result\<close>

lemma new_cache_misses: "resourcesCache_get newResourcesCache key now = (None, newResourcesCache)"
  by (simp add: resourcesCache_get_def newResourcesCache_def)

text \<open>
  A result is put together either from the chains of the listener or from the virtual service,
  after its template is applied; the cache of whole results never answers.
\<close>

lemma BuildResources_parts:
  assumes "BuildResources xl tm vs store st = (Inr res, vs', st')"
  obtains (own) vs1 lnn lst where "applyVirtualServiceTemplate xl store vs = Inr vs1"
      "GetListenerNamespacedName vs1 = Inr lnn" "buildListener xl store lnn = Inr lst"
      "lv3_FilterChains lst \<noteq> []" "buildResourcesFromExistingFilterChains xl store vs1 lst lnn = Inr res"
    | (vs) vs1 lnn lst vs2 where "applyVirtualServiceTemplate xl store vs = Inr vs1"
      "GetListenerNamespacedName vs1 = Inr lnn" "buildListener xl store lnn = Inr lst"
      "lv3_FilterChains lst = []"
      "buildResourcesFromVirtualService xl tm store vs1 lst lnn (meta_nn (vs_meta vs)) st = (Inr res, vs2, st')"
proof -
  from assms obtain rc where main: "MainBuilder_BuildResources xl tm store vs newResourcesCache st = (Inr res, vs', rc, st')"
    by (auto simp: BuildResources_def exits split: prod.splits if_splits)
  note unf = main [unfolded MainBuilder_BuildResources_def Let_def new_cache_misses prod.case option.case]
  obtain vs1 where 1: "applyVirtualServiceTemplate xl store vs = Inr vs1"
    using unf by (cases "applyVirtualServiceTemplate xl store vs") auto
  obtain lnn where 2: "GetListenerNamespacedName vs1 = Inr lnn"
    using unf 1 by (cases "GetListenerNamespacedName vs1") auto
  obtain lst where 3: "buildListener xl store lnn = Inr lst"
    using unf 1 2 by (cases "buildListener xl store lnn") auto
  show thesis
  proof (cases "lv3_FilterChains lst = []")
    case False
    with unf 1 2 3 show thesis by (intro own [of vs1 lnn lst]) auto
  next
    case True
    obtain r vs2 st2 where b: "buildResourcesFromVirtualService xl tm store vs1 lst lnn (meta_nn (vs_meta vs)) st = (r, vs2, st2)"
      by (cases "buildResourcesFromVirtualService xl tm store vs1 lst lnn (meta_nn (vs_meta vs)) st") auto
    with unf 1 2 3 True have "r = Inr res" "st2 = st'" by (cases r; simp split: if_splits)+
    with b 1 2 3 True show thesis by (intro vs [of vs1 lnn lst vs2]) auto
  qed
qed

text \<open>The steps of a build from the virtual service, and what each left behind.\<close>

lemma from_virtual_service:
  assumes "buildResourcesFromVirtualService xl tm store vs lst lnn nn st = (Inr res, vs2, st')"
  obtains hfs fs vh rc params fcs cls c secs used where
    "BuildHTTPFilters (x_filter xl) store (fst (t_filters tm)) (snd (t_filters tm)) vs (k_filters st) = (Inr hfs, fs)"
    "BuildRouteConfiguration (x_proto xl) store vs (Some lst) nn = Inr (vh, rc)"
    "BuildFilterChainParams (x_chain xl) store (t_tls tm) vs nn hfs (IsTLSListener (Some lst)) vh = (Inr params, vs2)"
    "BuildFilterChains (x_chain xl) params = Inr fcs"
    "extract_clusters xl tm store vs2 hfs vh (k_clusters st) = (Inr cls, c)"
    "build_secrets store vs2 (IsTLSListener (Some lst)) (SecretNameToDomains params) = Inr (secs, used)"
    "res = \<lparr>r_Listener = lnn, r_FilterChain = fcs, r_RouteConfig = Some rc, r_Clusters = cls, r_Secrets = secs,
       r_UsedSecrets = used, r_Domains = vh_Domains vh\<rparr>"
    "st' = st\<lparr>k_filters := fs, k_clusters := c\<rparr>"
proof -
  note b = assms [unfolded buildResourcesFromVirtualService_def Let_def]
  obtain hfs fs where 1: "BuildHTTPFilters (x_filter xl) store (fst (t_filters tm)) (snd (t_filters tm)) vs (k_filters st) = (Inr hfs, fs)"
    using b by (auto split: prod.splits sum.splits)
  obtain vh rc where 2: "BuildRouteConfiguration (x_proto xl) store vs (Some lst) nn = Inr (vh, rc)"
    using b 1 by (auto split: prod.splits sum.splits)
  obtain params v where 3: "BuildFilterChainParams (x_chain xl) store (t_tls tm) vs nn hfs (IsTLSListener (Some lst)) vh = (Inr params, v)"
    using b 1 2 by (auto split: prod.splits sum.splits)
  obtain fcs where 4: "BuildFilterChains (x_chain xl) params = Inr fcs" using b 1 2 3 by (auto split: prod.splits sum.splits)
  obtain cls c where 5: "extract_clusters xl tm store v hfs vh (k_clusters st) = (Inr cls, c)"
    using b 1 2 3 4 by (auto split: prod.splits sum.splits)
  have v: "v = vs2" using b 1 2 3 4 5 by simp
  have "and_then (build_secrets store v (IsTLSListener (Some lst)) (SecretNameToDomains params)) (\<lambda>(secs, used).
      Inr \<lparr>r_Listener = lnn, r_FilterChain = fcs, r_RouteConfig = Some rc, r_Clusters = cls, r_Secrets = secs,
        r_UsedSecrets = used, r_Domains = vh_Domains vh\<rparr>) = Inr res" "st' = st\<lparr>k_filters := fs, k_clusters := c\<rparr>"
    using b 1 2 3 4 5 by auto
  then obtain secs used where "build_secrets store v (IsTLSListener (Some lst)) (SecretNameToDomains params) = Inr (secs, used)"
    "res = \<lparr>r_Listener = lnn, r_FilterChain = fcs, r_RouteConfig = Some rc, r_Clusters = cls, r_Secrets = secs,
       r_UsedSecrets = used, r_Domains = vh_Domains vh\<rparr>" "st' = st\<lparr>k_filters := fs, k_clusters := c\<rparr>"
    by (auto simp: exits)
  with 1 2 3 4 5 v show thesis by (intro that) simp_all
qed

lemma params_shape:
  assumes "BuildFilterChainParams cl store tm vs nn fs tls vh = (Inr params, vs2)"
  shows "VSName params = NamespacedName_String nn \<and> RouteConfigName params = NamespacedName_String nn \<and>
    HTTPFilters params = fs \<and>
    DownstreamTLSContext params = None \<and> vs_common vs2 = vs_common vs \<and> vs_meta vs2 = vs_meta vs \<and>
    (SecretNameToDomains params \<noteq> [] \<longrightarrow> tls \<and> c_TlsConfig (vs_common vs) \<noteq> None)"
proof -
  obtain logs vs1 where al: "configureAccessLogs cl store vs = (logs, vs1)" by (cases "configureAccessLogs cl store vs")
  have keep: "vs_common vs1 = vs_common vs" "vs_meta vs1 = vs_meta vs"
    using configureAccessLogs_keeps [of cl store vs] by (simp_all add: al)
  obtain p0 p1 h2 where p: "configureTLS store tm vs1 tls vh p0 = Inr p1" "params = p1\<lparr>H2Options := h2\<rparr>" "vs2 = vs1"
    "VSName p0 = NamespacedName_String nn" "RouteConfigName p0 = NamespacedName_String nn" "HTTPFilters p0 = fs"
    "DownstreamTLSContext p0 = None" "SecretNameToDomains p0 = []"
    using assms by (fastforce simp: BuildFilterChainParams_def al Let_def exits split: sum.splits)
  then show ?thesis
    by (auto simp: configureTLS_def validateTLSConfiguration_def keep exits split: option.splits if_splits)
qed

lemma extract_clusters_routes:
  assumes "store_reachable (x_proto xl) x509 store" "extract_clusters xl tm store vs hfs vh c = (Inr cls, c')"
  shows "r \<in> set (vh_Routes vh) \<Longrightarrow> n \<in> set (action_clusters (rt_Action r)) \<Longrightarrow> n \<in> cv3_Name ` set cls"
proof -
  assume r: "r \<in> set (vh_Routes vh)" "n \<in> set (action_clusters (rt_Action r))"
  obtain cls1 cls2 where v: "FromVirtualHostRoutes (x_proto xl) store vh = Inr cls1" "cls = cls1 @ cls2"
    using assms(2) by (fastforce simp: extract_clusters_def exits wrap_err_def split: sum.splits prod.splits)
  have "n \<in> set (concat (map (\<lambda>r. action_clusters (rt_Action r)) (vh_Routes vh)))" using r by auto
  then have "n \<in> set (map cv3_Name cls1)" unfolding FromVirtualHostRoutes_names [OF assms(1) v(1)] .
  then show ?thesis using v(2) by auto
qed

lemma buildSecret_name: "buildSecret store n = Inr sec \<Longrightarrow> sv3_Name sec = NamespacedName_String n"
  by (auto simp: buildSecret_def Let_def split: option.splits if_splits)

lemma build_secrets_names:
  assumes "build_secrets store vs tls m = Inr (secs, used)" "m \<noteq> [] \<longrightarrow> tls \<and> c_TlsConfig (vs_common vs) \<noteq> None"
  shows "used = map fst m \<and> map sv3_Name secs = map NamespacedName_String used"
proof (cases "m = []")
  case True
  with assms(1) show ?thesis by (simp add: build_secrets_def)
next
  case False
  with assms have used: "used = map fst m"
    and "map_res (\<lambda>(n, _). wrap_err (''failed to build secret '' @ NamespacedName_String n) (buildSecret store n)) m = Inr secs"
    by (auto simp: build_secrets_def exits)
  from map_res_Inr [OF this(2)] have "list_all2 (\<lambda>p sec. sv3_Name sec = NamespacedName_String (fst p)) m secs"
    by (rule list_all2_mono) (auto simp: exits dest: buildSecret_name)
  then have "map sv3_Name secs = map NamespacedName_String (map fst m)" by (induction rule: list_all2_induct) auto
  with used show ?thesis by simp
qed

section \<open>Results are self-contained\<close>

text \<open>The route hosts and the chains of a result refer to nothing outside of it.\<close>

definition closed_result :: "reslib \<Rightarrow> NamespacedName \<Rightarrow> RouteConfiguration \<Rightarrow> Resources \<Rightarrow> bool" where
  "closed_result xl nn rc res \<longleftrightarrow>
     rc_Name rc = NamespacedName_String nn \<and>
     (\<forall>vh \<in> set (rc_VirtualHosts rc). \<forall>r \<in> set (vh_Routes vh).
        set (action_clusters (rt_Action r)) \<subseteq> cv3_Name ` set (r_Clusters res)) \<and>
     r_FilterChain res \<noteq> [] \<and>
     (\<forall>fc \<in> set (r_FilterChain res).
        fc_Name fc = rc_Name rc \<and>
        (\<exists>hcm pbst. hcm_RouteConfigName hcm = rc_Name rc \<and> router_pinned (hcm_HttpFilters hcm) \<and>
           New_any_hcm (x_chain xl) hcm = Inr pbst \<and>
           fc_Filters fc = [\<lparr>flt_Name = HTTPConnectionManager_name, flt_TypedConfig = Some pbst\<rparr>]) \<and>
        (\<forall>ts. fc_TransportSocket fc = Some ts \<longrightarrow>
           (\<exists>sec \<in> set (r_Secrets res). New_any_tls (x_chain xl)
              \<lparr>tls_SecretName = sv3_Name sec, tls_AlpnProtocols = [''h2'', ''http/1.1'']\<rparr> = Inr (ts_TypedConfig ts)))) \<and>
     map sv3_Name (r_Secrets res) = map NamespacedName_String (r_UsedSecrets res)"

lemma closed_resultI:
  assumes "store_reachable (x_proto xl) x509 store" "filter_state_ok (k_filters st)"
    and b: "buildResourcesFromVirtualService xl tm store vs lst lnn nn st = (Inr res, vs2, st')"
  shows "\<exists>rc. r_RouteConfig res = Some rc \<and> closed_result xl nn rc res"
  using b
proof (rule from_virtual_service)
  fix hfs fs vh rc params fcs cls c secs used
  assume hf: "BuildHTTPFilters (x_filter xl) store (fst (t_filters tm)) (snd (t_filters tm)) vs (k_filters st) = (Inr hfs, fs)"
    and rcv: "BuildRouteConfiguration (x_proto xl) store vs (Some lst) nn = Inr (vh, rc)"
    and par: "BuildFilterChainParams (x_chain xl) store (t_tls tm) vs nn hfs (IsTLSListener (Some lst)) vh = (Inr params, vs2)"
    and chs: "BuildFilterChains (x_chain xl) params = Inr fcs"
    and cls: "extract_clusters xl tm store vs2 hfs vh (k_clusters st) = (Inr cls, c)"
    and sec: "build_secrets store vs2 (IsTLSListener (Some lst)) (SecretNameToDomains params) = Inr (secs, used)"
    and res: "res = \<lparr>r_Listener = lnn, r_FilterChain = fcs, r_RouteConfig = Some rc, r_Clusters = cls, r_Secrets = secs,
       r_UsedSecrets = used, r_Domains = vh_Domains vh\<rparr>"
  note p = params_shape [OF par]
  have pinned: "router_pinned hfs" by (rule BuildHTTPFilters_pinned [OF assms(2) hf])
  have hosts: "rc_Name rc = NamespacedName_String nn" "set (rc_VirtualHosts rc) \<subseteq> {vh, BuildFallbackVirtualHost}"
    using rcv [unfolded BuildRouteConfiguration_Inr] by auto
  have routes: "set (action_clusters (rt_Action r)) \<subseteq> cv3_Name ` set cls"
    if "h \<in> set (rc_VirtualHosts rc)" "r \<in> set (vh_Routes h)" for h r
  proof (cases "h = vh")
    case True
    with that(2) show ?thesis using extract_clusters_routes [OF assms(1) cls] by blast
  next
    case False
    with that hosts(2) show ?thesis by (auto simp: BuildFallbackVirtualHost_def)
  qed
  have names: "used = map fst (SecretNameToDomains params)" "map sv3_Name secs = map NamespacedName_String used"
    using build_secrets_names [OF sec] p by simp_all
  have find: "\<exists>s \<in> set secs. sv3_Name s = NamespacedName_String k" if "k \<in> fst ` set (SecretNameToDomains params)" for k
  proof -
    from that have "NamespacedName_String k \<in> set (map sv3_Name secs)" unfolding names set_map by (rule imageI)
    then show ?thesis by auto
  qed
  have shape: "fcs \<noteq> []" "\<forall>fc \<in> set fcs. chain_shape (x_chain xl) params fc"
    using BuildFilterChains_shape [OF chs] p by simp_all
  have chain: "fc_Name fc = rc_Name rc \<and>
        (\<exists>hcm pbst. hcm_RouteConfigName hcm = rc_Name rc \<and> router_pinned (hcm_HttpFilters hcm) \<and>
           New_any_hcm (x_chain xl) hcm = Inr pbst \<and>
           fc_Filters fc = [\<lparr>flt_Name = HTTPConnectionManager_name, flt_TypedConfig = Some pbst\<rparr>]) \<and>
        (\<forall>ts. fc_TransportSocket fc = Some ts \<longrightarrow>
           (\<exists>sec \<in> set secs. New_any_tls (x_chain xl)
              \<lparr>tls_SecretName = sv3_Name sec, tls_AlpnProtocols = [''h2'', ''http/1.1'']\<rparr> = Inr (ts_TypedConfig ts)))"
    if "fc \<in> set fcs" for fc
  proof (intro conjI allI impI)
    have sh: "chain_shape (x_chain xl) params fc" using shape(2) that by blast
    show "fc_Name fc = rc_Name rc" using sh p hosts(1) by (simp add: chain_shape_def)
    show "\<exists>hcm pbst. hcm_RouteConfigName hcm = rc_Name rc \<and> router_pinned (hcm_HttpFilters hcm) \<and>
           New_any_hcm (x_chain xl) hcm = Inr pbst \<and>
           fc_Filters fc = [\<lparr>flt_Name = HTTPConnectionManager_name, flt_TypedConfig = Some pbst\<rparr>]"
      using sh p hosts(1) pinned unfolding chain_shape_def routes_by_def by metis
    fix ts assume "fc_TransportSocket fc = Some ts"
    with sh obtain k where "k \<in> fst ` set (SecretNameToDomains params)"
      "New_any_tls (x_chain xl) (tls_context k) = Inr (ts_TypedConfig ts)" unfolding chain_shape_def by blast
    with find show "\<exists>sec \<in> set secs. New_any_tls (x_chain xl)
        \<lparr>tls_SecretName = sv3_Name sec, tls_AlpnProtocols = [''h2'', ''http/1.1'']\<rparr> = Inr (ts_TypedConfig ts)"
      unfolding tls_context_def by metis
  qed
  show ?thesis
    unfolding closed_result_def using hosts(1) routes shape(1) chain names(2) by (simp add: res)
qed

text \<open>
  C29: What is built for a virtual service refers to nothing that is not delivered with it. Its
  filter chains take their routes from the route configuration it carries, every cluster a route
  names is among its clusters, every secret a chain presents is among its secrets, and the
  router is the last HTTP filter of every chain. The name of the virtual service is the name of
  the route configuration and of the chains.
\<close>

theorem resources_self_contained:
  assumes "store_reachable (x_proto xl) x509 store" "filter_state_ok (k_filters st)"
    and "BuildResources xl tm vs store st = (Inr res, vs', st')" "r_RouteConfig res = Some rc"
  shows "closed_result xl (meta_nn (vs_meta vs)) rc res"
  using assms(3)
proof (rule BuildResources_parts)
  fix vs1 lnn lst assume "buildResourcesFromExistingFilterChains xl store vs1 lst lnn = Inr res"
  with assms(4) show ?thesis
    by (auto simp: buildResourcesFromExistingFilterChains_def exits split: option.splits)
next
  fix vs1 lnn lst vs2
  assume "buildResourcesFromVirtualService xl tm store vs1 lst lnn (meta_nn (vs_meta vs)) st = (Inr res, vs2, st')"
  from closed_resultI [OF assms(1,2) this] assms(4) show ?thesis by auto
qed

section \<open>Clusters named twice\<close>

text \<open>
  C14: The clusters of the routes are not made unique. When two routes name one cluster it is
  delivered twice, and then the comparison of the delivered clusters with a snapshot made of
  the very same clusters reports a change, on every rebuild.
\<close>

theorem shared_cluster_always_changes:
  assumes "cplib_ok cp" "store_reachable lib x509 store"
    and "FromVirtualHostRoutes lib store vh = Inr cls"
    and "\<not> distinct (concat (map extractClusterNamesFromRoute (vh_Routes vh)))"
  shows "checkResourcesChanged (rg_Items (cp_NewResources cp v (map ResC cls))) (map ResC cls)"
proof (rule duplicate_names_always_change [OF assms(1)])
  have "map resource_name (map ResC cls) = map cv3_Name cls" by simp
  also have "\<dots> = concat (map extractClusterNamesFromRoute (vh_Routes vh))"
    using FromVirtualHostRoutes_names [OF assms(2,3)] by (simp add: extractClusterNamesFromRoute_eq [abs_def])
  finally show "\<not> distinct (map resource_name (map ResC cls))" using assms(4) by simp
qed

end
