(* ===== verification/WebhookSpec.thy ===== *)
theory WebhookSpec
  imports Webhook UpdaterSpec ResBuilder
begin

text \<open>
  What the admission webhooks guarantee, and what they let through.
\<close>

section \<open>References to extra fields\<close>

text \<open>The name stands between double braces, after a dot, with optional white space.\<close>

definition reference_in :: "string \<Rightarrow> string \<Rightarrow> bool" where
  "reference_in name s \<longleftrightarrow>
     name \<noteq> [] \<and> list_all is_word name \<and>
     (\<exists>pre ws1 ws2 post. s = pre @ ''{{'' @ ws1 @ ''.'' @ name @ ws2 @ ''}}'' @ post \<and>
        list_all is_space ws1 \<and> list_all is_space ws2)"

lemma char_classes:
  "is_space ch \<Longrightarrow> ch \<noteq> CHR ''.'' \<and> ch \<noteq> CHR ''{'' \<and> ch \<noteq> CHR ''}'' \<and> \<not> is_word ch"
  "is_word ch \<Longrightarrow> ch \<noteq> CHR ''{'' \<and> ch \<noteq> CHR ''}'' \<and> ch \<noteq> CHR ''.''"
  by (auto simp: is_space_def is_word_def Let_def)

lemma class_ends [simp]: "\<not> is_space CHR ''.''" "\<not> is_space CHR ''}''" "\<not> is_word CHR ''}''"
  "\<not> is_space CHR ''{''" "\<not> is_word CHR ''{''"
  using char_classes by blast+

lemma dropWhile_all [simp]: "list_all P xs \<Longrightarrow> dropWhile P (xs @ ys) = dropWhile P ys"
  by (induction xs) auto

lemma takeWhile_all [simp]: "list_all P xs \<Longrightarrow> takeWhile P (xs @ ys) = xs @ takeWhile P ys"
  by (induction xs) auto

lemma take2_iff: "take 2 s = [a, b] \<longleftrightarrow> (\<exists>t. s = a # b # t)"
  by (cases s; cases "tl s") (auto simp: numeral_2_eq_2)

lemma split_While: "list_all P (takeWhile P xs)"
  by (induction xs) auto

lemma match_reference_iff:
  "match_reference s = Some (name, rest) \<longleftrightarrow>
   name \<noteq> [] \<and> list_all is_word name \<and>
   (\<exists>ws1 ws2. s = ''{{'' @ ws1 @ ''.'' @ name @ ws2 @ ''}}'' @ rest \<and> list_all is_space ws1 \<and> list_all is_space ws2)"
  (is "?l \<longleftrightarrow> ?r")
proof
  assume ?l
  then obtain s' where s: "take 2 s = ''{{''" "dropWhile is_space (drop 2 s) = CHR ''.'' # s'"
    "name = takeWhile is_word s'" "name \<noteq> []"
    "take 2 (dropWhile is_space (dropWhile is_word s')) = ''}}''"
    "rest = drop 2 (dropWhile is_space (dropWhile is_word s'))"
    by (auto simp: match_reference_def Let_def split: if_splits list.splits)
  from s(1) obtain t where t: "s = ''{{'' @ t" by (auto simp: take2_iff)
  then have d: "drop 2 s = t" by simp
  define ws1 where "ws1 = takeWhile is_space t"
  define ws2 where "ws2 = takeWhile is_space (dropWhile is_word s')"
  have "t = ws1 @ CHR ''.'' # s'"
    unfolding ws1_def using takeWhile_dropWhile_id [of is_space t] s(2) [unfolded d] by (metis)
  moreover have "s' = name @ dropWhile is_word s'" by (simp add: s(3))
  moreover have "dropWhile is_word s' = ws2 @ ''}}'' @ rest"
  proof -
    from s(5,6) have "dropWhile is_space (dropWhile is_word s') = ''}}'' @ rest" by (auto simp: take2_iff)
    then show ?thesis
      unfolding ws2_def using takeWhile_dropWhile_id [of is_space "dropWhile is_word s'"] by metis
  qed
  ultimately have "s = ''{{'' @ ws1 @ ''.'' @ name @ ws2 @ ''}}'' @ rest" using t by (metis append_Cons append_Nil)
  moreover have "list_all is_space ws1" "list_all is_space ws2" "list_all is_word name"
    unfolding ws1_def ws2_def s(3) by (rule split_While)+
  ultimately show ?r using s(4) by blast
next
  assume ?r
  then obtain ws1 ws2 where r: "name \<noteq> []" "list_all is_word name" "list_all is_space ws1" "list_all is_space ws2"
    and s: "s = ''{{'' @ ws1 @ ''.'' @ name @ ws2 @ ''}}'' @ rest" by blast
  have stop: "takeWhile is_word (ws2 @ ''}}'' @ rest) = []" "dropWhile is_word (ws2 @ ''}}'' @ rest) = ws2 @ ''}}'' @ rest"
    using r(4) char_classes(1) by (cases ws2; simp)+
  show ?l using r stop by (simp add: match_reference_def s numeral_2_eq_2 Let_def)
qed

lemma no_overlap:
  assumes "CHR ''{'' \<notin> set t" "t \<noteq> []" "''{{'' @ t @ rest = pre @ ''{{'' @ q" "pre \<noteq> []"
  shows "\<exists>pre'. rest = pre' @ ''{{'' @ q"
proof -
  from assms(3,4) obtain pre1 where 1: "CHR ''{'' # t @ rest = pre1 @ ''{{'' @ q" by (cases pre) auto
  with assms(1,2) obtain pre2 where 2: "t @ rest = pre2 @ ''{{'' @ q" by (cases pre1; cases t) auto
  then consider us where "t = pre2 @ us" "us @ rest = ''{{'' @ q" | us where "rest = us @ ''{{'' @ q"
    by (auto simp: append_eq_append_conv2)
  then show ?thesis
  proof cases
    case 1
    with assms(1) have "us = []" by (cases us) auto
    with 1 have "rest = [] @ ''{{'' @ q" by simp
    then show ?thesis by blast
  qed blast
qed

lemma reference_in_skip:
  assumes "match_reference (ch # s) = None"
  shows "reference_in name (ch # s) \<longleftrightarrow> reference_in name s"
proof
  assume "reference_in name (ch # s)"
  then obtain pre ws1 ws2 post where r: "name \<noteq> []" "list_all is_word name" "list_all is_space ws1" "list_all is_space ws2"
    and s: "ch # s = pre @ ''{{'' @ ws1 @ ''.'' @ name @ ws2 @ ''}}'' @ post" by (auto simp: reference_in_def)
  have "pre \<noteq> []"
  proof
    assume "pre = []"
    with r s have "match_reference (ch # s) = Some (name, post)" unfolding match_reference_iff by auto
    with assms show False by simp
  qed
  with s obtain pre' where "s = pre' @ ''{{'' @ ws1 @ ''.'' @ name @ ws2 @ ''}}'' @ post" by (cases pre) auto
  with r show "reference_in name s" unfolding reference_in_def by blast
next
  assume "reference_in name s"
  then show "reference_in name (ch # s)" unfolding reference_in_def by (metis append_Cons)
qed

lemma reference_in_match:
  assumes "match_reference s = Some (n, rest)"
  shows "reference_in name s \<longleftrightarrow> name = n \<or> reference_in name rest"
proof -
  from assms obtain ws1 ws2 where n: "n \<noteq> []" "list_all is_word n" "list_all is_space ws1" "list_all is_space ws2"
    and s: "s = ''{{'' @ ws1 @ ''.'' @ n @ ws2 @ ''}}'' @ rest" unfolding match_reference_iff by blast
  let ?t = "ws1 @ ''.'' @ n @ ws2 @ ''}}''"
  have t: "CHR ''{'' \<notin> set ?t" using n by (auto simp: list_all_iff)
  show ?thesis
  proof
    assume "reference_in name s"
    then obtain pre us1 us2 post where r: "name \<noteq> []" "list_all is_word name" "list_all is_space us1" "list_all is_space us2"
      and s': "s = pre @ ''{{'' @ us1 @ ''.'' @ name @ us2 @ ''}}'' @ post" unfolding reference_in_def by blast
    show "name = n \<or> reference_in name rest"
    proof (cases "pre = []")
      case True
      with r s' have "match_reference s = Some (name, post)" unfolding match_reference_iff by auto
      with assms show ?thesis by simp
    next
      case False
      from s s' have "''{{'' @ ?t @ rest = pre @ ''{{'' @ (us1 @ ''.'' @ name @ us2 @ ''}}'' @ post)" by simp
      from no_overlap [OF t _ this False] show ?thesis using r unfolding reference_in_def by blast
    qed
  next
    assume "name = n \<or> reference_in name rest"
    then show "reference_in name s"
    proof
      assume "name = n"
      then show ?thesis using n s unfolding reference_in_def by (metis append_Nil)
    next
      assume "reference_in name rest"
      then obtain pre us1 us2 post where r: "name \<noteq> []" "list_all is_word name" "list_all is_space us1" "list_all is_space us2"
        "rest = pre @ ''{{'' @ us1 @ ''.'' @ name @ us2 @ ''}}'' @ post" unfolding reference_in_def by blast
      then have "s = (''{{'' @ ?t @ pre) @ ''{{'' @ us1 @ ''.'' @ name @ us2 @ ''}}'' @ post" by (simp add: s)
      with r show ?thesis unfolding reference_in_def by blast
    qed
  qed
qed

lemma FindAllReferences_exact: "name \<in> set (FindAllReferences s) \<longleftrightarrow> reference_in name s"
proof (induction s rule: FindAllReferences.induct)
  case (1 s)
  show ?case
  proof (cases "match_reference s")
    case (Some m)
    obtain n rest where m: "m = (n, rest)" by (cases m)
    with Some 1(2) [OF Some m [symmetric]] show ?thesis
      by (subst FindAllReferences.simps) (simp add: reference_in_match)
  next
    case None
    show ?thesis
    proof (cases s)
      case Nil
      then show ?thesis by (subst FindAllReferences.simps) (simp add: match_reference_def reference_in_def)
    next
      case (Cons ch s')
      with None 1(1) [OF None Cons] show ?thesis
        by (subst FindAllReferences.simps) (simp add: reference_in_skip)
    qed
  qed
qed

text \<open>What a declaration must look like.\<close>

definition well_declared :: "ExtraField \<Rightarrow> bool" where
  "well_declared f \<longleftrightarrow> ef_Name f \<noteq> [] \<and> ef_Type f \<in> {''string'', ''enum''} \<and> (ef_Type f = ''enum'' \<longrightarrow> ef_Enum f \<noteq> [])"

lemma declare_field_Inr:
  "declare_field x m = Inr m' \<longleftrightarrow> (\<exists>f. x = Some f \<and> well_declared f \<and> m' = gm_put (ef_Name f) False m)"
  by (cases x) (auto simp: declare_field_def well_declared_def validTypes_def)

lemma declare_all:
  assumes "gm_wf m" "\<forall>(k, v) \<in> set m. \<not> v"
  shows "for_each declare_field fs m = Inr m' \<longleftrightarrow>
    (\<forall>x \<in> set fs. \<exists>f. x = Some f \<and> well_declared f) \<and>
    m' = fold (\<lambda>f. gm_put (ef_Name f) False) (List.map_filter id fs) m"
  using assms
proof (induction fs arbitrary: m)
  case Nil
  then show ?case by (auto simp: map_filter_def)
next
  case (Cons x fs)
  show ?case
  proof (cases "\<exists>f. x = Some f \<and> well_declared f")
    case True
    then obtain f where f: "x = Some f" "well_declared f" by blast
    then have d: "declare_field x m = Inr (gm_put (ef_Name f) False m)" by (simp add: declare_field_Inr)
    have "gm_wf (gm_put (ef_Name f) False m)" "\<forall>(k, v) \<in> set (gm_put (ef_Name f) False m). \<not> v"
      using Cons.prems by (auto simp: gm_mem_iff split: if_splits)
    from Cons.IH [OF this] f d show ?thesis by (auto simp: map_filter_def)
  next
    case False
    then have "\<not> (\<exists>m'. declare_field x m = Inr m')" by (auto simp: declare_field_Inr)
    with False show ?thesis by (cases "declare_field x m") auto
  qed
qed

lemma declared_keys:
  "gm_wf m \<Longrightarrow> gm_wf (fold (\<lambda>f. gm_put (ef_Name f) v) fs m) \<and>
   (\<forall>k. map_of (fold (\<lambda>f. gm_put (ef_Name f) v) fs m) k = (if k \<in> ef_Name ` set fs then Some v else map_of m k))"
  by (induction fs arbitrary: m) auto

lemma mark_used_map:
  "gm_wf m \<Longrightarrow> gm_wf (mark_used names m) \<and>
   (\<forall>k. map_of (mark_used names m) k = (if k \<in> set names \<and> map_of m k \<noteq> None then Some True else map_of m k))"
  unfolding mark_used_def by (induction names arbitrary: m) (auto simp: gm_has_def)

text \<open>
  C36: a template passes the check of its extra fields exactly when it declares none, or each
  declaration has a name, a known type and, for an enumeration, values, and each declared name is
  referred to between double braces in the JSON form of the template.
\<close>

theorem extra_fields_usage_exact:
  "validateExtraFieldsUsage sl vst = Inr () \<longleftrightarrow>
   vst_ExtraFields vst = [] \<or>
   (\<forall>x \<in> set (vst_ExtraFields vst). \<exists>f. x = Some f \<and> well_declared f) \<and>
   (\<exists>specJSON. marshal_common sl (vst_common vst) = Inr specJSON \<and>
      (\<forall>f. Some f \<in> set (vst_ExtraFields vst) \<longrightarrow> reference_in (ef_Name f) specJSON))"
proof (cases "vst_ExtraFields vst = []")
  case True
  then show ?thesis by (simp add: validateExtraFieldsUsage_def)
next
  case False
  let ?fs = "List.map_filter id (vst_ExtraFields vst)"
  let ?m = "fold (\<lambda>f. gm_put (ef_Name f) False) ?fs []"
  have fs: "f \<in> set ?fs \<longleftrightarrow> Some f \<in> set (vst_ExtraFields vst)" for f by (force simp: map_filter_def)
  have unused: "filter (\<lambda>(_, used). \<not> used) (mark_used (FindAllReferences js) ?m) = [] \<longleftrightarrow>
      (\<forall>f. Some f \<in> set (vst_ExtraFields vst) \<longrightarrow> reference_in (ef_Name f) js)" for js
  proof -
    have k: "gm_wf ?m" "map_of ?m k = (if k \<in> ef_Name ` set ?fs then Some False else None)" for k
      using declared_keys [of "[]" False ?fs] by auto
    let ?u = "mark_used (FindAllReferences js) ?m"
    have u: "gm_wf ?u" "map_of ?u k = (if k \<in> set (FindAllReferences js) \<and> map_of ?m k \<noteq> None then Some True else map_of ?m k)" for k
      using mark_used_map [OF k(1), of "FindAllReferences js"] by auto
    have "filter (\<lambda>(_, used). \<not> used) ?u \<noteq> [] \<longleftrightarrow> (\<exists>n. (n, False) \<in> set ?u)"
      by (auto simp: filter_empty_conv)
    also have "\<dots> \<longleftrightarrow> (\<exists>n. n \<in> ef_Name ` set ?fs \<and> n \<notin> set (FindAllReferences js))"
      by (auto simp: gm_mem_iff [OF u(1)] u(2) k(2) split: if_splits)
    finally show ?thesis by (auto simp: fs FindAllReferences_exact)
  qed
  have d: "for_each declare_field (vst_ExtraFields vst) [] = Inr m' \<longleftrightarrow>
      (\<forall>x \<in> set (vst_ExtraFields vst). \<exists>f. x = Some f \<and> well_declared f) \<and> m' = ?m" for m'
    by (rule declare_all) (simp_all add: gm_wf_def)
  show ?thesis using False
    by (auto simp: validateExtraFieldsUsage_def and_then_Inr wrap_err_Inr d Let_def unused)
qed

section \<open>Guards on deletion\<close>

text \<open>The API server lists what the store holds.\<close>

definition lists_store :: "apiclient \<Rightarrow> OptimizedStore \<Rightarrow> bool" where
  "lists_store cl s \<longleftrightarrow>
     (\<forall>ns. \<exists>vss vsts. ls_VirtualService cl ns = Inr vss \<and> ls_VirtualServiceTemplate cl ns = Inr vsts \<and>
        set vss = {vs. m_Namespace (vs_meta vs) = ns \<and> GetVirtualService s (vs_nn vs) = Some vs} \<and>
        set vsts = {vst. m_Namespace (vst_meta vst) = ns \<and> GetVirtualServiceTemplate s (meta_nn (vst_meta vst)) = Some vst})"

text \<open>What a reference means to the builders: its namespace, or that of the resource that holds it.\<close>

definition resolve :: "string \<Rightarrow> ResourceRef \<Rightarrow> NamespacedName" where
  "resolve ns ref = NN (GetNamespace (ref_Namespace ref) ns) (ref_Name ref)"

definition mentions :: "ResourceRef list \<Rightarrow> string \<Rightarrow> bool" where
  "mentions refs name \<longleftrightarrow> (\<exists>r \<in> set refs. ref_Name r = name)"

text \<open>No resource next to it mentions the name.\<close>

definition unmentioned :: "OptimizedStore \<Rightarrow> (VirtualServiceCommonSpec \<Rightarrow> ResourceRef list) \<Rightarrow> ObjectMeta \<Rightarrow> bool" where
  "unmentioned s refs m \<longleftrightarrow>
     (\<forall>vs. GetVirtualService s (vs_nn vs) = Some vs \<and> m_Namespace (vs_meta vs) = m_Namespace m \<longrightarrow>
        \<not> mentions (refs (vs_common vs)) (m_Name m)) \<and>
     (\<forall>vst. GetVirtualServiceTemplate s (meta_nn (vst_meta vst)) = Some vst \<and> m_Namespace (vst_meta vst) = m_Namespace m \<longrightarrow>
        \<not> mentions (refs (vst_common vst)) (m_Name m))"

locale delete_guard =
  fixes obj :: "'r \<Rightarrow> runtime_Object"
    and meta :: "'r \<Rightarrow> ObjectMeta"
    and refs :: "VirtualServiceCommonSpec \<Rightarrow> ResourceRef list"
    and validate :: "apiclient \<Rightarrow> runtime_Object \<Rightarrow> warnings res"
  assumes accepts: "ls_VirtualService cl (m_Namespace (meta r)) = Inr vss \<Longrightarrow>
      ls_VirtualServiceTemplate cl (m_Namespace (meta r)) = Inr vsts \<Longrightarrow>
      validate cl (obj r) = Inr [] \<longleftrightarrow>
        (\<forall>vs \<in> set vss. \<not> mentions (refs (vs_common vs)) (m_Name (meta r))) \<and>
        (\<forall>vst \<in> set vsts. \<not> mentions (refs (vst_common vst)) (m_Name (meta r)))"
begin

lemma exact: "lists_store cl s \<Longrightarrow> validate cl (obj r) = Inr [] \<longleftrightarrow> unmentioned s refs (meta r)"
proof -
  assume "lists_store cl s"
  then obtain vss vsts where l: "ls_VirtualService cl (m_Namespace (meta r)) = Inr vss"
    "ls_VirtualServiceTemplate cl (m_Namespace (meta r)) = Inr vsts"
    "set vss = {vs. m_Namespace (vs_meta vs) = m_Namespace (meta r) \<and> GetVirtualService s (vs_nn vs) = Some vs}"
    "set vsts = {vst. m_Namespace (vst_meta vst) = m_Namespace (meta r) \<and>
       GetVirtualServiceTemplate s (meta_nn (vst_meta vst)) = Some vst}"
    unfolding lists_store_def by meson
  show ?thesis unfolding accepts [OF l(1,2)] unmentioned_def l(3,4) by auto
qed

end

lemma still_referenced_Inr: "still_referenced k n b rs = Inr u \<longleftrightarrow> rs = []"
  by (simp add: still_referenced_def)

lemma names_ref_iff: "names_ref ref n \<longleftrightarrow> mentions (case ref of None \<Rightarrow> [] | Some r \<Rightarrow> [r]) n"
  by (auto simp: names_ref_def mentions_def split: option.split)

lemmas guard_simps = and_then_Inr wrap_err_Inr still_referenced_Inr filter_empty_conv names_ref_iff list_ex_iff Let_def

abbreviation listener_refs :: "VirtualServiceCommonSpec \<Rightarrow> ResourceRef list" where
  "listener_refs c \<equiv> (case c_Listener c of None \<Rightarrow> [] | Some r \<Rightarrow> [r])"

abbreviation access_log_refs :: "VirtualServiceCommonSpec \<Rightarrow> ResourceRef list" where
  "access_log_refs c \<equiv> (case c_AccessLogConfig c of None \<Rightarrow> [] | Some r \<Rightarrow> [r])"

abbreviation tracing_refs :: "VirtualServiceCommonSpec \<Rightarrow> ResourceRef list" where
  "tracing_refs c \<equiv> (case c_TracingRef c of None \<Rightarrow> [] | Some r \<Rightarrow> [r])"

interpretation lg: delete_guard O_Listener l_meta listener_refs Listener_ValidateDelete
  by unfold_locales (auto simp: Listener_ValidateDelete_def guard_simps)

interpretation ag: delete_guard O_AccessLogConfig alc_meta access_log_refs AccessLogConfig_ValidateDelete
  by unfold_locales (auto simp: AccessLogConfig_ValidateDelete_def guard_simps)

interpretation tg: delete_guard O_Tracing tr_meta tracing_refs Tracing_ValidateDelete
  by unfold_locales (auto simp: Tracing_ValidateDelete_def guard_simps)

interpretation hg: delete_guard O_HttpFilter hf_meta c_AdditionalHttpFilters HttpFilter_ValidateDelete
  by unfold_locales (auto simp: HttpFilter_ValidateDelete_def guard_simps mentions_def)

interpretation pg: delete_guard O_Policy p_meta policy_refs Policy_ValidateDelete
  by unfold_locales (auto simp: Policy_ValidateDelete_def guard_simps mentions_def)

interpretation rg: delete_guard O_Route r_meta c_AdditionalRoutes Route_ValidateDelete
  by unfold_locales (auto simp: Route_ValidateDelete_def guard_simps mentions_def)

text \<open>A guard keeps the references from the same namespace, and only those.\<close>

lemma unmentioned_resolve:
  assumes "unmentioned s refs m" "GetVirtualService s (vs_nn vs) = Some vs" "ref \<in> set (refs (vs_common vs))"
    and "resolve (m_Namespace (vs_meta vs)) ref = meta_nn m"
  shows "m_Namespace (vs_meta vs) \<noteq> m_Namespace m"
proof
  assume ns: "m_Namespace (vs_meta vs) = m_Namespace m"
  from assms(3,4) have "mentions (refs (vs_common vs)) (m_Name m)" by (auto simp: mentions_def resolve_def)
  with assms(1,2) ns show False unfolding unmentioned_def by blast
qed


section \<open>A template used from another namespace\<close>

lemma broken_service_blocks_all:
  assumes "store_inv lib x509 store" "GetVirtualService store nn = Some vs" "\<not> is_ok (bld vs store)"
  shows "bt_err (buildSnapshots ctx idx cp lib bld sc store) \<noteq> None \<and> bt_cache (buildSnapshots ctx idx cp lib bld sc store) = sc"
proof -
  have "\<not> (\<exists>p. make_plan ctx idx cp lib bld sc store = Inr p)"
  proof
    assume "\<exists>p. make_plan ctx idx cp lib bld sc store = Inr p"
    then obtain p b where "collect ctx idx bld store (new_build\<lparr>b_polls := 1\<rparr>) = Inr b" "b_errs b = []"
      by (auto elim: make_plan_Inr)
    with collect_no_errs [OF this assms(2,1)] assms(3) show False by simp
  qed
  then obtain x where "make_plan ctx idx cp lib bld sc store = Inl x" by (cases "make_plan ctx idx cp lib bld sc store") auto
  then show ?thesis by (cases x) (simp add: buildSnapshots_def)
qed

lemma missing_template_fails:
  assumes "vs_Template vs = Some ref" "GetVirtualServiceTemplate store (resolve (m_Namespace (vs_meta vs)) ref) = None"
  shows "\<not> is_ok (builder_at xl tm st vs store)"
  using assms
  by (simp add: builder_at_def BuildResources_def MainBuilder_BuildResources_def new_cache_misses
    applyVirtualServiceTemplate_def resolve_def Let_def)

text \<open>
  C32: a template that no virtual service of its own namespace mentions is admitted for deletion even
  when a virtual service of another namespace is built from it. Once it is deleted the rebuild
  fails, and so does every later one while the virtual service is stored: no node gets a new
  snapshot.
\<close>

theorem foreign_template_deletion:
  assumes "updater_ok e c" "e_bld e = builder_at xl tm st" "lists_store cl (cu_store c)"
    and "GetVirtualServiceTemplate (cu_store c) (meta_nn (vst_meta vst)) = Some vst"
    and "\<forall>v. GetVirtualService (cu_store c) (vs_nn v) = Some v \<and> m_Namespace (vs_meta v) = m_Namespace (vst_meta vst) \<longrightarrow>
      \<not> names_ref (vs_Template v) (m_Name (vst_meta vst))"
    and "GetVirtualService (cu_store c) (vs_nn vs) = Some vs" "vs_Template vs = Some ref"
    and "resolve (m_Namespace (vs_meta vs)) ref = meta_nn (vst_meta vst)"
  shows "VirtualServiceTemplate_ValidateDelete cl (O_VirtualServiceTemplate vst) = Inr [] \<and>
    fst (Updater_DeleteVirtualServiceTemplate e ctx (meta_nn (vst_meta vst)) c) \<noteq> None \<and>
    cu_snapshotCache (snd (Updater_DeleteVirtualServiceTemplate e ctx (meta_nn (vst_meta vst)) c)) = cu_snapshotCache c \<and>
    fst (RebuildSnapshots e ctx' (snd (Updater_DeleteVirtualServiceTemplate e ctx (meta_nn (vst_meta vst)) c))) \<noteq> None"
proof (intro conjI)
  let ?nn = "meta_nn (vst_meta vst)" and ?s = "DeleteVirtualServiceTemplate (cu_store c) (meta_nn (vst_meta vst))"
  from assms(3) obtain vss where "ls_VirtualService cl (m_Namespace (vst_meta vst)) = Inr vss"
    "set vss = {v. m_Namespace (vs_meta v) = m_Namespace (vst_meta vst) \<and> GetVirtualService (cu_store c) (vs_nn v) = Some v}"
    unfolding lists_store_def by meson
  with assms(5) show "VirtualServiceTemplate_ValidateDelete cl (O_VirtualServiceTemplate vst) = Inr []"
    by (auto simp: VirtualServiceTemplate_ValidateDelete_def Let_def filter_empty_conv)
  have good: "good (e_lib e) (e_x509 e) (cu_store c)" using assms(1) by (simp add: updater_ok_def)
  have broken: "\<not> is_ok (e_bld e vs s)" if "GetVirtualServiceTemplate s ?nn = None" for s
    unfolding assms(2) by (rule missing_template_fails [OF assms(7)]) (simp add: assms(8) that)
  have gone: "GetVirtualServiceTemplate ?s ?nn = None" using mk.get_del [OF good, of ?nn ?nn] by simp
  have kept: "GetVirtualService ?s (vs_nn vs) = Some vs"
    using assms(6) by (simp add: GetVirtualService_def DeleteVirtualServiceTemplate_def split: option.split)
  have inv: "store_inv (e_lib e) (e_x509 e) ?s" using good by (simp add: good_def inv_DeleteVirtualServiceTemplate)
  have del: "Updater_DeleteVirtualServiceTemplate e ctx ?nn c = rebuildSnapshots e ctx (c\<lparr>cu_store := ?s\<rparr>)"
    using assms(4) by (simp add: Updater_DeleteVirtualServiceTemplate_def IsExistingVirtualServiceTemplate_def GetVirtualServiceTemplate_def gm_has_def)
  note blocked = broken_service_blocks_all [where bld = "e_bld e", OF inv kept broken [OF gone]]
  show "fst (Updater_DeleteVirtualServiceTemplate e ctx ?nn c) \<noteq> None"
    using blocked [of ctx "e_idx e" "e_cp e" "cu_snapshotCache c"]
    by (auto simp: del rebuildSnapshots_def Let_def split: option.split)
  show "cu_snapshotCache (snd (Updater_DeleteVirtualServiceTemplate e ctx ?nn c)) = cu_snapshotCache c"
    unfolding del rebuild_cache using blocked [of ctx "e_idx e" "e_cp e" "cu_snapshotCache c"] by simp
  let ?c = "snd (Updater_DeleteVirtualServiceTemplate e ctx ?nn c)"
  obtain i x where s': "cu_store ?c = ?s\<lparr>nodeDomains := i, vsStatusStorage := x\<rparr>"
    unfolding del by (rule rebuild_store [of e ctx "c\<lparr>cu_store := ?s\<rparr>"]) simp
  have inv': "store_inv (e_lib e) (e_x509 e) (cu_store ?c)"
    unfolding del by (rule rebuild_inv) (simp add: inv)
  have "GetVirtualService (cu_store ?c) (vs_nn vs) = Some vs" "GetVirtualServiceTemplate (cu_store ?c) ?nn = None"
    using kept gone by (simp_all add: s' GetVirtualService_def GetVirtualServiceTemplate_def)
  from broken_service_blocks_all [where bld = "e_bld e", OF inv' this(1) broken [OF this(2)], of ctx' "e_idx e" "e_cp e" "cu_snapshotCache ?c"]
  show "fst (RebuildSnapshots e ctx' ?c) \<noteq> None"
    by (auto simp: RebuildSnapshots_def rebuildSnapshots_def Let_def split: option.split)
qed

section \<open>Clusters\<close>


lemma for_each_unit: "(\<And>x. x \<in> set xs \<Longrightarrow> f x () = Inr ()) \<Longrightarrow> for_each f xs () = Inr ()"
  by (induction xs) auto

text \<open>
  C34: the deletion of a Cluster is checked against routes that forward to it alone. A Cluster that
  routes use with a weight, next to others, is admitted for deletion, and afterwards the clusters
  of a virtual host with such a route can no longer be found.
\<close>

theorem weighted_cluster_deletion:
  assumes "Cluster_UnmarshalV3 lib k = Inr v3" "cv3_Name v3 \<noteq> []"
    and "ls_Route cl (m_Namespace (cl_meta k)) = Inr rts" "ls_Tracing cl (m_Namespace (cl_meta k)) = Inr []"
    and "\<forall>r \<in> set rts. \<exists>rs. Route_UnmarshalV3AndValidate lib r = Inr rs \<and>
      (\<forall>rt \<in> set rs. rt_Action rt \<noteq> Some (RA_Route (Some (CS_Cluster (cv3_Name v3)))))"
    and "GetCluster s (meta_nn (cl_meta k)) = Some k"
    and "rt \<in> set (vh_Routes vh)" "rt_Action rt = Some (RA_Route (Some (CS_WeightedClusters (Some wcs))))" "cv3_Name v3 \<in> set wcs"
  shows "Cluster_ValidateDelete lib hl cl (O_Cluster k) = Inr [] \<and>
    \<not> is_ok (FromVirtualHostRoutes lib (DeleteCluster lib s (meta_nn (cl_meta k))) vh)"
proof (intro conjI)
  have direct: "\<not> route_names_cluster rt (cv3_Name v3)"
    if "rt_Action rt \<noteq> Some (RA_Route (Some (CS_Cluster (cv3_Name v3))))" for rt
    using that assms(2) by (auto simp: route_names_cluster_def split: option.splits RouteActionKind.splits ClusterSpecifier.splits)
  have "check_route lib k (cv3_Name v3) r () = Inr ()" if "r \<in> set rts" for r
  proof -
    from assms(5) that obtain rs where "Route_UnmarshalV3AndValidate lib r = Inr rs"
      "\<forall>rt \<in> set rs. \<not> route_names_cluster rt (cv3_Name v3)" using direct by blast
    then show ?thesis by (auto simp: check_route_def list_ex_iff)
  qed
  then have "for_each (check_route lib k (cv3_Name v3)) rts () = Inr ()" by (rule for_each_unit)
  then show "Cluster_ValidateDelete lib hl cl (O_Cluster k) = Inr []"
    by (simp add: Cluster_ValidateDelete_def assms(1,3,4) Let_def)
  let ?s = "DeleteCluster lib s (meta_nn (cl_meta k))"
  let ?names = "concat (map extractClusterNamesFromRoute (vh_Routes vh))"
  have "cv3_Name v3 \<in> set (extractClusterNamesFromRoute rt)"
    using assms(2,8,9) by (simp add: extractClusterNamesFromRoute_def)
  then have mem: "cv3_Name v3 \<in> set ?names" using assms(7) by auto
  have gone: "GetSpecCluster ?s (cv3_Name v3) = None"
    using assms(1,6) by (simp add: GetSpecCluster_def GetCluster_def DeleteCluster_eq spec_key_def)
  show "\<not> is_ok (FromVirtualHostRoutes lib ?s vh)"
  proof
    assume "is_ok (FromVirtualHostRoutes lib ?s vh)"
    then obtain cs where "map_res (resolve_cluster lib ?s) ?names = Inr cs"
      using mem by (auto simp: is_ok_iff FromVirtualHostRoutes_def getClustersByNames_def Let_def split: if_splits)
    with mem have "is_ok (resolve_cluster lib ?s (cv3_Name v3))" using map_res_ok_iff [of "resolve_cluster lib ?s" ?names]
      by (auto simp: is_ok_iff simp del: set_concat)
    with gone show False by (simp add: resolve_cluster_def)
  qed
qed

end
