(* ===== verification/Admission.thy ===== *)
theory Admission
  imports WebhookSpec
begin

text \<open>
  The composition of the admission webhook of virtual services with the updater: what the heavy dry
  run admits can be built, and what is built protects the secrets it uses.
\<close>

section \<open>A copy of the store\<close>

lemma gm_put_new: "\<not> gm_has m k \<Longrightarrow> gm_put k v m = m @ [(k, v)]"
proof (induction m)
  case (Cons p m)
  then show ?case by (cases p) (auto simp: gm_put_def gm_has_def split: if_splits)
qed (simp add: gm_put_def)

lemma gm_copy_append: "gm_wf (dst @ src) \<Longrightarrow> gm_copy_into src dst = dst @ src"
proof (induction src arbitrary: dst)
  case (Cons p src)
  obtain k v where p: "p = (k, v)" by (cases p)
  from Cons.prems have "\<not> gm_has dst k" by (auto simp: p gm_wf_def gm_has_iff)
  with Cons.prems Cons.IH [of "dst @ [(k, v)]"] show ?case by (simp add: p gm_copy_into_def gm_put_new)
qed (simp add: gm_copy_into_def)

lemma gm_copy_id: "gm_wf m \<Longrightarrow> gm_copy_into m [] = m"
  using gm_copy_append [of "[]" m] by simp

lemma fold_put_id:
  "gm_wf (dst @ src) \<Longrightarrow> (\<And>k v. (k, v) \<in> set src \<Longrightarrow> f v = v) \<Longrightarrow>
   fold (\<lambda>(k, v) acc. gm_put k (f v) acc) src dst = dst @ src"
proof (induction src arbitrary: dst)
  case (Cons p src)
  obtain k v where p: "p = (k, v)" by (cases p)
  from Cons.prems(1) have "\<not> gm_has dst k" by (auto simp: p gm_wf_def gm_has_iff)
  moreover have "f v = v" by (rule Cons.prems(2) [of k]) (simp add: p)
  moreover have "fold (\<lambda>(k, v) acc. gm_put k (f v) acc) src (dst @ [(k, v)]) = (dst @ [(k, v)]) @ src"
    by (rule Cons.IH) (use Cons.prems p in auto)
  ultimately show ?case by (simp add: p gm_put_new)
qed simp

lemma copy_nested_id:
  assumes "gm_wf m" "\<And>k v. map_of m k = Some v \<Longrightarrow> gm_wf v"
  shows "copy_nested m = m"
  using fold_put_id [of "[]" m "\<lambda>v. gm_copy_into v []"] assms
  by (simp add: copy_nested_def gm_mem_iff gm_copy_id)

lemma Copy_id:
  assumes "store_inv lib x509 s"
  shows "Copy s = s"
proof -
  note wf = assms [unfolded store_inv_def]
  have "copy_nested (domainSecretsIndex s) = domainSecretsIndex s"
    using wf by (intro copy_nested_id) (auto simp: secrets_exact_def idx_wf_def)
  moreover have "copy_nested (nodeDomains s) = nodeDomains s"
    using wf by (intro copy_nested_id) (auto simp: node_domains_wf_def)
  moreover have "fold (\<lambda>(k, vsList) acc. gm_put k ([] @ vsList) acc) (templateToVS s) [] = templateToVS s"
    using fold_put_id [of "[]" "templateToVS s" "\<lambda>v. [] @ v"] wf by (simp add: store_wf_def)
  moreover have "StatusStorage_Copy (vsStatusStorage s) = vsStatusStorage s"
    using wf by (simp add: StatusStorage_Copy_def status_wf_def gm_copy_id)
  ultimately show ?thesis using wf unfolding Copy_def store_wf_def by (simp add: gm_copy_id)
qed

section \<open>The outcome of a build does not depend on the cache\<close>

text \<open>
  \<open>Snapshot.Consistent\<close> of the control plane compares names of resources; it does not look at
  versions or at the order of a map.
\<close>

definition consistent_by_items :: "'c cplib \<Rightarrow> bool" where
  "consistent_by_items cp \<longleftrightarrow>
     (\<forall>s s'. (\<forall>t. map_of (GetResources s t) = map_of (GetResources s' t)) \<longrightarrow>
        cp_Consistent cp s = None \<longrightarrow> cp_Consistent cp s' = None)"

lemma groups_same_items:
  "cplib_ok cp \<Longrightarrow> gm_wf (GetResources (groups cp v rm) t) \<and>
     map_of (GetResources (groups cp v rm) t) = map_of (GetResources (groups cp v' rm) t)"
  by (auto simp: GetResources_def groups_def zero_group_def cplib_ok_def split: option.split)

lemma mset_concat_map: "mset (concat (map g xs)) = (\<Sum>x\<in>#mset xs. mset (g x))"
  by (induction xs) auto

lemma same_items_validity:
  assumes "snap_typed s" "snap_typed s'" "gm_wf (GetResources s ListenerType)" "gm_wf (GetResources s' ListenerType)"
    and "map_of (GetResources s ListenerType) = map_of (GetResources s' ListenerType)"
  shows "validateCache s = None \<longleftrightarrow> validateCache s' = None"
proof -
  let ?i = "GetResources s ListenerType" and ?i' = "GetResources s' ListenerType"
  have "set ?i = set ?i'" using assms(3-5) by (auto simp: gm_mem_iff)
  moreover have "distinct ?i" "distinct ?i'" using assms(3,4) by (auto simp: gm_wf_def distinct_map)
  ultimately have "mset ?i = mset ?i'" by (simp add: set_eq_iff_mset_eq_distinct)
  then have "mset (listeners_of s) = mset (listeners_of s')" unfolding listeners_of_def mset_concat_map by (rule arg_cong)
  then have "mset (map socket_address (listeners_of s)) = mset (map socket_address (listeners_of s'))" by simp
  then have "distinct (map socket_address (listeners_of s)) \<longleftrightarrow> distinct (map socket_address (listeners_of s'))"
    by (rule mset_eq_imp_distinct_iff)
  then show ?thesis using assms(1,2) by (simp only: validateCache_None)
qed

lemma groups_same_validity:
  assumes "cplib_ok cp" "rm_ok rm"
  shows "validateCache (groups cp v rm) = None \<longleftrightarrow> validateCache (groups cp v' rm) = None"
  by (rule same_items_validity)
     (use groups_ok(1) [OF assms] groups_same_items [OF assms(1), of _ rm] in blast)+

lemma fresh_misses: "cplib_ok cp \<Longrightarrow> \<not> is_ok (GetSnapshot cp (NewSnapshotCache cp) n)"
  by (simp add: GetSnapshot_def NewSnapshotCache_def cplib_ok_def)

lemma stage_consistent:
  assumes "for_each (stage_node ctx cp sc) tmp p = Inr p'" "b_errs (p_build p') = b_errs (p_build p)" "(n, rm) \<in> set tmp"
  shows "\<exists>s ch. node_snapshot cp sc n rm = Inr (s, ch) \<and> (ch \<longrightarrow> cp_Consistent cp s = None)"
  using assms
proof (induction tmp arbitrary: p)
  case (Cons x tmp)
  from Cons.prems(1) obtain p1 where p1: "stage_node ctx cp sc x p = Inr p1"
    and rest: "for_each (stage_node ctx cp sc) tmp p1 = Inr p'" by (auto split: sum.splits)
  have "prefix (b_errs (p_build p)) (b_errs (p_build p1))" "prefix (b_errs (p_build p1)) (b_errs (p_build p'))"
    using stage_node_frame [OF p1] stage_frame [OF rest] by auto
  then have errs: "b_errs (p_build p1) = b_errs (p_build p)" "b_errs (p_build p') = b_errs (p_build p1)"
    using Cons.prems(2) by (metis prefix_order.antisym)+
  show ?case
  proof (cases "x = (n, rm)")
    case True
    from p1 [unfolded True] errs(1) show ?thesis by (rule stage_node_ok) blast
  next
    case False
    with Cons.prems(3) Cons.IH [OF rest errs(2)] show ?thesis by simp
  qed
qed simp

text \<open>What a build that started from an empty cache tells about the nodes.\<close>

lemma dry_build_nodes:
  assumes "cplib_ok cp" "cp_sets cp" "bt_err (buildSnapshots ctx idx cp lib bld (NewSnapshotCache cp) s) = None"
  obtains b tmp where "collect ctx idx bld s (new_build\<lparr>b_polls := 1\<rparr>) = Inr b" "b_errs b = []"
    "Mix lib (all_mixer bld s) s = Inr tmp" "resmaps_ok tmp"
    "\<forall>n rm. map_of tmp n = Some rm \<longrightarrow> (\<exists>v. cp_Consistent cp (groups cp v rm) = None \<and> validateCache (groups cp v rm) = None)"
proof -
  let ?sc = "NewSnapshotCache cp"
  from assms(3) obtain p c where mp: "make_plan ctx idx cp lib bld ?sc s = Inr p"
    and commit: "commit cp (p_staged p) [] ?sc = ([], c)" by (rule buildSnapshots_ok)
  from mp obtain b tmp p1 where b: "collect ctx idx bld s (new_build\<lparr>b_polls := 1\<rparr>) = Inr b" "b_errs b = []"
    and tmp: "Mix lib (b_mixer b) s = Inr tmp"
    and st: "for_each (stage_node ctx cp ?sc) tmp \<lparr>p_build = b\<lparr>b_polls := Suc (b_polls b)\<rparr>, p_staged = [],
        p_nodeIDsForCleanup = GetNodeIDsAsMap ?sc\<rparr> = Inr p1" "b_errs (p_build p1) = []"
    and p1: "p_staged p = p_staged p1" by (rule make_plan_Inr)
  have mix: "Mix lib (all_mixer bld s) s = Inr tmp" using tmp collect_mixer [OF b(1)] by simp
  have ok: "resmaps_ok tmp" using Mix_ok all_mixer_ok mix by metis
  have "\<exists>v. cp_Consistent cp (groups cp v rm) = None \<and> validateCache (groups cp v rm) = None" if n: "map_of tmp n = Some rm" for n rm
  proof -
    from ok n have "gm_wf rm" by (auto simp: resmaps_ok_def rm_ok_def)
    with assms(1) obtain v ch where v: "node_snapshot cp ?sc n rm = Inr (groups cp v rm, ch)"
      and ch: "\<not> ch \<Longrightarrow> \<exists>prev. GetSnapshot cp ?sc n = Inr prev \<and> \<not> group_changed prev rm"
      by (rule node_snapshot_cases [where sc = ?sc and n = n]) blast
    have "ch" using ch fresh_misses [OF assms(1), of n] by (cases ch) auto
    have cons: "cp_Consistent cp (groups cp v rm) = None"
      using stage_consistent [OF st(1) _ map_of_SomeD [OF n]] st(2) b(2) v \<open>ch\<close> by auto
    have "map_of (p_staged p) n = Some (groups cp v rm)"
      using stage_all [OF st(1), of n] st(2) b(2) ok n v \<open>ch\<close> by (simp add: p1 resmaps_ok_def staged_for_def)
    then have "(n, groups cp v rm) \<in> set (p_staged p)" by (rule map_of_SomeD)
    then have "validateCache (groups cp v rm) = None"
      using commit_errs [OF assms(2), of n "groups cp v rm" "p_staged p" "[]" ?sc] commit
      by (cases "validateCache (groups cp v rm)") auto
    with cons show ?thesis by blast
  qed
  with b mix ok show ?thesis by (intro that) blast+
qed

lemma build_cache_independent:
  assumes "cplib_ok cp" "cp_sets cp" "consistent_by_items cp" "store_inv lib x509 s" "uncancelled ctx'"
    and "bt_err (buildSnapshots ctx idx cp lib bld (NewSnapshotCache cp) s) = None"
  shows "bt_err (buildSnapshots ctx' idx' cp lib bld sc s) = None"
proof -
  from assms(1,2,6) obtain b tmp where b: "collect ctx idx bld s (new_build\<lparr>b_polls := 1\<rparr>) = Inr b" "b_errs b = []"
    and mix: "Mix lib (all_mixer bld s) s = Inr tmp" and ok: "resmaps_ok tmp"
    and nodes: "\<forall>n rm. map_of tmp n = Some rm \<longrightarrow>
      (\<exists>v. cp_Consistent cp (groups cp v rm) = None \<and> validateCache (groups cp v rm) = None)"
    by (rule dry_build_nodes)
  have every: "cp_Consistent cp (groups cp v' rm) = None" "validateCache (groups cp v' rm) = None" "gm_wf rm"
    if n: "map_of tmp n = Some rm" for n rm v'
  proof -
    from nodes n obtain v where v: "cp_Consistent cp (groups cp v rm) = None" "validateCache (groups cp v rm) = None" by blast
    have "\<forall>t. map_of (GetResources (groups cp v rm) t) = map_of (GetResources (groups cp v' rm) t)"
      using groups_same_items [OF assms(1)] by blast
    with assms(3) v(1) show "cp_Consistent cp (groups cp v' rm) = None" unfolding consistent_by_items_def by blast
    have rm: "rm_ok rm" using ok n by (simp add: resmaps_ok_def)
    then show "validateCache (groups cp v' rm) = None" "gm_wf rm"
      using v(2) groups_same_validity [OF assms(1) rm, of v v'] by (simp_all add: rm_ok_def)
  qed
  have "distinct (map (\<lambda>(n, d). nodeIDDomain n d) (all_claims bld s (known_nodes (own_mixer bld s))))"
    using collect_effect(1,2) [OF b(1)] collect_known [OF b(1)] by simp
  moreover have "\<forall>vs \<in> set (all_vs s). GetNodeIDs vs \<noteq> [] \<and> is_ok (bld vs s)"
    using collect_failed [OF b(1)] b(2) by blast
  moreover have "\<forall>(n, rm) \<in> set tmp. \<exists>s ch. node_snapshot cp sc n rm = Inr (s, ch) \<and> (ch \<longrightarrow> cp_Consistent cp s = None)"
  proof (clarify)
    fix n rm assume "(n, rm) \<in> set tmp"
    then have n: "map_of tmp n = Some rm" using ok by (simp add: resmaps_ok_def gm_mem_iff)
    from assms(1) every(3) [OF n] obtain v ch where "node_snapshot cp sc n rm = Inr (groups cp v rm, ch)"
      by (rule node_snapshot_cases [where sc = sc and n = n]) (rule that)
    with every(1) [OF n] show "\<exists>s ch. node_snapshot cp sc n rm = Inr (s, ch) \<and> (ch \<longrightarrow> cp_Consistent cp s = None)" by blast
  qed
  ultimately obtain p where p: "make_plan ctx' idx' cp lib bld sc s = Inr p"
    using plan_progress [OF assms(5) _ _ mix] by blast
  have "\<forall>(n, s) \<in> set (p_staged p). validateCache s = None"
  proof (clarify)
    fix n s' assume "(n, s') \<in> set (p_staged p)"
    then obtain rm v where "map_of tmp n = Some rm" "s' = groups cp v rm"
      using plan_staged_from [OF assms(1) p] mix by (metis Inr_inject)
    with every(2) [of n rm v] show "validateCache s' = None" by simp
  qed
  with build_progress [OF assms(2) p] show ?thesis .
qed

section \<open>What is admitted can be built\<close>

text \<open>After a rebuild without error every virtual service is reported valid.\<close>

lemma rebuild_valid:
  assumes "rebuildSnapshots e ctx c = (None, c')" "store_inv (e_lib e) (e_x509 e) (cu_store c)"
    and "GetVirtualService (cu_store c) nn = Some vs"
  shows "Updater_GetVirtualServiceWithStatus c' nn = Some (UpdateStatus vs False [])"
proof -
  let ?r = "buildSnapshots ctx (e_idx e) (e_cp e) (e_lib e) (e_bld e) (cu_snapshotCache c) (cu_store c)"
  let ?st = "build_status (e_bld e) (cu_store c) vs"
  have err: "bt_err ?r = None" and c': "cu_store c' = apply_statuses (bt_vsStatuses ?r) (bt_store ?r)"
    using assms(1) by (auto simp: rebuildSnapshots_def Let_def split: option.splits)
  from err obtain p where mp: "make_plan ctx (e_idx e) (e_cp e) (e_lib e) (e_bld e) (cu_snapshotCache c) (cu_store c) = Inr p"
    and sts: "bt_vsStatuses ?r = b_vsStatuses (p_build p)" by (rule buildSnapshots_ok)
  from mp obtain b where b: "collect ctx (e_idx e) (e_bld e) (cu_store c) (new_build\<lparr>b_polls := 1\<rparr>) = Inr b" "b_errs b = []"
    "b_vsStatuses (p_build p) = b_vsStatuses b" by (rule make_plan_Inr)
  note se = statuses_exact [OF assms(2) b(1) assms(3)]
  have st: "?st = \<lparr>Invalid = False, Message = []\<rparr>"
    using collect_no_errs [OF b(1,2) assms(3,2)] by (auto simp: build_status_def is_ok_iff)
  have get: "GetStatus (vsStatusStorage (cu_store c')) nn = ?st"
    using apply_statuses_get [OF collect_statuses_wf [OF b(1)]] se b(3) sts unfolding c' by simp
  obtain i s' where "cu_store c' = (cu_store c)\<lparr>nodeDomains := i, vsStatusStorage := s'\<rparr>"
    by (rule rebuild_store [of e ctx c]) (simp add: assms(1))
  then have "map_of (virtualServices (cu_store c')) nn = Some vs" using assms(3) by (simp add: GetVirtualService_def)
  then show ?thesis
    using get st stored_vs(2) [OF assms(2,3)]
    by (simp add: Updater_GetVirtualServiceWithStatus_def GetVirtualServiceWithStatus_def ApplyStatusToVS_def UpdateStatus_def Let_def)
qed

lemma heavy_admits:
  assumes "validateVirtualService sd cfg e cl ctxL ctxH c vs prevVS = Inr u" "\<not> LightDryRun cfg"
  shows "GetNodeIDs vs \<noteq> []" "DryBuildSnapshotsWithVirtualService e ctxH vs c = None"
  using assms
  by (auto simp: validateVirtualService_def getLightDryRunEnabled_def heavy_validation_def and_then_Inr
      split: if_splits option.splits)

text \<open>
  C30: a new virtual service that the webhook admits by the heavy dry run can be applied. The rebuild
  that follows, when it is not cancelled, succeeds whatever the cache holds, the virtual service is
  stored, and every stored virtual service is reported valid. The hypotheses: the control plane
  library behaves as documented, the store is as every run of the updater leaves it, references of
  the virtual service have their namespace filled in, and the UID is its own.
\<close>

theorem admitted_service_builds:
  assumes "cplib_ok (e_cp e)" "cp_sets (e_cp e)" "consistent_by_items (e_cp e)" "updater_ok e c" "uncancelled ctx"
    and "VirtualService_NormalizeSpec vs = vs" "uid_free vs_meta (virtualServices (cu_store c)) vs"
    and "GetVirtualService (cu_store c) (vs_nn vs) = None"
    and "\<not> skips_validation cfg vs" "\<not> LightDryRun cfg"
    and "VirtualService_ValidateCreate sd cfg e cl ctxL ctxH c (O_VirtualService vs) = Inr w"
  shows "\<exists>c'. rebuildSnapshots e ctx (c\<lparr>cu_store := SetVirtualService (cu_store c) vs\<rparr>) = (None, c') \<and>
    ApplyVirtualService e ctx vs c = c' \<and> GetVirtualService (cu_store c') (vs_nn vs) = Some vs \<and>
    (\<forall>nn v. GetVirtualService (cu_store c') nn = Some v \<longrightarrow>
       Updater_GetVirtualServiceWithStatus c' nn = Some (UpdateStatus v False []))"
proof -
  let ?s = "SetVirtualService (cu_store c) vs" and ?c = "c\<lparr>cu_store := SetVirtualService (cu_store c) vs\<rparr>"
  have good: "good (e_lib e) (e_x509 e) (cu_store c)" using assms(4) by (simp add: updater_ok_def)
  then have inv: "store_inv (e_lib e) (e_x509 e) (cu_store c)" by (rule good_inv)
  have inv': "store_inv (e_lib e) (e_x509 e) ?s" using inv assms(7) by (rule inv_SetVirtualService)
  from assms(9,11) have "validateVirtualService sd cfg e cl ctxL ctxH c vs None = Inr ()"
    by (auto simp: VirtualService_ValidateCreate_def and_then_Inr wrap_err_Inr)
  from heavy_admits(2) [OF this assms(10)]
  have "bt_err (buildSnapshots ctxH (e_idx e) (e_cp e) (e_lib e) (e_bld e) (NewSnapshotCache (e_cp e)) ?s) = None"
    by (simp add: DryBuildSnapshotsWithVirtualService_def Copy_id [OF inv] Let_def)
  from build_cache_independent [OF assms(1-3) inv' assms(5) this, of "e_idx e" "cu_snapshotCache c"]
  have "fst (rebuildSnapshots e ctx ?c) = None" by (simp add: rebuildSnapshots_def Let_def)
  then obtain c' where c': "rebuildSnapshots e ctx ?c = (None, c')" by (cases "rebuildSnapshots e ctx ?c") auto
  have "ApplyVirtualService e ctx vs c = c'" using assms(6,8) c' by (simp add: ApplyVirtualService_def with_store_def)
  moreover obtain i st where s': "cu_store c' = ?s\<lparr>nodeDomains := i, vsStatusStorage := st\<rparr>"
    by (rule rebuild_store [of e ctx ?c]) (simp add: c')
  then have get: "GetVirtualService (cu_store c') nn = GetVirtualService ?s nn" for nn by (simp add: GetVirtualService_def)
  moreover have "GetVirtualService ?s (vs_nn vs) = Some vs" using vk.get_put [OF good] by simp
  moreover have "Updater_GetVirtualServiceWithStatus c' nn = Some (UpdateStatus v False [])"
    if "GetVirtualService (cu_store c') nn = Some v" for nn v
    by (rule rebuild_valid [OF c']) (use inv' that get in simp_all)
  ultimately show ?thesis using c' by auto
qed

section \<open>Secrets in use\<close>

definition used :: "build \<Rightarrow> NamespacedName set" where
  "used b = fst ` set (b_usedSecrets b)"

definition uses :: "builder \<Rightarrow> OptimizedStore \<Rightarrow> VirtualService \<Rightarrow> NamespacedName set" where
  "uses bld store vs = (case bld vs store of Inl _ \<Rightarrow> {} | Inr res \<Rightarrow> set (r_UsedSecrets res))"

lemma uses_iff: "x \<in> uses bld store vs \<longleftrightarrow> (\<exists>res. bld vs store = Inr res \<and> x \<in> set (r_UsedSecrets res))"
  by (auto simp: uses_def split: sum.splits)

lemma fold_put_keys: "fst ` set (fold (\<lambda>k m. gm_put k v m) ks m) = set ks \<union> fst ` set m"
  by (induction ks arbitrary: m) (auto simp: gm_keys_put)

lemma gm_copy_keys: "fst ` set (gm_copy_into src dst) = fst ` set src \<union> fst ` set dst"
proof (induction src arbitrary: dst)
  case (Cons p src)
  then show ?case by (cases p) (simp add: gm_copy_into_def gm_keys_put)
qed (simp add: gm_copy_into_def)

lemma used_upds [simp]:
  "used (b\<lparr>b_polls := k\<rparr>) = used b" "used (set_status vs i m b) = used b" "used (add_err err b) = used b"
  "used (b\<lparr>b_common := cs\<rparr>) = used b" "used (use_secrets res vs b) = set (r_UsedSecrets res) \<union> used b"
  by (simp_all add: used_def set_status_def add_err_def use_secrets_def fold_put_keys)

lemma frame_used: "frame b b' \<Longrightarrow> used b' = used b"
  by (simp add: frame_def used_def)

lemma process_vs_used:
  assumes "process_vs ctx idx bld store vs b = Inr b'"
  shows "used b' = used b \<union> (if GetNodeIDs vs = [] \<or> is_common vs then {} else uses bld store vs)"
proof (cases "GetNodeIDs vs = [] \<or> is_common vs")
  case True
  with assms show ?thesis
    by (cases "GetNodeIDs vs = []") (auto simp: process_vs_def exits poll_Inr Let_def is_common_def)
next
  case False
  show ?thesis
  proof (cases "bld vs store")
    case (Inl err)
    with assms False show ?thesis by (auto simp: process_vs_def exits poll_Inr Let_def is_common_def uses_def)
  next
    case (Inr res)
    with assms False obtain b1 where run: "for_each (add_node ctx idx res) (GetNodeIDs vs) b1 = Inr b'" and
      "used b1 = set (r_UsedSecrets res) \<union> used b"
      by (auto simp: process_vs_def exits poll_Inr Let_def is_common_def)
    with False Inr frame_used [OF conjunct2 [OF add_nodes_effect [OF run]]] show ?thesis by (auto simp: uses_def)
  qed
qed

lemma process_common_used:
  assumes "process_common ctx idx bld store vs b = Inr b'"
  shows "used b' = used b \<union> uses bld store vs"
proof (cases "bld vs store")
  case (Inl err)
  with assms show ?thesis by (auto simp: process_common_def exits poll_Inr uses_def)
next
  case (Inr res)
  with assms have "for_each (add_node ctx idx res) (map fst (mx_nodeIDs (b_mixer b)))
      (use_secrets res vs (b\<lparr>b_polls := Suc (Suc (b_polls b))\<rparr>)) = Inr b'"
    by (auto simp: process_common_def exits poll_Inr)
  from frame_used [OF conjunct2 [OF add_nodes_effect [OF this]]] Inr show ?thesis by (auto simp: uses_def)
qed

lemma for_each_used:
  assumes "for_each f xs b = Inr b'" "\<And>x b b'. f x b = Inr b' \<Longrightarrow> used b' = used b \<union> u x"
  shows "used b' = used b \<union> (\<Union>x\<in>set xs. u x)"
  using assms(1)
proof (induction xs arbitrary: b)
  case (Cons x xs)
  then obtain b1 where "f x b = Inr b1" "for_each f xs b1 = Inr b'" by (auto split: sum.splits)
  with Cons.IH assms(2) show ?case by auto
qed simp

lemma collect_used:
  assumes "collect ctx idx bld store (new_build\<lparr>b_polls := k\<rparr>) = Inr b" "b_errs b = []"
  shows "used b = (\<Union>vs\<in>set (all_vs store). uses bld store vs)"
proof -
  from assms(1) obtain b1 where b1: "for_each (process_vs ctx idx bld store) (all_vs store) (new_build\<lparr>b_polls := k\<rparr>) = Inr b1"
    and b: "for_each (process_common ctx idx bld store) (b_common b1) b1 = Inr b"
    by (auto simp: collect_def exits)
  define V where "V = set (all_vs store)"
  have "used b1 = used (new_build\<lparr>b_polls := k\<rparr>) \<union>
      (\<Union>vs\<in>V. if GetNodeIDs vs = [] \<or> is_common vs then {} else uses bld store vs)"
    unfolding V_def using b1 by (rule for_each_used) (rule process_vs_used)
  moreover have "used b = used b1 \<union> (\<Union>vs\<in>set (b_common b1). uses bld store vs)"
    using b by (rule for_each_used) (rule process_common_used)
  moreover have "used (new_build\<lparr>b_polls := k\<rparr>) = {}" by (simp add: used_def new_build_def)
  moreover have "set (b_common b1) = {vs \<in> V. is_common vs}"
    unfolding V_def using process_all_effect(3) [OF b1] by (simp add: new_build_def del: set_map)
  moreover have "GetNodeIDs vs \<noteq> []" if "vs \<in> V" for vs
    using collect_failed [OF assms(1)] that assms(2) unfolding V_def by blast
  ultimately show ?thesis unfolding V_def [symmetric] by (auto split: if_splits)
qed

text \<open>
  C31: after a rebuild without error the deletion of a secret is admitted exactly when no stored
  virtual service is built with it; a secret without a namespace counts as one of the namespace default.
\<close>

theorem secret_deletion_exact:
  assumes "rebuildSnapshots e ctx c = (None, c')" "store_inv (e_lib e) (e_x509 e) (cu_store c)"
  shows "Secret_ValidateDelete c' (O_Secret secret) = Inr [] \<longleftrightarrow>
    (\<nexists>nn vs res. GetVirtualService (cu_store c') nn = Some vs \<and> e_bld e vs (cu_store c) = Inr res \<and>
       NN (if m_Namespace (s_meta secret) = [] then ''default'' else m_Namespace (s_meta secret)) (m_Name (s_meta secret))
         \<in> set (r_UsedSecrets res))"
proof -
  let ?r = "buildSnapshots ctx (e_idx e) (e_cp e) (e_lib e) (e_bld e) (cu_snapshotCache c) (cu_store c)"
  let ?sn = "NN (if m_Namespace (s_meta secret) = [] then ''default'' else m_Namespace (s_meta secret)) (m_Name (s_meta secret))"
  have err: "bt_err ?r = None" and c': "cu_usedSecrets c' = nilmap (bt_usedSecrets ?r)"
    using assms(1) by (auto simp: rebuildSnapshots_def Let_def split: option.splits)
  from err obtain p where mp: "make_plan ctx (e_idx e) (e_cp e) (e_lib e) (e_bld e) (cu_snapshotCache c) (cu_store c) = Inr p"
    and us: "bt_usedSecrets ?r = Some (b_usedSecrets (p_build p))" by (rule buildSnapshots_ok)
  from mp obtain b where b: "collect ctx (e_idx e) (e_bld e) (cu_store c) (new_build\<lparr>b_polls := 1\<rparr>) = Inr b" "b_errs b = []"
    "b_usedSecrets (p_build p) = b_usedSecrets b" by (rule make_plan_Inr)
  have keys: "fst ` set (GetUsedSecrets c') = used b"
    by (simp add: GetUsedSecrets_def c' us b(3) nilmap_def used_def gm_copy_keys)
  obtain i st where s': "cu_store c' = (cu_store c)\<lparr>nodeDomains := i, vsStatusStorage := st\<rparr>"
    by (rule rebuild_store [of e ctx c]) (simp add: assms(1))
  have "Secret_ValidateDelete c' (O_Secret secret) = Inr [] \<longleftrightarrow> ?sn \<notin> fst ` set (GetUsedSecrets c')"
    unfolding map_of_eq_None_iff [symmetric]
    by (cases "map_of (GetUsedSecrets c') ?sn") (auto simp: Secret_ValidateDelete_def Let_def)
  also have "\<dots> \<longleftrightarrow> ?sn \<notin> (\<Union>vs\<in>set (all_vs (cu_store c)). uses (e_bld e) (cu_store c) vs)"
    unfolding keys collect_used [OF b(1,2)] ..
  also have "?sn \<in> (\<Union>vs\<in>set (all_vs (cu_store c)). uses (e_bld e) (cu_store c) vs) \<longleftrightarrow>
      (\<exists>nn vs res. GetVirtualService (cu_store c) nn = Some vs \<and> e_bld e vs (cu_store c) = Inr res \<and> ?sn \<in> set (r_UsedSecrets res))"
    unfolding UN_iff Bex_def uses_iff using all_vs_props(2) [OF assms(2)] stored_vs(1) [OF assms(2)] by blast
  also have "GetVirtualService (cu_store c) = GetVirtualService (cu_store c')"
    by (simp add: s' GetVirtualService_def fun_eq_iff)
  finally show ?thesis .
qed

end
