(* ===== verification/BuildWitness.thy ===== *)
theory BuildWitness
  imports UpdaterSpec
begin

text \<open>
  A small configuration on which the properties of a build and of the light validation are exercised: two listeners on one
  address, virtual services for one node or for all of them, and a function that names the one
  domain of a virtual service after it and fails for the name \<open>x\<close>.
\<close>

section \<open>A small configuration\<close>

definition world_vs :: "string \<Rightarrow> string \<Rightarrow> VirtualService" where
  "world_vs n nodes = empty_vs\<lparr>vs_meta := empty_meta\<lparr>m_Namespace := ''prod'', m_Name := n, m_UID := n,
     m_Annotations := Some [(AnnotationNodeIDs, nodes)]\<rparr>,
     vs_common := empty_common\<lparr>c_Listener :=
       Some \<lparr>ref_Name = (if n = ''o'' then ''other'' else ''https''), ref_Namespace = None\<rparr>\<rparr>\<rparr>"

definition world_listener :: Listener where
  "world_listener = toy_listener\<lparr>l_meta := (l_meta toy_listener)\<lparr>m_Name := ''other'', m_UID := ''o''\<rparr>\<rparr>"

definition world_build :: builder where
  "world_build vs store =
     (if m_Name (vs_meta vs) = ''x'' then Inl (Wrap ''vs'' (Err ''bad''))
      else Inr \<lparr>r_Listener = NN ''prod'' (if m_Name (vs_meta vs) = ''o'' then ''other'' else ''https''),
                r_FilterChain = [toy_chain (m_Name (vs_meta vs))], r_RouteConfig = None,
                r_Clusters = [], r_Secrets = [], r_UsedSecrets = [], r_Domains = [m_Name (vs_meta vs)]\<rparr>)"

definition world :: "VirtualService list \<Rightarrow> OptimizedStore" where
  "world vss = fold (\<lambda>vs s. SetVirtualService s vs) vss (SetListener (SetListener NewOptimizedStore toy_listener) world_listener)"

definition new_uid :: "('r \<Rightarrow> ObjectMeta) \<Rightarrow> (NamespacedName, 'r) gomap \<Rightarrow> 'r \<Rightarrow> bool" where
  "new_uid meta m r \<longleftrightarrow> list_all (\<lambda>(nn, x). m_UID (meta x) \<noteq> m_UID (meta r)) m"

lemma uid_free_new: "new_uid meta m r \<Longrightarrow> uid_free meta m r"
  by (auto simp: new_uid_def key_free_def list_all_iff dest!: map_of_SomeD)

fun new_uids :: "VirtualService list \<Rightarrow> OptimizedStore \<Rightarrow> bool" where
  "new_uids [] s \<longleftrightarrow> True"
| "new_uids (vs # vss) s \<longleftrightarrow> new_uid vs_meta (virtualServices s) vs \<and> new_uids vss (SetVirtualService s vs)"

lemma world_fold_inv:
  "store_inv lib x509 s \<Longrightarrow> new_uids vss s \<Longrightarrow> store_inv lib x509 (fold (\<lambda>vs s. SetVirtualService s vs) vss s)"
  by (induction vss arbitrary: s) (auto intro: inv_SetVirtualService uid_free_new)

lemma world_inv:
  assumes "new_uids vss (world [])"
  shows "store_inv lib x509 (world vss)"
proof -
  have "new_uid l_meta (listeners NewOptimizedStore) toy_listener"
    "new_uid l_meta (listeners (SetListener NewOptimizedStore toy_listener)) world_listener"
    by code_simp+
  then have "store_inv lib x509 (world [])"
    unfolding world_def fold_simps by (intro inv_SetListener store_inv_New uid_free_new)
  from world_fold_inv [OF this assms] show ?thesis by (simp add: world_def)
qed

text \<open>What is mixed for each node, checked by evaluation.\<close>

definition mixed_all :: "(resmap \<Rightarrow> bool) \<Rightarrow> OptimizedStore \<Rightarrow> bool" where
  "mixed_all P st = (case Mix toy_lib (all_mixer world_build st) st of Inl _ \<Rightarrow> False | Inr tmp \<Rightarrow> list_all (\<lambda>(n, rm). P rm) tmp)"

lemma mixed_allD:
  assumes "mixed_all P st"
  shows "\<forall>tmp n rm. Mix toy_lib (all_mixer world_build st) st = Inr tmp \<and> map_of tmp n = Some rm \<longrightarrow> P rm"
    "\<exists>tmp. Mix toy_lib (all_mixer world_build st) st = Inr tmp"
  using assms by (auto simp: mixed_all_def list_all_iff split: sum.splits dest!: map_of_SomeD)

abbreviation never :: ctx where
  "never \<equiv> \<lambda>_. None"

lemma never_uncancelled: "uncancelled never"
  by (simp add: uncancelled_def)

lemma toy_cp_sets: "cp_sets toy_cp"
  by (simp add: cp_sets_def toy_cp_def)

lemma fresh_cache: "sc_wf (NewSnapshotCache toy_cp)" "cache_ok toy_cp (NewSnapshotCache toy_cp)"
  by (simp_all add: sc_wf_def cache_ok_def NewSnapshotCache_def GetSnapshot_def toy_cp_def)

abbreviation world_run :: "OptimizedStore \<Rightarrow> (string, Snapshot) gomap built" where
  "world_run store \<equiv> buildSnapshots never True toy_cp toy_lib world_build (NewSnapshotCache toy_cp) store"

section \<open>The properties at this configuration\<close>

definition vs_v :: VirtualService where
  "vs_v = world_vs ''v'' ''n''"

definition vs_w :: VirtualService where
  "vs_w = world_vs ''w'' ''*''"

definition two :: OptimizedStore where
  "two = world [vs_v, vs_w]"

lemma two_inv: "store_inv toy_lib toy_x509 two"
  unfolding two_def by (rule world_inv) code_simp

lemma two_ok: "bt_err (world_run two) = None"
  by code_simp

lemma two_mixed:
  "mixed_all (\<lambda>rm. resmap_names_ok rm \<and> (case map_of rm ListenerType of None \<Rightarrow> True | Some rs \<Rightarrow> length rs = 1)) two"
  by code_simp

lemma two_names:
  "\<forall>tmp n rm. Mix toy_lib (all_mixer world_build two) two = Inr tmp \<and> map_of tmp n = Some rm \<longrightarrow> resmap_names_ok rm"
  using mixed_allD(1) [OF two_mixed] by blast

lemma two_lookup:
  "GetVirtualService two (NN ''prod'' ''v'') = Some vs_v" "GetVirtualService two (NN ''prod'' ''w'') = Some vs_w"
  by code_simp+

definition res_of :: "string \<Rightarrow> Resources" where
  "res_of n = \<lparr>r_Listener = NN ''prod'' ''https'', r_FilterChain = [toy_chain n], r_RouteConfig = None,
     r_Clusters = [], r_Secrets = [], r_UsedSecrets = [], r_Domains = [n]\<rparr>"

lemma two_builds: "world_build vs_v two = Inr (res_of ''v'')" "world_build vs_w two = Inr (res_of ''w'')"
  by code_simp+

lemma two_own: "own_nodes vs_v = [''n'']" "is_common vs_w" "\<not> is_common vs_v"
  by code_simp+

theorem domains_unique_per_node_witness:
  "GetVirtualService two (NN ''prod'' ''v'') = Some vs_v \<and> GetVirtualService two (NN ''prod'' ''w'') = Some vs_w \<and>
   ''n'' \<in> served_on world_build two vs_v \<and> ''n'' \<in> served_on world_build two vs_w \<and>
   set (r_Domains (res_of ''v'')) \<inter> set (r_Domains (res_of ''w'')) = {}"
proof -
  have n: "''n'' \<in> served_on world_build two vs_v" by (simp add: served_on_def two_own)
  have "''n'' \<in> active_nodes world_build two"
    unfolding active_nodes_def mem_Collect_eq
    by (rule bexI [OF _ stored_vs(1) [OF two_inv two_lookup(1)]]) (simp add: two_own two_builds)
  then have n': "''n'' \<in> served_on world_build two vs_w" by (simp add: served_on_def two_own)
  note u = domains_unique_per_node [OF two_inv two_ok two_lookup(1) two_builds(1) n, THEN conjunct2]
  have "set (r_Domains (res_of ''v'')) \<inter> set (r_Domains (res_of ''w'')) = {}"
    by (rule u [rule_format, of "NN ''prod'' ''w''" vs_w]) (intro conjI two_lookup two_builds n', simp)
  with n n' two_lookup show ?thesis by (intro conjI)
qed

text \<open>The virtual service \<open>x\<close> is for all nodes; it fails to build and is reported valid.\<close>

definition vs_x :: VirtualService where
  "vs_x = world_vs ''x'' ''*''"

definition bad :: OptimizedStore where
  "bad = world [vs_v, vs_x]"

lemma bad_inv: "store_inv toy_lib toy_x509 bad"
  unfolding bad_def by (rule world_inv) code_simp


theorem snapshots_typed_witness:
  "is_ok (GetListeners toy_cp (bt_cache (world_run two)) ''n'') \<and> \<not> is_ok (GetListeners toy_cp (bt_cache (world_run two)) ''m'')"
proof -
  note t = snapshots_typed [OF toy_cp_ok fresh_cache(2), of never True toy_lib world_build two, unfolded Let_def, THEN conjunct2]
  have "is_ok (GetSnapshot toy_cp (bt_cache (world_run two)) ''n'')" by code_simp
  then obtain s where n: "GetSnapshot toy_cp (bt_cache (world_run two)) ''n'' = Inr s" unfolding is_ok_iff by (elim exE)
  have "\<not> is_ok (GetSnapshot toy_cp (bt_cache (world_run two)) ''m'')" by code_simp
  then obtain e where m: "GetSnapshot toy_cp (bt_cache (world_run two)) ''m'' = Inl e"
    by (cases "GetSnapshot toy_cp (bt_cache (world_run two)) ''m''") simp_all
  from spec [OF t, of "''n''", unfolded n sum.case] spec [OF t, of "''m''", unfolded m sum.case] show ?thesis by simp
qed

lemma two_stored:
  assumes "GetVirtualService two nn = Some vs"
  shows "vs = vs_v \<or> vs = vs_w"
proof -
  have "list_all (\<lambda>vs. vs = vs_v \<or> vs = vs_w) (all_vs two)" by code_simp
  then show ?thesis using stored_vs(1) [OF two_inv assms] by (simp only: list_all_iff)
qed




text \<open>Two virtual services bring two listeners of one address to the node \<open>m\<close>; the node \<open>n\<close> has one.\<close>

definition vs_o :: VirtualService where
  "vs_o = world_vs ''o'' ''m''"

definition vs_u :: VirtualService where
  "vs_u = world_vs ''u'' ''m''"

definition clash :: OptimizedStore where
  "clash = world [vs_v, vs_o, vs_u]"

abbreviation clash_plan :: "build_exit + plan" where
  "clash_plan \<equiv> make_plan never True toy_cp toy_lib world_build (NewSnapshotCache toy_cp) clash"

theorem commit_not_atomic_witness:
  "bt_err (world_run clash) \<noteq> None \<and> is_ok (GetSnapshot toy_cp (bt_cache (world_run clash)) ''n'') \<and>
   \<not> is_ok (GetSnapshot toy_cp (bt_cache (world_run clash)) ''m'')"
proof -
  have e: "case clash_plan of Inl _ \<Rightarrow> False | Inr p \<Rightarrow>
      (case (map_of (p_staged p) ''n'', map_of (p_staged p) ''m'') of
         (Some s, Some s') \<Rightarrow> distinct (map socket_address (listeners_of s)) \<and> \<not> distinct (map socket_address (listeners_of s'))
       | _ \<Rightarrow> False)"
    by code_simp
  obtain p where p: "clash_plan = Inr p" using e by (cases clash_plan) simp_all
  obtain s s' where s: "map_of (p_staged p) ''n'' = Some s" "map_of (p_staged p) ''m'' = Some s'"
    using e unfolding p by (cases "map_of (p_staged p) ''n''"; cases "map_of (p_staged p) ''m''") simp_all
  have d: "distinct (map socket_address (listeners_of s))" "\<not> distinct (map socket_address (listeners_of s'))"
    using e by (simp_all add: p s)
  have "\<not> is_ok (GetSnapshot toy_cp (NewSnapshotCache toy_cp) ''m'')" by code_simp
  with commit_not_atomic [OF toy_cp_ok toy_cp_sets fresh_cache(1) p s(1) d(1) s(2) d(2), unfolded Let_def]
  show ?thesis by (elim conjE) simp
qed

theorem light_listeners_exact_witness:
  "validateListenerAddresses toy_lib two (NewSnapshotCache toy_cp) True = Inr () \<and>
   uses_listener two (NewSnapshotCache toy_cp) ''n'' (NN ''prod'' ''https'') \<and> listener_address toy_lib two (NN ''prod'' ''https'') \<noteq> None"
proof -
  have v: "validateListenerAddresses toy_lib two (NewSnapshotCache toy_cp) True = Inr ()" by code_simp
  have "vs_listener vs_v = Some (NN ''prod'' ''https'')" "''n'' \<in> set (resolveTargetNodeIDs (GetNodeIDs vs_v) (NewSnapshotCache toy_cp))"
    by code_simp+
  then have u: "uses_listener two (NewSnapshotCache toy_cp) ''n'' (NN ''prod'' ''https'')"
    unfolding uses_listener_def
    by (intro exI [of _ "NN ''prod'' ''v''"] exI [of _ vs_v] conjI two_lookup(1))
  from v [unfolded light_listeners_exact [OF two_inv]] u v show ?thesis by blast
qed

definition world_env :: "(string, Snapshot) gomap env" where
  "world_env = \<lparr>e_cp = toy_cp, e_lib = toy_lib, e_x509 = toy_x509, e_sl = toy_speclib, e_bld = world_build, e_idx = True\<rparr>"

definition world_start :: "(string, Snapshot) gomap CacheUpdater" where
  "world_start = NewCacheUpdater (NewSnapshotCache toy_cp) two"

definition world_next :: "(string, Snapshot) gomap CacheUpdater" where
  "world_next = snd (rebuildSnapshots world_env never world_start)"

lemma world_rebuilt: "rebuildSnapshots world_env never world_start = (None, world_next)"
proof -
  have "fst (rebuildSnapshots world_env never world_start) = None" by code_simp
  then show ?thesis unfolding world_next_def by (metis prod.collapse)
qed


section \<open>A run of the updater\<close>

definition world_client :: kubeclient where
  "world_client = \<lparr>List_vs = Inr [vs_v], List_listeners = Inr [toy_listener], List_clusters = Inr [],
     List_accessLogs = Inr [], List_routes = Inr [], List_vst = Inr [], List_httpFilters = Inr [],
     List_policies = Inr [], List_tracings = Inr [], List_secrets = Inr []\<rparr>"

definition loaded_store :: OptimizedStore where
  "loaded_store = (case FillFromKubernetes toy_lib toy_x509 NewOptimizedStore (Some world_client) loaders of
     Inl _ \<Rightarrow> NewOptimizedStore | Inr s \<Rightarrow> s)"

definition run0 :: "(string, Snapshot) gomap CacheUpdater" where
  "run0 = NewCacheUpdater (NewSnapshotCache toy_cp) loaded_store"

text \<open>The virtual service \<open>x\<close> is applied to the loaded store; it fails to build.\<close>

definition run1 :: "(string, Snapshot) gomap CacheUpdater" where
  "run1 = ApplyVirtualService world_env never vs_x run0"

lemma world_env_simps [simp]: "e_cp world_env = toy_cp" "e_lib world_env = toy_lib" "e_x509 world_env = toy_x509"
  "e_idx world_env" "e_bld world_env = world_build"
  by (simp_all add: world_env_def)

lemma run0_reachable: "updater_reachable world_env run0"
proof -
  have "case FillFromKubernetes toy_lib toy_x509 NewOptimizedStore (Some world_client) loaders of Inl _ \<Rightarrow> False | Inr s \<Rightarrow> True"
    by code_simp
  then have fill: "FillFromKubernetes toy_lib toy_x509 NewOptimizedStore (Some world_client) loaders = Inr loaded_store"
    unfolding loaded_store_def
    by (cases "FillFromKubernetes toy_lib toy_x509 NewOptimizedStore (Some world_client) loaders") simp_all
  have ok: "\<forall>l. loader_ok world_client l"
  proof
    show "loader_ok world_client l" for l by (cases l) (simp_all add: loader_ok_def loading_def world_client_def)
  qed
  have snap: "snapshot_ok toy_lib (result_of world_client)"
    by (simp add: snapshot_ok_def result_of_def world_client_def items_def list_ok_def)
  show ?thesis
    unfolding run0_def using boot [OF all_loaders ok, of world_env loaded_store] snap fill by simp
qed

lemma run1_reachable: "updater_reachable world_env run1"
proof -
  have "new_uid vs_meta (virtualServices (cu_store run0)) (VirtualService_NormalizeSpec vs_x)" by code_simp
  then show ?thesis
    unfolding run1_def by (intro run [OF run0_reachable] step_vs uid_free_new)
qed

theorem statuses_reported_witness:
  "case rebuildSnapshots world_env never run1 of (err, c) \<Rightarrow>
     err \<noteq> None \<and>
     (case Updater_GetVirtualServiceWithStatus c (NN ''prod'' ''x'') of
        None \<Rightarrow> False | Some vs \<Rightarrow> \<not> st_Invalid (vs_Status vs) \<and> st_Message (vs_Status vs) = [])"
proof -
  let ?x = "VirtualService_NormalizeSpec vs_x"
  have "case collect never True world_build (cu_store run1) (new_build\<lparr>b_polls := 1\<rparr>) of Inl _ \<Rightarrow> False | Inr b \<Rightarrow> True"
    by code_simp
  then obtain b where b: "collect never True world_build (cu_store run1) (new_build\<lparr>b_polls := 1\<rparr>) = Inr b"
    by (cases "collect never True world_build (cu_store run1) (new_build\<lparr>b_polls := 1\<rparr>)") simp_all
  have x: "GetVirtualService (cu_store run1) (NN ''prod'' ''x'') = Some ?x" by code_simp
  have bad: "\<not> is_ok (world_build ?x (cu_store run1))"
    and status: "build_status world_build (cu_store run1) ?x = \<lparr>Invalid = False, Message = []\<rparr>" by code_simp+
  obtain err c where rb: "rebuildSnapshots world_env never run1 = (err, c)" by fastforce
  have "cplib_ok (e_cp world_env)" "collect never (e_idx world_env) (e_bld world_env) (cu_store run1) (new_build\<lparr>b_polls := 1\<rparr>) = Inr b"
    using toy_cp_ok b by simp_all
  from statuses_reported [OF run1_reachable this(1) refl this(2) x, unfolded rb Let_def prod.case world_env_simps status] bad
  show ?thesis unfolding rb prod.case by simp
qed

end
