(* ===== verification/ResWitness.thy ===== *)
theory ResWitness
  imports ResBuilder UpdaterSpec
begin

text \<open>
  A small configuration on which the properties of the resource builder are exercised: one
  listener, one cluster and a virtual service with two routes to it.
\<close>

definition shop_route :: "string \<Rightarrow> RouteV3" where
  "shop_route p = \<lparr>rt_Match = Some (Some (PS_Prefix p)), rt_Action = Some (RA_Route (Some (CS_Cluster ''backend''))), rt_body = []\<rparr>"

definition shop_lib :: protolib where
  "shop_lib = toy_lib\<lparr>Unmarshal_virtual_host := (\<lambda>b. Inr \<lparr>vh_Name = b, vh_Domains = [b],
     vh_Routes = [shop_route ''/'', shop_route ''/cart''], vh_body = []\<rparr>)\<rparr>"

definition shop_cx :: clusterlib where
  "shop_cx = \<lparr>json_Unmarshal = (\<lambda>b. Inr (JStr b)), json_Marshal_object = Inr, UnmarshalTo_oauth2 = (\<lambda>a. Inr (any_Value a)),
     json_Marshal_oauth2 = Inr, UnmarshalTo_hcm = (\<lambda>_. Inl (Err ''hcm'')),
     UnmarshalTo_tcp = (\<lambda>a. Inr (Some (CS_Cluster (any_Value a)))), anypb_UnmarshalNew = (\<lambda>a. Inr (any_Value a)),
     protojson_Marshal = Inr, protojson_Marshal_tracing = Inr, digest_hex = (\<lambda>b. b)\<rparr>"

definition shop_xl :: reslib where
  "shop_xl = \<lparr>x_proto = shop_lib, x_filter = toy_fl, x_chain = toy_cl, x_cluster = shop_cx, x_spec = toy_speclib,
     x_marshal_spec = (\<lambda>_. Inr [])\<rparr>"

definition shop_times :: times where
  "shop_times = \<lparr>t_main = (0, 0), t_filters = (0, 0), t_tls = (\<lambda>_. 0), t_oauth2 = (0, 0), t_tracing = (0, 0), t_tracingRef = (0, 0)\<rparr>"

definition shop_caches :: caches where
  "shop_caches = \<lparr>k_filters = new_state, k_clusters = NewClusterLRUCache 0 0\<rparr>"

definition shop_store :: OptimizedStore where
  "shop_store = SetCluster shop_lib (SetListener NewOptimizedStore toy_listener) cluster_x"

definition shop_vs :: VirtualService where
  "shop_vs = empty_vs\<lparr>vs_meta := empty_meta\<lparr>m_Namespace := ''prod'', m_Name := ''shop''\<rparr>,
     vs_common := empty_common\<lparr>c_VirtualHost := Some \<lparr>Raw = Some ''shop.com'', Object = None\<rparr>,
       c_Listener := Some \<lparr>ref_Name = ''https'', ref_Namespace = None\<rparr>\<rparr>\<rparr>"

lemma shop_reachable: "store_reachable (x_proto shop_xl) toy_x509 shop_store"
proof -
  have lib: "x_proto shop_xl = shop_lib" by (simp add: shop_xl_def)
  have "store_step shop_lib toy_x509 NewOptimizedStore (SetListener NewOptimizedStore toy_listener)"
    by (rule set_listener) (simp add: NewOptimizedStore_def key_free_def)
  then have r: "store_reachable shop_lib toy_x509 (SetListener NewOptimizedStore toy_listener)"
    by (rule store_reachable.step [OF store_reachable.fresh])
  have none: "clusters (SetListener NewOptimizedStore toy_listener) = []" by code_simp
  have "store_step shop_lib toy_x509 (SetListener NewOptimizedStore toy_listener) shop_store"
    unfolding shop_store_def by (rule set_cluster) (simp_all add: none key_free_def)
  with r show ?thesis unfolding lib by (rule store_reachable.step)
qed

lemma shop_built:
  obtains res vs' st' where "BuildResources shop_xl shop_times shop_vs shop_store shop_caches = (Inr res, vs', st')"
    "r_RouteConfig res \<noteq> None" "map cv3_Name (r_Clusters res) = [''backend'', ''backend'']"
proof -
  have "case BuildResources shop_xl shop_times shop_vs shop_store shop_caches of
      (Inl _, _) \<Rightarrow> False | (Inr res, _) \<Rightarrow> r_RouteConfig res \<noteq> None \<and> map cv3_Name (r_Clusters res) = [''backend'', ''backend'']"
    by code_simp
  then show thesis
    by (cases "BuildResources shop_xl shop_times shop_vs shop_store shop_caches") (auto intro: that split: sum.splits)
qed

theorem resources_self_contained_witness:
  "\<exists>res vs' st' rc. BuildResources shop_xl shop_times shop_vs shop_store shop_caches = (Inr res, vs', st') \<and>
     r_Clusters res \<noteq> [] \<and> closed_result shop_xl (NN ''prod'' ''shop'') rc res"
proof -
  obtain res vs' st' where b: "BuildResources shop_xl shop_times shop_vs shop_store shop_caches = (Inr res, vs', st')"
    "r_RouteConfig res \<noteq> None" "map cv3_Name (r_Clusters res) = [''backend'', ''backend'']" by (rule shop_built)
  then obtain rc where rc: "r_RouteConfig res = Some rc" by blast
  have ok: "filter_state_ok (k_filters shop_caches)" by (simp add: shop_caches_def new_state_ok)
  have nn: "meta_nn (vs_meta shop_vs) = NN ''prod'' ''shop''" by (simp add: shop_vs_def)
  have "r_Clusters res \<noteq> []" using b(3) by auto
  with resources_self_contained [OF shop_reachable ok b(1) rc] b(1) show ?thesis unfolding nn by blast
qed

text \<open>A chain with a TCP proxy to the stored cluster.\<close>

definition tcp_chain :: FilterChain where
  "tcp_chain = \<lparr>fc_Name = [], fc_Filters = [\<lparr>flt_Name = TCPProxy_name,
     flt_TypedConfig = Some \<lparr>TypeUrl = ''tcp'', any_Value = ''backend''\<rparr>\<rparr>], fc_ServerNames = None,
     fc_TransportSocket = None, fc_body = []\<rparr>"

lemma tcp_extracted:
  "ExtractClustersFromFilterChains shop_lib shop_cx shop_store [tcp_chain, tcp_chain] = Inr [\<lparr>cv3_Name = ''backend'', cv3_body = []\<rparr>]"
  by code_simp

theorem listener_clusters_exact_witness:
  "\<exists>rss. map_res (extractClustersFromFilter shop_cx) (concat (map fc_Filters [tcp_chain, tcp_chain])) = Inr rss \<and>
     {''backend''} = {n \<in> xr_name ` set (concat rss). n \<noteq> [] \<and> GetSpecCluster shop_store n \<noteq> None}"
proof -
  have r: "store_reachable shop_lib toy_x509 shop_store" using shop_reachable by (simp add: shop_xl_def)
  show ?thesis
    by (rule exE [OF listener_clusters_exact [OF r tcp_extracted]]) (auto simp del: map_res.simps)
qed

definition shop_host :: VirtualHost where
  "shop_host = \<lparr>vh_Name = ''prod/shop'', vh_Domains = [''shop.com''],
     vh_Routes = [shop_route ''/cart'', shop_route ''/''], vh_body = []\<rparr>"

lemma shop_host_clusters:
  "FromVirtualHostRoutes shop_lib shop_store shop_host =
     Inr [\<lparr>cv3_Name = ''backend'', cv3_body = []\<rparr>, \<lparr>cv3_Name = ''backend'', cv3_body = []\<rparr>]"
  by code_simp

theorem shared_cluster_always_changes_witness:
  "let cls = map ResC [\<lparr>cv3_Name = ''backend'', cv3_body = []\<rparr>, \<lparr>cv3_Name = ''backend'', cv3_body = []\<rparr>]
   in checkResourcesChanged (rg_Items (cp_NewResources toy_cp ''7'' cls)) cls"
  unfolding Let_def
proof (rule shared_cluster_always_changes [OF toy_cp_ok _ shop_host_clusters])
  show "store_reachable shop_lib toy_x509 shop_store" using shop_reachable by (simp add: shop_xl_def)
  show "\<not> distinct (concat (map extractClusterNamesFromRoute (vh_Routes shop_host)))"
    by (simp add: shop_host_def shop_route_def extractClusterNamesFromRoute_def)
qed

end
