(* ===== verification/HookWitness.thy ===== *)
theory HookWitness
  imports Admission BuildWitness ResWitness
begin

text \<open>
  Small configurations on which the properties of the admission webhooks are exercised.
\<close>

section \<open>Extra fields\<close>

definition host_field :: ExtraField where
  "host_field = \<lparr>ef_Name = ''Host'', ef_Description = [], ef_Type = ''string'', ef_Required = True, ef_Enum = [], ef_Default = []\<rparr>"

definition host_template :: VirtualServiceTemplate where
  "host_template = \<lparr>vst_meta = empty_meta\<lparr>m_Namespace := ''base'', m_Name := ''web'', m_UID := ''t''\<rparr>, vst_common = empty_common,
     vst_ExtraFields = [Some host_field]\<rparr>"

definition host_speclib :: speclib where
  "host_speclib = toy_speclib\<lparr>marshal_common := (\<lambda>_. Inr ''a {{ .Host }} b'')\<rparr>"

theorem extra_fields_usage_exact_witness:
  "validateExtraFieldsUsage host_speclib host_template = Inr () \<and> reference_in ''Host'' ''a {{ .Host }} b''"
proof -
  have ok: "validateExtraFieldsUsage host_speclib host_template = Inr ()" by code_simp
  with iffD1 [OF extra_fields_usage_exact ok] show ?thesis
    by (simp add: host_template_def host_speclib_def host_field_def)
qed

section \<open>Guards on deletion\<close>

text \<open>A client that lists what a store holds.\<close>

definition client_of :: "OptimizedStore \<Rightarrow> apiclient" where
  "client_of s =
     \<lparr>ls_VirtualService = (\<lambda>ns. Inr (filter (\<lambda>vs. m_Namespace (vs_meta vs) = ns) (map snd (virtualServices s)))),
      ls_VirtualServiceTemplate = (\<lambda>ns. Inr (filter (\<lambda>vst. m_Namespace (vst_meta vst) = ns) (map snd (virtualServiceTemplates s)))),
      ls_Route = (\<lambda>ns. Inr (filter (\<lambda>r. m_Namespace (r_meta r) = ns) (map snd (routes s)))),
      ls_Tracing = (\<lambda>ns. Inr (filter (\<lambda>t. m_Namespace (tr_meta t) = ns) (map snd (tracings s)))),
      get_Tracing = (\<lambda>nn. case GetTracing s nn of None \<Rightarrow> Inl (Err ''not found'') | Some t \<Rightarrow> Inr t)\<rparr>"

lemma keyed_values:
  assumes "gm_wf m" "keyed meta (map_of m)"
  shows "snd ` set m = {v. map_of m (meta_nn (meta v)) = Some v}"
proof (intro equalityI subsetI)
  fix v assume "v \<in> snd ` set m"
  then obtain nn where "(nn, v) \<in> set m" by auto
  then have "map_of m nn = Some v" using assms(1) by (simp add: gm_mem_iff)
  with assms(2) show "v \<in> {v. map_of m (meta_nn (meta v)) = Some v}" by (auto simp: keyed_def)
next
  fix v assume "v \<in> {v. map_of m (meta_nn (meta v)) = Some v}"
  then have "(meta_nn (meta v), v) \<in> set m" using assms(1) by (simp add: gm_mem_iff)
  then show "v \<in> snd ` set m" by force
qed

lemma client_of_lists: "store_inv lib x509 s \<Longrightarrow> lists_store (client_of s) s"
proof -
  assume inv: "store_inv lib x509 s"
  then have vs: "gm_wf (virtualServices s)" "keyed vs_meta (map_of (virtualServices s))"
    and vst: "gm_wf (virtualServiceTemplates s)" "keyed vst_meta (map_of (virtualServiceTemplates s))"
    by (auto simp: inv_defs index_exact_def)
  show ?thesis
    unfolding lists_store_def client_of_def GetVirtualService_def GetVirtualServiceTemplate_def
    by (simp add: keyed_values [OF vs] keyed_values [OF vst]) blast
qed


section \<open>A template of another namespace\<close>

definition plain_template :: VirtualServiceTemplate where
  "plain_template = host_template\<lparr>vst_ExtraFields := []\<rparr>"

definition user_vs :: VirtualService where
  "user_vs = (world_vs ''u'' ''n'')\<lparr>vs_Template := Some \<lparr>ref_Name = ''web'', ref_Namespace = Some ''base''\<rparr>\<rparr>"

definition user_store :: OptimizedStore where
  "user_store = SetVirtualService (SetVirtualServiceTemplate NewOptimizedStore plain_template) user_vs"

definition shop_env :: "(string, Snapshot) gomap env" where
  "shop_env = world_env\<lparr>e_bld := builder_at shop_xl shop_times shop_caches\<rparr>"

definition user_start :: "(string, Snapshot) gomap CacheUpdater" where
  "user_start = NewCacheUpdater (NewSnapshotCache toy_cp) user_store"

lemma good_New: "good lib x509 NewOptimizedStore"
  unfolding good_def
  by (intro conjI store_inv_New) (simp add: normal_def GetVirtualService_def GetVirtualServiceTemplate_def NewOptimizedStore_def)

lemma user_good: "good toy_lib toy_x509 user_store"
proof -
  let ?s = "SetVirtualServiceTemplate NewOptimizedStore plain_template"
  have "new_uid vst_meta (virtualServiceTemplates NewOptimizedStore) plain_template"
    "VirtualServiceTemplate_NormalizeSpec plain_template = plain_template" by code_simp+
  then have s: "good toy_lib toy_x509 ?s" by (intro mk.ok_put good_New conjI uid_free_new)
  have "new_uid vs_meta (virtualServices ?s) user_vs" "VirtualService_NormalizeSpec user_vs = user_vs" by code_simp+
  then show ?thesis unfolding user_store_def by (intro vk.ok_put s conjI uid_free_new)
qed

lemma user_ok: "updater_ok shop_env user_start"
  using user_good fresh_cache by (simp add: updater_ok_def shop_env_def user_start_def NewCacheUpdater_def)

theorem foreign_template_deletion_witness:
  "VirtualServiceTemplate_ValidateDelete (client_of user_store) (O_VirtualServiceTemplate plain_template) = Inr [] \<and>
   fst (Updater_DeleteVirtualServiceTemplate shop_env never (NN ''base'' ''web'') user_start) \<noteq> None"
proof -
  have store: "cu_store user_start = user_store" by (simp add: user_start_def NewCacheUpdater_def)
  have nn: "meta_nn (vst_meta plain_template) = NN ''base'' ''web''" by code_simp
  have got: "GetVirtualServiceTemplate user_store (meta_nn (vst_meta plain_template)) = Some plain_template"
    "GetVirtualService user_store (vs_nn user_vs) = Some user_vs" by code_simp+
  have "list_all (\<lambda>(nn, v). m_Namespace (vs_meta v) \<noteq> ''base'') (virtualServices user_store)" by code_simp
  then have away: "\<forall>v. GetVirtualService user_store (vs_nn v) = Some v \<and>
      m_Namespace (vs_meta v) = m_Namespace (vst_meta plain_template) \<longrightarrow> \<not> names_ref (vs_Template v) (m_Name (vst_meta plain_template))"
    by (auto simp: GetVirtualService_def list_all_iff plain_template_def host_template_def dest!: map_of_SomeD)
  have bld: "e_bld shop_env = builder_at shop_xl shop_times shop_caches" by (simp add: shop_env_def)
  have ref: "vs_Template user_vs = Some \<lparr>ref_Name = ''web'', ref_Namespace = Some ''base''\<rparr>"
    "resolve (m_Namespace (vs_meta user_vs)) \<lparr>ref_Name = ''web'', ref_Namespace = Some ''base''\<rparr> = meta_nn (vst_meta plain_template)"
    by code_simp+
  from foreign_template_deletion [OF user_ok bld, unfolded store, OF client_of_lists [OF good_inv [OF user_good]] got(1) away got(2) ref, of never never]
  show ?thesis unfolding nn by blast
qed

section \<open>A virtual service that is admitted\<close>

definition hook_config :: WebhookConfig where
  "hook_config = \<lparr>DryRunTimeoutMS = 0, LightDryRun = False, ValidationIndices = True, DevMode = False\<rparr>"

definition one_start :: "(string, Snapshot) gomap CacheUpdater" where
  "one_start = NewCacheUpdater (NewSnapshotCache toy_cp) (world [])"

lemma toy_consistent: "consistent_by_items toy_cp"
  by (simp add: consistent_by_items_def toy_cp_def)

lemma one_ok: "updater_ok world_env one_start"
proof -
  have inv: "store_inv toy_lib toy_x509 (world [])" by (rule world_inv) simp
  have "virtualServices (world []) = []" "virtualServiceTemplates (world []) = []" by code_simp+
  then have "normal (world [])" by (simp add: normal_def GetVirtualService_def GetVirtualServiceTemplate_def)
  with inv fresh_cache show ?thesis by (simp add: updater_ok_def good_def one_start_def NewCacheUpdater_def)
qed

theorem admitted_service_builds_witness:
  "\<exists>c'. rebuildSnapshots world_env never (one_start\<lparr>cu_store := SetVirtualService (cu_store one_start) vs_v\<rparr>) = (None, c') \<and>
     Updater_GetVirtualServiceWithStatus c' (NN ''prod'' ''v'') = Some (UpdateStatus vs_v False [])"
proof -
  have nn: "vs_nn vs_v = NN ''prod'' ''v''" by code_simp
  have pre: "VirtualService_NormalizeSpec vs_v = vs_v" "new_uid vs_meta (virtualServices (cu_store one_start)) vs_v"
    "GetVirtualService (cu_store one_start) (vs_nn vs_v) = None" "\<not> skips_validation hook_config vs_v" "\<not> LightDryRun hook_config"
    "VirtualService_ValidateCreate (\<lambda>_. ''1s'') hook_config world_env (client_of two) never never one_start (O_VirtualService vs_v) = Inr []"
    by code_simp+
  have lib: "cplib_ok (e_cp world_env)" "cp_sets (e_cp world_env)" "consistent_by_items (e_cp world_env)"
    using toy_cp_ok toy_cp_sets toy_consistent by simp_all
  from admitted_service_builds [OF lib one_ok never_uncancelled pre(1) uid_free_new [OF pre(2)] pre(3-6)] show ?thesis
    unfolding nn by blast
qed

section \<open>A secret in use\<close>

definition tls_env :: "(string, Snapshot) gomap env" where
  "tls_env = world_env\<lparr>e_bld := (\<lambda>vs s. map_sum id (\<lambda>r. r\<lparr>r_UsedSecrets := [NN ''default'' ''tls'']\<rparr>) (world_build vs s))\<rparr>"

definition tls_secret :: Secret where
  "tls_secret = \<lparr>s_meta = empty_meta\<lparr>m_Name := ''tls''\<rparr>, s_Data = None\<rparr>"

theorem secret_deletion_exact_witness:
  "\<exists>c'. rebuildSnapshots tls_env never world_start = (None, c') \<and> Secret_ValidateDelete c' (O_Secret tls_secret) \<noteq> Inr []"
proof -
  have "fst (rebuildSnapshots tls_env never world_start) = None" by code_simp
  then obtain c' where c': "rebuildSnapshots tls_env never world_start = (None, c')"
    by (cases "rebuildSnapshots tls_env never world_start") simp
  have store: "cu_store world_start = two" by (simp add: world_start_def NewCacheUpdater_def)
  have inv: "store_inv (e_lib tls_env) (e_x509 tls_env) (cu_store world_start)" using two_inv by (simp add: tls_env_def store)
  have "GetVirtualService (cu_store (snd (rebuildSnapshots tls_env never world_start))) (NN ''prod'' ''v'') = Some vs_v" by code_simp
  then have v: "GetVirtualService (cu_store c') (NN ''prod'' ''v'') = Some vs_v" by (simp add: c')
  have "case e_bld tls_env vs_v (cu_store world_start) of Inl _ \<Rightarrow> False | Inr res \<Rightarrow> r_UsedSecrets res = [NN ''default'' ''tls'']" by code_simp
  then obtain res where res: "e_bld tls_env vs_v (cu_store world_start) = Inr res" "r_UsedSecrets res = [NN ''default'' ''tls'']"
    by (cases "e_bld tls_env vs_v (cu_store world_start)") simp_all
  have name: "NN (if m_Namespace (s_meta tls_secret) = [] then ''default'' else m_Namespace (s_meta tls_secret)) (m_Name (s_meta tls_secret))
      \<in> set (r_UsedSecrets res)" by (simp add: res(2) tls_secret_def empty_meta_def)
  from secret_deletion_exact [OF c' inv, of tls_secret] v res(1) name c' show ?thesis by blast
qed

section \<open>Clusters\<close>


definition split_route :: RouteV3 where
  "split_route = \<lparr>rt_Match = Some (Some (PS_Prefix ''/'')),
     rt_Action = Some (RA_Route (Some (CS_WeightedClusters (Some [''backend'', ''canary''])))), rt_body = []\<rparr>"

definition split_host :: VirtualHost where
  "split_host = \<lparr>vh_Name = ''prod/shop'', vh_Domains = [''shop.com''], vh_Routes = [split_route], vh_body = []\<rparr>"

definition split_lib :: protolib where
  "split_lib = shop_lib\<lparr>Unmarshal_route := (\<lambda>_. Inr split_route)\<rparr>"

definition split_store :: OptimizedStore where
  "split_store = SetRoute shop_store \<lparr>r_meta = empty_meta\<lparr>m_Namespace := ''prod'', m_Name := ''split''\<rparr>,
     r_Spec = [\<lparr>Raw = Some ''{}'', Object = None\<rparr>]\<rparr>"

definition any_hooklib :: hooklib where
  "any_hooklib = \<lparr>json_Marshal_raw = Inr, json_Unmarshal_any = (\<lambda>b. Inr (JStr b)), sprint_json = (\<lambda>_. [])\<rparr>"

theorem weighted_cluster_deletion_witness:
  "Cluster_ValidateDelete split_lib any_hooklib (client_of split_store) (O_Cluster cluster_x) = Inr [] \<and>
   \<not> is_ok (FromVirtualHostRoutes split_lib (DeleteCluster split_lib split_store (NN ''prod'' ''x'')) split_host)"
proof -
  let ?rts = "map snd (routes split_store)"
  have x: "Cluster_UnmarshalV3 split_lib cluster_x = Inr \<lparr>cv3_Name = ''backend'', cv3_body = []\<rparr>"
    and l: "ls_Route (client_of split_store) (m_Namespace (cl_meta cluster_x)) = Inr ?rts"
      "ls_Tracing (client_of split_store) (m_Namespace (cl_meta cluster_x)) = Inr []"
    and k: "GetCluster split_store (meta_nn (cl_meta cluster_x)) = Some cluster_x"
    and nn: "meta_nn (cl_meta cluster_x) = NN ''prod'' ''x''" by code_simp+
  have "list_all (\<lambda>r. Route_UnmarshalV3AndValidate split_lib r = Inr [split_route]) ?rts" by code_simp
  then have rs: "\<forall>r \<in> set ?rts. \<exists>rs. Route_UnmarshalV3AndValidate split_lib r = Inr rs \<and>
      (\<forall>rt \<in> set rs. rt_Action rt \<noteq> Some (RA_Route (Some (CS_Cluster (cv3_Name \<lparr>cv3_Name = ''backend'', cv3_body = []\<rparr>)))))"
    by (simp add: list_all_iff split_route_def)
  have "split_route \<in> set (vh_Routes split_host)"
    "rt_Action split_route = Some (RA_Route (Some (CS_WeightedClusters (Some [''backend'', ''canary'']))))"
    by (simp_all add: split_host_def split_route_def)
  from weighted_cluster_deletion [OF x _ l rs k this, of any_hooklib] show ?thesis unfolding nn by simp
qed

end
