(* ===== verification/Controller.thy ===== *)
theory Controller
  imports UpdaterSpec
begin

text \<open>
  The reconcilers of \<^verbatim>\<open>internal/controller\<close>: each is told that an object of its kind may have
  changed, reads it from the API server and hands it to the updater, or tells the updater that it
  is gone. The answers of the API server are the fields of \<open>apireader\<close>. A reconciler waits until
  the initial load is done before its first step; the steps here are those that follow.
\<close>

section \<open>The API server\<close>

text \<open>\<open>Get\<close> finds the object, or fails with the error \<open>client.IgnoreNotFound\<close> drops, or fails otherwise.\<close>

datatype 'a got = Found 'a | NotFound | Failed goerr

record apireader =
  g_VirtualService :: "NamespacedName \<Rightarrow> VirtualService got"
  g_VirtualServiceTemplate :: "NamespacedName \<Rightarrow> VirtualServiceTemplate got"
  g_Listener :: "NamespacedName \<Rightarrow> Listener got"
  g_Cluster :: "NamespacedName \<Rightarrow> Cluster got"
  g_Route :: "NamespacedName \<Rightarrow> Route got"
  g_HttpFilter :: "NamespacedName \<Rightarrow> HttpFilter got"
  g_AccessLogConfig :: "NamespacedName \<Rightarrow> AccessLogConfig got"
  g_Policy :: "NamespacedName \<Rightarrow> Policy got"
  g_Tracing :: "NamespacedName \<Rightarrow> Tracing got"
  g_Secret :: "NamespacedName \<Rightarrow> Secret got"
  status_Update :: "VirtualService \<Rightarrow> goerr option"

text \<open>What a step returns: the error, the updater, the virtual service whose status was sent, and
  the virtual services put on the channel of events.\<close>

record 'c outcome =
  oc_err :: "goerr option"
  oc_updater :: "'c CacheUpdater"
  oc_written :: "VirtualService option"
  oc_events :: "VirtualService list"

definition outcome :: "goerr option \<Rightarrow> 'c CacheUpdater \<Rightarrow> 'c outcome" where
  "outcome err c = \<lparr>oc_err = err, oc_updater = c, oc_written = None, oc_events = []\<rparr>"

section \<open>Kinds without a status\<close>

definition ListenerReconciler_Reconcile :: "'c env \<Rightarrow> ctx \<Rightarrow> apireader \<Rightarrow> NamespacedName \<Rightarrow> 'c CacheUpdater \<Rightarrow> 'c outcome" where
  "ListenerReconciler_Reconcile e ctx api nn c =
     (case g_Listener api nn of
        Failed err \<Rightarrow> outcome (Some err) c
      | NotFound \<Rightarrow> outcome None (Updater_DeleteListener e ctx nn c)
      | Found listener \<Rightarrow> outcome None (ApplyListener e ctx listener c))"

definition ClusterReconciler_Reconcile :: "'c env \<Rightarrow> ctx \<Rightarrow> apireader \<Rightarrow> NamespacedName \<Rightarrow> 'c CacheUpdater \<Rightarrow> 'c outcome" where
  "ClusterReconciler_Reconcile e ctx api nn c =
     (case g_Cluster api nn of
        Failed err \<Rightarrow> outcome (Some err) c
      | NotFound \<Rightarrow> outcome None (Updater_DeleteCluster e ctx nn c)
      | Found cl \<Rightarrow> outcome None (ApplyCluster e ctx cl c))"

definition RouteReconciler_Reconcile :: "'c env \<Rightarrow> ctx \<Rightarrow> apireader \<Rightarrow> NamespacedName \<Rightarrow> 'c CacheUpdater \<Rightarrow> 'c outcome" where
  "RouteReconciler_Reconcile e ctx api nn c =
     (case g_Route api nn of
        Failed err \<Rightarrow> outcome (Some err) c
      | NotFound \<Rightarrow> outcome None (Updater_DeleteRoute e ctx nn c)
      | Found route \<Rightarrow> outcome None (ApplyRoute e ctx route c))"

definition HttpFilterReconciler_Reconcile :: "'c env \<Rightarrow> ctx \<Rightarrow> apireader \<Rightarrow> NamespacedName \<Rightarrow> 'c CacheUpdater \<Rightarrow> 'c outcome" where
  "HttpFilterReconciler_Reconcile e ctx api nn c =
     (case g_HttpFilter api nn of
        Failed err \<Rightarrow> outcome (Some err) c
      | NotFound \<Rightarrow> outcome None (Updater_DeleteHTTPFilter e ctx nn c)
      | Found httpFilter \<Rightarrow> outcome None (ApplyHTTPFilter e ctx httpFilter c))"

definition AccessLogConfigReconciler_Reconcile :: "'c env \<Rightarrow> ctx \<Rightarrow> apireader \<Rightarrow> NamespacedName \<Rightarrow> 'c CacheUpdater \<Rightarrow> 'c outcome" where
  "AccessLogConfigReconciler_Reconcile e ctx api nn c =
     (case g_AccessLogConfig api nn of
        Failed err \<Rightarrow> outcome (Some err) c
      | NotFound \<Rightarrow> outcome None (Updater_DeleteAccessLogConfig e ctx nn c)
      | Found accessLogConfig \<Rightarrow> outcome None (ApplyAccessLogConfig e ctx accessLogConfig c))"

definition PolicyReconciler_Reconcile :: "'c env \<Rightarrow> ctx \<Rightarrow> apireader \<Rightarrow> NamespacedName \<Rightarrow> 'c CacheUpdater \<Rightarrow> 'c outcome" where
  "PolicyReconciler_Reconcile e ctx api nn c =
     (case g_Policy api nn of
        Failed err \<Rightarrow> outcome (Some err) c
      | NotFound \<Rightarrow> outcome None (Updater_DeletePolicy e ctx nn c)
      | Found policy \<Rightarrow> outcome None (ApplyPolicy e ctx policy c))"

definition TracingReconciler_Reconcile :: "'c env \<Rightarrow> ctx \<Rightarrow> apireader \<Rightarrow> NamespacedName \<Rightarrow> 'c CacheUpdater \<Rightarrow> 'c outcome" where
  "TracingReconciler_Reconcile e ctx api nn c =
     (case g_Tracing api nn of
        Failed err \<Rightarrow> outcome (Some err) c
      | NotFound \<Rightarrow> outcome None (Updater_DeleteTracing e ctx nn c)
      | Found tracing \<Rightarrow> outcome None (ApplyTracing e ctx tracing c))"

definition SecretReconciler_Reconcile :: "'c env \<Rightarrow> ctx \<Rightarrow> apireader \<Rightarrow> NamespacedName \<Rightarrow> 'c CacheUpdater \<Rightarrow> 'c outcome" where
  "SecretReconciler_Reconcile e ctx api nn c =
     (case g_Secret api nn of
        Failed err \<Rightarrow> outcome (Some err) c
      | NotFound \<Rightarrow> outcome None (Updater_DeleteSecret e ctx nn c)
      | Found secret \<Rightarrow> outcome None (ApplySecret e ctx secret c))"

text \<open>The events the reconciler of secrets is told about; \<open>ty\<close> is the type of the secret.\<close>

definition filterSecret :: "string \<Rightarrow> Secret \<Rightarrow> bool" where
  "filterSecret ty s \<longleftrightarrow>
     (ty = ''Opaque'' \<or> ty = ''kubernetes.io/tls'') \<and>
     gm_has (nilmap (m_Labels (s_meta s))) ''envoy.kaasops.io/secret-type''"

section \<open>Templates and virtual services\<close>

text \<open>An update of a template puts the virtual services that use it on the channel.\<close>

definition VirtualServiceTemplateReconciler_Reconcile :: "'c env \<Rightarrow> ctx \<Rightarrow> apireader \<Rightarrow> NamespacedName \<Rightarrow> 'c CacheUpdater \<Rightarrow> 'c outcome" where
  "VirtualServiceTemplateReconciler_Reconcile e ctx api nn c =
     (case g_VirtualServiceTemplate api nn of
        Failed err \<Rightarrow> outcome (Some err) c
      | NotFound \<Rightarrow> (case Updater_DeleteVirtualServiceTemplate e ctx nn c of (err, c) \<Rightarrow> outcome err c)
      | Found vst \<Rightarrow>
          (case ApplyVirtualServiceTemplate e ctx vst c of
             (isUpdate, c) \<Rightarrow>
               if isUpdate then (outcome None c)\<lparr>oc_events := Updater_GetVirtualServicesByTemplate c vst\<rparr>
               else outcome None c))"

text \<open>
  The object read from the API server is the one the updater keeps, if it keeps it, in the store and
  in both indices; the status assigned to it afterwards is assigned to all of them.
\<close>

definition assign_status :: "NamespacedName \<Rightarrow> VSObjectStatus \<Rightarrow> OptimizedStore \<Rightarrow> OptimizedStore" where
  "assign_status nn st s =
     (let set = (\<lambda>v. if vs_nn v = nn then v\<lparr>vs_Status := st\<rparr> else v) in
      s\<lparr>virtualServices := map (\<lambda>(k, v). (k, set v)) (virtualServices s),
        uidToVS := map (\<lambda>(k, v). (k, set v)) (uidToVS s),
        templateToVS := map (\<lambda>(k, vs). (k, map set vs)) (templateToVS s)\<rparr>)"

definition keeps_vs :: "'c env \<Rightarrow> VirtualService \<Rightarrow> 'c CacheUpdater \<Rightarrow> bool" where
  "keeps_vs e vs c \<longleftrightarrow>
     (case GetVirtualService (cu_store c) (vs_nn vs) of
        None \<Rightarrow> True
      | Some prevVS \<Rightarrow> \<not> VirtualService_IsEqual (e_sl e) (Some prevVS) (Some vs))"

definition VirtualServiceReconciler_Reconcile :: "'c env \<Rightarrow> ctx \<Rightarrow> apireader \<Rightarrow> NamespacedName \<Rightarrow> 'c CacheUpdater \<Rightarrow> 'c outcome" where
  "VirtualServiceReconciler_Reconcile e ctx api nn c =
     (case g_VirtualService api nn of
        Failed err \<Rightarrow> outcome (Some err) c
      | NotFound \<Rightarrow> (case Updater_DeleteVirtualService e ctx nn c of (err, c) \<Rightarrow> outcome err c)
      | Found vs \<Rightarrow>
          (let prevStatus = vs_Status vs;
               vs = VirtualService_NormalizeSpec vs;
               kept = keeps_vs e vs c;
               c = ApplyVirtualService e ctx vs c;
               status = (case Updater_GetVirtualServiceWithStatus c nn of
                 None \<Rightarrow> vs_Status vs | Some vsWithStatus \<Rightarrow> vs_Status vsWithStatus);
               vs = vs\<lparr>vs_Status := status\<rparr>;
               c = (if kept then c\<lparr>cu_store := assign_status (vs_nn vs) status (cu_store c)\<rparr> else c)
           in if st_Invalid prevStatus \<noteq> st_Invalid status \<or> st_Message prevStatus \<noteq> st_Message status
              then (outcome (status_Update api vs) c)\<lparr>oc_written := Some vs\<rparr>
              else outcome None c))"

section \<open>All reconcilers\<close>

datatype request =
    R_VirtualService NamespacedName
  | R_VirtualServiceTemplate NamespacedName
  | R_Listener NamespacedName
  | R_Cluster NamespacedName
  | R_Route NamespacedName
  | R_HttpFilter NamespacedName
  | R_AccessLogConfig NamespacedName
  | R_Policy NamespacedName
  | R_Tracing NamespacedName
  | R_Secret NamespacedName

definition reconcile :: "'c env \<Rightarrow> ctx \<Rightarrow> apireader \<Rightarrow> request \<Rightarrow> 'c CacheUpdater \<Rightarrow> 'c outcome" where
  "reconcile e ctx api rq c =
     (case rq of
        R_VirtualService nn \<Rightarrow> VirtualServiceReconciler_Reconcile e ctx api nn c
      | R_VirtualServiceTemplate nn \<Rightarrow> VirtualServiceTemplateReconciler_Reconcile e ctx api nn c
      | R_Listener nn \<Rightarrow> ListenerReconciler_Reconcile e ctx api nn c
      | R_Cluster nn \<Rightarrow> ClusterReconciler_Reconcile e ctx api nn c
      | R_Route nn \<Rightarrow> RouteReconciler_Reconcile e ctx api nn c
      | R_HttpFilter nn \<Rightarrow> HttpFilterReconciler_Reconcile e ctx api nn c
      | R_AccessLogConfig nn \<Rightarrow> AccessLogConfigReconciler_Reconcile e ctx api nn c
      | R_Policy nn \<Rightarrow> PolicyReconciler_Reconcile e ctx api nn c
      | R_Tracing nn \<Rightarrow> TracingReconciler_Reconcile e ctx api nn c
      | R_Secret nn \<Rightarrow> SecretReconciler_Reconcile e ctx api nn c)"

end
