(* ===== verification/ControllerSpec.thy ===== *)
theory ControllerSpec
  imports Controller
begin

text \<open>
  What the reconcilers do to the contents of the store. The detailed steps, with their rebuilds,
  indices and aliases, refine assignments to ten maps; from those it is immediate that the store
  converges to the API server, whatever the order of the steps.
\<close>

section \<open>The contents of the store\<close>

text \<open>The status of a stored virtual service is not part of its contents.\<close>

definition no_status :: "VirtualService \<Rightarrow> VirtualService" where
  "no_status v = v\<lparr>vs_Status := \<lparr>st_Message = [], st_Invalid = False, st_UsedSecrets = [], st_LastAppliedHash = None\<rparr>\<rparr>"

record contents =
  ct_vs :: "NamespacedName \<Rightarrow> VirtualService option"
  ct_vst :: "NamespacedName \<Rightarrow> VirtualServiceTemplate option"
  ct_listener :: "NamespacedName \<Rightarrow> Listener option"
  ct_cluster :: "NamespacedName \<Rightarrow> Cluster option"
  ct_route :: "NamespacedName \<Rightarrow> Route option"
  ct_filter :: "NamespacedName \<Rightarrow> HttpFilter option"
  ct_log :: "NamespacedName \<Rightarrow> AccessLogConfig option"
  ct_policy :: "NamespacedName \<Rightarrow> Policy option"
  ct_tracing :: "NamespacedName \<Rightarrow> Tracing option"
  ct_secret :: "NamespacedName \<Rightarrow> Secret option"

definition stored :: "OptimizedStore \<Rightarrow> contents" where
  "stored s = \<lparr>ct_vs = (\<lambda>nn. map_option no_status (map_of (virtualServices s) nn)), ct_vst = map_of (virtualServiceTemplates s),
     ct_listener = map_of (listeners s), ct_cluster = map_of (clusters s), ct_route = map_of (routes s),
     ct_filter = map_of (httpFilters s), ct_log = map_of (accessLogs s), ct_policy = map_of (policies s),
     ct_tracing = map_of (tracings s), ct_secret = map_of (secrets s)\<rparr>"

named_theorems contents_simps \<open>effect of the operations of the store on its contents\<close>

lemma stored_frame [contents_simps]: "stored (s\<lparr>nodeDomains := i, vsStatusStorage := st\<rparr>) = stored s"
  by (simp add: stored_def)

lemma stored_set [contents_simps]:
  assumes "pool_ok s"
  shows "stored (SetListener s l) = (stored s)\<lparr>ct_listener := (ct_listener (stored s))(meta_nn (l_meta l) \<mapsto> l)\<rparr>"
    "stored (SetCluster lib s k) = (stored s)\<lparr>ct_cluster := (ct_cluster (stored s))(meta_nn (cl_meta k) \<mapsto> k)\<rparr>"
    "stored (SetRoute s r) = (stored s)\<lparr>ct_route := (ct_route (stored s))(meta_nn (r_meta r) \<mapsto> r)\<rparr>"
    "stored (SetHTTPFilter s h) = (stored s)\<lparr>ct_filter := (ct_filter (stored s))(meta_nn (hf_meta h) \<mapsto> h)\<rparr>"
    "stored (SetAccessLog s a) = (stored s)\<lparr>ct_log := (ct_log (stored s))(meta_nn (alc_meta a) \<mapsto> a)\<rparr>"
    "stored (SetPolicy s p) = (stored s)\<lparr>ct_policy := (ct_policy (stored s))(meta_nn (p_meta p) \<mapsto> p)\<rparr>"
    "stored (SetTracing s t) = (stored s)\<lparr>ct_tracing := (ct_tracing (stored s))(meta_nn (tr_meta t) \<mapsto> t)\<rparr>"
    "stored (SetSecret x509 s x) = (stored s)\<lparr>ct_secret := (ct_secret (stored s))(meta_nn (s_meta x) \<mapsto> x)\<rparr>"
    "stored (SetVirtualServiceTemplate s m) = (stored s)\<lparr>ct_vst := (ct_vst (stored s))(meta_nn (vst_meta m) \<mapsto> m)\<rparr>"
    "stored (SetVirtualService s v) = (stored s)\<lparr>ct_vs := (ct_vs (stored s))(vs_nn v \<mapsto> no_status v)\<rparr>"
  using assms
  by (simp_all add: stored_def SetListener_eq SetCluster_eq SetRoute_eq SetHTTPFilter_eq SetAccessLog_eq SetPolicy_eq
      SetTracing_eq SetSecret_eq SetVirtualServiceTemplate_eq SetVirtualService_eq fun_eq_iff)

lemma upd_none: "m nn = None \<Longrightarrow> m(nn := None) = m"
  by auto

lemma stored_delete [contents_simps]:
  "stored (DeleteListener s nn) = (stored s)\<lparr>ct_listener := (ct_listener (stored s))(nn := None)\<rparr>"
  "stored (DeleteCluster lib s nn) = (stored s)\<lparr>ct_cluster := (ct_cluster (stored s))(nn := None)\<rparr>"
  "stored (DeleteRoute s nn) = (stored s)\<lparr>ct_route := (ct_route (stored s))(nn := None)\<rparr>"
  "stored (DeleteHTTPFilter s nn) = (stored s)\<lparr>ct_filter := (ct_filter (stored s))(nn := None)\<rparr>"
  "stored (DeleteAccessLog s nn) = (stored s)\<lparr>ct_log := (ct_log (stored s))(nn := None)\<rparr>"
  "stored (DeletePolicy s nn) = (stored s)\<lparr>ct_policy := (ct_policy (stored s))(nn := None)\<rparr>"
  "stored (DeleteTracing s nn) = (stored s)\<lparr>ct_tracing := (ct_tracing (stored s))(nn := None)\<rparr>"
  "stored (DeleteSecret s nn) = (stored s)\<lparr>ct_secret := (ct_secret (stored s))(nn := None)\<rparr>"
  "stored (DeleteVirtualServiceTemplate s nn) = (stored s)\<lparr>ct_vst := (ct_vst (stored s))(nn := None)\<rparr>"
  "stored (DeleteVirtualService s nn) = (stored s)\<lparr>ct_vs := (ct_vs (stored s))(nn := None)\<rparr>"
  by (auto simp: stored_def upd_none DeleteListener_def DeleteCluster_eq DeleteRoute_def DeleteHTTPFilter_def DeleteAccessLog_def
      DeletePolicy_def DeleteTracing_def DeleteSecret_eq DeleteVirtualServiceTemplate_def DeleteVirtualService_eq fun_eq_iff
      split: option.split)


lemma with_store_stored [contents_simps]:
  "stored (cu_store (with_store e ctx c s)) = stored s"
  "pool_ok (cu_store (with_store e ctx c s)) \<longleftrightarrow> pool_ok s"
proof -
  obtain i st where "cu_store (snd (rebuildSnapshots e ctx (c\<lparr>cu_store := s\<rparr>))) = s\<lparr>nodeDomains := i, vsStatusStorage := st\<rparr>"
    by (rule rebuild_store [of e ctx "c\<lparr>cu_store := s\<rparr>"]) simp
  then show "stored (cu_store (with_store e ctx c s)) = stored s" "pool_ok (cu_store (with_store e ctx c s)) \<longleftrightarrow> pool_ok s"
    by (simp_all add: with_store_def stored_frame)
qed

lemma assign_status_stored [contents_simps]:
  "stored (assign_status nn st s) = stored s"
  "pool_ok (assign_status nn st s) \<longleftrightarrow> pool_ok s"
proof -
  have "map_option no_status (map_of (map (\<lambda>(k, v). (k, if vs_nn v = nn then v\<lparr>vs_Status := st\<rparr> else v)) m) k)
      = map_option no_status (map_of m k)" for m :: "(NamespacedName \<times> VirtualService) list" and k
    by (induction m) (auto simp: no_status_def)
  then show "stored (assign_status nn st s) = stored s" by (simp add: stored_def assign_status_def Let_def)
  show "pool_ok (assign_status nn st s) \<longleftrightarrow> pool_ok s" by (simp add: assign_status_def Let_def)
qed

section \<open>Steps as assignments\<close>

text \<open>
  What a step makes of the map of its kind: nothing when the API server fails, a removal when the
  object is gone, and otherwise an assignment, unless the stored object counts as the same.
\<close>

definition settle :: "('r \<Rightarrow> 'r \<Rightarrow> bool) \<Rightarrow> ('r \<Rightarrow> NamespacedName) \<Rightarrow> NamespacedName \<Rightarrow> 'r got \<Rightarrow>
    (NamespacedName \<Rightarrow> 'r option) \<Rightarrow> NamespacedName \<Rightarrow> 'r option" where
  "settle same nn_of nn g m =
     (case g of
        Failed err \<Rightarrow> m
      | NotFound \<Rightarrow> m(nn := None)
      | Found r \<Rightarrow>
          (case m (nn_of r) of
             None \<Rightarrow> m(nn_of r \<mapsto> r)
           | Some p \<Rightarrow> if same p r then m else m(nn_of r \<mapsto> r)))"

text \<open>What the store keeps of a template and of a virtual service.\<close>

definition kept_vst :: "VirtualServiceTemplate got \<Rightarrow> VirtualServiceTemplate got" where
  "kept_vst = map_got VirtualServiceTemplate_NormalizeSpec"

definition kept_vs :: "VirtualService got \<Rightarrow> VirtualService got" where
  "kept_vs = map_got (\<lambda>v. no_status (VirtualService_NormalizeSpec v))"

definition spec_step :: "speclib \<Rightarrow> apireader \<Rightarrow> request \<Rightarrow> contents \<Rightarrow> contents" where
  "spec_step sl api rq ct =
     (case rq of
        R_VirtualService nn \<Rightarrow> ct\<lparr>ct_vs := settle (\<lambda>p r. VirtualService_IsEqual sl (Some p) (Some r)) vs_nn nn
          (kept_vs (g_VirtualService api nn)) (ct_vs ct)\<rparr>
      | R_VirtualServiceTemplate nn \<Rightarrow> ct\<lparr>ct_vst := settle (\<lambda>p r. VirtualServiceTemplate_IsEqual sl (Some p) (Some r))
          (\<lambda>r. meta_nn (vst_meta r)) nn (kept_vst (g_VirtualServiceTemplate api nn)) (ct_vst ct)\<rparr>
      | R_Listener nn \<Rightarrow> ct\<lparr>ct_listener := settle (\<lambda>p r. Listener_IsEqual (Some p) (Some r)) (\<lambda>r. meta_nn (l_meta r)) nn
          (g_Listener api nn) (ct_listener ct)\<rparr>
      | R_Cluster nn \<Rightarrow> ct\<lparr>ct_cluster := settle (\<lambda>p r. Cluster_IsEqual (Some p) (Some r)) (\<lambda>r. meta_nn (cl_meta r)) nn
          (g_Cluster api nn) (ct_cluster ct)\<rparr>
      | R_Route nn \<Rightarrow> ct\<lparr>ct_route := settle (\<lambda>p r. Route_IsEqual (Some p) (Some r)) (\<lambda>r. meta_nn (r_meta r)) nn
          (g_Route api nn) (ct_route ct)\<rparr>
      | R_HttpFilter nn \<Rightarrow> ct\<lparr>ct_filter := settle (\<lambda>p r. HttpFilter_IsEqual sl (Some p) (Some r)) (\<lambda>r. meta_nn (hf_meta r)) nn
          (g_HttpFilter api nn) (ct_filter ct)\<rparr>
      | R_AccessLogConfig nn \<Rightarrow> ct\<lparr>ct_log := settle (\<lambda>p r. AccessLogConfig_IsEqual (Some p) (Some r)) (\<lambda>r. meta_nn (alc_meta r)) nn
          (g_AccessLogConfig api nn) (ct_log ct)\<rparr>
      | R_Policy nn \<Rightarrow> ct\<lparr>ct_policy := settle (\<lambda>p r. Policy_IsEqual (Some p) (Some r)) (\<lambda>r. meta_nn (p_meta r)) nn
          (g_Policy api nn) (ct_policy ct)\<rparr>
      | R_Tracing nn \<Rightarrow> ct\<lparr>ct_tracing := settle (\<lambda>p r. Tracing_IsEqual (Some p) (Some r)) (\<lambda>r. meta_nn (tr_meta r)) nn
          (g_Tracing api nn) (ct_tracing ct)\<rparr>
      | R_Secret nn \<Rightarrow> ct\<lparr>ct_secret := settle secretsEqual (\<lambda>r. meta_nn (s_meta r)) nn (g_Secret api nn) (ct_secret ct)\<rparr>)"


lemma pool_set [contents_simps]:
  assumes "pool_ok s"
  shows "pool_ok (SetListener s l)" "pool_ok (SetCluster lib s k)" "pool_ok (SetRoute s r)" "pool_ok (SetHTTPFilter s h)"
    "pool_ok (SetAccessLog s a)" "pool_ok (SetPolicy s p)" "pool_ok (SetTracing s t)" "pool_ok (SetSecret x509 s x)"
    "pool_ok (SetVirtualServiceTemplate s m)" "pool_ok (SetVirtualService s v)"
  using assms
  by (simp_all add: SetListener_eq SetCluster_eq SetRoute_eq SetHTTPFilter_eq SetAccessLog_eq SetPolicy_eq
      SetTracing_eq SetSecret_eq SetVirtualServiceTemplate_eq SetVirtualService_eq intern_meta_eq intern_names_eq [THEN conjunct2])

lemma pool_delete [contents_simps]:
  "stringPool (DeleteListener s nn) = stringPool s" "stringPool (DeleteCluster lib s nn) = stringPool s"
  "stringPool (DeleteRoute s nn) = stringPool s" "stringPool (DeleteHTTPFilter s nn) = stringPool s"
  "stringPool (DeleteAccessLog s nn) = stringPool s" "stringPool (DeletePolicy s nn) = stringPool s"
  "stringPool (DeleteTracing s nn) = stringPool s" "stringPool (DeleteSecret s nn) = stringPool s"
  "stringPool (DeleteVirtualServiceTemplate s nn) = stringPool s" "stringPool (DeleteVirtualService s nn) = stringPool s"
  by (simp_all add: DeleteListener_def DeleteCluster_eq DeleteRoute_def DeleteHTTPFilter_def DeleteAccessLog_def
      DeletePolicy_def DeleteTracing_def DeleteSecret_eq DeleteVirtualServiceTemplate_def DeleteVirtualService_eq
      split: option.split)

lemma apply_kind_stored:
  "stored (cu_store (apply_kind e ctx prev same s c)) =
     (case prev of None \<Rightarrow> stored s | Some p \<Rightarrow> if same p then stored (cu_store c) else stored s)"
  "pool_ok (cu_store c) \<Longrightarrow> pool_ok s \<Longrightarrow> pool_ok (cu_store (apply_kind e ctx prev same s c))"
  by (simp_all add: apply_kind_def contents_simps split: option.split)

lemma delete_kind_stored:
  "stored (cu_store (delete_kind e ctx existing s c)) = (if existing then stored s else stored (cu_store c))"
  "pool_ok (cu_store c) \<Longrightarrow> pool_ok s \<Longrightarrow> pool_ok (cu_store (delete_kind e ctx existing s c))"
  by (simp_all add: delete_kind_def contents_simps)

lemma outcome_simps [simp]: "oc_updater (outcome err c) = c" "oc_err (outcome err c) = err"
  by (simp_all add: outcome_def)

text \<open>The maps of the contents are the look-ups of the store.\<close>

lemma contents_get:
  "ct_listener (stored s) nn = GetListener s nn" "ct_cluster (stored s) nn = GetCluster s nn"
  "ct_route (stored s) nn = GetRoute s nn" "ct_filter (stored s) nn = GetHTTPFilter s nn"
  "ct_log (stored s) nn = GetAccessLog s nn" "ct_policy (stored s) nn = GetPolicy s nn"
  "ct_tracing (stored s) nn = GetTracing s nn" "ct_secret (stored s) nn = GetSecret s nn"
  "ct_vst (stored s) nn = GetVirtualServiceTemplate s nn"
  "ct_vs (stored s) nn = map_option no_status (GetVirtualService s nn)"
  by (simp_all add: stored_def GetListener_def GetCluster_def GetRoute_def GetHTTPFilter_def GetAccessLog_def GetPolicy_def
      GetTracing_def GetSecret_def GetVirtualServiceTemplate_def GetVirtualService_def)

lemma existing_iff:
  "IsExistingListener s nn \<longleftrightarrow> GetListener s nn \<noteq> None" "IsExistingCluster s nn \<longleftrightarrow> GetCluster s nn \<noteq> None"
  "IsExistingRoute s nn \<longleftrightarrow> GetRoute s nn \<noteq> None" "IsExistingHTTPFilter s nn \<longleftrightarrow> GetHTTPFilter s nn \<noteq> None"
  "IsExistingAccessLog s nn \<longleftrightarrow> GetAccessLog s nn \<noteq> None" "IsExistingPolicy s nn \<longleftrightarrow> GetPolicy s nn \<noteq> None"
  "IsExistingTracing s nn \<longleftrightarrow> GetTracing s nn \<noteq> None" "IsExistingSecret s nn \<longleftrightarrow> GetSecret s nn \<noteq> None"
  "IsExistingVirtualServiceTemplate s nn \<longleftrightarrow> GetVirtualServiceTemplate s nn \<noteq> None"
  "IsExistingVirtualService s nn \<longleftrightarrow> GetVirtualService s nn \<noteq> None"
  by (simp_all add: IsExistingListener_def IsExistingCluster_def IsExistingRoute_def IsExistingHTTPFilter_def
      IsExistingAccessLog_def IsExistingPolicy_def IsExistingTracing_def IsExistingSecret_def
      IsExistingVirtualServiceTemplate_def IsExistingVirtualService_def gm_has_iff map_of_eq_None_iff
      GetListener_def GetCluster_def GetRoute_def GetHTTPFilter_def GetAccessLog_def GetPolicy_def
      GetTracing_def GetSecret_def GetVirtualServiceTemplate_def GetVirtualService_def del: not_None_eq)


lemmas contents_rules = contents_simps contents_get existing_iff apply_kind_stored delete_kind_stored methods settle_def upd_none

text \<open>Each reconciler of a kind without a status.\<close>

lemma plain_steps:
  assumes "pool_ok (cu_store c)"
  shows "stored (cu_store (oc_updater (ListenerReconciler_Reconcile e ctx api nn c))) = spec_step (e_sl e) api (R_Listener nn) (stored (cu_store c))"
    "stored (cu_store (oc_updater (ClusterReconciler_Reconcile e ctx api nn c))) = spec_step (e_sl e) api (R_Cluster nn) (stored (cu_store c))"
    "stored (cu_store (oc_updater (RouteReconciler_Reconcile e ctx api nn c))) = spec_step (e_sl e) api (R_Route nn) (stored (cu_store c))"
    "stored (cu_store (oc_updater (HttpFilterReconciler_Reconcile e ctx api nn c))) = spec_step (e_sl e) api (R_HttpFilter nn) (stored (cu_store c))"
    "stored (cu_store (oc_updater (AccessLogConfigReconciler_Reconcile e ctx api nn c))) = spec_step (e_sl e) api (R_AccessLogConfig nn) (stored (cu_store c))"
    "stored (cu_store (oc_updater (PolicyReconciler_Reconcile e ctx api nn c))) = spec_step (e_sl e) api (R_Policy nn) (stored (cu_store c))"
    "stored (cu_store (oc_updater (TracingReconciler_Reconcile e ctx api nn c))) = spec_step (e_sl e) api (R_Tracing nn) (stored (cu_store c))"
    "stored (cu_store (oc_updater (SecretReconciler_Reconcile e ctx api nn c))) = spec_step (e_sl e) api (R_Secret nn) (stored (cu_store c))"
  using assms
  by (simp_all add: ListenerReconciler_Reconcile_def ClusterReconciler_Reconcile_def RouteReconciler_Reconcile_def
      HttpFilterReconciler_Reconcile_def AccessLogConfigReconciler_Reconcile_def PolicyReconciler_Reconcile_def
      TracingReconciler_Reconcile_def SecretReconciler_Reconcile_def spec_step_def contents_rules split: got.split option.split)

lemma plain_steps_pool:
  assumes "pool_ok (cu_store c)"
  shows "pool_ok (cu_store (oc_updater (ListenerReconciler_Reconcile e ctx api nn c)))"
    "pool_ok (cu_store (oc_updater (ClusterReconciler_Reconcile e ctx api nn c)))"
    "pool_ok (cu_store (oc_updater (RouteReconciler_Reconcile e ctx api nn c)))"
    "pool_ok (cu_store (oc_updater (HttpFilterReconciler_Reconcile e ctx api nn c)))"
    "pool_ok (cu_store (oc_updater (AccessLogConfigReconciler_Reconcile e ctx api nn c)))"
    "pool_ok (cu_store (oc_updater (PolicyReconciler_Reconcile e ctx api nn c)))"
    "pool_ok (cu_store (oc_updater (TracingReconciler_Reconcile e ctx api nn c)))"
    "pool_ok (cu_store (oc_updater (SecretReconciler_Reconcile e ctx api nn c)))"
  using assms
  by (simp_all add: ListenerReconciler_Reconcile_def ClusterReconciler_Reconcile_def RouteReconciler_Reconcile_def
      HttpFilterReconciler_Reconcile_def AccessLogConfigReconciler_Reconcile_def PolicyReconciler_Reconcile_def
      TracingReconciler_Reconcile_def SecretReconciler_Reconcile_def contents_rules split: got.split)

lemma template_step:
  assumes "pool_ok (cu_store c)"
  shows "stored (cu_store (oc_updater (VirtualServiceTemplateReconciler_Reconcile e ctx api nn c)))
      = spec_step (e_sl e) api (R_VirtualServiceTemplate nn) (stored (cu_store c))"
    and "pool_ok (cu_store (oc_updater (VirtualServiceTemplateReconciler_Reconcile e ctx api nn c)))"
proof -
  have "oc_updater (VirtualServiceTemplateReconciler_Reconcile e ctx api nn c) =
     (case g_VirtualServiceTemplate api nn of
        Failed err \<Rightarrow> c
      | NotFound \<Rightarrow> snd (Updater_DeleteVirtualServiceTemplate e ctx nn c)
      | Found vst \<Rightarrow> snd (ApplyVirtualServiceTemplate e ctx vst c))"
    by (simp add: VirtualServiceTemplateReconciler_Reconcile_def split: got.split prod.split)
  then show "stored (cu_store (oc_updater (VirtualServiceTemplateReconciler_Reconcile e ctx api nn c)))
      = spec_step (e_sl e) api (R_VirtualServiceTemplate nn) (stored (cu_store c))"
    "pool_ok (cu_store (oc_updater (VirtualServiceTemplateReconciler_Reconcile e ctx api nn c)))"
    using assms by (simp_all add: spec_step_def kept_vst_def contents_rules split: got.split option.split)
qed

lemma IsEqual_no_status:
  "VirtualService_IsEqual sl (Some (no_status p)) (Some (no_status v)) = VirtualService_IsEqual sl (Some p) (Some v)"
  by (simp add: VirtualService_IsEqual_def no_status_def)

lemma no_status_nn [simp]: "vs_nn (no_status v) = vs_nn v"
  by (simp add: no_status_def)

lemma service_step:
  assumes "pool_ok (cu_store c)"
  shows "stored (cu_store (oc_updater (VirtualServiceReconciler_Reconcile e ctx api nn c)))
      = spec_step (e_sl e) api (R_VirtualService nn) (stored (cu_store c))"
    and "pool_ok (cu_store (oc_updater (VirtualServiceReconciler_Reconcile e ctx api nn c)))"
proof -
  let ?c' = "oc_updater (VirtualServiceReconciler_Reconcile e ctx api nn c)"
  let ?d = "case g_VirtualService api nn of
        Failed err \<Rightarrow> c
      | NotFound \<Rightarrow> snd (Updater_DeleteVirtualService e ctx nn c)
      | Found vs \<Rightarrow> ApplyVirtualService e ctx (VirtualService_NormalizeSpec vs) c"
  have eqs: "stored (cu_store ?c') = stored (cu_store ?d)" "pool_ok (cu_store ?c') \<longleftrightarrow> pool_ok (cu_store ?d)"
    by (simp_all add: VirtualServiceReconciler_Reconcile_def Let_def contents_simps split: got.split prod.split)
  show "stored (cu_store ?c') = spec_step (e_sl e) api (R_VirtualService nn) (stored (cu_store c))"
    unfolding eqs using assms
    by (simp add: spec_step_def kept_vs_def contents_rules IsEqual_no_status VirtualService_NormalizeSpec_idem split: got.split option.split)
  show "pool_ok (cu_store ?c')"
    unfolding eqs using assms by (simp add: contents_rules split: got.split)
qed


lemma reconcile_stored:
  assumes "pool_ok (cu_store c)"
  shows "stored (cu_store (oc_updater (reconcile e ctx api rq c))) = spec_step (e_sl e) api rq (stored (cu_store c))"
    and "pool_ok (cu_store (oc_updater (reconcile e ctx api rq c)))"
  using assms by (cases rq; simp add: reconcile_def plain_steps plain_steps_pool template_step service_step)+

text \<open>
  C38: every step of every reconciler refines one assignment to the map of its kind: the snapshot
  rebuild it triggers, the string pool, the indices and the status written into the shared virtual
  service leave the contents of the store as the assignment makes them, whether or not the rebuild
  succeeds.
\<close>

theorem reconcile_refines:
  assumes "pool_ok (cu_store c)"
  shows "stored (cu_store (oc_updater (reconcile e ctx api rq c))) = spec_step (e_sl e) api rq (stored (cu_store c))
    \<and> pool_ok (cu_store (oc_updater (reconcile e ctx api rq c)))"
  using reconcile_stored [OF assms] by simp

section \<open>Convergence\<close>

text \<open>A run of reconcilers: each step has its own context and sees its own state of the API server.\<close>

definition reconciles :: "'c env \<Rightarrow> (ctx \<times> apireader \<times> request) list \<Rightarrow> 'c CacheUpdater \<Rightarrow> 'c CacheUpdater" where
  "reconciles e steps c = fold (\<lambda>(ctx, api, rq) c. oc_updater (reconcile e ctx api rq c)) steps c"

definition settled :: "('r \<Rightarrow> 'r \<Rightarrow> bool) \<Rightarrow> 'r got \<Rightarrow> 'r option \<Rightarrow> bool" where
  "settled same g x =
     (case g of
        Failed err \<Rightarrow> True
      | NotFound \<Rightarrow> x = None
      | Found r \<Rightarrow> (case x of None \<Rightarrow> False | Some p \<Rightarrow> p = r \<or> same p r))"

definition agrees :: "speclib \<Rightarrow> apireader \<Rightarrow> request \<Rightarrow> contents \<Rightarrow> bool" where
  "agrees sl api rq ct =
     (case rq of
        R_VirtualService nn \<Rightarrow> settled (\<lambda>p r. VirtualService_IsEqual sl (Some p) (Some r)) (kept_vs (g_VirtualService api nn)) (ct_vs ct nn)
      | R_VirtualServiceTemplate nn \<Rightarrow> settled (\<lambda>p r. VirtualServiceTemplate_IsEqual sl (Some p) (Some r))
          (kept_vst (g_VirtualServiceTemplate api nn)) (ct_vst ct nn)
      | R_Listener nn \<Rightarrow> settled (\<lambda>p r. Listener_IsEqual (Some p) (Some r)) (g_Listener api nn) (ct_listener ct nn)
      | R_Cluster nn \<Rightarrow> settled (\<lambda>p r. Cluster_IsEqual (Some p) (Some r)) (g_Cluster api nn) (ct_cluster ct nn)
      | R_Route nn \<Rightarrow> settled (\<lambda>p r. Route_IsEqual (Some p) (Some r)) (g_Route api nn) (ct_route ct nn)
      | R_HttpFilter nn \<Rightarrow> settled (\<lambda>p r. HttpFilter_IsEqual sl (Some p) (Some r)) (g_HttpFilter api nn) (ct_filter ct nn)
      | R_AccessLogConfig nn \<Rightarrow> settled (\<lambda>p r. AccessLogConfig_IsEqual (Some p) (Some r)) (g_AccessLogConfig api nn) (ct_log ct nn)
      | R_Policy nn \<Rightarrow> settled (\<lambda>p r. Policy_IsEqual (Some p) (Some r)) (g_Policy api nn) (ct_policy ct nn)
      | R_Tracing nn \<Rightarrow> settled (\<lambda>p r. Tracing_IsEqual (Some p) (Some r)) (g_Tracing api nn) (ct_tracing ct nn)
      | R_Secret nn \<Rightarrow> settled secretsEqual (g_Secret api nn) (ct_secret ct nn))"

text \<open>The API server returns objects under their own names.\<close>

definition named :: "('r \<Rightarrow> NamespacedName) \<Rightarrow> (NamespacedName \<Rightarrow> 'r got) \<Rightarrow> bool" where
  "named nn_of g \<longleftrightarrow> (\<forall>nn r. g nn = Found r \<longrightarrow> nn_of r = nn)"

definition api_named :: "apireader \<Rightarrow> bool" where
  "api_named api \<longleftrightarrow>
     named vs_nn (g_VirtualService api) \<and> named (\<lambda>r. meta_nn (vst_meta r)) (g_VirtualServiceTemplate api) \<and>
     named (\<lambda>r. meta_nn (l_meta r)) (g_Listener api) \<and> named (\<lambda>r. meta_nn (cl_meta r)) (g_Cluster api) \<and>
     named (\<lambda>r. meta_nn (r_meta r)) (g_Route api) \<and> named (\<lambda>r. meta_nn (hf_meta r)) (g_HttpFilter api) \<and>
     named (\<lambda>r. meta_nn (alc_meta r)) (g_AccessLogConfig api) \<and> named (\<lambda>r. meta_nn (p_meta r)) (g_Policy api) \<and>
     named (\<lambda>r. meta_nn (tr_meta r)) (g_Tracing api) \<and> named (\<lambda>r. meta_nn (s_meta r)) (g_Secret api)"

lemma named_map:
  assumes "named nn_of g" "\<And>r. nn_of (f r) = nn_of r"
  shows "named nn_of (\<lambda>nn. map_got f (g nn))"
  unfolding named_def
proof (intro allI impI)
  fix nn r assume "map_got f (g nn) = Found r"
  then obtain r0 where "g nn = Found r0" "r = f r0" by (cases "g nn") auto
  then show "nn_of r = nn" using assms by (simp add: named_def)
qed

lemma named_kept:
  "named vs_nn g \<Longrightarrow> named vs_nn (\<lambda>nn. kept_vs (g nn))"
  "named (\<lambda>r. meta_nn (vst_meta r)) h \<Longrightarrow> named (\<lambda>r. meta_nn (vst_meta r)) (\<lambda>nn. kept_vst (h nn))"
  unfolding kept_vs_def kept_vst_def by (rule named_map; simp add: normalize_meta)+

lemma settle_here: "named nn_of g \<Longrightarrow> settled same (g nn) (settle same nn_of nn (g nn) m nn)"
  by (auto simp: settled_def settle_def named_def split: got.split option.split)

lemma settle_there: "named nn_of g \<Longrightarrow> nn \<noteq> nn' \<Longrightarrow> settle same nn_of nn' (g nn') m nn = m nn"
  by (auto simp: settle_def named_def split: got.split option.split)

lemma agrees_step: "api_named api \<Longrightarrow> agrees sl api rq (spec_step sl api rq ct)"
  by (cases rq) (simp_all add: agrees_def spec_step_def api_named_def settle_here settle_here [OF named_kept(1)] settle_here [OF named_kept(2)])

lemma agrees_other:
  assumes "api_named api'" "rq' \<noteq> rq"
  shows "agrees sl api rq (spec_step sl api' rq' ct) = agrees sl api rq ct"
proof -
  note there = settle_there settle_there [OF named_kept(1)] settle_there [OF named_kept(2)]
  show ?thesis using assms
    by (cases rq; cases rq') (simp_all add: agrees_def spec_step_def api_named_def there)
qed

lemma reconciles_stored:
  assumes "pool_ok (cu_store c)"
  shows "stored (cu_store (reconciles e steps c)) = fold (\<lambda>(ctx, api, rq). spec_step (e_sl e) api rq) steps (stored (cu_store c))"
  using assms
proof (induction steps arbitrary: c)
  case (Cons p steps)
  obtain ctx api rq where p: "p = (ctx, api, rq)" by (cases p)
  note step = reconcile_stored [OF Cons.prems, of e ctx api rq]
  show ?case using Cons.IH [OF step(2)] by (simp add: reconciles_def p step(1))
qed (simp add: reconciles_def)

lemma agrees_later:
  assumes "list_all (\<lambda>(ctx', api', rq'). api_named api' \<and> rq' \<noteq> rq) later"
  shows "agrees sl api rq (fold (\<lambda>(ctx, api, rq). spec_step sl api rq) later ct) = agrees sl api rq ct"
  using assms
proof (induction later arbitrary: ct)
  case (Cons p later)
  obtain ctx' api' rq' where p: "p = (ctx', api', rq')" by (cases p)
  have "api_named api'" "rq' \<noteq> rq" using Cons.prems by (simp_all add: p)
  then have "agrees sl api rq (spec_step sl api' rq' ct) = agrees sl api rq ct" by (rule agrees_other)
  moreover have "list_all (\<lambda>(ctx', api', rq'). api_named api' \<and> rq' \<noteq> rq) later" using Cons.prems by simp
  ultimately show ?case using Cons.IH by (simp add: p)
qed simp

text \<open>
  C39: the store converges to the API server: whatever the steps before and after, once the last step
  for a name of a kind is done, the store agrees with what that step read. It has no object of that
  name if there was none, and otherwise the object itself or one the code counts as equal to it.
\<close>

theorem reconcile_converges:
  assumes "pool_ok (cu_store c)" "api_named api"
    and "list_all (\<lambda>(ctx', api', rq'). api_named api' \<and> rq' \<noteq> rq) later"
  shows "agrees (e_sl e) api rq (stored (cu_store (reconciles e (earlier @ (ctx, api, rq) # later) c)))"
proof -
  have "agrees (e_sl e) api rq (spec_step (e_sl e) api rq ct)" for ct by (rule agrees_step [OF assms(2)])
  then show ?thesis
    by (simp only: reconciles_stored [OF assms(1)] fold_append fold_Cons comp_apply prod.case agrees_later [OF assms(3)])
qed


section \<open>The invariant under the reconcilers\<close>

text \<open>Rewriting the objects in place keeps an index exact if it changes neither names nor keys.\<close>

lemma index_exact_map:
  assumes exact: "index_exact meta key_of names keys" and f: "\<And>r. meta (f r) = meta r" "\<And>r. key_of (f r) = key_of r"
  shows "index_exact meta key_of (\<lambda>nn. map_option f (names nn)) (\<lambda>k. map_option f (keys k))"
proof -
  have look: "keys k = Some r \<longleftrightarrow> key_of r = Some k \<and> names (meta_nn (meta r)) = Some r" for k r
    using exact by (simp add: index_exact_def)
  have own: "names nn = Some r \<Longrightarrow> meta_nn (meta r) = nn" for nn r
    using exact by (simp add: index_exact_def keyed_def)
  have "map_option f (keys k) = Some r \<longleftrightarrow> key_of r = Some k \<and> map_option f (names (meta_nn (meta r))) = Some r" for k r
  proof
    assume "map_option f (keys k) = Some r"
    then obtain r0 where "keys k = Some r0" and r: "r = f r0" by auto
    then have "key_of r0 = Some k" "names (meta_nn (meta r0)) = Some r0" by (simp_all add: look)
    then show "key_of r = Some k \<and> map_option f (names (meta_nn (meta r))) = Some r" by (simp add: r f)
  next
    assume *: "key_of r = Some k \<and> map_option f (names (meta_nn (meta r))) = Some r"
    then obtain r0 where r0: "names (meta_nn (meta r)) = Some r0" and r: "r = f r0" by auto
    have "meta_nn (meta r0) = meta_nn (meta r)" by (simp add: r f)
    then have "keys k = Some r0" using * r0 f(2) [of r0] by (simp add: look r)
    then show "map_option f (keys k) = Some r" by (simp add: r)
  qed
  moreover have "keyed meta (\<lambda>nn. map_option f (names nn))"
    using own f(1) by (auto simp: keyed_def)
  ultimately show ?thesis by (simp add: index_exact_def)
qed

lemma template_exact_map:
  assumes exact: "template_exact names tix" and own: "\<And>nn v. names nn = Some v \<Longrightarrow> vs_nn v = nn"
    and f: "\<And>v. vs_meta (f v) = vs_meta v" "\<And>v. tmpl_key (f v) = tmpl_key v"
  shows "template_exact (\<lambda>nn. map_option f (names nn)) (map (\<lambda>(k, vs). (k, map f vs)) tix)"
proof -
  have get: "gm_get [] (map (\<lambda>(k, vs). (k, map f vs)) tix) key = map f (gm_get [] tix key)" for key
    by (induction tix) (auto simp: gm_get_def)
  have uid: "map vs_uid (map f vs) = map vs_uid vs" for vs using f(1) by simp
  have "f ` {v. names (vs_nn v) = Some v \<and> tmpl_key v = Some key} =
      {v. map_option f (names (vs_nn v)) = Some v \<and> tmpl_key v = Some key}" for key
  proof (intro set_eqI iffI)
    fix v assume "v \<in> {v. map_option f (names (vs_nn v)) = Some v \<and> tmpl_key v = Some key}"
    then obtain v0 where v0: "names (vs_nn v) = Some v0" "v = f v0" "tmpl_key v = Some key" by auto
    with own have "vs_nn v0 = vs_nn v" by blast
    with v0 f(2) [of v0] show "v \<in> f ` {v. names (vs_nn v) = Some v \<and> tmpl_key v = Some key}" by auto
  qed (auto simp: f)
  then show ?thesis using exact unfolding template_exact_def get uid set_map by simp
qed

lemma map_of_snd_map: "map_of (map (\<lambda>(k, v). (k, f v)) m) k = map_option f (map_of m k)"
  by (induction m) auto

lemma gm_wf_map_snd: "gm_wf (map (\<lambda>(k, v). (k, f v)) m) \<longleftrightarrow> gm_wf m"
proof -
  have "map fst (map (\<lambda>(k, v). (k, f v)) m) = map fst m" by (induction m) auto
  then show ?thesis by (simp only: gm_wf_def)
qed

lemma assign_status_good:
  assumes "good lib x509 s"
  shows "good lib x509 (assign_status nn st s)"
proof -
  define f where "f = (\<lambda>v. if vs_nn v = nn then v\<lparr>vs_Status := st\<rparr> else v)"
  have key: "templateKey (v\<lparr>vs_Status := st\<rparr>) t = templateKey v t" for v t by (simp add: templateKey_def split: option.split)
  have f: "vs_meta (f v) = vs_meta v" "tmpl_key (f v) = tmpl_key v" for v
    by (simp_all add: f_def tmpl_key_def key cong: option.map_cong)
  have s': "assign_status nn st s = s\<lparr>virtualServices := map (\<lambda>(k, v). (k, f v)) (virtualServices s),
      uidToVS := map (\<lambda>(k, v). (k, f v)) (uidToVS s), templateToVS := map (\<lambda>(k, vs). (k, map f vs)) (templateToVS s)\<rparr>"
    by (simp add: assign_status_def f_def Let_def)
  have inv: "store_inv lib x509 s" and n: "normal s" using assms by (simp_all add: good_def)
  have vi: "vi.exact s" and te: "templates_ok s" using inv by (simp_all add: store_inv_def uid_indices_ok_def)
  have own: "map_of (virtualServices s) nn = Some v \<Longrightarrow> vs_nn v = nn" for nn v
    using vi by (simp add: vi.exact_def index_exact_def keyed_def)
  have "index_exact vs_meta (\<lambda>r. Some (vs_uid r)) (\<lambda>nn. map_option f (map_of (virtualServices s) nn)) (\<lambda>k. map_option f (map_of (uidToVS s) k))"
    using vi f(1) unfolding vi.exact_def by (intro index_exact_map) simp_all
  then have "vi.exact (assign_status nn st s)" by (simp add: s' vi.exact_def map_of_snd_map [abs_def])
  moreover have "templates_ok (assign_status nn st s)"
    using template_exact_map [OF te own f] by (simp add: s' map_of_snd_map [abs_def])
  moreover have "VirtualService_NormalizeSpec (v\<lparr>vs_Status := st\<rparr>) = (VirtualService_NormalizeSpec v)\<lparr>vs_Status := st\<rparr>" for v
    by (simp add: VirtualService_NormalizeSpec_def Let_def)
  then have "VirtualService_NormalizeSpec (f v) = f v" if "VirtualService_NormalizeSpec v = v" for v
    using that by (simp add: f_def)
  then have "normal (assign_status nn st s)"
    using n by (auto simp: normal_def s' GetVirtualService_def GetVirtualServiceTemplate_def map_of_snd_map)
  ultimately show ?thesis using inv
    by (simp add: good_def s' store_inv_def store_wf_def uid_indices_ok_def exact_defs secrets_exact_def gm_wf_map_snd)
qed

text \<open>
  What a step reads fits the store: the UIDs of live objects are unique, and no two clusters hold
  Envoy clusters of one name.
\<close>

definition fits :: "('r \<Rightarrow> bool) \<Rightarrow> 'r got \<Rightarrow> bool" where
  "fits P g = (case g of Found r \<Rightarrow> P r | _ \<Rightarrow> True)"

definition fresh_read :: "'c env \<Rightarrow> apireader \<Rightarrow> request \<Rightarrow> OptimizedStore \<Rightarrow> bool" where
  "fresh_read e api rq s =
     (case rq of
        R_VirtualService nn \<Rightarrow> fits (\<lambda>r. uid_free vs_meta (virtualServices s) (VirtualService_NormalizeSpec r)) (g_VirtualService api nn)
      | R_VirtualServiceTemplate nn \<Rightarrow>
          fits (\<lambda>r. uid_free vst_meta (virtualServiceTemplates s) (VirtualServiceTemplate_NormalizeSpec r)) (g_VirtualServiceTemplate api nn)
      | R_Listener nn \<Rightarrow> fits (uid_free l_meta (listeners s)) (g_Listener api nn)
      | R_Cluster nn \<Rightarrow> fits (\<lambda>r. uid_free cl_meta (clusters s) r \<and> key_free cl_meta (spec_key (e_lib e)) (map_of (clusters s)) r) (g_Cluster api nn)
      | R_Route nn \<Rightarrow> fits (uid_free r_meta (routes s)) (g_Route api nn)
      | R_HttpFilter nn \<Rightarrow> fits (uid_free hf_meta (httpFilters s)) (g_HttpFilter api nn)
      | R_AccessLogConfig nn \<Rightarrow> fits (uid_free alc_meta (accessLogs s)) (g_AccessLogConfig api nn)
      | R_Policy nn \<Rightarrow> fits (uid_free p_meta (policies s)) (g_Policy api nn)
      | R_Tracing nn \<Rightarrow> fits (uid_free tr_meta (tracings s)) (g_Tracing api nn)
      | R_Secret nn \<Rightarrow> True)"

text \<open>A step is nothing, or a call of the updater, or such a call and the assignment of a status.\<close>

lemma service_reconcile_cases:
  assumes "fresh_read e api (R_VirtualService nn) (cu_store c)"
  shows "\<exists>c'. (c' = c \<or> updater_step e c c') \<and>
    (oc_updater (VirtualServiceReconciler_Reconcile e ctx api nn c) = c' \<or>
     (\<exists>own st. oc_updater (VirtualServiceReconciler_Reconcile e ctx api nn c) = c'\<lparr>cu_store := assign_status own st (cu_store c')\<rparr>))"
proof (cases "g_VirtualService api nn")
  case (Found vs)
  have "updater_step e c (ApplyVirtualService e ctx (VirtualService_NormalizeSpec vs) c)"
    using assms by (intro step_vs) (simp add: fresh_read_def fits_def Found VirtualService_NormalizeSpec_idem)
  then show ?thesis
    by (intro exI [of _ "ApplyVirtualService e ctx (VirtualService_NormalizeSpec vs) c"])
       (auto simp: VirtualServiceReconciler_Reconcile_def Found Let_def)
next
  case NotFound
  have "updater_step e c (snd (Updater_DeleteVirtualService e ctx nn c))" by (rule del_vs)
  then show ?thesis
    by (intro exI [of _ "snd (Updater_DeleteVirtualService e ctx nn c)"])
       (simp add: VirtualServiceReconciler_Reconcile_def NotFound split: prod.split)
qed (auto simp: VirtualServiceReconciler_Reconcile_def)

lemma plain_reconcile_cases:
  assumes "fresh_read e api rq (cu_store c)" "\<forall>nn. rq \<noteq> R_VirtualService nn"
  shows "oc_updater (reconcile e ctx api rq c) = c \<or> updater_step e c (oc_updater (reconcile e ctx api rq c))"
proof (cases rq)
  case (R_VirtualServiceTemplate nn)
  have "oc_updater (reconcile e ctx api rq c) =
     (case g_VirtualServiceTemplate api nn of
        Failed err \<Rightarrow> c
      | NotFound \<Rightarrow> snd (Updater_DeleteVirtualServiceTemplate e ctx nn c)
      | Found vst \<Rightarrow> snd (ApplyVirtualServiceTemplate e ctx vst c))"
    by (simp add: reconcile_def R_VirtualServiceTemplate VirtualServiceTemplateReconciler_Reconcile_def split: got.split prod.split)
  then show ?thesis using assms
    by (auto simp: R_VirtualServiceTemplate fresh_read_def fits_def intro: step_vst del_vst split: got.splits)
qed (use assms in \<open>auto simp: reconcile_def fresh_read_def fits_def ListenerReconciler_Reconcile_def ClusterReconciler_Reconcile_def
  RouteReconciler_Reconcile_def HttpFilterReconciler_Reconcile_def AccessLogConfigReconciler_Reconcile_def PolicyReconciler_Reconcile_def
  TracingReconciler_Reconcile_def SecretReconciler_Reconcile_def intro: updater_step.intros split: got.splits\<close>)

lemma reconcile_ok:
  assumes "fresh_read e api rq (cu_store c)" "cplib_ok (e_cp e)" "updater_ok e c"
  shows "updater_ok e (oc_updater (reconcile e ctx api rq c))"
proof (cases "\<exists>nn. rq = R_VirtualService nn")
  case True
  then obtain nn where rq: "rq = R_VirtualService nn" by blast
  let ?c' = "oc_updater (VirtualServiceReconciler_Reconcile e ctx api nn c)"
  obtain d where d: "d = c \<or> updater_step e c d"
    and c': "?c' = d \<or> (\<exists>own st. ?c' = d\<lparr>cu_store := assign_status own st (cu_store d)\<rparr>)"
    using service_reconcile_cases [of e api nn c ctx] assms(1) unfolding rq by blast
  have "updater_ok e d" using d assms(2,3) updater_step_ok by blast
  then have "updater_ok e (d\<lparr>cu_store := assign_status own st (cu_store d)\<rparr>)" for own st
    by (simp add: updater_ok_def assign_status_good)
  with c' \<open>updater_ok e d\<close> show ?thesis unfolding rq reconcile_def request.case by metis
next
  case False
  then show ?thesis using plain_reconcile_cases [OF assms(1), of ctx] assms(2,3) updater_step_ok by metis
qed

text \<open>The states of the updater under the reconcilers, from the initial load on.\<close>

inductive controller_reachable :: "'c env \<Rightarrow> 'c CacheUpdater \<Rightarrow> bool" for e :: "'c env" where
  started: "updater_reachable e c \<Longrightarrow> controller_reachable e c"
| reconciled: "controller_reachable e c \<Longrightarrow> fresh_read e api rq (cu_store c) \<Longrightarrow>
    controller_reachable e (oc_updater (reconcile e ctx api rq c))"

lemma controller_ok:
  assumes "controller_reachable e c" "cplib_ok (e_cp e)"
  shows "updater_ok e c"
  using assms by (induction rule: controller_reachable.induct) (blast intro: reachable_ok reconcile_ok)+


section \<open>Virtual services to look at again\<close>

lemma by_template:
  assumes "templates_ok s"
  shows "set (GetVirtualServicesByTemplate s nn) =
      {vs. GetVirtualService s (vs_nn vs) = Some vs \<and> (\<exists>t. vs_Template vs = Some t \<and> templateKey vs t = nn)}"
    and "distinct (GetVirtualServicesByTemplate s nn)"
proof -
  have get: "GetVirtualServicesByTemplate s nn = gm_get [] (templateToVS s) nn"
    by (simp add: GetVirtualServicesByTemplate_def gm_get_def split: option.split)
  have "tmpl_key vs = Some nn \<longleftrightarrow> (\<exists>t. vs_Template vs = Some t \<and> templateKey vs t = nn)" for vs
    unfolding tmpl_key_def by (cases "vs_Template vs") simp_all
  then show "set (GetVirtualServicesByTemplate s nn) =
      {vs. GetVirtualService s (vs_nn vs) = Some vs \<and> (\<exists>t. vs_Template vs = Some t \<and> templateKey vs t = nn)}"
    using assms by (simp add: get template_exact_def GetVirtualService_def)
  show "distinct (GetVirtualServicesByTemplate s nn)"
    using assms by (simp add: get template_exact_def distinct_map)
qed

text \<open>The name of the stored template a step replaces by a different one.\<close>

definition replaced_template :: "'c env \<Rightarrow> apireader \<Rightarrow> request \<Rightarrow> OptimizedStore \<Rightarrow> NamespacedName option" where
  "replaced_template e api rq s =
     (case rq of
        R_VirtualServiceTemplate nn \<Rightarrow>
          (case g_VirtualServiceTemplate api nn of
             Found vst \<Rightarrow>
               (case GetVirtualServiceTemplate s (meta_nn (vst_meta vst)) of
                  None \<Rightarrow> None
                | Some prev \<Rightarrow>
                    if VirtualServiceTemplate_IsEqual (e_sl e) (Some prev) (Some (VirtualServiceTemplate_NormalizeSpec vst)) then None
                    else Some (meta_nn (vst_meta vst)))
           | _ \<Rightarrow> None)
      | _ \<Rightarrow> None)"

lemma events_eq:
  "oc_events (reconcile e ctx api rq c) =
     (case replaced_template e api rq (cu_store c) of
        None \<Rightarrow> []
      | Some name \<Rightarrow> GetVirtualServicesByTemplate (cu_store (oc_updater (reconcile e ctx api rq c))) name)"
proof (cases rq)
  case (R_VirtualServiceTemplate nn)
  show ?thesis
    by (simp add: R_VirtualServiceTemplate reconcile_def replaced_template_def VirtualServiceTemplateReconciler_Reconcile_def
        ApplyVirtualServiceTemplate_def Let_def outcome_def Updater_GetVirtualServicesByTemplate_def
        GetVirtualServicesByTemplateNN_def split: got.split option.split prod.split)
qed (simp_all add: reconcile_def replaced_template_def outcome_def Let_def ListenerReconciler_Reconcile_def ClusterReconciler_Reconcile_def
  RouteReconciler_Reconcile_def HttpFilterReconciler_Reconcile_def AccessLogConfigReconciler_Reconcile_def PolicyReconciler_Reconcile_def
  TracingReconciler_Reconcile_def SecretReconciler_Reconcile_def VirtualServiceReconciler_Reconcile_def split: got.split prod.split)

text \<open>
  C40: a step puts virtual services on the channel of events exactly when it replaces a stored
  template by a different one, and then exactly the stored services that use the template, each
  once. A template that is new, and a resource of any other kind, notifies no virtual service.
\<close>

theorem template_change_notifies:
  assumes "controller_reachable e c" "cplib_ok (e_cp e)" "fresh_read e api rq (cu_store c)"
  shows "let step = reconcile e ctx api rq c; s = cu_store (oc_updater step) in
    case replaced_template e api rq (cu_store c) of
      None \<Rightarrow> oc_events step = []
    | Some name \<Rightarrow> distinct (oc_events step) \<and>
        set (oc_events step) =
          {vs. GetVirtualService s (vs_nn vs) = Some vs \<and> (\<exists>t. vs_Template vs = Some t \<and> templateKey vs t = name)}"
proof -
  have "updater_ok e (oc_updater (reconcile e ctx api rq c))"
    using reconcile_ok [OF assms(3,2) controller_ok [OF assms(1,2)]] .
  then have "templates_ok (cu_store (oc_updater (reconcile e ctx api rq c)))"
    by (simp add: updater_ok_def good_def store_inv_def)
  from by_template [OF this] show ?thesis
    unfolding Let_def events_eq by (simp split: option.split)
qed

end
