(* ===== verification/ControlWitness.thy ===== *)
theory ControlWitness
  imports ControllerSpec BuildWitness
begin

text \<open>
  The theorems on the reconcilers at a small configuration: after the initial load a template is
  created, a virtual service that uses it is created, and the template is changed.
\<close>

section \<open>Three states of the API server\<close>

definition nothing :: apireader where
  "nothing = \<lparr>g_VirtualService = (\<lambda>_. NotFound), g_VirtualServiceTemplate = (\<lambda>_. NotFound), g_Listener = (\<lambda>_. NotFound),
     g_Cluster = (\<lambda>_. NotFound), g_Route = (\<lambda>_. NotFound), g_HttpFilter = (\<lambda>_. NotFound), g_AccessLogConfig = (\<lambda>_. NotFound),
     g_Policy = (\<lambda>_. NotFound), g_Tracing = (\<lambda>_. NotFound), g_Secret = (\<lambda>_. NotFound), status_Update = (\<lambda>_. None)\<rparr>"

definition web_template :: VirtualServiceTemplate where
  "web_template = \<lparr>vst_meta = empty_meta\<lparr>m_Namespace := ''base'', m_Name := ''web'', m_UID := ''t''\<rparr>,
     vst_common = empty_common, vst_ExtraFields = []\<rparr>"

definition web_vs :: VirtualService where
  "web_vs = (world_vs ''u'' ''n'')\<lparr>vs_Template := Some \<lparr>ref_Name = ''web'', ref_Namespace = Some ''base''\<rparr>\<rparr>"

definition first_api :: apireader where
  "first_api = nothing\<lparr>g_VirtualServiceTemplate := (\<lambda>nn. if nn = NN ''base'' ''web'' then Found web_template else NotFound),
     g_VirtualService := (\<lambda>nn. if nn = NN ''prod'' ''u'' then Found web_vs else NotFound)\<rparr>"

definition port_field :: ExtraField where
  "port_field = \<lparr>ef_Name = ''port'', ef_Description = [], ef_Type = ''string'', ef_Required = False, ef_Enum = [], ef_Default = []\<rparr>"

definition second_api :: apireader where
  "second_api = first_api\<lparr>g_VirtualServiceTemplate := (\<lambda>nn. if nn = NN ''base'' ''web'' then
     Found (web_template\<lparr>vst_ExtraFields := [Some port_field]\<rparr>) else NotFound)\<rparr>"

lemma apis_named: "api_named nothing" "api_named first_api" "api_named second_api"
  by (auto simp: api_named_def named_def nothing_def first_api_def second_api_def web_template_def web_vs_def world_vs_def empty_vs_def
      empty_meta_def split: if_splits)

section \<open>A run\<close>

definition ctl1 :: "(string, Snapshot) gomap CacheUpdater" where
  "ctl1 = oc_updater (reconcile world_env never first_api (R_VirtualServiceTemplate (NN ''base'' ''web'')) run0)"

definition ctl2 :: "(string, Snapshot) gomap CacheUpdater" where
  "ctl2 = oc_updater (reconcile world_env never first_api (R_VirtualService (NN ''prod'' ''u'')) ctl1)"

lemma ctl1_reachable: "controller_reachable world_env ctl1"
proof -
  have "new_uid vst_meta (virtualServiceTemplates (cu_store run0)) (VirtualServiceTemplate_NormalizeSpec web_template)" by code_simp
  then have "fresh_read world_env first_api (R_VirtualServiceTemplate (NN ''base'' ''web'')) (cu_store run0)"
    by (simp add: fresh_read_def fits_def first_api_def uid_free_new del: normalize_meta)
  then show ?thesis unfolding ctl1_def by (intro reconciled started run0_reachable)
qed

lemma ctl2_reachable: "controller_reachable world_env ctl2"
proof -
  have "new_uid vs_meta (virtualServices (cu_store ctl1)) (VirtualService_NormalizeSpec web_vs)" by code_simp
  then have "fresh_read world_env first_api (R_VirtualService (NN ''prod'' ''u'')) (cu_store ctl1)"
    by (simp add: fresh_read_def fits_def first_api_def uid_free_new)
  then show ?thesis unfolding ctl2_def by (intro reconciled ctl1_reachable)
qed

lemma toy_env_ok: "cplib_ok (e_cp world_env)"
  using toy_cp_ok by simp


theorem template_change_notifies_witness:
  "map vs_nn (oc_events (reconcile world_env never second_api (R_VirtualServiceTemplate (NN ''base'' ''web'')) ctl2)) = [NN ''prod'' ''u''] \<and>
   distinct (oc_events (reconcile world_env never second_api (R_VirtualServiceTemplate (NN ''base'' ''web'')) ctl2))"
proof
  show "map vs_nn (oc_events (reconcile world_env never second_api (R_VirtualServiceTemplate (NN ''base'' ''web'')) ctl2)) = [NN ''prod'' ''u'']"
    by code_simp
  have "new_uid vst_meta [] web_template" "list_all (\<lambda>(nn, t). nn = NN ''base'' ''web'') (virtualServiceTemplates (cu_store ctl2))"
    by code_simp+
  then have "fresh_read world_env second_api (R_VirtualServiceTemplate (NN ''base'' ''web'')) (cu_store ctl2)"
    by (auto simp: fresh_read_def fits_def second_api_def key_free_def list_all_iff web_template_def empty_meta_def dest!: map_of_SomeD)
  moreover have "replaced_template world_env second_api (R_VirtualServiceTemplate (NN ''base'' ''web'')) (cu_store ctl2) = Some (NN ''base'' ''web'')"
    by code_simp
  ultimately show "distinct (oc_events (reconcile world_env never second_api (R_VirtualServiceTemplate (NN ''base'' ''web'')) ctl2))"
    using template_change_notifies [OF ctl2_reachable toy_env_ok, of second_api "R_VirtualServiceTemplate (NN ''base'' ''web'')" never]
    by (simp add: Let_def)
qed

section \<open>Contents\<close>

lemma ctl2_pool: "pool_ok (cu_store ctl2)"
  using controller_ok [OF ctl2_reachable toy_env_ok] by (simp add: updater_ok_def good_def store_inv_def)

theorem reconcile_refines_witness:
  "ct_vs (stored (cu_store ctl2)) (NN ''prod'' ''u'') \<noteq> None \<and>
   ct_vs (stored (cu_store (oc_updater (reconcile world_env never nothing (R_VirtualService (NN ''prod'' ''u'')) ctl2)))) (NN ''prod'' ''u'') = None"
proof
  show "ct_vs (stored (cu_store ctl2)) (NN ''prod'' ''u'') \<noteq> None" by code_simp
  have "ct_vs (spec_step (e_sl world_env) nothing (R_VirtualService (NN ''prod'' ''u'')) ct) (NN ''prod'' ''u'') = None" for ct
    by (simp add: spec_step_def nothing_def kept_vs_def settle_def)
  then show "ct_vs (stored (cu_store (oc_updater (reconcile world_env never nothing (R_VirtualService (NN ''prod'' ''u'')) ctl2)))) (NN ''prod'' ''u'') = None"
    using reconcile_refines [OF ctl2_pool, of world_env never nothing "R_VirtualService (NN ''prod'' ''u'')"] by simp
qed

theorem reconcile_converges_witness:
  "let c = reconciles world_env ([(never, first_api, R_VirtualService (NN ''prod'' ''u''))] @
      (never, nothing, R_VirtualService (NN ''prod'' ''u'')) # [(never, second_api, R_VirtualServiceTemplate (NN ''base'' ''web''))]) ctl1
   in GetVirtualService (cu_store c) (NN ''prod'' ''u'') = None"
proof -
  have pool: "pool_ok (cu_store ctl1)"
    using controller_ok [OF ctl1_reachable toy_env_ok] by (simp add: updater_ok_def good_def store_inv_def)
  have later: "list_all (\<lambda>(ctx', api', rq'). api_named api' \<and> rq' \<noteq> R_VirtualService (NN ''prod'' ''u''))
      [(never, second_api, R_VirtualServiceTemplate (NN ''base'' ''web''))]"
    using apis_named by simp
  have "agrees sl nothing (R_VirtualService (NN ''prod'' ''u'')) ct \<longleftrightarrow> ct_vs ct (NN ''prod'' ''u'') = None" for sl ct
    by (simp add: agrees_def settled_def nothing_def kept_vs_def)
  with reconcile_converges [OF pool apis_named(1) later, of world_env "[(never, first_api, R_VirtualService (NN ''prod'' ''u''))]" never]
  show ?thesis by (simp add: contents_get Let_def)
qed

end
