(* ===== verification/GrpcAuth.thy ===== *)
theory GrpcAuth
  imports Loops
begin

text \<open>
  Who may do what through the gRPC API: \<^verbatim>\<open>auth_middleware.go\<close>, \<^verbatim>\<open>accessgroup.go\<close> and
  \<^verbatim>\<open>permissions.go\<close> of \<^verbatim>\<open>internal/grpcapi\<close>. The policy engine (\<open>casbin\<close>) and the verification of
  tokens are parameters.
\<close>

section \<open>Parameters\<close>

text \<open>
  The methods of the enforcer: the decision on subject, domain, object and action; the domains of a
  user; the match of the role manager of \<open>g\<close>, if it is initialised; the implicit roles of a user in
  a domain; the index of the domain in a rule; the rules.
\<close>

record enforcer =
  en_Enforce :: "string \<Rightarrow> string \<Rightarrow> string \<Rightarrow> string \<Rightarrow> bool res"
  en_GetDomainsForUser :: "string \<Rightarrow> string list \<times> goerr option"
  en_Match :: "(string \<Rightarrow> string \<Rightarrow> bool) option"
  en_ImplicitRoles :: "string \<Rightarrow> string \<Rightarrow> string list res"
  en_DomainIndex :: "nat res"
  en_Policy :: "string list list"

text \<open>What the middleware reads of a request: the bearer token, its claims, the procedure.\<close>

record ('q, 'k) authlib =
  al_BearerToken :: "'q \<Rightarrow> string option"
  al_Verify :: "string \<Rightarrow> 'k res"
  al_Claims :: "'k \<Rightarrow> (string \<times> string list) res"
  al_InferProcedure :: "'q \<Rightarrow> string"

section \<open>Authorizers\<close>

definition grpc_GeneralAccessGroup :: string where
  "grpc_GeneralAccessGroup = ''general''"

record Authorizer =
  a_name :: string
  a_groups :: "string list"
  a_action :: string
  a_enforcer :: enforcer

datatype IAuthorizer = stubAuthorizer | AsAuthorizer Authorizer

definition getSubjects :: "Authorizer \<Rightarrow> string list" where
  "getSubjects a = [a_name a] @ a_groups a"

definition GetSubjects :: "IAuthorizer \<Rightarrow> string list" where
  "GetSubjects au = (case au of stubAuthorizer \<Rightarrow> [] | AsAuthorizer a \<Rightarrow> getSubjects a)"

fun enforce_any :: "enforcer \<Rightarrow> string list \<Rightarrow> string \<Rightarrow> string \<Rightarrow> string \<Rightarrow> bool res" where
  "enforce_any e [] domain object action = Inr False"
| "enforce_any e (sub # subs) domain object action =
     (case en_Enforce e sub domain object action of
        Inl err \<Rightarrow> Inl err
      | Inr result \<Rightarrow> if result then Inr True else enforce_any e subs domain object action)"

definition AuthorizeCommonObjectWithAction :: "IAuthorizer \<Rightarrow> string \<Rightarrow> string \<Rightarrow> string \<Rightarrow> bool res" where
  "AuthorizeCommonObjectWithAction au domain object action =
     (case au of
        stubAuthorizer \<Rightarrow> Inr True
      | AsAuthorizer a \<Rightarrow> enforce_any (a_enforcer a) (getSubjects a) domain object action)"

definition Authorize :: "IAuthorizer \<Rightarrow> string \<Rightarrow> string \<Rightarrow> bool res" where
  "Authorize au domain object =
     (case au of
        stubAuthorizer \<Rightarrow> Inr True
      | AsAuthorizer a \<Rightarrow> enforce_any (a_enforcer a) (getSubjects a) domain object (a_action a))"

text \<open>The function returns from the loop when the only domain of a subject is the star.\<close>

fun collect_domains :: "enforcer \<Rightarrow> string list \<Rightarrow> (string, bool) gomap \<Rightarrow> (string, bool) gomap" where
  "collect_domains e [] groups = groups"
| "collect_domains e (sub # subs) groups =
     (let domains = fst (en_GetDomainsForUser e sub)
      in if domains = [''*''] then [(''*'', True)]
         else collect_domains e subs (fold (\<lambda>d groups. gm_put d True groups) domains groups))"

definition GetAvailableAccessGroups :: "IAuthorizer \<Rightarrow> (string, bool) gomap" where
  "GetAvailableAccessGroups au =
     (case au of
        stubAuthorizer \<Rightarrow> [(''*'', True)]
      | AsAuthorizer a \<Rightarrow> collect_domains (a_enforcer a) (getSubjects a) [])"

text \<open>The information the middleware left in the context, if any.\<close>

definition GetAuthorizerFromContext :: "Authorizer option \<Rightarrow> IAuthorizer" where
  "GetAuthorizerFromContext info = (case info of None \<Rightarrow> stubAuthorizer | Some a \<Rightarrow> AsAuthorizer a)"

section \<open>The middleware\<close>

definition lookupAction :: "string \<Rightarrow> string" where
  "lookupAction route =
     (if route = ''/virtual_service.v1.VirtualServiceStoreService/ListVirtualServices'' then ''list-virtual-services''
      else if route = ''/virtual_service.v1.VirtualServiceStoreService/GetVirtualService'' then ''get-virtual-service''
      else if route = ''/virtual_service.v1.VirtualServiceStoreService/CreateVirtualService'' then ''create-virtual-service''
      else if route = ''/virtual_service.v1.VirtualServiceStoreService/UpdateVirtualService'' then ''update-virtual-service''
      else if route = ''/virtual_service.v1.VirtualServiceStoreService/DeleteVirtualService'' then ''delete-virtual-service''
      else if route = ''/access_log_config.v1.AccessLogConfigStoreService/ListAccessLogConfigs'' then ''list-access-log-configs''
      else if route = ''/virtual_service_template.v1.VirtualServiceTemplateStoreService/ListVirtualServiceTemplates''
        then ''list-virtual-service-templates''
      else if route = ''/node.v1.NodeStoreService/ListNodes'' then ''list-nodes''
      else if route = ''/route.v1.RouteStoreService/ListRoutes'' then ''list-routes''
      else if route = ''/http_filter.v1.HTTPFilterStoreService/ListHTTPFilters'' then ''list-http-filters''
      else if route = ''/policy.v1.PolicyStoreService/ListPolicies'' then ''list-policies''
      else if route = ''/access_group.v1.AccessGroupStoreService/ListAccessGroups'' then ''list-access-groups''
      else if route = ''/listener.v1.ListenerStoreService/ListListeners'' then ''list-listeners''
      else if route = ''/permissions.v1.PermissionsService/ListPermissions'' then ''list-permissions''
      else if route = ''/util.v1.UtilsService/VerifyDomains'' then ''verify-domains''
      else if route = ''/virtual_service_template.v1.VirtualServiceTemplateStoreService/FillTemplate'' then ''fill-template''
      else [])"

definition authFunc :: "('q, 'k) authlib \<Rightarrow> enforcer \<Rightarrow> 'q \<Rightarrow> Authorizer res" where
  "authFunc lib e req =
     (case al_BearerToken lib req of
        None \<Rightarrow> Inl (Err ''invalid authorization'')
      | Some token \<Rightarrow>
     (case al_Verify lib token of
        Inl err \<Rightarrow> Inl (Wrap ''failed to verify token'' err)
      | Inr idToken \<Rightarrow>
     (case al_Claims lib idToken of
        Inl err \<Rightarrow> Inl (Err ''failed to get claims'')
      | Inr (name, groups) \<Rightarrow>
          (let action = lookupAction (al_InferProcedure lib req)
           in if action = [] then Inl (Err ''unknown action'')
              else Inr \<lparr>a_name = name, a_groups = groups, a_action = action, a_enforcer = e\<rparr>))))"

section \<open>Access groups\<close>

definition getAvailableAccessGroups :: "IAuthorizer \<Rightarrow> string list \<Rightarrow> string list" where
  "getAvailableAccessGroups au accessGroups =
     (let availableGroups = GetAvailableAccessGroups au;
          isAllGroupAvailable = (length availableGroups = 1 \<and> gm_get False availableGroups ''*'');
          list = filter (\<lambda>v. isAllGroupAvailable \<or> gm_get False availableGroups v) accessGroups
            @ (if isAllGroupAvailable \<or> gm_get False availableGroups grpc_GeneralAccessGroup then [grpc_GeneralAccessGroup] else [])
      in sort_slice (\<lambda>a b. a < b) list)"

record AccessGroupListItem =
  ag_Name :: string

definition ListAccessGroups :: "IAuthorizer \<Rightarrow> string list \<Rightarrow> AccessGroupListItem list" where
  "ListAccessGroups au accessGroups = map (\<lambda>v. \<lparr>ag_Name = v\<rparr>) (getAvailableAccessGroups au accessGroups)"

section \<open>Permissions\<close>

text \<open>An index out of range panics: the value None.\<close>

definition at_index :: "'a list \<Rightarrow> nat \<Rightarrow> 'a option" where
  "at_index xs i = (if i < length xs then Some (xs ! i) else None)"

fun match_rules :: "(string \<Rightarrow> string \<Rightarrow> bool) \<Rightarrow> strset \<Rightarrow> nat \<Rightarrow> string \<Rightarrow> string list list \<Rightarrow> string list list \<Rightarrow> string list list option" where
  "match_rules match policyRoles domainIndex domain [] permission = Some permission"
| "match_rules match policyRoles domainIndex domain (rule # rules) permission =
     (case at_index rule domainIndex of
        None \<Rightarrow> None
      | Some ruleDomain \<Rightarrow>
          if ruleDomain \<noteq> ''*'' \<and> \<not> match domain ruleDomain
          then match_rules match policyRoles domainIndex domain rules permission
          else
            (case at_index rule 0 of
               None \<Rightarrow> None
             | Some policyRole \<Rightarrow>
                 if gm_has policyRoles policyRole
                 then match_rules match policyRoles domainIndex domain rules (permission @ [rule[domainIndex := domain]])
                 else match_rules match policyRoles domainIndex domain rules permission))"

definition getPermissionsForUserInDomain :: "enforcer \<Rightarrow> string \<Rightarrow> string \<Rightarrow> string list list res option" where
  "getPermissionsForUserInDomain e user domain =
     (case en_Match e of
        None \<Rightarrow> Some (Inl (Err ''role manager g is not initialized''))
      | Some match \<Rightarrow>
     (case en_ImplicitRoles e user domain of
        Inl err \<Rightarrow> Some (Inl err)
      | Inr roles \<Rightarrow>
          (let policyRoles = fold (\<lambda>r policyRoles. gm_put r () policyRoles) roles (gm_put user () []) in
           case en_DomainIndex e of
             Inl err \<Rightarrow> Some (Inl err)
           | Inr domainIndex \<Rightarrow> map_option Inr (match_rules match policyRoles domainIndex domain (en_Policy e) []))))"

text \<open>
  The permissions of a group: the objects per action, and the actions in the order in which they
  were first met. A rule that does not have four fields is passed over.
\<close>

definition add_permission :: "string list \<Rightarrow> (string, strset) gomap \<times> string list \<Rightarrow> (string, strset) gomap \<times> string list" where
  "add_permission perm acc =
     (case acc of (permissions, permItems) \<Rightarrow>
        if length perm = 4 then
          (let action = perm ! 3; items = perm ! 2;
               permItems = (if gm_has permissions action then permItems else permItems @ [action])
           in (gm_put action (gm_put items () (gm_get [] permissions action)) permissions, permItems))
        else (permissions, permItems))"

fun add_subjects :: "enforcer \<Rightarrow> string \<Rightarrow> string list \<Rightarrow> (string, strset) gomap \<times> string list
    \<Rightarrow> ((string, strset) gomap \<times> string list) option" where
  "add_subjects e accessGroup [] acc = Some acc"
| "add_subjects e accessGroup (sub # subs) acc =
     (case getPermissionsForUserInDomain e sub accessGroup of
        None \<Rightarrow> None
      | Some (Inl err) \<Rightarrow> add_subjects e accessGroup subs acc
      | Some (Inr result) \<Rightarrow> add_subjects e accessGroup subs (fold add_permission result acc))"

record PermissionsItem =
  pi_Action :: string
  pi_Objects :: "string list"

record AccessGroupPermissions =
  agp_AccessGroup :: string
  agp_Permissions :: "PermissionsItem list"

definition group_permissions :: "enforcer \<Rightarrow> IAuthorizer \<Rightarrow> string \<Rightarrow> AccessGroupPermissions option" where
  "group_permissions e au accessGroup =
     map_option (\<lambda>(permissions, permItems).
         \<lparr>agp_AccessGroup = accessGroup,
          agp_Permissions = map (\<lambda>action. \<lparr>pi_Action = action, pi_Objects = map fst (gm_get [] permissions action)\<rparr>) permItems\<rparr>)
       (add_subjects e accessGroup (GetSubjects au) ([], []))"

definition ListPermissions :: "enforcer \<Rightarrow> IAuthorizer \<Rightarrow> string list \<Rightarrow> AccessGroupPermissions list option" where
  "ListPermissions e au accessGroups =
     those (map (group_permissions e au) (getAvailableAccessGroups au accessGroups))"

section \<open>What is granted\<close>

lemma enforce_any_granted:
  "enforce_any e subs domain object action = Inr True \<longleftrightarrow>
     (\<exists>before sub after. subs = before @ sub # after \<and> en_Enforce e sub domain object action = Inr True \<and>
        (\<forall>s \<in> set before. en_Enforce e s domain object action = Inr False))"
proof (induction subs)
  case (Cons sub subs)
  let ?E = "\<lambda>s. en_Enforce e s domain object action"
  let ?P = "\<lambda>subs. \<exists>before sub after. subs = before @ sub # after \<and> ?E sub = Inr True \<and> (\<forall>s \<in> set before. ?E s = Inr False)"
  have split: "?P (sub # subs) \<longleftrightarrow> ?E sub = Inr True \<or> (?E sub = Inr False \<and> ?P subs)"
  proof
    assume "?P (sub # subs)"
    then obtain before x after where p: "sub # subs = before @ x # after" "?E x = Inr True" "\<forall>s \<in> set before. ?E s = Inr False"
      by blast
    show "?E sub = Inr True \<or> (?E sub = Inr False \<and> ?P subs)"
      using p by (cases before) auto
  next
    assume "?E sub = Inr True \<or> (?E sub = Inr False \<and> ?P subs)"
    then show "?P (sub # subs)"
    proof
      assume "?E sub = Inr True"
      then show ?thesis by (intro exI [of _ "[]"] exI [of _ sub] exI [of _ subs]) simp
    next
      assume *: "?E sub = Inr False \<and> ?P subs"
      then obtain before x after where "subs = before @ x # after" "?E x = Inr True" "\<forall>s \<in> set before. ?E s = Inr False" by blast
      with * show ?thesis by (intro exI [of _ "sub # before"] exI [of _ x] exI [of _ after]) simp
    qed
  qed
  show ?case
  proof (cases "?E sub")
    case (Inr r)
    then show ?thesis unfolding split using Cons.IH by (cases r) simp_all
  next
    case (Inl err)
    then show ?thesis unfolding split by simp
  qed
qed simp

text \<open>With no error, a user is granted what one of the subjects is granted.\<close>

lemma Authorize_granted:
  assumes "\<And>sub. sub \<in> set (getSubjects a) \<Longrightarrow> \<exists>r. en_Enforce (a_enforcer a) sub domain object (a_action a) = Inr r"
  shows "Authorize (AsAuthorizer a) domain object =
    Inr (\<exists>sub \<in> set (getSubjects a). en_Enforce (a_enforcer a) sub domain object (a_action a) = Inr True)"
proof -
  have "enforce_any (a_enforcer a) subs domain object (a_action a) =
      Inr (\<exists>sub \<in> set subs. en_Enforce (a_enforcer a) sub domain object (a_action a) = Inr True)"
    if "set subs \<subseteq> set (getSubjects a)" for subs
    using that
  proof (induction subs)
    case (Cons sub subs)
    then obtain r where "en_Enforce (a_enforcer a) sub domain object (a_action a) = Inr r" using assms by auto
    with Cons show ?case by (cases r) auto
  qed simp
  then show ?thesis by (simp add: Authorize_def)
qed

text \<open>The procedure that lists clusters has no action, so the middleware refuses it to everyone.\<close>

lemma clusters_refused: "lookupAction ''/cluster.v1.ClusterStoreService/ListCluster'' = []"
  by code_simp

lemma refused_without_action:
  assumes "lookupAction (al_InferProcedure lib req) = []"
  shows "\<exists>err. authFunc lib e req = Inl err"
  using assms by (simp add: authFunc_def split: option.split sum.split prod.split)

section \<open>Access groups that are available\<close>

lemma collect_domains_true:
  "(\<forall>g \<in> set (map snd groups). g) \<Longrightarrow> \<forall>g \<in> set (map snd (collect_domains e subs groups)). g"
proof (induction e subs groups rule: collect_domains.induct)
  case (2 e sub subs groups)
  have put: "\<forall>g \<in> set (map snd (fold (\<lambda>d groups. gm_put d True groups) ds gs)). g"
    if "\<forall>g \<in> set (map snd gs). g" for ds :: "string list" and gs
    using that
  proof (induction ds arbitrary: gs)
    case (Cons d ds)
    have "set (gm_put d True gs) \<subseteq> insert (d, True) (set gs)" by (induction gs) (auto simp: gm_put_def)
    then have "\<forall>g \<in> set (map snd (gm_put d True gs)). g" using Cons.prems by fastforce
    from Cons.IH [OF this] show ?case by simp
  qed simp
  show ?case
  proof (cases "fst (en_GetDomainsForUser e sub) = [''*'']")
    case False
    then show ?thesis using "2.IH" [OF refl False put [OF "2.prems"]] by (simp add: Let_def)
  qed (simp add: Let_def)
qed simp

end
