(* ===== verification/Spec2Isabelle.thy ===== *)
theory Spec2Isabelle
  imports HookWitness ControlWitness GrpcAuth
begin

text \<open>
  A verification development of the Envoy xDS controller (\<^verbatim>\<open>envoy-xds-controller\<close>).

  \<^bold>\<open>The program.\<close> The controller watches Kubernetes resources (virtual services, their templates,
  listeners, clusters, routes, HTTP filters, access logs, policies, tracings, secrets), keeps them
  in a store with secondary indices, builds from them the Envoy configuration of every node, and
  serves it from a snapshot cache. A change of a resource reaches \<open>CacheUpdater\<close>, which writes it to
  the store and rebuilds: every virtual service is filled from its template, turned into Envoy
  resources by the resource builder, mixed with the others on its node, staged as a snapshot and
  committed. Admission requests are validated against a copy of the store.

  \<^bold>\<open>Conventions.\<close> A Go map is an association list with distinct keys, so a loop over it has an order
  and the theorems quantify over all lists that represent the same map. Strings are lists of
  characters, pointers are options, an error is a value of \<open>goerr\<close> and a fallible function returns
  \<open>goerr + 'a\<close>. A method that mutates its receiver returns the new state. A nil dereference is the
  error value \<open>nil_panic\<close>. The version counter of a snapshot keeps the width of the source (64 bits).
  Instants and durations are integers of nanoseconds. A context is a function from the number of the
  poll to the error it reports, so a cancellation can strike between any two steps. A mutex-protected
  method is one step; the order of steps is arbitrary.

  \<^bold>\<open>Parameters.\<close> Code outside the repository is an argument: the X.509 parser (\<open>x509lib\<close>), the protobuf
  decoder and its validation (\<open>protolib\<close>, \<open>filterlib\<close>, \<open>chainlib\<close>, \<open>clusterlib\<close>), the JSON codec
  of specs (\<open>speclib\<close>), the API server (\<open>kubeclient\<close>, \<open>apiclient\<close>, \<open>apireader\<close>), the third-party snapshot cache (\<open>cplib\<close>).
  What a theorem needs of them is a hypothesis, and its witness instantiates them.

  \<^bold>\<open>The theories\<close>, with the sources under \<^verbatim>\<open>src/\<close> they translate:
  \<^item> \<open>Prelude\<close>, \<open>Loops\<close>: maps, strings, errors, loops with early exit. Locale \<open>go_map\<close>: the laws of a
    Go map, interpreted on association lists.
  \<^item> \<open>Helpers\<close>, \<open>Api\<close>, \<open>Proto\<close>: \<^verbatim>\<open>internal/helpers\<close>, the resources of \<^verbatim>\<open>api/v1alpha1\<close> with their
    methods, and the Envoy messages by the fields the controller uses.
  \<^item> \<open>StringPool\<close>, \<open>VSStatus\<close>, \<open>DomainNames\<close>, \<open>DomainSecrets\<close>, \<open>Store\<close> and \<open>StoreIndex\<close>, \<open>StoreVS\<close>,
    \<open>StoreSecrets\<close>, \<open>StoreInv\<close>, \<open>StoreSpec\<close>, \<open>StoreFill\<close>: \<^verbatim>\<open>internal/store\<close>. The state is the record
    \<open>OptimizedStore\<close>. Locale \<open>secondary_index\<close> states the discipline of an index and is interpreted
    for ten indices; \<open>domain_index\<close> that of the domain index. \<open>StoreInv\<close> has the step relation of
    the mutators and the invariant; \<open>StoreSpec\<close> the exactness of the look-ups in every reachable
    store, that the incremental domain index is the rebuilt one, and that a copy answers alike.
    \<open>StoreFill\<close> is the initial load under any completion order of its concurrent list calls.
  \<^item> \<open>Merge\<close>, \<open>Template\<close>: \<^verbatim>\<open>internal/merge\<close> and \<open>FillFromTemplate\<close>; what a merge holds under each key,
    and that filling replaces the common part and nothing else.
  \<^item> \<open>Lru\<close>: \<^verbatim>\<open>resbuilder/utils/lru.go\<close> and the typed caches. Locale \<open>recency_cache\<close>; every operation
    refines a list in order of recency.
  \<^item> \<open>Routes\<close>, \<open>Tls\<close>, \<open>HttpFilters\<close>, \<open>FilterChains\<close>, \<open>Clusters\<close>, \<open>ResBuilder\<close>: \<^verbatim>\<open>internal/xds/resbuilder\<close>.
    Locale \<open>pins_last\<close>: a stable reordering that moves the one pinned element to the end, interpreted
    for the root route and for the router filter. Exactness of virtual hosts, the split of domains
    over the chains of a TLS listener, the clusters that are found, and that the resources of a
    virtual service refer only to what is delivered with them.
  \<^item> \<open>Mixer\<close>, \<open>Snapshot\<close>: \<^verbatim>\<open>updater/mixer.go\<close>, \<^verbatim>\<open>internal/xds/cache/wrapper.go\<close> and the versions of a
    snapshot. Mixing does not depend on the order of map iteration; a snapshot is accepted exactly
    when its listeners have distinct addresses.
  \<^item> \<open>Build\<close>, \<open>BuildSpec\<close>, \<open>BuildCommit\<close>, \<open>BuildLive\<close>: \<open>buildSnapshots\<close> of \<^verbatim>\<open>updater/updater.go\<close>; what a
    build guarantees, when it succeeds, and what a failure leaves behind.
  \<^item> \<open>Light\<close>, \<open>LightSpec\<close>: the light validation of a virtual service and when it accepts.
  \<^item> \<open>Updater\<close>, \<open>UpdaterSpec\<close>: \<open>CacheUpdater\<close> with apply and delete of each kind. Locale \<open>resource_kind\<close>,
    interpreted for the ten kinds; the invariant of every reachable state and the reported statuses.
  \<^item> \<open>Webhook\<close>, \<open>WebhookSpec\<close>, \<open>Admission\<close>: \<^verbatim>\<open>internal/webhook/v1alpha1\<close>, the handlers of all kinds. Locale
    \<open>delete_guard\<close>, interpreted for the six kinds whose deletion is checked against references.
    \<open>Admission\<close> composes the webhooks with the updater: what the heavy dry run admits can be built
    whatever the cache holds, and a secret in use is kept.
  \<^item> \<open>Controller\<close>, \<open>ControllerSpec\<close>: \<^verbatim>\<open>internal/controller\<close>, the reconcilers of the ten kinds. Each step refines
    an assignment to the map of its kind, the store converges to what was last read from the API
    server, and the invariant survives the status written into shared objects.
  \<^item> \<open>GrpcAuth\<close>: the authorizers, access groups and permissions of \<^verbatim>\<open>internal/grpcapi\<close>; when a user is
    granted an action, and which procedures the middleware refuses.
  \<^item> \<open>BuildWitness\<close>, \<open>ResWitness\<close>, \<open>HookWitness\<close>, \<open>ControlWitness\<close>: concrete configurations on which the hypotheses hold.

  \<^bold>\<open>Bounds.\<close> The search for cluster names stops at the depth of 50 the source has; a theorem says
  which names lie above it. Caches have the capacities and lifetimes of the source. The loop
  over PEM blocks has one more unit of fuel than the data has bytes; as every block consumes at
  least one byte it is never used up, which a theorem proves. The other loops are structural or have
  a termination proof.

  \<^bold>\<open>Not modelled.\<close> Metrics, logging and tracing of the controller itself, as they do not affect the
  configuration; the processes under \<^verbatim>\<open>cmd\<close>, the file watcher and the REST handlers, which are
  input and output; the handlers of the gRPC API other than those of access groups and permissions,
  which list resources and translate requests for the API server; the xDS transport and its
  callbacks, which keep a list of connections for logging; the controller that renews the webhook
  certificate; generated code.
\<close>

end
